(* ===== verification/Prelude.thy ===== *)
theory Prelude
  imports Main "HOL-Library.Word"
begin

text \<open>
  Shared vocabulary of the development: names for the machine integers of the C sources, the
  list operations that stand for walks over linked lists (a pointer into a chain is the position
  of the element in it), byte order conversions, and the generic lemmas the components use.
\<close>

unbundle bit_operations_syntax

named_theorems rcp_defs \<open>definitions of the model that are unfolded for evaluation\<close>

type_synonym u8 = "8 word"
type_synonym u16 = "16 word"
type_synonym u32 = "32 word"
type_synonym u64 = "64 word"

section \<open>Walks over linked lists\<close>

text \<open>\<open>find_pos P xs\<close>: walk a chain from its head and stop at the first element with \<open>P\<close>;
  the result is the pointer to it (its position), or \<open>None\<close> for NULL.\<close>

fun find_pos :: "('a \<Rightarrow> bool) \<Rightarrow> 'a list \<Rightarrow> nat option" where
  "find_pos P [] = None"
| "find_pos P (x # xs) = (if P x then Some 0 else map_option Suc (find_pos P xs))"

lemma find_pos_None: "find_pos P xs = None \<longleftrightarrow> (\<forall>x \<in> set xs. \<not> P x)"
  by (induction xs) auto

lemma find_pos_Some:
  "find_pos P xs = Some i \<Longrightarrow> i < length xs \<and> P (xs ! i) \<and> (\<forall>j < i. \<not> P (xs ! j))"
proof (induction xs arbitrary: i)
  case Nil
  then show ?case by simp
next
  case (Cons x xs)
  show ?case
  proof (cases "P x")
    case True
    with Cons.prems show ?thesis by simp
  next
    case False
    with Cons.prems obtain k where k: "find_pos P xs = Some k" "i = Suc k"
      by auto
    with Cons.IH [OF k(1)] False show ?thesis
      by (auto simp: nth_Cons split: nat.splits)
  qed
qed

lemma find_pos_lengthD [dest]: "find_pos P xs = Some i \<Longrightarrow> i < length xs"
  using find_pos_Some by blast

lemma find_pos_holdsD [dest]: "find_pos P xs = Some i \<Longrightarrow> P (xs ! i)"
  using find_pos_Some by blast

text \<open>\<open>upd_pos i f xs\<close>: assign through the pointer \<open>i\<close>; out of range nothing is changed.\<close>

definition upd_pos :: "nat \<Rightarrow> ('a \<Rightarrow> 'a) \<Rightarrow> 'a list \<Rightarrow> 'a list" where
  "upd_pos i f xs = (if i < length xs then xs[i := f (xs ! i)] else xs)"

lemma length_upd_pos [simp]: "length (upd_pos i f xs) = length xs"
  by (simp add: upd_pos_def)

lemma nth_upd_pos:
  "j < length xs \<Longrightarrow> upd_pos i f xs ! j = (if i = j then f (xs ! j) else xs ! j)"
  by (auto simp: upd_pos_def nth_list_update)

lemma upd_pos_Cons_0 [simp]: "upd_pos 0 f (x # xs) = f x # xs"
  by (simp add: upd_pos_def)

lemma upd_pos_Cons_Suc [simp]: "upd_pos (Suc i) f (x # xs) = x # upd_pos i f xs"
  by (simp add: upd_pos_def)

lemma upd_pos_Nil [simp]: "upd_pos i f [] = []"
  by (simp add: upd_pos_def)

lemma set_upd_pos: "x \<in> set (upd_pos i f xs) \<Longrightarrow> x \<in> set xs \<or> (i < length xs \<and> x = f (xs ! i))"
  by (metis in_set_conv_nth length_upd_pos nth_upd_pos)

lemma upd_pos_upd_pos [simp]: "upd_pos i f (upd_pos i g xs) = upd_pos i (\<lambda>x. f (g x)) xs"
  by (simp add: upd_pos_def)

lemma list_all_upd_pos:
  "\<lbrakk>list_all P xs; i < length xs \<Longrightarrow> P (f (xs ! i))\<rbrakk> \<Longrightarrow> list_all P (upd_pos i f xs)"
  by (auto simp: list_all_length nth_upd_pos)

text \<open>A change that keeps a predicate false outside it and a projection inside it keeps the
  filtered projection: the frame lemma for per-prefix views of a chain.\<close>

lemma filter_upd_pos_frame:
  assumes "i < length xs \<Longrightarrow> \<not> P (xs ! i)" and "i < length xs \<Longrightarrow> \<not> P (f (xs ! i))"
  shows "filter P (upd_pos i f xs) = filter P xs"
  using assms
proof (induction xs arbitrary: i)
  case Nil
  then show ?case by simp
next
  case (Cons x xs)
  then show ?case by (cases i) auto
qed

lemma filter_map_frame:
  "(\<And>x. x \<in> set xs \<Longrightarrow> P x \<or> P (f x) \<Longrightarrow> f x = x) \<Longrightarrow> filter P (map f xs) = filter P xs"
  by (induction xs) (auto, metis+)

section \<open>Bytes on the wire\<close>

text \<open>Multi-byte fields travel in network order (most significant byte first). Reading a field
  with \<open>ntohs\<close>/\<open>ntohl\<close> out of a received buffer is \<open>be16\<close>/\<open>be32\<close> of its bytes; storing one
  with \<open>htons\<close>/\<open>htonl\<close> is \<open>put16\<close>/\<open>put32\<close>.\<close>

definition be16 :: "u8 \<Rightarrow> u8 \<Rightarrow> u16" where
  "be16 a b = word_of_nat (unat a * 256 + unat b)"

definition be32 :: "u8 \<Rightarrow> u8 \<Rightarrow> u8 \<Rightarrow> u8 \<Rightarrow> u32" where
  "be32 a b c d = word_of_nat (((unat a * 256 + unat b) * 256 + unat c) * 256 + unat d)"

definition byte_of :: "nat \<Rightarrow> nat \<Rightarrow> u8" where
  "byte_of k n = word_of_nat (n div 256 ^ k)"

definition put16 :: "u16 \<Rightarrow> u8 list" where
  "put16 w = [byte_of 1 (unat w), byte_of 0 (unat w)]"

definition put32 :: "u32 \<Rightarrow> u8 list" where
  "put32 w = [byte_of 3 (unat w), byte_of 2 (unat w), byte_of 1 (unat w), byte_of 0 (unat w)]"

lemma unat_u8_less [simp]: "unat (a :: u8) < 256"
proof -
  have "unat a < 2 ^ LENGTH(8)" by (rule unsigned_less)
  then show ?thesis by simp
qed

lemma unat_u16_less: "unat (a :: u16) < 65536"
proof -
  have "unat a < 2 ^ LENGTH(16)" by (rule unsigned_less)
  then show ?thesis by simp
qed

lemma unat_u32_less: "unat (a :: u32) < 4294967296"
proof -
  have "unat a < 2 ^ LENGTH(32)" by (rule unsigned_less)
  then show ?thesis by simp
qed

lemma unat_byte_of: "unat (byte_of k n) = n div 256 ^ k mod 256"
  by (simp add: byte_of_def unat_of_nat)

lemma horner4:
  assumes "n < 4294967296"
  shows "(((n div 256 ^ 3 mod 256) * 256 + n div 256 ^ 2 mod 256) * 256 + n div 256 ^ 1 mod 256)
           * 256 + n div 256 ^ 0 mod 256 = (n :: nat)"
proof -
  have "n div 256 div 256 div 256 < 256" using assms by simp
  then have "(((n div 256 div 256 div 256 mod 256) * 256 + n div 256 div 256 mod 256) * 256
               + n div 256 mod 256) * 256 + n mod 256 = n"
    by (simp add: div_mult_mod_eq)
  moreover have "n div 16777216 mod 256 = n div 16777216" using assms by simp
  ultimately show ?thesis by (simp add: div_mult2_eq [symmetric])
qed

lemma be32_put32 [simp]:
  "be32 (byte_of 3 (unat w)) (byte_of 2 (unat w)) (byte_of 1 (unat w)) (byte_of 0 (unat w)) = w"
  using horner4 [of "unat w"] unat_u32_less [of w] by (simp only: be32_def unat_byte_of) simp

lemma be16_put16 [simp]: "be16 (byte_of 1 (unat w)) (byte_of 0 (unat w)) = w"
proof -
  have "unat w div 256 < 256" using unat_u16_less [of w] by simp
  then have "(unat w div 256 ^ 1 mod 256) * 256 + unat w div 256 ^ 0 mod 256 = unat w" by simp
  then show ?thesis by (simp only: be16_def unat_byte_of) simp
qed

lemma length_put [simp]: "length (put16 w) = 2" "length (put32 v) = 4"
  by (simp_all add: put16_def put32_def)

section \<open>Runs of a step function\<close>

text \<open>An invariant that every step keeps holds after any sequence of events. Components
  interpret this locale with their own step function and invariant.\<close>

locale step_system =
  fixes step :: "'e \<Rightarrow> 's \<Rightarrow> 's"
    and inv :: "'s \<Rightarrow> bool"
    and ok :: "'e \<Rightarrow> bool"
  assumes step_inv: "inv s \<Longrightarrow> ok e \<Longrightarrow> inv (step e s)"
begin

lemma run_inv: "inv s \<Longrightarrow> list_all ok es \<Longrightarrow> inv (fold step es s)"
  by (induction es arbitrary: s) (auto intro: step_inv)

end

end
