(* ===== verification/Ip_Util.thy ===== *)
theory Ip_Util
  imports Prelude
begin

text \<open>
  The IPv4 helpers every process of the router links against: the inline functions of
  \<^verbatim>\<open>src/src/include/librcp_ip.h\<close> (dotted-quad and CIDR parsing through \<^verbatim>\<open>sscanf\<close>, masks,
  address classes), the route types of \<^verbatim>\<open>librcp_route.h\<close> and the interface table lookups of
  \<^verbatim>\<open>src/src/librcp/interface.c\<close>.
\<close>

section \<open>Masks\<close>

text \<open>\<open>for (i = 0, *mask = 0, tmp = 0x80000000; i < e; i++, tmp >>= 1) *mask |= tmp;\<close>\<close>

fun cidr_mask_loop :: "nat \<Rightarrow> u32 \<Rightarrow> u32 \<Rightarrow> u32" where
  "cidr_mask_loop 0 tmp msk = msk"
| "cidr_mask_loop (Suc e) tmp msk = cidr_mask_loop e (drop_bit 1 tmp) (msk OR tmp)"

definition cidr_mask :: "nat \<Rightarrow> u32" where
  "cidr_mask e = cidr_mask_loop e 0x80000000 0"

fun mask2bits_loop :: "nat \<Rightarrow> u32 \<Rightarrow> u32 \<Rightarrow> u8 \<Rightarrow> u8" where
  "mask2bits_loop 0 tmp msk rv = rv"
| "mask2bits_loop (Suc n) tmp msk rv =
     (if tmp AND msk \<noteq> 0 then mask2bits_loop n (drop_bit 1 tmp) msk (rv + 1) else rv)"

definition mask2bits :: "u32 \<Rightarrow> u8" where
  "mask2bits msk = mask2bits_loop 32 0x80000000 msk 0"

fun maskContiguous_loop :: "nat \<Rightarrow> u32 \<Rightarrow> u32 \<Rightarrow> bool \<Rightarrow> bool" where
  "maskContiguous_loop 0 m msk zero = True"
| "maskContiguous_loop (Suc n) m msk zero =
     (if zero \<and> m AND msk = 0 then False
      else maskContiguous_loop n (drop_bit 1 m) msk (if m AND msk = 1 then True else zero))"

definition maskContiguous :: "u32 \<Rightarrow> bool" where
  "maskContiguous msk = maskContiguous_loop 32 0x80000000 msk False"

section \<open>Address classes\<close>

text \<open>The \<open>IN_CLASS*\<close> macros of \<^verbatim>\<open>netinet/in.h\<close>.\<close>

definition IN_CLASSA :: "u32 \<Rightarrow> bool" where
  "IN_CLASSA a \<longleftrightarrow> a AND 0x80000000 = 0"

definition IN_CLASSB :: "u32 \<Rightarrow> bool" where
  "IN_CLASSB a \<longleftrightarrow> a AND 0xc0000000 = 0x80000000"

definition IN_CLASSC :: "u32 \<Rightarrow> bool" where
  "IN_CLASSC a \<longleftrightarrow> a AND 0xe0000000 = 0xc0000000"

definition IN_CLASSD :: "u32 \<Rightarrow> bool" where
  "IN_CLASSD a \<longleftrightarrow> a AND 0xf0000000 = 0xe0000000"

definition isLoopback :: "u32 \<Rightarrow> bool" where
  "isLoopback prefix \<longleftrightarrow> prefix AND 0xff000000 = 0x7f000000"

definition isMulticast :: "u32 \<Rightarrow> bool" where
  "isMulticast prefix \<longleftrightarrow> IN_CLASSD prefix"

definition isBroadcast :: "u32 \<Rightarrow> bool" where
  "isBroadcast prefix =
     (if IN_CLASSA prefix then prefix AND 0x00ffffff = 0x00ffffff
      else if IN_CLASSB prefix then prefix AND 0x0000ffff = 0x0000ffff
      else if IN_CLASSC prefix then prefix AND 0x000000ff = 0x000000ff
      else False)"

definition classMask :: "u32 \<Rightarrow> u32" where
  "classMask prefix =
     (if IN_CLASSA prefix then 0xff000000
      else if IN_CLASSB prefix then 0xffff0000
      else if IN_CLASSC prefix then 0xffffff00
      else if IN_CLASSD prefix then 0xf0000000
      else 0)"

lemmas in_class_defs = IN_CLASSA_def IN_CLASSB_def IN_CLASSC_def IN_CLASSD_def
lemmas addr_class_defs =
  in_class_defs isLoopback_def isMulticast_def isBroadcast_def classMask_def

declare addr_class_defs [rcp_defs] cidr_mask_def [rcp_defs] mask2bits_def [rcp_defs]

section \<open>Dotted quads\<close>

text \<open>\<open>sscanf\<close>'s \<open>%u\<close>: skip white space, an optional sign, at least one digit; the value is that
  of \<open>strtoul\<close> (saturating at \<open>ULONG_MAX\<close>, negated for a minus sign) stored into an \<open>unsigned\<close>.
  A literal character of the format must match the next input character.\<close>

definition is_space :: "char \<Rightarrow> bool" where
  "is_space c \<longleftrightarrow> c = CHR '' '' \<or> (9 \<le> (of_char c :: nat) \<and> (of_char c :: nat) \<le> 13)"

definition is_digit :: "char \<Rightarrow> bool" where
  "is_digit c \<longleftrightarrow> 48 \<le> (of_char c :: nat) \<and> (of_char c :: nat) \<le> 57"

definition digit_val :: "char \<Rightarrow> nat" where
  "digit_val c = of_char c - 48"

definition strtoul_val :: "bool \<Rightarrow> string \<Rightarrow> nat" where
  "strtoul_val neg ds =
     (let v = foldl (\<lambda>n c. n * 10 + digit_val c) 0 ds
      in if v \<ge> 2 ^ 64 then 2 ^ 64 - 1
         else if neg then (2 ^ 64 - v) mod 2 ^ 64 else v)"

definition scan_u :: "string \<Rightarrow> (u32 \<times> string) option" where
  "scan_u s =
     (let s1 = dropWhile is_space s;
          neg = (case s1 of c # _ \<Rightarrow> c = CHR ''-'' | [] \<Rightarrow> False);
          s2 = (case s1 of c # t \<Rightarrow> (if c = CHR ''-'' \<or> c = CHR ''+'' then t else s1) | [] \<Rightarrow> []);
          ds = takeWhile is_digit s2
      in if ds = [] then None
         else Some (word_of_nat (strtoul_val neg ds), dropWhile is_digit s2))"

fun scan_lit :: "char \<Rightarrow> string \<Rightarrow> string option" where
  "scan_lit c [] = None"
| "scan_lit c (x # s) = (if x = c then Some s else None)"

text \<open>\<open>scan_dotted n s\<close>: \<open>n\<close> conversions \<open>%u\<close> separated by dots, as many as match; the values
  and the rest of the input after the last conversion, in the manner of the return value of
  \<open>sscanf\<close> (fewer values than \<open>n\<close> when one conversion fails).\<close>

fun scan_dotted :: "nat \<Rightarrow> string \<Rightarrow> u32 list \<times> string" where
  "scan_dotted 0 s = ([], s)"
| "scan_dotted (Suc n) s =
     (case scan_u s of
        None \<Rightarrow> ([], s)
      | Some (v, r) \<Rightarrow>
          (if n = 0 then ([v], r)
           else case scan_lit CHR ''.'' r of
                  None \<Rightarrow> ([v], r)
                | Some r' \<Rightarrow> (let (vs, q) = scan_dotted n r' in (v # vs, q))))"

definition quad :: "u32 \<Rightarrow> u32 \<Rightarrow> u32 \<Rightarrow> u32 \<Rightarrow> u32" where
  "quad a b c d = a * 0x1000000 + b * 0x10000 + c * 0x100 + d"

definition atoip :: "string \<Rightarrow> u32 option" where
  "atoip s =
     (case scan_dotted 4 s of
        ([a, b, c, d], _) \<Rightarrow>
          (if a > 255 \<or> b > 255 \<or> c > 255 \<or> d > 255 then None else Some (quad a b c d))
      | _ \<Rightarrow> None)"

definition atocidr :: "string \<Rightarrow> (u32 \<times> u32) option" where
  "atocidr s =
     (case scan_dotted 4 s of
        ([a, b, c, d], r) \<Rightarrow>
          (case scan_lit CHR ''/'' r of
             None \<Rightarrow> None
           | Some r' \<Rightarrow>
               (case scan_u r' of
                  None \<Rightarrow> None
                | Some (e, _) \<Rightarrow>
                    (if a > 255 \<or> b > 255 \<or> c > 255 \<or> d > 255 \<or> e > 32 then None
                     else Some (quad a b c d, cidr_mask (unat e)))))
      | _ \<Rightarrow> None)"

text \<open>Printing: the decimal conversion \<open>%d\<close>/\<open>%u\<close> of a non-negative number and the four bytes
  that \<open>RCP_PRINT_IP\<close> passes for \<open>"%d.%d.%d.%d"\<close>.\<close>

fun dec :: "nat \<Rightarrow> string" where
  "dec n = (if n < 10 then [char_of (48 + n)] else dec (n div 10) @ [char_of (48 + n mod 10)])"

declare dec.simps [simp del]

definition ip_byte :: "nat \<Rightarrow> u32 \<Rightarrow> nat" where
  "ip_byte k ip = unat (drop_bit (8 * k) ip AND 0xff)"

definition print_ip :: "u32 \<Rightarrow> string" where
  "print_ip ip = dec (ip_byte 3 ip) @ ''.'' @ dec (ip_byte 2 ip) @ ''.'' @
                 dec (ip_byte 1 ip) @ ''.'' @ dec (ip_byte 0 ip)"

definition print_cidr :: "u32 \<Rightarrow> u32 \<Rightarrow> string" where
  "print_cidr ip msk = print_ip ip @ ''/'' @ dec (unat (mask2bits msk))"

section \<open>Route types\<close>

datatype RcpRouteType =
    RCP_ROUTE_RIP_NETWORK | RCP_ROUTE_CONNECTED | RCP_ROUTE_STATIC | RCP_ROUTE_BLACKHOLE
  | RCP_ROUTE_RIP | RCP_ROUTE_OSPF | RCP_ROUTE_OSPF_IA | RCP_ROUTE_OSPF_E1 | RCP_ROUTE_OSPF_E2
  | RCP_ROUTE_OSPF_BLACKHOLE | RCP_ROUTE_CONNECTED_SUBNETS | RCP_ROUTE_MAX

primrec route_type_val :: "RcpRouteType \<Rightarrow> nat" where
  "route_type_val RCP_ROUTE_RIP_NETWORK = 0"
| "route_type_val RCP_ROUTE_CONNECTED = 1"
| "route_type_val RCP_ROUTE_STATIC = 2"
| "route_type_val RCP_ROUTE_BLACKHOLE = 3"
| "route_type_val RCP_ROUTE_RIP = 4"
| "route_type_val RCP_ROUTE_OSPF = 5"
| "route_type_val RCP_ROUTE_OSPF_IA = 6"
| "route_type_val RCP_ROUTE_OSPF_E1 = 7"
| "route_type_val RCP_ROUTE_OSPF_E2 = 8"
| "route_type_val RCP_ROUTE_OSPF_BLACKHOLE = 9"
| "route_type_val RCP_ROUTE_CONNECTED_SUBNETS = 10"
| "route_type_val RCP_ROUTE_MAX = 11"

text \<open>The code compares route types with \<open><\<close> on the enumeration values: a lower type is
  preferred at equal metric.\<close>

lemma route_type_val_inj [simp]: "route_type_val s = route_type_val t \<longleftrightarrow> s = t"
  by (cases s; cases t) simp_all

instantiation RcpRouteType :: linorder
begin

definition less_eq_RcpRouteType :: "RcpRouteType \<Rightarrow> RcpRouteType \<Rightarrow> bool" where
  "s \<le> t \<longleftrightarrow> route_type_val s \<le> route_type_val t"

definition less_RcpRouteType :: "RcpRouteType \<Rightarrow> RcpRouteType \<Rightarrow> bool" where
  "s < t \<longleftrightarrow> route_type_val s < route_type_val t"

instance
proof
  fix s t :: RcpRouteType
  assume "s \<le> t" and "t \<le> s"
  then show "s = t" by (simp add: less_eq_RcpRouteType_def antisym flip: route_type_val_inj)
qed (auto simp: less_eq_RcpRouteType_def less_RcpRouteType_def)

end

fun rcpRouteType :: "RcpRouteType \<Rightarrow> string" where
  "rcpRouteType RCP_ROUTE_CONNECTED = ''C''"
| "rcpRouteType RCP_ROUTE_CONNECTED_SUBNETS = ''C''"
| "rcpRouteType RCP_ROUTE_STATIC = ''S''"
| "rcpRouteType RCP_ROUTE_RIP = ''R''"
| "rcpRouteType RCP_ROUTE_RIP_NETWORK = ''Rn''"
| "rcpRouteType RCP_ROUTE_BLACKHOLE = ''B''"
| "rcpRouteType RCP_ROUTE_OSPF = ''O''"
| "rcpRouteType RCP_ROUTE_OSPF_IA = ''IA''"
| "rcpRouteType RCP_ROUTE_OSPF_E1 = ''E1''"
| "rcpRouteType RCP_ROUTE_OSPF_E2 = ''E2''"
| "rcpRouteType RCP_ROUTE_OSPF_BLACKHOLE = ''O''"
| "rcpRouteType RCP_ROUTE_MAX = ''''"

section \<open>The interface table\<close>

datatype if_type = IF_ETHERNET | IF_LOOPBACK | IF_BRIDGE | IF_VLAN

text \<open>The fields of \<open>RcpInterface\<close> that the routing processes read. The table is the array
  \<open>shm->config.intf\<close> of \<open>RCP_INTERFACE_LIMITS\<close> slots; a slot with an empty name is free. A
  pointer into the table is the index of the slot.\<close>

record RcpInterface =
  if_name :: string
  if_link_up :: bool
  if_kindex :: int
  if_ip :: u32
  if_mask :: u32
  if_typ :: if_type
  rip_passive_interface :: bool
  rip_multicast_ip :: u32
  rip_multicast_mask :: u32
  rip_timeout :: int
  rip_passwd :: string

definition rcpFindInterface :: "RcpInterface list \<Rightarrow> u32 \<Rightarrow> nat option" where
  "rcpFindInterface intfs ip =
     (if ip = 0 then None else find_pos (\<lambda>i. if_name i \<noteq> [] \<and> if_ip i = ip) intfs)"

definition rcpFindInterfaceByName :: "RcpInterface list \<Rightarrow> string \<Rightarrow> nat option" where
  "rcpFindInterfaceByName intfs nm = find_pos (\<lambda>i. if_name i \<noteq> [] \<and> if_name i = nm) intfs"

definition rcpFindInterfaceByLPM :: "RcpInterface list \<Rightarrow> u32 \<Rightarrow> nat option" where
  "rcpFindInterfaceByLPM intfs ip =
     (if ip = 0 then None
      else find_pos (\<lambda>i. if_name i \<noteq> [] \<and> if_typ i \<noteq> IF_LOOPBACK \<and> if_mask i \<noteq> 0 \<and>
                         if_ip i AND if_mask i = ip AND if_mask i) intfs)"

definition rcpFindInterfaceByKIndex :: "RcpInterface list \<Rightarrow> int \<Rightarrow> nat option" where
  "rcpFindInterfaceByKIndex intfs kindex =
     find_pos (\<lambda>i. if_name i \<noteq> [] \<and> if_kindex i = kindex) intfs"

definition rcpInterfaceVirtual :: "string \<Rightarrow> bool" where
  "rcpInterfaceVirtual ifname \<longleftrightarrow> take 3 ifname = ''lo:''"

section \<open>Lemmas on masks\<close>

lemma and_exp_eq_0: "(2 ^ n AND m :: u32) = 0 \<longleftrightarrow> \<not> bit m n" if "n < 32"
proof -
  have "(2 ^ n AND m :: u32) = (if bit m n then 2 ^ n else 0)"
    by (rule bit_word_eqI) (auto simp: bit_simps)
  then show ?thesis using that by (auto simp: word_exp_length_eq_0)
qed

lemma drop_bit_1_exp: "n < 31 \<Longrightarrow> drop_bit (Suc 0) (2 ^ Suc n :: u32) = 2 ^ n"
  by (rule bit_word_eqI) (auto simp: bit_simps)

lemma bit_cidr_mask_loop:
  "e \<le> Suc k \<Longrightarrow> k < 32 \<Longrightarrow>
   bit (cidr_mask_loop e (2 ^ k) m) n \<longleftrightarrow> bit m n \<or> (Suc k - e \<le> n \<and> n \<le> k)"
proof (induction e arbitrary: k m)
  case 0
  then show ?case by auto
next
  case (Suc e)
  show ?case
  proof (cases k)
    case 0
    with Suc.prems show ?thesis by (auto simp: bit_simps)
  next
    case (Suc k')
    then show ?thesis using Suc.prems Suc.IH [of k' "m OR 2 ^ k"]
      by (auto simp: drop_bit_1_exp bit_simps simp del: power_Suc)
  qed
qed

lemma bit_cidr_mask: "e \<le> 32 \<Longrightarrow> bit (cidr_mask e) n \<longleftrightarrow> 32 - e \<le> n \<and> n < 32"
  using bit_cidr_mask_loop [of e 31 0 n] by (auto simp: cidr_mask_def)

lemma mask2bits_loop_eq:
  "n \<le> 32 \<Longrightarrow> mask2bits_loop n (2 ^ (n - 1)) m rv
     = rv + word_of_nat (length (takeWhile (bit m) (rev [0..<n])))"
proof (induction n arbitrary: rv)
  case 0
  then show ?case by simp
next
  case (Suc n)
  have "drop_bit (Suc 0) (2 ^ n :: u32) = 2 ^ (n - 1)" if "n > 0"
    using Suc.prems that drop_bit_1_exp [of "n - 1"] by simp
  then show ?case using Suc and_exp_eq_0 [of 0 m]
    by (cases n) (auto simp: and_exp_eq_0 simp del: power_Suc)
qed

lemma mask2bits_eq: "mask2bits m = word_of_nat (length (takeWhile (bit m) (rev [0..<32])))"
  using mask2bits_loop_eq [of 32 m 0] by (simp add: mask2bits_def)

lemma length_takeWhile_ge: "length (takeWhile (\<lambda>n. k \<le> n) (rev [0..<m])) = m - (k::nat)"
  by (induction m) auto

lemma mask2bits_cidr_mask: "e \<le> 32 \<Longrightarrow> mask2bits (cidr_mask e) = word_of_nat e"
proof -
  assume e: "e \<le> 32"
  have "takeWhile (bit (cidr_mask e)) (rev [0..<32]) = takeWhile (\<lambda>n. 32 - e \<le> n) (rev [0..<32])"
    by (rule takeWhile_cong) (auto simp: bit_cidr_mask [OF e])
  then show ?thesis using e by (simp add: mask2bits_eq length_takeWhile_ge)
qed

lemma maskContiguous_loop_True: 
  "n < 32 \<Longrightarrow> maskContiguous_loop (Suc n) (2 ^ n) m False"
proof (induction n)
  case 0
  then show ?case by simp
next
  case (Suc n)
  have "(2 ^ Suc n AND m :: u32) \<noteq> 1"
  proof
    assume "(2 ^ Suc n AND m :: u32) = 1"
    then have "bit (2 ^ Suc n AND m :: u32) 0" by simp
    then show False by (auto simp: bit_simps simp del: power_Suc)
  qed
  then show ?case using Suc drop_bit_1_exp [of n] 
    by (subst maskContiguous_loop.simps) (simp del: power_Suc maskContiguous_loop.simps)
qed

text \<open>\<open>maskContiguous\<close> accepts every mask. The loop sets its \<open>zero\<close> flag on
  \<open>(m & mask) == 1\<close>, which is only possible at the last, least significant bit, so the test for a
  one bit after a zero bit is never made and non-contiguous masks pass.\<close>

theorem maskContiguous_accepts_all: "maskContiguous m"
  using maskContiguous_loop_True [of 31 m] by (simp add: maskContiguous_def)
lemma mask2bits_bounds: "unat (mask2bits m) \<le> 32"
proof -
  have "length (takeWhile (bit m) (rev [0..<32])) \<le> 32"
    using length_takeWhile_le [of "bit m" "rev [0..<32]"] by simp
  then show ?thesis by (simp add: mask2bits_eq unat_of_nat)
qed

section \<open>Printing and parsing addresses\<close>

lemma digit_char: "d < 10 \<Longrightarrow> is_digit (char_of (48 + d)) \<and> digit_val (char_of (48 + d)) = d"
  by (simp add: is_digit_def digit_val_def)

lemma digits_dec: "\<forall>c \<in> set (dec n). is_digit c"
proof (induction n rule: dec.induct)
  case (1 n)
  then show ?case by (subst dec.simps) (auto simp: digit_char)
qed

lemma dec_nonempty [simp]: "dec n \<noteq> []"
  by (subst dec.simps) simp

lemma value_dec: "foldl (\<lambda>n c. n * 10 + digit_val c) 0 (dec n) = n"
proof (induction n rule: dec.induct)
  case (1 n)
  then show ?case by (subst dec.simps) (auto simp: digit_char)
qed

lemma digit_not_special: "is_digit c \<Longrightarrow> \<not> is_space c \<and> c \<noteq> CHR ''-'' \<and> c \<noteq> CHR ''+''"
  by (auto simp: is_digit_def is_space_def)

lemma scan_u_dec:
  assumes "n < 2 ^ 32" and "r = [] \<or> \<not> is_digit (hd r)"
  shows "scan_u (dec n @ r) = Some (word_of_nat n, r)"
proof -
  obtain c ds where c: "dec n = c # ds" by (cases "dec n") auto
  have dig: "is_digit c" using digits_dec [of n] by (simp add: c)
  have tw: "takeWhile is_digit (dec n @ r) = dec n" "dropWhile is_digit (dec n @ r) = r"
    using digits_dec [of n] assms(2) by (cases r; simp add: takeWhile_append dropWhile_append)+
  have "strtoul_val False (dec n) = n"
    using assms(1) by (simp add: strtoul_val_def value_dec)
  then show ?thesis
    using digit_not_special [OF dig] tw unfolding scan_u_def by (simp add: c Let_def)
qed

lemma dot_slash_not_digit [simp]: "\<not> is_digit CHR ''.''" "\<not> is_digit CHR ''/''"
  by (simp_all add: is_digit_def)

lemma ip_byte_eq: "ip_byte k ip = unat ip div 256 ^ k mod 256"
proof -
  have "ip_byte k ip = unat (take_bit 8 (drop_bit (8 * k) ip))"
    by (simp add: ip_byte_def take_bit_eq_mask mask_numeral)
  also have "\<dots> = take_bit 8 (drop_bit (8 * k) (unat ip))"
    using unat_u32_less [of ip]
    by (simp add: unsigned_take_bit_eq unsigned_drop_bit_eq take_bit_nat_eq_self)
  finally show ?thesis by (simp add: take_bit_eq_mod drop_bit_eq_div power_mult)
qed

lemma ip_byte_less: "ip_byte k ip < 256"
  by (simp add: ip_byte_eq)

lemma scan_dotted_step:
  "n < 2 ^ 32 \<Longrightarrow> scan_dotted (Suc (Suc k)) (dec n @ CHR ''.'' # r)
     = (let (vs, q) = scan_dotted (Suc k) r in (word_of_nat n # vs, q))"
  by (simp add: scan_u_dec del: scan_dotted.simps(2) add: scan_dotted.simps(2) [of "Suc k"])

lemma scan_dotted_last:
  "n < 2 ^ 32 \<Longrightarrow> r = [] \<or> \<not> is_digit (hd r) \<Longrightarrow>
   scan_dotted (Suc 0) (dec n @ r) = ([word_of_nat n], r)"
  by (simp add: scan_u_dec)

lemma ip_byte_less32: "ip_byte k ip < 4294967296"
  using ip_byte_less [of k ip] by simp

lemma scan_dotted_print_ip:
  assumes "r = [] \<or> \<not> is_digit (hd r)"
  shows "scan_dotted 4 (print_ip ip @ r)
     = ([word_of_nat (ip_byte 3 ip), word_of_nat (ip_byte 2 ip),
         word_of_nat (ip_byte (Suc 0) ip), word_of_nat (ip_byte 0 ip)], r)"
proof -
  have four: "(4 :: nat) = Suc (Suc (Suc (Suc 0)))" by simp
  show ?thesis
    unfolding four print_ip_def
    by (simp add: scan_dotted_step scan_dotted_last assms ip_byte_less32 del: scan_dotted.simps)
qed

lemma quad_ip_bytes:
  "quad (word_of_nat (ip_byte 3 ip)) (word_of_nat (ip_byte 2 ip))
        (word_of_nat (ip_byte (Suc 0) ip)) (word_of_nat (ip_byte 0 ip)) = ip"
proof -
  have "quad (word_of_nat (ip_byte 3 ip)) (word_of_nat (ip_byte 2 ip))
          (word_of_nat (ip_byte 1 ip)) (word_of_nat (ip_byte 0 ip)) =
        word_of_nat (((ip_byte 3 ip * 256 + ip_byte 2 ip) * 256 + ip_byte 1 ip) * 256 + ip_byte 0 ip)"
    by (simp add: quad_def algebra_simps)
  also have "\<dots> = ip"
    using horner4 [of "unat ip"] unat_u32_less [of ip] by (simp only: ip_byte_eq) simp
  finally show ?thesis by simp
qed

lemma small_word_le: "n < 256 \<Longrightarrow> \<not> (255 :: u32) < word_of_nat n"
  by (simp add: word_less_nat_alt unat_of_nat)

text \<open>C36: printing a prefix the way the router prints it (\<open>RCP_PRINT_IP\<close> and
  \<open>mask2bits\<close>) and reading it back with \<open>atocidr\<close> gives the address and the mask again, for every
  address and every prefix length.\<close>

theorem atocidr_print_cidr:
  assumes "e \<le> 32"
  shows "atocidr (print_cidr ip (cidr_mask e)) = Some (ip, cidr_mask e)"
proof -
  have e: "unat (mask2bits (cidr_mask e)) = e" 
    using assms by (simp add: mask2bits_cidr_mask unat_of_nat)
  have "scan_u (dec e @ []) = Some (word_of_nat e, [])"
    using assms by (intro scan_u_dec) simp_all
  moreover have "\<not> (32 :: u32) < word_of_nat e" and "unat (word_of_nat e :: u32) = e"
    using assms by (simp_all add: word_less_nat_alt unat_of_nat)
  ultimately show ?thesis
    by (simp add: atocidr_def print_cidr_def e scan_dotted_print_ip small_word_le ip_byte_less quad_ip_bytes)
qed

text \<open>an address printed with \<open>RCP_PRINT_IP\<close> is read back unchanged by \<open>atoip\<close>.\<close>

theorem atoip_print_ip: "atoip (print_ip ip) = Some ip"
  using scan_dotted_print_ip [of "[]" ip]
  by (simp add: atoip_def small_word_le ip_byte_less quad_ip_bytes)

theorem atocidr_print_cidr_witness:
  "(24 :: nat) \<le> 32 \<and> atocidr (print_cidr 0x0a010200 (cidr_mask 24)) = Some (0x0a010200, cidr_mask 24)"
  using atocidr_print_cidr [of 24 "0x0a010200"] by simp

text \<open>the lookup named after longest prefix match returns the first matching slot of the
  table, whatever the lengths of the masks of later slots: with a /8 interface in slot 0 and a /24
  interface in slot 1 both matching, slot 0 is returned.\<close>

theorem rcpFindInterfaceByLPM_first_not_longest:
  fixes i :: RcpInterface
  defines "a \<equiv> i\<lparr>if_name := ''eth0'', if_typ := IF_ETHERNET, if_ip := 0x0a000001, if_mask := cidr_mask 8\<rparr>"
    and "b \<equiv> i\<lparr>if_name := ''eth1'', if_typ := IF_ETHERNET, if_ip := 0x0a010101, if_mask := cidr_mask 24\<rparr>"
  shows "rcpFindInterfaceByLPM [a, b] 0x0a010105 = Some 0 \<and>
         if_ip b AND if_mask b = 0x0a010105 AND if_mask b \<and> if_mask a < if_mask b"
proof -
  have "cidr_mask 8 = 0xff000000" "cidr_mask 24 = 0xffffff00"
    by code_simp+
  then show ?thesis by (simp add: a_def b_def rcpFindInterfaceByLPM_def)
qed

end
