(* ===== verification/Rip_Db.thy ===== *)
theory Rip_Db
  imports Ip_Util
begin

text \<open>
  The RIP route database, \<^verbatim>\<open>src/src/rip/exec/rip_db.c\<close>: a hash table of 256 chains of
  \<open>RipDbElem\<close>. A chain is a list with the head of the linked list first; a pointer to an element
  is the pair of its bucket and its position. Everything the process sends outside (kernel route
  calls, redistribution messages to OSPF, packets) is appended to the output trace of the state,
  in program order; a failed \<open>ASSERT\<close>, which only prints, leaves an \<open>Assertion\<close> in the trace.
\<close>

section \<open>State\<close>

text \<open>Calls into \<^verbatim>\<open>src/src/librcp/kernel.c\<close>, with their arguments (type, address, mask, gateway or
  gateways, metric).\<close>

datatype kcall =
    KAddRoute RcpRouteType u32 u32 u32 u32
  | KDelRoute u32 u32 u32
  | KAddECMP RcpRouteType u32 u32 u32 "u32 list"
  | KDelECMP RcpRouteType u32 u32 "u32 list"

datatype rip_event =
    Kernel kcall
  | Redist bool u32 u32 u32        \<comment> \<open>add flag, address, mask, gateway: a message to OSPF\<close>
  | TxPacket nat u32 "u8 list"      \<comment> \<open>interface, destination (0 for the multicast group), bytes\<close>
  | MultiJoin u32
  | MultiDrop u32
  | RouteRequest
  | RtClean                         \<comment> \<open>the external program \<open>rtclean rip\<close>: removes the RIP routes of the kernel\<close>
  | Assertion

text \<open>The configuration in shared memory and the environment: \<open>mux_send\<close> is the outcome of the
  \<open>send\<close> system call on the mux socket, \<open>malloc_ok\<close> that of \<open>malloc\<close>.\<close>

record rip_cfg =
  rip_update_timer :: u8
  rip_redist_static :: u8
  rip_redist_connected :: u8
  rip_redist_connected_subnets :: u8
  rip_redist_ospf :: u8
  rip_default_information :: u8
  ospf_redist_rip :: bool
  mux_send :: "rip_event \<Rightarrow> bool"
  malloc_ok :: bool

record RipDbElem =
  rt_ip :: u32
  rt_mask :: u32
  rt_gw :: u32
  rt_metric :: u32
  rt_partner :: u32
  rt_interface :: nat
  rt_type :: RcpRouteType
  rt_timeout :: u8
  rt_gc :: u8
  rt_updated :: bool

record rip_state =
  initialized :: bool
  ripdb_index :: "u8 \<Rightarrow> RipDbElem list"
  ripdb_update_available :: bool
  static_update_trigger :: int
  muxsock :: bool
  out :: "rip_event list"

definition RIP_MAX_ROUTES :: nat where
  "RIP_MAX_ROUTES = 32000"

definition RIP_ROUTE_TIMEOUT :: "rip_cfg \<Rightarrow> nat" where
  "RIP_ROUTE_TIMEOUT cfg = unat (rip_update_timer cfg) * 6"

definition RIP_ROUTE_CLEANUP :: "rip_cfg \<Rightarrow> nat" where
  "RIP_ROUTE_CLEANUP cfg = unat (rip_update_timer cfg) * 4"

definition emit :: "rip_event \<Rightarrow> rip_state \<Rightarrow> rip_state" where
  "emit ev st = st\<lparr>out := out st @ [ev]\<rparr>"

definition assert_c :: "bool \<Rightarrow> rip_state \<Rightarrow> rip_state" where
  "assert_c b st = (if b then st else emit Assertion st)"

definition upd_elem :: "u8 \<Rightarrow> nat \<Rightarrow> (RipDbElem \<Rightarrow> RipDbElem) \<Rightarrow> rip_state \<Rightarrow> rip_state" where
  "upd_elem h i f st = st\<lparr>ripdb_index := (ripdb_index st)(h := upd_pos i f (ripdb_index st h))\<rparr>"

definition initialize :: "rip_state \<Rightarrow> rip_state" where
  "initialize st =
     (if \<not> initialized st then st\<lparr>ripdb_index := (\<lambda>_. []), initialized := True\<rparr> else st)"

section \<open>Lookups\<close>

definition rip_hash :: "u32 \<Rightarrow> u8" where
  "rip_hash ip = ucast (drop_bit 24 (ip AND 0xff000000) XOR drop_bit 16 (ip AND 0xff0000) XOR
                        drop_bit 8 (ip AND 0xff00) XOR (ip AND 0xff))"

definition find_exact ::
    "RcpRouteType \<Rightarrow> u32 \<Rightarrow> u32 \<Rightarrow> u32 \<Rightarrow> u32 \<Rightarrow> rip_state \<Rightarrow> nat option" where
  "find_exact type ip msk gw partner st =
     find_pos (\<lambda>p. rt_type p = type \<and> rt_ip p = ip \<and> rt_mask p = msk \<and> rt_gw p = gw \<and>
                   rt_partner p = partner) (ripdb_index st (rip_hash ip))"

definition find_route :: "u32 \<Rightarrow> u32 \<Rightarrow> rip_state \<Rightarrow> nat option" where
  "find_route ip msk st =
     find_pos (\<lambda>p. rt_ip p = ip \<and> rt_mask p = msk) (ripdb_index st (rip_hash ip))"

section \<open>Kernel and redistribution\<close>

definition ripdb_redistribute_route ::
    "rip_cfg \<Rightarrow> bool \<Rightarrow> u32 \<Rightarrow> u32 \<Rightarrow> u32 \<Rightarrow> rip_state \<Rightarrow> rip_state" where
  "ripdb_redistribute_route cfg add ip msk gw st =
     (if muxsock st \<and> ospf_redist_rip cfg then
        (if mux_send cfg (Redist add ip msk gw) then emit (Redist add ip msk gw) st
         else st\<lparr>muxsock := False\<rparr>)
      else st)"

definition ecmp_route :: "u32 \<Rightarrow> u32 \<Rightarrow> RipDbElem \<Rightarrow> bool" where
  "ecmp_route ip msk p \<longleftrightarrow>
     rt_ip p = ip \<and> rt_mask p = msk \<and> rt_metric p < 16 \<and> rt_type p = RCP_ROUTE_RIP"

definition ecmp_del :: "rip_cfg \<Rightarrow> u32 \<Rightarrow> u32 \<Rightarrow> rip_state \<Rightarrow> rip_state" where
  "ecmp_del cfg ip msk st =
     (let chain = ripdb_index st (rip_hash ip)
      in case filter (ecmp_route ip msk) chain of
           [] \<Rightarrow> st
         | [found] \<Rightarrow>
             ripdb_redistribute_route cfg False (rt_ip found) (rt_mask found) (rt_gw found)
               (emit (Kernel (KDelRoute (rt_ip found) (rt_mask found) (rt_gw found))) st)
         | gws \<Rightarrow>
             emit (Kernel (KDelECMP RCP_ROUTE_RIP ip msk (map rt_gw gws)))
               (fold (\<lambda>p. ripdb_redistribute_route cfg False ip msk (rt_gw p)) chain st))"

definition ecmp_add :: "rip_cfg \<Rightarrow> u32 \<Rightarrow> u32 \<Rightarrow> rip_state \<Rightarrow> rip_state" where
  "ecmp_add cfg ip msk st =
     (let chain = ripdb_index st (rip_hash ip)
      in case filter (ecmp_route ip msk) chain of
           [] \<Rightarrow> st
         | [found] \<Rightarrow>
             ripdb_redistribute_route cfg True (rt_ip found) (rt_mask found) (rt_gw found)
               (emit (Kernel (KAddRoute RCP_ROUTE_RIP (rt_ip found) (rt_mask found)
                                (rt_gw found) (rt_metric found))) st)
         | gws \<Rightarrow>
             emit (Kernel (KAddECMP RCP_ROUTE_RIP ip msk (rt_metric (last gws)) (map rt_gw gws)))
               (fold (\<lambda>p. ripdb_redistribute_route cfg True ip msk (rt_gw p)) chain st))"

section \<open>Route changes\<close>

definition clean_route :: "rip_cfg \<Rightarrow> u8 \<Rightarrow> nat \<Rightarrow> rip_state \<Rightarrow> rip_state" where
  "clean_route cfg h i st =
     (let p = ripdb_index st h ! i;
          st1 = (if rt_type p = RCP_ROUTE_RIP then
                   (let s = ecmp_del cfg (rt_ip p) (rt_mask p) st
                    in if rip_redist_static cfg \<noteq> 0 then s\<lparr>static_update_trigger := 10\<rparr> else s)
                 else st);
          st2 = upd_elem h i (\<lambda>e. e\<lparr>rt_metric := 16, rt_timeout := 0\<rparr>) st1;
          st3 = (if rt_type p = RCP_ROUTE_RIP then ecmp_add cfg (rt_ip p) (rt_mask p) st2 else st2)
      in if rt_gc p = 0 then
           (upd_elem h i (\<lambda>e. e\<lparr>rt_gc := word_of_nat (RIP_ROUTE_CLEANUP cfg), rt_updated := True\<rparr>) st3)
             \<lparr>ripdb_update_available := True\<rparr>
         else st3)"

text \<open>1 if the new type and metric are better than the stored route, 0 if equal, -1 if worse.\<close>

definition compare_type_metric :: "RcpRouteType \<Rightarrow> u32 \<Rightarrow> RipDbElem \<Rightarrow> int" where
  "compare_type_metric type metric rt =
     (if metric < rt_metric rt then 1
      else if metric = rt_metric rt then
        (if type < rt_type rt then 1 else if type = rt_type rt then 0 else -1)
      else -1)"

definition best_metric :: "u32 \<Rightarrow> u32 \<Rightarrow> RipDbElem list \<Rightarrow> u32" where
  "best_metric ip msk chain =
     fold (\<lambda>p best. if rt_type p = RCP_ROUTE_RIP \<and> rt_ip p = ip \<and> rt_mask p = msk \<and> rt_metric p < best
                     then rt_metric p else best) chain 16"

definition metric_loser :: "u32 \<Rightarrow> u32 \<Rightarrow> u32 \<Rightarrow> RipDbElem \<Rightarrow> bool" where
  "metric_loser ip msk best p \<longleftrightarrow>
     rt_type p = RCP_ROUTE_RIP \<and> rt_ip p = ip \<and> rt_mask p = msk \<and> rt_metric p > best"

definition drop_loser :: "rip_cfg \<Rightarrow> RipDbElem \<Rightarrow> RipDbElem" where
  "drop_loser cfg p =
     (let q = p\<lparr>rt_metric := 16, rt_timeout := 0\<rparr>
      in if rt_gc p = 0
         then q\<lparr>rt_gc := word_of_nat (RIP_ROUTE_CLEANUP cfg), rt_updated := True\<rparr> else q)"

definition clean_metric :: "rip_cfg \<Rightarrow> u32 \<Rightarrow> u32 \<Rightarrow> rip_state \<Rightarrow> rip_state" where
  "clean_metric cfg ip msk st =
     (let h = rip_hash ip; chain = ripdb_index st h; best = best_metric ip msk chain
      in if best = 16 then st
         else st\<lparr>ripdb_index := (ripdb_index st)
                  (h := map (\<lambda>p. if metric_loser ip msk best p then drop_loser cfg p else p) chain),
                ripdb_update_available :=
                  (ripdb_update_available st \<or>
                   list_ex (\<lambda>p. metric_loser ip msk best p \<and> rt_gc p = 0) chain)\<rparr>)"

text \<open>The three branches of \<open>ripdb_add\<close>: an entry with the same key exists (\<open>ripdb_refresh\<close>), a
  better route takes over the first entry of the prefix (\<open>ripdb_replace\<close>), a new entry is linked
  at the head of its chain (\<open>ripdb_insert\<close>).\<close>

definition ripdb_refresh ::
    "rip_cfg \<Rightarrow> u32 \<Rightarrow> u32 \<Rightarrow> u32 \<Rightarrow> nat \<Rightarrow> nat \<Rightarrow> rip_state \<Rightarrow> rip_state" where
  "ripdb_refresh cfg ip msk metric intf i st =
     (let h = rip_hash ip; e = ripdb_index st h ! i;
          upd = (rt_metric e \<noteq> metric \<or> rt_gc e \<noteq> 0 \<or> rt_interface e \<noteq> intf);
          st1 = upd_elem h i (\<lambda>p. p\<lparr>rt_timeout := word_of_nat (RIP_ROUTE_TIMEOUT cfg),
                                     rt_gc := 0, rt_interface := intf\<rparr>) st;
          st2 = (if rt_type e = RCP_ROUTE_RIP \<and> upd then
                   ecmp_add cfg ip msk (clean_metric cfg ip msk
                     (upd_elem h i (\<lambda>p. p\<lparr>rt_metric := metric\<rparr>) (ecmp_del cfg ip msk st1)))
                 else upd_elem h i (\<lambda>p. p\<lparr>rt_metric := metric\<rparr>) st1)
      in if upd then
           (upd_elem h i (\<lambda>p. p\<lparr>rt_updated := True\<rparr>) st2)\<lparr>ripdb_update_available := True\<rparr>
         else st2)"

definition ripdb_replace ::
    "rip_cfg \<Rightarrow> RcpRouteType \<Rightarrow> u32 \<Rightarrow> u32 \<Rightarrow> u32 \<Rightarrow> u32 \<Rightarrow> u32 \<Rightarrow> nat \<Rightarrow> nat \<Rightarrow> rip_state \<Rightarrow> rip_state"
  where
  "ripdb_replace cfg type ip msk gw metric partner intf i st =
     ecmp_add cfg ip msk (clean_metric cfg ip msk
       ((upd_elem (rip_hash ip) i
           (\<lambda>p. p\<lparr>rt_type := type, rt_metric := metric, rt_gw := gw, rt_partner := partner,
                  rt_timeout := word_of_nat (RIP_ROUTE_TIMEOUT cfg), rt_gc := 0,
                  rt_interface := intf, rt_updated := True\<rparr>)
           (ecmp_del cfg ip msk st))\<lparr>ripdb_update_available := True\<rparr>))"

definition new_elem ::
    "rip_cfg \<Rightarrow> RcpRouteType \<Rightarrow> u32 \<Rightarrow> u32 \<Rightarrow> u32 \<Rightarrow> u32 \<Rightarrow> u32 \<Rightarrow> nat \<Rightarrow> RipDbElem" where
  "new_elem cfg type ip msk gw metric partner intf =
     \<lparr>rt_ip = ip, rt_mask = msk, rt_gw = gw, rt_metric = metric, rt_partner = partner,
      rt_interface = intf, rt_type = type, rt_timeout = word_of_nat (RIP_ROUTE_TIMEOUT cfg),
      rt_gc = 0, rt_updated = True\<rparr>"

definition ripdb_insert ::
    "rip_cfg \<Rightarrow> RcpRouteType \<Rightarrow> u32 \<Rightarrow> u32 \<Rightarrow> u32 \<Rightarrow> u32 \<Rightarrow> u32 \<Rightarrow> nat \<Rightarrow> bool \<Rightarrow> rip_state
       \<Rightarrow> int \<times> rip_state" where
  "ripdb_insert cfg type ip msk gw metric partner intf ecmp st =
     (if \<not> malloc_ok cfg then (1, st)
      else
        (let elem = new_elem cfg type ip msk gw metric partner intf;
             h = rip_hash ip;
             st1 = st\<lparr>ripdb_update_available := True\<rparr>;
             st2 = (if type = RCP_ROUTE_RIP \<and> ecmp then ecmp_del cfg ip msk st1 else st1);
             st3 = st2\<lparr>ripdb_index := (ripdb_index st2)(h := elem # ripdb_index st2 h)\<rparr>;
             st4 = (if type = RCP_ROUTE_RIP then
                      (if ecmp then ecmp_add cfg ip msk st3
                       else ripdb_redistribute_route cfg True ip msk gw
                              (emit (Kernel (KAddRoute RCP_ROUTE_RIP ip msk gw metric)) st3))
                    else st3)
         in (0, st4)))"

definition ripdb_add ::
    "rip_cfg \<Rightarrow> RcpRouteType \<Rightarrow> u32 \<Rightarrow> u32 \<Rightarrow> u32 \<Rightarrow> u32 \<Rightarrow> u32 \<Rightarrow> nat \<Rightarrow> rip_state \<Rightarrow> int \<times> rip_state"
  where
  "ripdb_add cfg type ip msk gw metric partner intf st0 =
     (let st = initialize (assert_c (metric < 16) (assert_c (metric \<noteq> 0) st0))
      in case find_exact type ip msk gw partner st of
           Some i \<Rightarrow> (0, ripdb_refresh cfg ip msk metric intf i st)
         | None \<Rightarrow>
             (case find_route ip msk st of
                Some i \<Rightarrow>
                  (let cmp = compare_type_metric type metric (ripdb_index st (rip_hash ip) ! i)
                   in if cmp = -1 then (0, st)
                      else if cmp = 1 then
                        (0, ripdb_replace cfg type ip msk gw metric partner intf i st)
                      else ripdb_insert cfg type ip msk gw metric partner intf True st)
              | None \<Rightarrow> ripdb_insert cfg type ip msk gw metric partner intf False st))"

definition ripdb_delete ::
    "rip_cfg \<Rightarrow> RcpRouteType \<Rightarrow> u32 \<Rightarrow> u32 \<Rightarrow> u32 \<Rightarrow> u32 \<Rightarrow> rip_state \<Rightarrow> int \<times> rip_state" where
  "ripdb_delete cfg type ip msk gw partner st0 =
     (let st = initialize st0
      in case find_exact type ip msk gw partner st of
           None \<Rightarrow> (1, st)
         | Some i \<Rightarrow> (0, clean_route cfg (rip_hash ip) i st))"

definition ripdb_delete_rip :: "rip_cfg \<Rightarrow> u32 \<Rightarrow> u32 \<Rightarrow> rip_state \<Rightarrow> int \<times> rip_state" where
  "ripdb_delete_rip cfg ip msk st0 =
     (let st = initialize st0
      in case find_route ip msk st of
           None \<Rightarrow> (1, st)
         | Some i \<Rightarrow>
             (if rt_type (ripdb_index st (rip_hash ip) ! i) \<noteq> RCP_ROUTE_RIP then (1, st)
              else (0, clean_route cfg (rip_hash ip) i st)))"

section \<open>Walks over the whole table\<close>

definition buckets :: "u8 list" where
  "buckets = map word_of_nat [0..<256]"

text \<open>\<open>for (i = 0; i < 256; i++) while (ptr != NULL) \<dots> clean_route(ptr)\<close> for the elements with \<open>P\<close>.\<close>

definition clean_if ::
    "rip_cfg \<Rightarrow> (RipDbElem \<Rightarrow> bool) \<Rightarrow> u8 \<Rightarrow> nat \<Rightarrow> rip_state \<Rightarrow> rip_state" where
  "clean_if cfg P h i st = (if P (ripdb_index st h ! i) then clean_route cfg h i st else st)"

definition clean_chain :: "rip_cfg \<Rightarrow> (RipDbElem \<Rightarrow> bool) \<Rightarrow> u8 \<Rightarrow> rip_state \<Rightarrow> rip_state" where
  "clean_chain cfg P h st = fold (clean_if cfg P h) [0..<length (ripdb_index st h)] st"

definition clean_all :: "rip_cfg \<Rightarrow> (RipDbElem \<Rightarrow> bool) \<Rightarrow> rip_state \<Rightarrow> rip_state" where
  "clean_all cfg P st = fold (clean_chain cfg P) buckets (initialize st)"

definition ripdb_delete_interface :: "rip_cfg \<Rightarrow> nat \<Rightarrow> rip_state \<Rightarrow> rip_state" where
  "ripdb_delete_interface cfg intf st = clean_all cfg (\<lambda>p. rt_interface p = intf) st"

definition ripdb_delete_type :: "rip_cfg \<Rightarrow> RcpRouteType \<Rightarrow> rip_state \<Rightarrow> rip_state" where
  "ripdb_delete_type cfg type st = clean_all cfg (\<lambda>p. rt_type p = type) st"

definition ripdb_delete_all :: "rip_cfg \<Rightarrow> rip_state \<Rightarrow> rip_state" where
  "ripdb_delete_all cfg st = clean_all cfg (\<lambda>p. True) st"

definition ripdb_clean_updates :: "rip_state \<Rightarrow> rip_state" where
  "ripdb_clean_updates st0 =
     (let st = initialize st0
      in st\<lparr>ripdb_index := (\<lambda>h. map (\<lambda>p. p\<lparr>rt_updated := False\<rparr>) (ripdb_index st h)),
           ripdb_update_available := False\<rparr>)"

section \<open>Frame lemmas\<close>

lemma emit_simps [simp]:
  "ripdb_index (emit ev st) = ripdb_index st"
  "initialized (emit ev st) = initialized st"
  "out (emit ev st) = out st @ [ev]"
  by (simp_all add: emit_def)

lemma upd_elem_simps [simp]:
  "initialized (upd_elem h i f st) = initialized st"
  "out (upd_elem h i f st) = out st"
  "ripdb_index (upd_elem h i f st) = (ripdb_index st)(h := upd_pos i f (ripdb_index st h))"
  by (simp_all add: upd_elem_def)

lemma redistribute_simps [simp]:
  "ripdb_index (ripdb_redistribute_route cfg a ip m g st) = ripdb_index st"
  "initialized (ripdb_redistribute_route cfg a ip m g st) = initialized st"
  by (simp_all add: ripdb_redistribute_route_def)

lemma fold_redistribute_simps [simp]:
  "ripdb_index (fold (\<lambda>p. ripdb_redistribute_route cfg a ip m (g p)) ps st) = ripdb_index st"
  "initialized (fold (\<lambda>p. ripdb_redistribute_route cfg a ip m (g p)) ps st) = initialized st"
  by (induction ps arbitrary: st) simp_all

lemma ecmp_simps [simp]:
  "ripdb_index (ecmp_del cfg ip m st) = ripdb_index st"
  "initialized (ecmp_del cfg ip m st) = initialized st"
  "ripdb_index (ecmp_add cfg ip m st) = ripdb_index st"
  "initialized (ecmp_add cfg ip m st) = initialized st"
  by (simp_all add: ecmp_del_def ecmp_add_def Let_def split: list.split)

lemma clean_metric_simps [simp]:
  "initialized (clean_metric cfg ip m st) = initialized st"
  "out (clean_metric cfg ip m st) = out st"
  by (simp_all add: clean_metric_def Let_def)

text \<open>What \<open>clean_route\<close> does to the table: the element is marked, nothing else changes.\<close>

lemma clean_route_index:
  "i < length (ripdb_index st h) \<Longrightarrow> ripdb_index (clean_route cfg h i st)
     = (ripdb_index st)(h := upd_pos i (drop_loser cfg) (ripdb_index st h))"
  by (simp add: clean_route_def Let_def drop_loser_def upd_pos_def)

lemma clean_route_initialized [simp]: "initialized (clean_route cfg h i st) = initialized st"
  by (simp add: clean_route_def Let_def)

lemma clean_route_length [simp]:
  "length (ripdb_index (clean_route cfg h i st) h') = length (ripdb_index st h')"
  by (simp add: clean_route_def Let_def)

section \<open>Timers\<close>

text \<open>\<open>list_timeout\<close> walks one chain; removing an element leaves the position where it is.\<close>

definition remove_elem :: "u8 \<Rightarrow> nat \<Rightarrow> rip_state \<Rightarrow> rip_state" where
  "remove_elem h i st = st\<lparr>ripdb_index := (ripdb_index st)
     (h := take i (ripdb_index st h) @ drop (Suc i) (ripdb_index st h))\<rparr>"

definition age_route :: "rip_cfg \<Rightarrow> u8 \<Rightarrow> nat \<Rightarrow> rip_state \<Rightarrow> rip_state" where
  "age_route cfg h i st =
     (let p = ripdb_index st h ! i
      in if rt_type p = RCP_ROUTE_RIP then
           (let st1 = upd_elem h i (\<lambda>e. e\<lparr>rt_timeout := rt_timeout e - 1\<rparr>) st
            in if rt_timeout p - 1 = 0
               then clean_route cfg h i (upd_elem h i (\<lambda>e. e\<lparr>rt_gc := 0\<rparr>) st1) else st1)
         else st)"

lemma age_route_length [simp]:
  "length (ripdb_index (age_route cfg h i st) h') = length (ripdb_index st h')"
  by (simp add: age_route_def Let_def)

function list_timeout :: "rip_cfg \<Rightarrow> u8 \<Rightarrow> nat \<Rightarrow> rip_state \<Rightarrow> rip_state" where
  "list_timeout cfg h i st =
     (if length (ripdb_index st h) \<le> i then st
      else
        (let elem = ripdb_index st h ! i
         in if rt_timeout elem > 0 then list_timeout cfg h (Suc i) (age_route cfg h i st)
            else if rt_gc elem > 0 then
              (if rt_gc elem - 1 = 0 then list_timeout cfg h i (remove_elem h i st)
               else list_timeout cfg h (Suc i) (upd_elem h i (\<lambda>e. e\<lparr>rt_gc := rt_gc e - 1\<rparr>) st))
            else emit Assertion st))"
  by pat_completeness auto
termination
  by (relation "measure (\<lambda>(cfg, h, i, st). length (ripdb_index st h) - i)")
     (auto simp: remove_elem_def)

declare list_timeout.simps [simp del]

definition ripdb_timeout :: "rip_cfg \<Rightarrow> rip_state \<Rightarrow> rip_state" where
  "ripdb_timeout cfg st = fold (\<lambda>h. list_timeout cfg h 0) buckets (initialize st)"

section \<open>Advertising\<close>

text \<open>A route entry of a RIP packet; the fields are those of the wire format, read in host order.\<close>

record RipRoute =
  rr_family :: u16
  rr_tag :: u16
  rr_ip :: u32
  rr_mask :: u32
  rr_gw :: u32
  rr_metric :: u32

definition fill_route :: "RcpInterface \<Rightarrow> RipDbElem \<Rightarrow> RipRoute \<Rightarrow> RipRoute" where
  "fill_route intf p slot =
     (let base = \<lparr>rr_family = 2, rr_tag = 0, rr_ip = rt_ip p, rr_mask = rt_mask p, rr_gw = 0,
                  rr_metric = rt_metric p\<rparr>
      in if rt_type p = RCP_ROUTE_RIP_NETWORK then
           base\<lparr>rr_metric := if rt_ip p AND if_mask intf = if_ip intf AND if_mask intf
                              then 16 else rt_metric p\<rparr>
         else if rt_type p = RCP_ROUTE_CONNECTED then base
         else if rt_type p = RCP_ROUTE_CONNECTED_SUBNETS then base\<lparr>rr_metric := 1\<rparr>
         else if rt_type p = RCP_ROUTE_STATIC \<or> rt_type p = RCP_ROUTE_OSPF then
           base\<lparr>rr_gw := if rt_gw p AND if_mask intf = if_ip intf AND if_mask intf
                          then rt_gw p else 0\<rparr>
         else if rt_type p = RCP_ROUTE_RIP then
           base\<lparr>rr_metric := if rt_partner p AND if_mask intf = if_ip intf AND if_mask intf
                              then 16 else rt_metric p\<rparr>
         else slot)"

text \<open>\<open>response_chain\<close> is the inner loop: \<open>acc\<close> holds the entries filled so far (its length is the
  counter \<open>cnt\<close>), \<open>buf\<close> the content of the caller's array before the call.\<close>

fun response_chain ::
    "RcpInterface \<Rightarrow> bool \<Rightarrow> (nat \<Rightarrow> RipRoute) \<Rightarrow> RipDbElem list \<Rightarrow> RipRoute list \<Rightarrow> RipRoute list" where
  "response_chain intf upd buf [] acc = acc"
| "response_chain intf upd buf (p # ps) acc =
     (if length acc < RIP_MAX_ROUTES then
        (if upd \<and> \<not> rt_updated p then response_chain intf upd buf ps acc
         else response_chain intf upd buf ps (acc @ [fill_route intf p (buf (length acc))]))
      else acc)"

definition ripdb_build_response ::
    "RcpInterface \<Rightarrow> bool \<Rightarrow> (nat \<Rightarrow> RipRoute) \<Rightarrow> rip_state \<Rightarrow> RipRoute list" where
  "ripdb_build_response intf upd buf st =
     fold (\<lambda>h acc. response_chain intf upd buf (ripdb_index st h) acc) buckets []"

fun request_chain :: "rip_cfg \<Rightarrow> RipDbElem list \<Rightarrow> nat \<times> rip_state \<Rightarrow> nat \<times> rip_state" where
  "request_chain cfg [] cs = cs"
| "request_chain cfg (p # ps) (cnt, st) =
     (if cnt < RIP_MAX_ROUTES then
        request_chain cfg ps (Suc cnt,
          if rt_type p = RCP_ROUTE_RIP
          then ripdb_redistribute_route cfg True (rt_ip p) (rt_mask p) (rt_gw p) st else st)
      else (cnt, st))"

definition ripdb_route_request :: "rip_cfg \<Rightarrow> rip_state \<Rightarrow> rip_state" where
  "ripdb_route_request cfg st =
     snd (fold (\<lambda>h cs. request_chain cfg (ripdb_index (snd cs) h) cs) buckets (0, st))"

end
