(* ===== verification/Rip_Inv.thy ===== *)
theory Rip_Inv
  imports Rip_Db
begin

text \<open>
  The invariant of the RIP database and its preservation by every operation of
  \<^verbatim>\<open>rip_db.c\<close>: elements sit in the bucket of their address, keys are unique, the timers and the
  metric of an element agree, and all usable RIP routes of one prefix have the same metric.
\<close>

section \<open>The invariant\<close>

text \<open>An element is either usable (metric 1 to 15, running timeout, no garbage collection) or
  unreachable (metric 16, timeout expired, garbage collection running).\<close>

definition elem_ok :: "RipDbElem \<Rightarrow> bool" where
  "elem_ok p \<longleftrightarrow>
     (if rt_metric p = 16 then rt_timeout p = 0 \<and> rt_gc p \<noteq> 0
      else rt_metric p \<noteq> 0 \<and> rt_metric p < 16 \<and> rt_timeout p \<noteq> 0 \<and> rt_gc p = 0)"

definition elem_key :: "RipDbElem \<Rightarrow> RcpRouteType \<times> u32 \<times> u32 \<times> u32 \<times> u32" where
  "elem_key p = (rt_type p, rt_ip p, rt_mask p, rt_gw p, rt_partner p)"

definition same_metric_at :: "u32 \<Rightarrow> u32 \<Rightarrow> RipDbElem list \<Rightarrow> bool" where
  "same_metric_at ip m xs \<longleftrightarrow>
     (\<forall>p \<in> set xs. \<forall>q \<in> set xs. ecmp_route ip m p \<and> ecmp_route ip m q
        \<longrightarrow> rt_metric p = rt_metric q)"

definition same_metric :: "RipDbElem list \<Rightarrow> bool" where
  "same_metric xs \<longleftrightarrow> (\<forall>ip m. same_metric_at ip m xs)"

definition chain_ok :: "u8 \<Rightarrow> RipDbElem list \<Rightarrow> bool" where
  "chain_ok h xs \<longleftrightarrow>
     list_all (\<lambda>p. rip_hash (rt_ip p) = h \<and> elem_ok p) xs \<and> distinct (map elem_key xs) \<and>
     same_metric xs"

definition db_inv :: "rip_state \<Rightarrow> bool" where
  "db_inv st \<longleftrightarrow>
     (\<forall>h. chain_ok h (ripdb_index st h)) \<and> (\<not> initialized st \<longrightarrow> ripdb_index st = (\<lambda>_. []))"

text \<open>The update timer is such that the route timers stored in a byte are not zero.\<close>

definition timer_ok :: "rip_cfg \<Rightarrow> bool" where
  "timer_ok cfg \<longleftrightarrow> (word_of_nat (RIP_ROUTE_TIMEOUT cfg) :: u8) \<noteq> 0 \<and>
                   (word_of_nat (RIP_ROUTE_CLEANUP cfg) :: u8) \<noteq> 0"

text \<open>The command line accepts update timers of 5 to 60 seconds (\<^verbatim>\<open>src/src/rip/cmds\<close>).\<close>

definition timer_range :: "rip_cfg \<Rightarrow> bool" where
  "timer_range cfg \<longleftrightarrow> 5 \<le> rip_update_timer cfg \<and> rip_update_timer cfg \<le> 60"

lemma word_of_nat_u8_eq_0: "(word_of_nat n :: u8) = 0 \<longleftrightarrow> n mod 256 = 0"
proof -
  have "(word_of_nat n :: u8) = 0 \<longleftrightarrow> unat (word_of_nat n :: u8) = 0" by (simp add: unat_eq_0)
  then show ?thesis by (simp add: unat_of_nat)
qed

lemma timer_range_ok:
  assumes "timer_range cfg"
  shows "timer_ok cfg"
proof -
  define t where "t = unat (rip_update_timer cfg)"
  have "5 \<le> t" "t \<le> 60"
    using assms by (simp_all add: timer_range_def t_def word_le_nat_alt)
  then have "t * 6 mod 256 \<noteq> 0" "t * 4 mod 256 \<noteq> 0"
    using mod_less [of "t * 6" 256] le_mod_geq [of 256 "t * 6"] mod_less [of "t * 6 - 256" 256]
    by (cases "t \<le> 42"; simp)+
  then show ?thesis
    unfolding timer_ok_def RIP_ROUTE_TIMEOUT_def RIP_ROUTE_CLEANUP_def word_of_nat_u8_eq_0
    by (simp add: t_def)
qed

section \<open>Chains\<close>

lemma chain_ok_Nil [simp]: "chain_ok h []"
  by (simp add: chain_ok_def same_metric_def same_metric_at_def)

lemma chain_okD:
  "chain_ok h xs \<Longrightarrow> p \<in> set xs \<Longrightarrow> rip_hash (rt_ip p) = h \<and> elem_ok p"
  by (simp add: chain_ok_def list_all_iff)

lemma drop_loser_simps [simp]:
  "rt_ip (drop_loser cfg p) = rt_ip p" "rt_mask (drop_loser cfg p) = rt_mask p"
  "rt_gw (drop_loser cfg p) = rt_gw p" "rt_type (drop_loser cfg p) = rt_type p"
  "rt_partner (drop_loser cfg p) = rt_partner p" "rt_metric (drop_loser cfg p) = 16"
  "elem_key (drop_loser cfg p) = elem_key p" "\<not> ecmp_route ip m (drop_loser cfg p)"
  by (simp_all add: drop_loser_def elem_key_def ecmp_route_def Let_def)

lemma drop_loser_ok: "timer_ok cfg \<Longrightarrow> elem_ok (drop_loser cfg p)"
  by (auto simp: drop_loser_def elem_ok_def timer_ok_def Let_def)

lemma map_upd_pos: "(i < length xs \<Longrightarrow> g (f (xs ! i)) = g (xs ! i)) \<Longrightarrow> map g (upd_pos i f xs) = map g xs"
  by (simp add: upd_pos_def map_update list_update_same_conv)

definition keys_ok :: "u8 \<Rightarrow> RipDbElem list \<Rightarrow> bool" where
  "keys_ok h xs \<longleftrightarrow>
     list_all (\<lambda>p. rip_hash (rt_ip p) = h \<and> elem_ok p) xs \<and> distinct (map elem_key xs)"

lemma chain_ok_iff: "chain_ok h xs \<longleftrightarrow> keys_ok h xs \<and> same_metric xs"
  by (auto simp: chain_ok_def keys_ok_def)

lemma keys_ok_upd:
  assumes "keys_ok h xs" and "i < length xs \<Longrightarrow> elem_key (f (xs ! i)) = elem_key (xs ! i)"
    and "i < length xs \<Longrightarrow> elem_ok (f (xs ! i))"
  shows "keys_ok h (upd_pos i f xs)"
proof -
  have "rt_ip (f (xs ! i)) = rt_ip (xs ! i)" if "i < length xs"
    using assms(2) [OF that] by (simp add: elem_key_def)
  then have "list_all (\<lambda>p. rip_hash (rt_ip p) = h \<and> elem_ok p) (upd_pos i f xs)"
    using assms(1,3) by (intro list_all_upd_pos) (auto simp: keys_ok_def list_all_length)
  then show ?thesis
    using assms(1,2) by (simp add: map_upd_pos keys_ok_def)
qed

lemma same_metric_at_upd:
  assumes "same_metric_at ip m xs"
    and "i < length xs \<Longrightarrow> ecmp_route ip m (f (xs ! i)) \<Longrightarrow>
         ecmp_route ip m (xs ! i) \<and> rt_metric (f (xs ! i)) = rt_metric (xs ! i)"
  shows "same_metric_at ip m (upd_pos i f xs)"
proof -
  have "\<exists>q \<in> set xs. ecmp_route ip m q \<and> rt_metric p = rt_metric q"
    if "p \<in> set (upd_pos i f xs)" "ecmp_route ip m p" for p
    using set_upd_pos [OF that(1)] that(2) assms(2) nth_mem by metis
  then show ?thesis
    using assms(1) unfolding same_metric_at_def by metis
qed

text \<open>A change of one element that keeps its key and never makes it usable keeps the chain.\<close>

lemma chain_ok_weaken:
  assumes "chain_ok h xs" and "i < length xs \<Longrightarrow> elem_key (f (xs ! i)) = elem_key (xs ! i)"
    and "i < length xs \<Longrightarrow> elem_ok (f (xs ! i))"
    and "\<And>ip m. i < length xs \<Longrightarrow> ecmp_route ip m (f (xs ! i)) \<Longrightarrow>
           ecmp_route ip m (xs ! i) \<and> rt_metric (f (xs ! i)) = rt_metric (xs ! i)"
  shows "chain_ok h (upd_pos i f xs)"
  using assms by (auto simp: chain_ok_iff same_metric_def intro!: keys_ok_upd same_metric_at_upd)

lemma chain_ok_dead:
  "timer_ok cfg \<Longrightarrow> chain_ok h xs \<Longrightarrow> chain_ok h (upd_pos i (drop_loser cfg) xs)"
  by (rule chain_ok_weaken) (auto simp: drop_loser_ok)

lemma chain_ok_remove: "chain_ok h xs \<Longrightarrow> chain_ok h (take i xs @ drop (Suc i) xs)"
proof -
  assume ok: "chain_ok h xs"
  have sub: "set (take i xs @ drop (Suc i) xs) \<subseteq> set xs"
    using set_take_subset set_drop_subset by fastforce
  have "distinct (take i (map elem_key xs) @ drop (Suc i) (map elem_key xs))"
    using ok set_take_disj_set_drop_if_distinct [of "map elem_key xs" i "Suc i"]
    by (auto simp: chain_ok_def simp del: map_map)
  then show ?thesis
    using ok sub unfolding chain_ok_def same_metric_def same_metric_at_def list_all_iff
    by (simp add: take_map drop_map) blast
qed

section \<open>The best metric\<close>

lemma best_metric_fold:
  fixes b ip m :: u32
  defines "f \<equiv> \<lambda>p best. if rt_type p = RCP_ROUTE_RIP \<and> rt_ip p = ip \<and> rt_mask p = m \<and> rt_metric p < best
                        then rt_metric p else best"
  shows "fold f xs b \<le> b \<and>
         (\<forall>p \<in> set xs. rt_type p = RCP_ROUTE_RIP \<and> rt_ip p = ip \<and> rt_mask p = m \<longrightarrow> fold f xs b \<le> rt_metric p)"
proof (induction xs arbitrary: b)
  case Nil
  then show ?case by simp
next
  case (Cons x xs)
  have "fold f xs (f x b) \<le> f x b" using Cons.IH by blast
  moreover have "f x b \<le> b" by (auto simp: f_def)
  moreover have "rt_type x = RCP_ROUTE_RIP \<and> rt_ip x = ip \<and> rt_mask x = m \<Longrightarrow> f x b \<le> rt_metric x"
    by (auto simp: f_def)
  ultimately show ?case using Cons.IH [of "f x b"] by fastforce
qed

lemma best_metric_le:
  "p \<in> set xs \<Longrightarrow> ecmp_route ip m p \<Longrightarrow> best_metric ip m xs \<le> rt_metric p"
  using best_metric_fold [where b = 16 and xs = xs and ip = ip and m = m]
  unfolding best_metric_def ecmp_route_def by blast

lemma best_metric_16: "best_metric ip m xs \<le> 16"
  using best_metric_fold [where b = 16 and xs = xs and ip = ip and m = m]
  unfolding best_metric_def by blast

definition clean_metric_list :: "rip_cfg \<Rightarrow> u32 \<Rightarrow> u32 \<Rightarrow> RipDbElem list \<Rightarrow> RipDbElem list" where
  "clean_metric_list cfg ip m xs =
     (if best_metric ip m xs = 16 then xs
      else map (\<lambda>p. if metric_loser ip m (best_metric ip m xs) p then drop_loser cfg p else p) xs)"

lemma clean_metric_index:
  "ripdb_index (clean_metric cfg ip m st)
     = (ripdb_index st)(rip_hash ip := clean_metric_list cfg ip m (ripdb_index st (rip_hash ip)))"
  by (simp add: clean_metric_def clean_metric_list_def Let_def)

lemma length_clean_metric_list [simp]: "length (clean_metric_list cfg ip m xs) = length xs"
  by (simp add: clean_metric_list_def)

lemma keys_ok_clean_metric: "timer_ok cfg \<Longrightarrow> keys_ok h xs \<Longrightarrow> keys_ok h (clean_metric_list cfg ip m xs)"
proof -
  assume t: "timer_ok cfg" and ok: "keys_ok h xs"
  have "map elem_key (clean_metric_list cfg ip m xs) = map elem_key xs"
    by (simp add: clean_metric_list_def)
  with t ok show ?thesis
    by (auto simp: keys_ok_def clean_metric_list_def list_all_iff drop_loser_ok)
qed

lemma clean_metric_set:
  "p \<in> set (clean_metric_list cfg ip m xs) \<Longrightarrow> ecmp_route ip' m' p \<Longrightarrow> p \<in> set xs"
  by (auto simp: clean_metric_list_def split: if_splits)

text \<open>After \<open>clean_metric\<close> the usable RIP routes of the prefix all have the best metric.\<close>

lemma clean_metric_best:
  assumes "p \<in> set (clean_metric_list cfg ip m xs)" and "ecmp_route ip m p"
  shows "rt_metric p = best_metric ip m xs"
proof -
  have p: "p \<in> set xs" by (rule clean_metric_set [OF assms])
  have le: "best_metric ip m xs \<le> rt_metric p" by (rule best_metric_le [OF p assms(2)])
  have lt: "rt_metric p < 16" using assms(2) by (simp add: ecmp_route_def)
  with le have "best_metric ip m xs \<noteq> 16" by auto
  with assms have "\<not> metric_loser ip m (best_metric ip m xs) p"
    by (auto simp: clean_metric_list_def)
  with assms(2) le show ?thesis by (auto simp: metric_loser_def ecmp_route_def)
qed

lemma chain_ok_clean_metric:
  assumes "timer_ok cfg" and "keys_ok h xs"
    and "\<And>ip' m'. (ip', m') \<noteq> (ip, m) \<Longrightarrow> same_metric_at ip' m' xs"
  shows "chain_ok h (clean_metric_list cfg ip m xs)"
proof -
  have "same_metric_at ip' m' (clean_metric_list cfg ip m xs)" for ip' m'
  proof (cases "(ip', m') = (ip, m)")
    case True
    then show ?thesis unfolding same_metric_at_def by (metis clean_metric_best prod.inject)
  next
    case False
    with assms(3) show ?thesis unfolding same_metric_at_def by (meson clean_metric_set)
  qed
  then show ?thesis
    using keys_ok_clean_metric [OF assms(1,2)] by (simp add: chain_ok_iff same_metric_def)
qed

section \<open>Operations keep the invariant\<close>

lemma initialize_simps [simp]:
  "initialized (initialize st)" "out (initialize st) = out st"
  "ripdb_update_available (initialize st) = ripdb_update_available st"
  by (simp_all add: initialize_def)

lemma assert_c_simps [simp]:
  "ripdb_index (assert_c b st) = ripdb_index st" "initialized (assert_c b st) = initialized st"
  by (simp_all add: assert_c_def)

lemma initialize_index [simp]: "db_inv st \<Longrightarrow> ripdb_index (initialize st) = ripdb_index st"
  by (simp add: initialize_def db_inv_def)

lemma db_inv_initialize [simp]: "db_inv st \<Longrightarrow> db_inv (initialize st)"
  by (auto simp: db_inv_def initialize_def)

lemma db_inv_assert [simp]: "db_inv (assert_c b st) = db_inv st"
  by (simp add: db_inv_def)

lemma db_inv_chain: "db_inv st \<Longrightarrow> chain_ok h (ripdb_index st h)"
  by (simp add: db_inv_def)

lemma db_inv_bucketI:
  assumes "db_inv st" and "initialized st'" and "ripdb_index st' = (ripdb_index st)(h := xs)"
    and "chain_ok h xs"
  shows "db_inv st'"
  using assms by (auto simp: db_inv_def)

lemma clean_route_inv:
  "\<lbrakk>timer_ok cfg; db_inv st; initialized st; i < length (ripdb_index st h)\<rbrakk>
   \<Longrightarrow> db_inv (clean_route cfg h i st)"
  by (rule db_inv_bucketI [OF _ _ clean_route_index]) (auto simp: db_inv_chain chain_ok_dead)

lemma find_exactD:
  assumes "find_exact type ip m gw partner st = Some i"
  shows "i < length (ripdb_index st (rip_hash ip))"
    and "elem_key (ripdb_index st (rip_hash ip) ! i) = (type, ip, m, gw, partner)"
proof -
  from assms show "i < length (ripdb_index st (rip_hash ip))" by (auto simp: find_exact_def)
  from find_pos_holdsD [OF assms [unfolded find_exact_def]]
  show "elem_key (ripdb_index st (rip_hash ip) ! i) = (type, ip, m, gw, partner)"
    by (simp add: elem_key_def)
qed

lemma find_exact_None:
  "find_exact type ip m gw partner st = None \<Longrightarrow>
   (type, ip, m, gw, partner) \<notin> set (map elem_key (ripdb_index st (rip_hash ip)))"
  by (auto simp: find_exact_def find_pos_None elem_key_def)

lemma find_routeD:
  assumes "find_route ip m st = Some i"
  shows "i < length (ripdb_index st (rip_hash ip))"
    and "rt_ip (ripdb_index st (rip_hash ip) ! i) = ip"
    and "rt_mask (ripdb_index st (rip_hash ip) ! i) = m"
  using assms find_pos_holdsD [OF assms [unfolded find_route_def]] by (auto simp: find_route_def)

lemma ecmp_route_other:
  "(ip', m') \<noteq> (rt_ip p, rt_mask p) \<Longrightarrow> \<not> ecmp_route ip' m' p"
  by (auto simp: ecmp_route_def)

lemma chain_ok_updated:
  "chain_ok h xs \<Longrightarrow> chain_ok h (upd_pos i (\<lambda>p. p\<lparr>rt_updated := True\<rparr>) xs)"
  by (rule chain_ok_weaken)
    (auto simp: elem_key_def ecmp_route_def elem_ok_def dest!: chain_okD [OF _ nth_mem])

text \<open>The element after a refresh.\<close>

definition refreshed :: "rip_cfg \<Rightarrow> u32 \<Rightarrow> nat \<Rightarrow> RipDbElem \<Rightarrow> RipDbElem" where
  "refreshed cfg metric intf p =
     p\<lparr>rt_timeout := word_of_nat (RIP_ROUTE_TIMEOUT cfg), rt_gc := 0, rt_interface := intf,
       rt_metric := metric\<rparr>"

lemma refreshed_simps [simp]:
  "elem_key (refreshed cfg metric intf p) = elem_key p"
  "rt_ip (refreshed cfg metric intf p) = rt_ip p" "rt_mask (refreshed cfg metric intf p) = rt_mask p"
  "rt_type (refreshed cfg metric intf p) = rt_type p"
  "rt_metric (refreshed cfg metric intf p) = metric"
  by (simp_all add: refreshed_def elem_key_def)

lemma refreshed_ok:
  "timer_ok cfg \<Longrightarrow> metric \<noteq> 0 \<Longrightarrow> metric < 16 \<Longrightarrow> elem_ok (refreshed cfg metric intf p)"
  by (auto simp: refreshed_def elem_ok_def timer_ok_def)

lemma ripdb_refresh_index:
  fixes cfg ip m metric intf i st
  defines "h \<equiv> rip_hash ip"
  defines "xs \<equiv> ripdb_index st h"
  defines "e \<equiv> xs ! i"
  defines "upd \<equiv> rt_metric e \<noteq> metric \<or> rt_gc e \<noteq> 0 \<or> rt_interface e \<noteq> intf"
  defines "ys \<equiv> upd_pos i (refreshed cfg metric intf) xs"
  defines "zs \<equiv> (if rt_type e = RCP_ROUTE_RIP \<and> upd then clean_metric_list cfg ip m ys else ys)"
  shows "ripdb_index (ripdb_refresh cfg ip m metric intf i st) =
         (ripdb_index st)(h := if upd then upd_pos i (\<lambda>p. p\<lparr>rt_updated := True\<rparr>) zs else zs)"
proof -
  have "(\<lambda>x. x\<lparr>rt_timeout := word_of_nat (RIP_ROUTE_TIMEOUT cfg), rt_gc := 0, rt_interface := intf,
              rt_metric := metric\<rparr>) = refreshed cfg metric intf"
    by (auto simp: refreshed_def)
  then show ?thesis
    by (simp add: ripdb_refresh_def Let_def clean_metric_index h_def xs_def e_def upd_def ys_def zs_def)
qed

lemma ripdb_refresh_initialized [simp]:
  "initialized (ripdb_refresh cfg ip m metric intf i st) = initialized st"
  by (simp add: ripdb_refresh_def Let_def)

lemma ripdb_refresh_inv:
  assumes t: "timer_ok cfg" and inv: "db_inv st" and init: "initialized st"
    and found: "find_exact type ip m gw partner st = Some i"
    and metric: "metric \<noteq> 0" "metric < 16"
  shows "db_inv (ripdb_refresh cfg ip m metric intf i st)"
proof -
  define h where "h = rip_hash ip"
  define xs where "xs = ripdb_index st h"
  define e where "e = xs ! i"
  define upd where "upd \<longleftrightarrow> rt_metric e \<noteq> metric \<or> rt_gc e \<noteq> 0 \<or> rt_interface e \<noteq> intf"
  define ys where "ys = upd_pos i (refreshed cfg metric intf) xs"
  define zs where "zs = (if rt_type e = RCP_ROUTE_RIP \<and> upd then clean_metric_list cfg ip m ys else ys)"
  note defs = h_def xs_def e_def upd_def ys_def zs_def
  have i: "i < length xs" and key: "rt_ip e = ip" "rt_mask e = m"
    using find_exactD [OF found] by (simp_all add: defs elem_key_def)
  have ok: "chain_ok h xs" using inv by (simp add: db_inv_chain xs_def)
  then have keys: "keys_ok h ys"
    unfolding ys_def using t metric by (intro keys_ok_upd) (auto simp: chain_ok_iff refreshed_ok)
  have "chain_ok h zs"
  proof (cases "rt_type e = RCP_ROUTE_RIP \<and> upd")
    case True
    have "same_metric_at ip' m' ys" if "(ip', m') \<noteq> (ip, m)" for ip' m'
      unfolding ys_def using ok that key
      by (intro same_metric_at_upd) (auto simp: chain_ok_iff same_metric_def ecmp_route_def e_def)
    then have "chain_ok h (clean_metric_list cfg ip m ys)"
      by (rule chain_ok_clean_metric [OF t keys])
    with True show ?thesis by (simp add: zs_def)
  next
    case False
    have "chain_ok h ys"
      unfolding ys_def using ok False t metric
      by (intro chain_ok_weaken)
         (auto simp: refreshed_ok ecmp_route_def upd_def e_def dest: chain_okD [OF _ nth_mem])
    with False show ?thesis by (auto simp: zs_def)
  qed
  then have "chain_ok h (if upd then upd_pos i (\<lambda>p. p\<lparr>rt_updated := True\<rparr>) zs else zs)"
    by (simp add: chain_ok_updated)
  then show ?thesis
    unfolding defs by (rule db_inv_bucketI [OF inv _ ripdb_refresh_index, rotated]) (simp add: init)
qed

text \<open>A new key in place of an old one, or at the head of the chain.\<close>

lemma keys_ok_newkey:
  assumes "keys_ok h xs" and "i < length xs" and "elem_ok (f (xs ! i))"
    and "rt_ip (f (xs ! i)) = rt_ip (xs ! i)" and "elem_key (f (xs ! i)) \<notin> set (map elem_key xs)"
  shows "keys_ok h (upd_pos i f xs)"
proof -
  have "list_all (\<lambda>p. rip_hash (rt_ip p) = h \<and> elem_ok p) (upd_pos i f xs)"
    using assms by (intro list_all_upd_pos) (auto simp: keys_ok_def list_all_length)
  moreover have "distinct ((map elem_key xs)[i := elem_key (f (xs ! i))])"
    using assms by (intro distinct_list_update) (auto simp: keys_ok_def)
  ultimately show ?thesis
    using assms(2) by (simp add: keys_ok_def upd_pos_def map_update)
qed

definition replaced ::
    "rip_cfg \<Rightarrow> RcpRouteType \<Rightarrow> u32 \<Rightarrow> u32 \<Rightarrow> u32 \<Rightarrow> nat \<Rightarrow> RipDbElem \<Rightarrow> RipDbElem" where
  "replaced cfg type gw metric partner intf p =
     p\<lparr>rt_type := type, rt_metric := metric, rt_gw := gw, rt_partner := partner,
       rt_timeout := word_of_nat (RIP_ROUTE_TIMEOUT cfg), rt_gc := 0,
       rt_interface := intf, rt_updated := True\<rparr>"

lemma replaced_simps [simp]:
  "rt_ip (replaced cfg type gw metric partner intf p) = rt_ip p"
  "rt_mask (replaced cfg type gw metric partner intf p) = rt_mask p"
  "elem_key (replaced cfg type gw metric partner intf p) = (type, rt_ip p, rt_mask p, gw, partner)"
  by (simp_all add: replaced_def elem_key_def)

lemma replaced_ok:
  "timer_ok cfg \<Longrightarrow> metric \<noteq> 0 \<Longrightarrow> metric < 16 \<Longrightarrow> elem_ok (replaced cfg type gw metric partner intf p)"
  by (auto simp: replaced_def elem_ok_def timer_ok_def)

lemma ripdb_replace_index:
  "ripdb_index (ripdb_replace cfg type ip m gw metric partner intf i st) =
   (ripdb_index st)(rip_hash ip := clean_metric_list cfg ip m
      (upd_pos i (replaced cfg type gw metric partner intf) (ripdb_index st (rip_hash ip))))"
proof -
  have "replaced cfg type gw metric partner intf =
     (\<lambda>p. p\<lparr>rt_type := type, rt_metric := metric, rt_gw := gw, rt_partner := partner,
            rt_timeout := word_of_nat (RIP_ROUTE_TIMEOUT cfg), rt_gc := 0,
            rt_interface := intf, rt_updated := True\<rparr>)"
    by (auto simp: replaced_def)
  then show ?thesis by (simp add: ripdb_replace_def clean_metric_index)
qed

lemma ripdb_replace_initialized [simp]:
  "initialized (ripdb_replace cfg type ip m gw metric partner intf i st) = initialized st"
  by (simp add: ripdb_replace_def)

lemma ripdb_replace_inv:
  assumes t: "timer_ok cfg" and inv: "db_inv st" and init: "initialized st"
    and none: "find_exact type ip m gw partner st = None" and some: "find_route ip m st = Some i"
    and metric: "metric \<noteq> 0" "metric < 16"
  shows "db_inv (ripdb_replace cfg type ip m gw metric partner intf i st)"
proof (rule db_inv_bucketI [OF inv _ ripdb_replace_index])
  let ?xs = "ripdb_index st (rip_hash ip)"
  let ?ys = "upd_pos i (replaced cfg type gw metric partner intf) ?xs"
  have ok: "chain_ok (rip_hash ip) ?xs" by (rule db_inv_chain [OF inv])
  have keys: "keys_ok (rip_hash ip) ?ys"
    using ok find_exact_None [OF none] find_routeD [OF some] t metric
    by (intro keys_ok_newkey) (auto simp: chain_ok_iff replaced_ok)
  have other: "same_metric_at ip' m' ?ys" if "(ip', m') \<noteq> (ip, m)" for ip' m'
    using ok find_routeD [OF some] that
    by (intro same_metric_at_upd) (auto simp: chain_ok_iff same_metric_def ecmp_route_def)
  show "chain_ok (rip_hash ip) (clean_metric_list cfg ip m ?ys)"
    by (rule chain_ok_clean_metric [OF t keys other])
qed (simp add: init)

lemma ripdb_insert_index:
  "malloc_ok cfg \<Longrightarrow>
   ripdb_index (snd (ripdb_insert cfg type ip m gw metric partner intf ecmp st)) =
   (ripdb_index st)(rip_hash ip := new_elem cfg type ip m gw metric partner intf
                                     # ripdb_index st (rip_hash ip))"
  by (cases "type = RCP_ROUTE_RIP"; cases ecmp) (simp_all add: ripdb_insert_def Let_def)

lemma ripdb_insert_initialized [simp]:
  "initialized (snd (ripdb_insert cfg type ip m gw metric partner intf ecmp st)) = initialized st"
  by (cases "type = RCP_ROUTE_RIP"; cases ecmp) (simp_all add: ripdb_insert_def Let_def)

lemma same_metric_at_Cons:
  assumes "same_metric_at ip m xs"
    and "ecmp_route ip m p \<Longrightarrow> \<forall>q \<in> set xs. ecmp_route ip m q \<longrightarrow> rt_metric q = rt_metric p"
  shows "same_metric_at ip m (p # xs)"
  using assms unfolding same_metric_at_def by (metis set_ConsD)

text \<open>The new element may join the usable routes of its prefix: either there are none (no element
  of the prefix at all) or the first one has its type and metric.\<close>

definition ecmp_fits :: "bool \<Rightarrow> RcpRouteType \<Rightarrow> u32 \<Rightarrow> u32 \<Rightarrow> u32 \<Rightarrow> rip_state \<Rightarrow> bool" where
  "ecmp_fits ecmp type ip m metric st \<longleftrightarrow>
     (case find_route ip m st of
        None \<Rightarrow> \<not> ecmp
      | Some i \<Rightarrow> ecmp \<and> rt_type (ripdb_index st (rip_hash ip) ! i) = type \<and>
                 rt_metric (ripdb_index st (rip_hash ip) ! i) = metric)"

lemma new_elem_simps [simp]:
  "rt_ip (new_elem cfg type ip m gw metric partner intf) = ip"
  "rt_mask (new_elem cfg type ip m gw metric partner intf) = m"
  "rt_gw (new_elem cfg type ip m gw metric partner intf) = gw"
  "rt_metric (new_elem cfg type ip m gw metric partner intf) = metric"
  "rt_type (new_elem cfg type ip m gw metric partner intf) = type"
  "elem_key (new_elem cfg type ip m gw metric partner intf) = (type, ip, m, gw, partner)"
  by (simp_all add: new_elem_def elem_key_def)

lemma new_elem_ok:
  "timer_ok cfg \<Longrightarrow> metric \<noteq> 0 \<Longrightarrow> metric < 16 \<Longrightarrow>
   elem_ok (new_elem cfg type ip m gw metric partner intf)"
  by (auto simp: new_elem_def elem_ok_def timer_ok_def)

lemma ecmp_fits_metric:
  assumes "ecmp_fits ecmp type ip m metric st" and "same_metric_at ip m (ripdb_index st (rip_hash ip))"
    and "type = RCP_ROUTE_RIP" and "metric < 16"
    and "q \<in> set (ripdb_index st (rip_hash ip))" and "ecmp_route ip m q"
  shows "rt_metric q = metric"
proof (cases "find_route ip m st")
  case None
  with assms(5,6) show ?thesis by (auto simp: find_route_def find_pos_None ecmp_route_def)
next
  case (Some i)
  let ?e = "ripdb_index st (rip_hash ip) ! i"
  have e: "ecmp_route ip m ?e" "rt_metric ?e = metric"
    using assms(1,3,4) find_routeD [OF Some] Some by (auto simp: ecmp_fits_def ecmp_route_def)
  moreover have "?e \<in> set (ripdb_index st (rip_hash ip))"
    using find_routeD(1) [OF Some] by simp
  ultimately show ?thesis using assms(2,5,6) unfolding same_metric_at_def by metis
qed

lemma ripdb_insert_inv:
  assumes t: "timer_ok cfg" and inv: "db_inv st" and init: "initialized st"
    and none: "find_exact type ip m gw partner st = None"
    and fits: "ecmp_fits ecmp type ip m metric st"
    and metric: "metric \<noteq> 0" "metric < 16"
  shows "db_inv (snd (ripdb_insert cfg type ip m gw metric partner intf ecmp st))"
proof (cases "malloc_ok cfg")
  case False
  with inv show ?thesis by (simp add: ripdb_insert_def)
next
  case True
  let ?xs = "ripdb_index st (rip_hash ip)"
  let ?e = "new_elem cfg type ip m gw metric partner intf"
  have ok: "chain_ok (rip_hash ip) ?xs" by (rule db_inv_chain [OF inv])
  have "same_metric_at ip' m' (?e # ?xs)" for ip' m'
  proof (rule same_metric_at_Cons)
    show "same_metric_at ip' m' ?xs" using ok by (simp add: chain_ok_iff same_metric_def)
    then show "\<forall>q \<in> set ?xs. ecmp_route ip' m' q \<longrightarrow> rt_metric q = rt_metric ?e" if "ecmp_route ip' m' ?e"
      using that ecmp_fits_metric [OF fits] metric(2) by (auto simp: ecmp_route_def)
  qed
  moreover have "keys_ok (rip_hash ip) (?e # ?xs)"
    using ok find_exact_None [OF none] new_elem_ok [OF t metric] by (simp add: chain_ok_iff keys_ok_def)
  ultimately have "chain_ok (rip_hash ip) (?e # ?xs)" by (simp add: chain_ok_iff same_metric_def)
  then show ?thesis
    by (intro db_inv_bucketI [OF inv _ ripdb_insert_index [OF True]]) (simp_all add: init)
qed

lemma compare_range: "compare_type_metric type metric p \<in> {-1, 0, 1}"
  by (simp add: compare_type_metric_def)

lemma ripdb_add_cases:
  fixes metric :: u32
  assumes "db_inv st0"
  defines "st \<equiv> initialize (assert_c (metric < 16) (assert_c (metric \<noteq> 0) st0))"
  obtains (refresh) i where "find_exact type ip m gw partner st = Some i"
      "ripdb_add cfg type ip m gw metric partner intf st0 = (0, ripdb_refresh cfg ip m metric intf i st)"
  | (worse) i where "find_exact type ip m gw partner st = None" "find_route ip m st = Some i"
      "compare_type_metric type metric (ripdb_index st (rip_hash ip) ! i) = -1"
      "ripdb_add cfg type ip m gw metric partner intf st0 = (0, st)"
  | (replace) i where "find_exact type ip m gw partner st = None" "find_route ip m st = Some i"
      "compare_type_metric type metric (ripdb_index st (rip_hash ip) ! i) = 1"
      "ripdb_add cfg type ip m gw metric partner intf st0 =
         (0, ripdb_replace cfg type ip m gw metric partner intf i st)"
  | (insert) ecmp where "find_exact type ip m gw partner st = None"
      "ecmp_fits ecmp type ip m metric st"
      "ripdb_add cfg type ip m gw metric partner intf st0 =
         ripdb_insert cfg type ip m gw metric partner intf ecmp st"
proof (cases "find_exact type ip m gw partner st")
  case (Some i)
  then show ?thesis by (intro refresh) (simp_all add: ripdb_add_def st_def Let_def)
next
  case none: None
  show ?thesis
  proof (cases "find_route ip m st")
    case None
    then show ?thesis using none
      by (intro insert [of False]) (simp_all add: ripdb_add_def st_def Let_def ecmp_fits_def)
  next
    case (Some i)
    let ?c = "compare_type_metric type metric (ripdb_index st (rip_hash ip) ! i)"
    consider "?c = -1" | "?c = 1" | "?c = 0"
      using compare_range [of type metric "ripdb_index st (rip_hash ip) ! i"] by auto
    then show ?thesis
    proof cases
      case 1
      then show ?thesis using none Some by (intro worse) (simp_all add: ripdb_add_def st_def Let_def)
    next
      case 2
      then show ?thesis using none Some by (intro replace) (simp_all add: ripdb_add_def st_def Let_def)
    next
      case 3
      then show ?thesis using none Some
        by (intro insert [of True])
           (auto simp: ripdb_add_def st_def Let_def ecmp_fits_def compare_type_metric_def split: if_splits)
    qed
  qed
qed

lemma ripdb_add_inv:
  assumes "timer_ok cfg" "db_inv st0" "metric \<noteq> 0" "metric < 16"
  shows "db_inv (snd (ripdb_add cfg type ip m gw metric partner intf st0))"
  using assms
  by (cases rule: ripdb_add_cases [OF assms(2), of type ip m gw partner metric cfg intf])
     (auto intro: ripdb_refresh_inv ripdb_replace_inv ripdb_insert_inv)

lemma ripdb_delete_inv:
  assumes "timer_ok cfg" "db_inv st0"
  shows "db_inv (snd (ripdb_delete cfg type ip m gw partner st0))"
  using assms
  by (auto simp: ripdb_delete_def Let_def split: option.split dest: find_exactD intro!: clean_route_inv)

lemma ripdb_delete_rip_inv:
  assumes "timer_ok cfg" "db_inv st0"
  shows "db_inv (snd (ripdb_delete_rip cfg ip m st0))"
  using assms
  by (auto simp: ripdb_delete_rip_def Let_def split: option.split dest: find_routeD intro!: clean_route_inv)

text \<open>The walks: an invariant of \<open>clean_route\<close> is an invariant of the walk. \<open>I\<close> is any property of
  initialised states.\<close>

lemma clean_chain_induct:
  assumes step: "\<And>i s. \<lbrakk>I s; initialized s; i < length (ripdb_index s h)\<rbrakk> \<Longrightarrow> I (clean_route cfg h i s)"
    and "I st" "initialized st"
  shows "I (clean_chain cfg P h st) \<and> initialized (clean_chain cfg P h st)"
proof -
  have "\<lbrakk>I s; initialized s; \<forall>i \<in> set js. i < length (ripdb_index s h)\<rbrakk> \<Longrightarrow>
     I (fold (clean_if cfg P h) js s) \<and> initialized (fold (clean_if cfg P h) js s)" for js s
  proof (induction js arbitrary: s)
    case (Cons j js)
    have "I (clean_if cfg P h j s)" "initialized (clean_if cfg P h j s)"
      "length (ripdb_index (clean_if cfg P h j s) h) = length (ripdb_index s h)"
      using Cons.prems step by (simp_all add: clean_if_def)
    with Cons show ?case by simp
  qed simp
  from this [of st "[0..<length (ripdb_index st h)]"] assms(2,3) show ?thesis
    by (simp add: clean_chain_def)
qed

lemma clean_all_induct:
  assumes step: "\<And>h i s. \<lbrakk>I s; initialized s; i < length (ripdb_index s h)\<rbrakk> \<Longrightarrow> I (clean_route cfg h i s)"
    and "I (initialize st)"
  shows "I (clean_all cfg P st)"
proof -
  have "\<lbrakk>I s; initialized s\<rbrakk> \<Longrightarrow> I (fold (clean_chain cfg P) hs s)" for hs s
  proof (induction hs arbitrary: s)
    case (Cons h hs)
    have "I (clean_chain cfg P h s) \<and> initialized (clean_chain cfg P h s)"
      by (rule clean_chain_induct) (use step Cons.prems in auto)
    with Cons.IH show ?case by simp
  qed simp
  with assms(2) show ?thesis by (simp add: clean_all_def)
qed

lemma clean_all_inv: "timer_ok cfg \<Longrightarrow> db_inv st \<Longrightarrow> db_inv (clean_all cfg P st)"
  by (rule clean_all_induct [where I = db_inv]) (auto intro: clean_route_inv)

lemma chain_ok_map:
  assumes "chain_ok h xs" and "\<And>p. elem_key (f p) = elem_key p" "\<And>p. elem_ok (f p) = elem_ok p"
    and "\<And>p. rt_metric (f p) = rt_metric p"
  shows "chain_ok h (map f xs)"
proof -
  have "rt_ip (f p) = rt_ip p" "ecmp_route ip m (f p) = ecmp_route ip m p" for p ip m
    using assms(2) [of p] assms(4) by (simp_all add: elem_key_def ecmp_route_def)
  moreover have "map elem_key (map f xs) = map elem_key xs" using assms(2) by simp
  ultimately show ?thesis
    using assms(1,3,4) unfolding chain_ok_def same_metric_def same_metric_at_def
    by (simp add: list_all_iff del: map_map)
qed

lemma ripdb_clean_updates_inv: "db_inv st \<Longrightarrow> db_inv (ripdb_clean_updates st)"
  by (auto simp: db_inv_def ripdb_clean_updates_def Let_def initialize_def elem_key_def elem_ok_def
           intro!: chain_ok_map)

section \<open>Timers keep the invariant\<close>

definition aged :: "rip_cfg \<Rightarrow> RipDbElem \<Rightarrow> RipDbElem" where
  "aged cfg p =
     (if rt_type p = RCP_ROUTE_RIP then
        (if rt_timeout p - 1 = 0 then drop_loser cfg (p\<lparr>rt_timeout := 0, rt_gc := 0\<rparr>)
         else p\<lparr>rt_timeout := rt_timeout p - 1\<rparr>)
      else p)"

lemma age_route_index:
  assumes "i < length (ripdb_index st h)"
  shows "ripdb_index (age_route cfg h i st) = (ripdb_index st)(h := upd_pos i (aged cfg) (ripdb_index st h))"
proof -
  have "upd_pos i (\<lambda>x. drop_loser cfg (x\<lparr>rt_timeout := rt_timeout x - 1, rt_gc := 0\<rparr>)) (ripdb_index st h)
      = upd_pos i (aged cfg) (ripdb_index st h)"
    if "rt_type (ripdb_index st h ! i) = RCP_ROUTE_RIP" "rt_timeout (ripdb_index st h ! i) - 1 = 0"
    using that assms by (simp add: upd_pos_def aged_def)
  moreover have "upd_pos i (\<lambda>e. e\<lparr>rt_timeout := rt_timeout e - 1\<rparr>) (ripdb_index st h)
      = upd_pos i (aged cfg) (ripdb_index st h)"
    if "rt_type (ripdb_index st h ! i) = RCP_ROUTE_RIP" "rt_timeout (ripdb_index st h ! i) - 1 \<noteq> 0"
    using that assms by (simp add: upd_pos_def aged_def)
  moreover have "upd_pos i (aged cfg) (ripdb_index st h) = ripdb_index st h"
    if "rt_type (ripdb_index st h ! i) \<noteq> RCP_ROUTE_RIP"
    using that assms by (simp add: upd_pos_def aged_def)
  ultimately show ?thesis
    using assms by (simp add: age_route_def Let_def clean_route_index)
qed

lemma age_route_initialized [simp]: "initialized (age_route cfg h i st) = initialized st"
  by (simp add: age_route_def Let_def)

lemma aged_simps [simp]:
  "elem_key (aged cfg p) = elem_key p"
  by (simp add: aged_def elem_key_def drop_loser_def Let_def)

lemma aged_ok: "timer_ok cfg \<Longrightarrow> elem_ok p \<Longrightarrow> rt_timeout p \<noteq> 0 \<Longrightarrow> elem_ok (aged cfg p)"
  using drop_loser_ok [of cfg "p\<lparr>rt_timeout := 0, rt_gc := 0\<rparr>"]
  by (auto simp: aged_def elem_ok_def split: if_splits)

lemma aged_usable:
  "ecmp_route ip m (aged cfg p) \<Longrightarrow> ecmp_route ip m p \<and> rt_metric (aged cfg p) = rt_metric p"
  by (auto simp: aged_def ecmp_route_def drop_loser_def Let_def split: if_splits)

lemma age_route_inv:
  assumes "timer_ok cfg" "db_inv st" "initialized st" "i < length (ripdb_index st h)"
    and "rt_timeout (ripdb_index st h ! i) \<noteq> 0"
  shows "db_inv (age_route cfg h i st)"
proof (rule db_inv_bucketI [OF assms(2) _ age_route_index [OF assms(4)]])
  have "chain_ok h (ripdb_index st h)" using assms(2) by (rule db_inv_chain)
  then show "chain_ok h (upd_pos i (aged cfg) (ripdb_index st h))"
    using assms by (intro chain_ok_weaken) (auto simp: aged_ok dest: chain_okD [OF _ nth_mem] aged_usable)
qed (simp add: assms)

lemma remove_elem_inv:
  "db_inv st \<Longrightarrow> initialized st \<Longrightarrow> db_inv (remove_elem h i st)"
  by (rule db_inv_bucketI [where h = h and xs = "take i (ripdb_index st h) @ drop (Suc i) (ripdb_index st h)"])
     (auto simp: remove_elem_def chain_ok_remove db_inv_chain)

definition gc_tick :: "RipDbElem \<Rightarrow> RipDbElem" where
  "gc_tick e = e\<lparr>rt_gc := rt_gc e - 1\<rparr>"

lemma gc_tick_inv:
  assumes "db_inv st" "initialized st" "i < length (ripdb_index st h)"
    and "rt_timeout (ripdb_index st h ! i) = 0" "rt_gc (ripdb_index st h ! i) - 1 \<noteq> 0"
  shows "db_inv (upd_elem h i gc_tick st)"
proof (rule db_inv_bucketI [OF assms(1)])
  have "chain_ok h (ripdb_index st h)" using assms(1) by (rule db_inv_chain)
  then show "chain_ok h (upd_pos i gc_tick (ripdb_index st h))"
    using assms chain_okD [OF _ nth_mem, of h "ripdb_index st h" i]
    by (intro chain_ok_weaken) (auto simp: gc_tick_def elem_key_def ecmp_route_def elem_ok_def split: if_splits)
qed (simp_all add: assms)

text \<open>The walk \<open>list_timeout\<close>: a property kept by the three steps of the walk is kept by it, and
  under the invariant the \<open>ASSERT(0)\<close> branch is not taken.\<close>

lemma list_timeout_induct:
  assumes t: "timer_ok cfg"
    and age: "\<And>i s. \<lbrakk>I s; db_inv s; initialized s; i < length (ripdb_index s h);
        rt_timeout (ripdb_index s h ! i) \<noteq> 0\<rbrakk> \<Longrightarrow> I (age_route cfg h i s)"
    and remove: "\<And>i s. \<lbrakk>I s; db_inv s; initialized s; i < length (ripdb_index s h);
        rt_timeout (ripdb_index s h ! i) = 0\<rbrakk> \<Longrightarrow> I (remove_elem h i s)"
    and tick: "\<And>i s. \<lbrakk>I s; db_inv s; initialized s; i < length (ripdb_index s h);
        rt_timeout (ripdb_index s h ! i) = 0\<rbrakk> \<Longrightarrow> I (upd_elem h i gc_tick s)"
  shows "\<lbrakk>I st; db_inv st; initialized st\<rbrakk> \<Longrightarrow>
     I (list_timeout cfg h i st) \<and> db_inv (list_timeout cfg h i st) \<and> initialized (list_timeout cfg h i st)"
  using t age remove tick
proof (induction cfg h i st rule: list_timeout.induct)
  case (1 cfg h i st)
  note age = "1.prems"(5) and remove = "1.prems"(6) and tick = "1.prems"(7)
  let ?e = "ripdb_index st h ! i"
  show ?case
  proof (cases "i < length (ripdb_index st h)")
    case False
    then show ?thesis using "1.prems" by (subst (1 2 3) list_timeout.simps) simp
  next
    case i: True
    have ok: "elem_ok ?e"
      using chain_okD [OF db_inv_chain nth_mem [OF i]] "1.prems"(2) by blast
    consider (live) "rt_timeout ?e \<noteq> 0"
      | (last) "rt_timeout ?e = 0" "rt_gc ?e \<noteq> 0" "rt_gc ?e - 1 = 0"
      | (gc) "rt_timeout ?e = 0" "rt_gc ?e \<noteq> 0" "rt_gc ?e - 1 \<noteq> 0"
      using ok by (auto simp: elem_ok_def split: if_splits)
    then show ?thesis
    proof cases
      case live
      have eq: "list_timeout cfg h i st = list_timeout cfg h (Suc i) (age_route cfg h i st)"
        using i live by (subst list_timeout.simps) (simp add: word_neq_0_conv)
      show ?thesis unfolding eq
        using "1.IH"(1) [OF _ refl] "1.prems" i live age_route_inv [of cfg st i h]
        by (simp add: word_neq_0_conv age)
    next
      case last
      have eq: "list_timeout cfg h i st = list_timeout cfg h i (remove_elem h i st)"
        using i last by (subst list_timeout.simps) (simp add: word_neq_0_conv)
      show ?thesis unfolding eq
        using "1.IH"(2) [OF _ refl] "1.prems" i last remove_elem_inv [of st h i]
        by (simp add: word_neq_0_conv remove remove_elem_def)
    next
      case gc
      have eq: "list_timeout cfg h i st = list_timeout cfg h (Suc i) (upd_elem h i gc_tick st)"
        using i gc unfolding gc_tick_def by (subst list_timeout.simps) (simp add: word_neq_0_conv)
      show ?thesis unfolding eq
        using "1.IH"(3) [OF _ refl] "1.prems" i gc gc_tick_inv [of st i h]
        by (simp add: word_neq_0_conv tick flip: gc_tick_def)
    qed
  qed
qed

end
