(* ===== verification/Rip_Sync.thy ===== *)
theory Rip_Sync
  imports Rip_Inv
begin

text \<open>
  The contract between the RIP database and the kernel routing table. The kernel calls in the
  output trace are replayed on an abstract table; every operation of the database keeps the table
  equal to the usable RIP routes of the database, and no call is refused on the way (no route is
  added twice, none is deleted that is not there with exactly these gateways).
\<close>

section \<open>The abstract routing table\<close>

type_synonym fib = "u32 \<times> u32 \<Rightarrow> u32 list"

fun fib_call :: "kcall \<Rightarrow> fib \<Rightarrow> fib option" where
  "fib_call (KAddRoute t ip m gw metric) F = (if F (ip, m) = [] then Some (F((ip, m) := [gw])) else None)"
| "fib_call (KDelRoute ip m gw) F = (if F (ip, m) = [gw] then Some (F((ip, m) := [])) else None)"
| "fib_call (KAddECMP t ip m metric gws) F =
     (if F (ip, m) = [] \<and> gws \<noteq> [] then Some (F((ip, m) := gws)) else None)"
| "fib_call (KDelECMP t ip m gws) F =
     (if F (ip, m) = gws \<and> gws \<noteq> [] then Some (F((ip, m) := [])) else None)"

fun fib_event :: "rip_event \<Rightarrow> fib \<Rightarrow> fib option" where
  "fib_event (Kernel c) F = fib_call c F"
| "fib_event RtClean F = Some (\<lambda>_. [])"
| "fib_event _ F = Some F"

definition fib_run :: "rip_event list \<Rightarrow> fib \<Rightarrow> fib option" where
  "fib_run evs F = fold (\<lambda>e r. Option.bind r (fib_event e)) evs (Some F)"

definition fib_of :: "rip_state \<Rightarrow> fib option" where
  "fib_of st = fib_run (out st) (\<lambda>_. [])"

definition active_gws :: "rip_state \<Rightarrow> fib" where
  "active_gws st = (\<lambda>(ip, m). map rt_gw (filter (ecmp_route ip m) (ripdb_index st (rip_hash ip))))"

definition rip_sync :: "rip_state \<Rightarrow> bool" where
  "rip_sync st \<longleftrightarrow> fib_of st = Some (active_gws st)"

section \<open>The interface of a route programmer\<close>

text \<open>A route programmer can withdraw all routes of a prefix and announce the active ones; a client
  that withdraws, changes the entries of that prefix only and announces again stays in step.\<close>

locale route_programmer =
  fixes withdraw :: "'k \<Rightarrow> 's \<Rightarrow> 's"
    and announce :: "'k \<Rightarrow> 's \<Rightarrow> 's"
    and table :: "'s \<Rightarrow> ('k \<Rightarrow> 'g list) option"
    and active :: "'s \<Rightarrow> 'k \<Rightarrow> 'g list"
  assumes withdraw_active: "active (withdraw k s) = active s"
    and announce_active: "active (announce k s) = active s"
    and withdraw_table: "table s = Some F \<Longrightarrow> F k = active s k \<Longrightarrow> table (withdraw k s) = Some (F(k := []))"
    and announce_table: "table s = Some F \<Longrightarrow> F k = [] \<Longrightarrow> table (announce k s) = Some (F(k := active s k))"
begin

lemma reprogram:
  assumes "table s = Some (active s)" and "table s' = table (withdraw k s)"
    and "\<And>k'. k' \<noteq> k \<Longrightarrow> active s' k' = active s k'"
  shows "table (announce k s') = Some (active (announce k s'))"
proof -
  have "table s' = Some ((active s)(k := []))"
    using withdraw_table [OF assms(1) refl] assms(2) by simp
  then have "table (announce k s') = Some ((active s)(k := [], k := active s' k))"
    by (rule announce_table) simp
  also have "(active s)(k := [], k := active s' k) = active s'"
    using assms(3) by auto
  finally show ?thesis by (simp add: announce_active)
qed

end

lemma fib_run_snoc: "fib_run (evs @ [e]) F = Option.bind (fib_run evs F) (fib_event e)"
  by (simp add: fib_run_def)

lemma fib_of_emit: "fib_of (emit e st) = Option.bind (fib_of st) (fib_event e)"
  by (simp add: fib_of_def fib_run_snoc)

lemma fib_of_cong: "out s = out s' \<Longrightarrow> fib_of s = fib_of s'"
  by (simp add: fib_of_def)

lemma active_cong: "ripdb_index s = ripdb_index s' \<Longrightarrow> active_gws s = active_gws s'"
  by (simp add: active_gws_def)

lemma fib_of_redistribute [simp]: "fib_of (ripdb_redistribute_route cfg a ip m g st) = fib_of st"
  by (cases "fib_of st") (auto simp: ripdb_redistribute_route_def fib_of_emit fib_of_def fib_run_snoc)

lemma fib_of_fold_redistribute [simp]:
  "fib_of (fold (\<lambda>p. ripdb_redistribute_route cfg a ip m (g p)) ps st) = fib_of st"
  by (induction ps arbitrary: st) simp_all

lemma active_frame [simp]:
  "active_gws (emit e st) = active_gws st"
  "active_gws (ripdb_redistribute_route cfg a ip m g st) = active_gws st"
  "active_gws (ecmp_del cfg ip m st) = active_gws st"
  "active_gws (ecmp_add cfg ip m st) = active_gws st"
  by (rule active_cong, simp)+

lemma ecmp_filter_single:
  "filter (ecmp_route ip m) xs = [p] \<Longrightarrow> rt_ip p = ip \<and> rt_mask p = m"
  using filter_eq_ConsD [of "ecmp_route ip m" xs p "[]"] by (auto simp: ecmp_route_def)

lemma ecmp_del_table:
  assumes "fib_of st = Some F" and "F (ip, m) = active_gws st (ip, m)"
  shows "fib_of (ecmp_del cfg ip m st) = Some (F((ip, m) := []))"
proof -
  let ?act = "filter (ecmp_route ip m) (ripdb_index st (rip_hash ip))"
  have F: "F (ip, m) = map rt_gw ?act" using assms(2) by (simp add: active_gws_def)
  consider "?act = []" | p where "?act = [p]" | p q ps where "?act = p # q # ps"
    by (cases ?act rule: remdups_adj.cases) auto
  then show ?thesis
  proof cases
    case 1
    then have "F((ip, m) := []) = F" using F by auto
    with 1 assms(1) show ?thesis by (simp add: ecmp_del_def)
  next
    case 2
    with F assms(1) ecmp_filter_single [OF 2] show ?thesis
      by (simp add: ecmp_del_def fib_of_emit)
  next
    case 3
    with F assms(1) show ?thesis by (simp add: ecmp_del_def fib_of_emit)
  qed
qed

lemma ecmp_add_table:
  assumes "fib_of st = Some F" and "F (ip, m) = []"
  shows "fib_of (ecmp_add cfg ip m st) = Some (F((ip, m) := active_gws st (ip, m)))"
proof -
  let ?act = "filter (ecmp_route ip m) (ripdb_index st (rip_hash ip))"
  have A: "active_gws st (ip, m) = map rt_gw ?act" by (simp add: active_gws_def)
  consider "?act = []" | p where "?act = [p]" | p q ps where "?act = p # q # ps"
    by (cases ?act rule: remdups_adj.cases) auto
  then show ?thesis
  proof cases
    case 1
    then have "F((ip, m) := active_gws st (ip, m)) = F" using assms(2) A by auto
    with 1 assms(1) show ?thesis by (simp add: ecmp_add_def)
  next
    case 2
    with A assms ecmp_filter_single [OF 2] show ?thesis
      by (simp add: ecmp_add_def fib_of_emit)
  next
    case 3
    with A assms show ?thesis by (simp add: ecmp_add_def fib_of_emit)
  qed
qed

interpretation rip: route_programmer
  "\<lambda>(ip, m). ecmp_del cfg ip m" "\<lambda>(ip, m). ecmp_add cfg ip m" fib_of active_gws for cfg
  by unfold_locales (auto simp: ecmp_del_table ecmp_add_table)

lemma rip_reprogram:
  assumes "rip_sync s" and "out s' = out (ecmp_del cfg ip m s)"
    and "\<And>k. k \<noteq> (ip, m) \<Longrightarrow> active_gws s' k = active_gws s k"
  shows "rip_sync (ecmp_add cfg ip m s')"
  using rip.reprogram [of s s' cfg "(ip, m)"] assms fib_of_cong [OF assms(2)]
  unfolding rip_sync_def by (simp split: prod.split)

section \<open>Operations stay in step with the kernel\<close>

lemma rip_sync_cong: "out s = out s' \<Longrightarrow> active_gws s = active_gws s' \<Longrightarrow> rip_sync s \<Longrightarrow> rip_sync s'"
  by (simp add: rip_sync_def fib_of_def)

text \<open>Assignments to an element that do not touch its key and its usability.\<close>

lemma active_upd_same:
  assumes "i < length (ripdb_index st h) \<Longrightarrow>
     rt_gw (f (ripdb_index st h ! i)) = rt_gw (ripdb_index st h ! i) \<and>
     (\<forall>ip m. ecmp_route ip m (f (ripdb_index st h ! i)) = ecmp_route ip m (ripdb_index st h ! i))"
  shows "active_gws (upd_elem h i f st) = active_gws st"
proof -
  have "map rt_gw (filter (ecmp_route ip m) (upd_pos i f xs)) = map rt_gw (filter (ecmp_route ip m) xs)"
    if "i < length xs \<Longrightarrow> rt_gw (f (xs ! i)) = rt_gw (xs ! i) \<and>
          ecmp_route ip m (f (xs ! i)) = ecmp_route ip m (xs ! i)" for xs ip m
    using that
  proof (induction xs arbitrary: i)
    case (Cons x xs)
    then show ?case by (cases i) auto
  qed simp
  from this [of "ripdb_index st h"] assms show ?thesis
    by (auto simp: active_gws_def fun_eq_iff)
qed

text \<open>Assignments to an element of the prefix \<open>(ip, m)\<close> are seen at that prefix only.\<close>

lemma active_upd_other:
  assumes "i < length (ripdb_index st h) \<Longrightarrow>
     rt_ip (f (ripdb_index st h ! i)) = rt_ip (ripdb_index st h ! i) \<and>
     rt_mask (f (ripdb_index st h ! i)) = rt_mask (ripdb_index st h ! i) \<and>
     rt_ip (ripdb_index st h ! i) = ip \<and> rt_mask (ripdb_index st h ! i) = m"
    and "k \<noteq> (ip, m)"
  shows "active_gws (upd_elem h i f st) k = active_gws st k"
proof -
  obtain ip' m' where k: "k = (ip', m')" by (cases k)
  have "filter (ecmp_route ip' m') (upd_pos i f (ripdb_index st h))
      = filter (ecmp_route ip' m') (ripdb_index st h)"
    using assms k by (intro filter_upd_pos_frame) (auto simp: ecmp_route_def)
  then show ?thesis by (simp add: active_gws_def k)
qed

lemma active_clean_metric_other:
  assumes "k \<noteq> (ip, m)"
  shows "active_gws (clean_metric cfg ip m st) k = active_gws st k"
proof -
  obtain ip' m' where k: "k = (ip', m')" by (cases k)
  have "filter (ecmp_route ip' m') (clean_metric_list cfg ip m xs) = filter (ecmp_route ip' m') xs" for xs
    unfolding clean_metric_list_def using assms k
    by (auto intro!: filter_map_frame simp: metric_loser_def ecmp_route_def split: if_splits)
  then show ?thesis by (simp add: active_gws_def k clean_metric_index)
qed

lemma clean_route_sync:
  assumes sync: "rip_sync st"
  shows "rip_sync (clean_route cfg h i st)"
proof -
  define p where "p = ripdb_index st h ! i"
  define ip m where "ip = rt_ip p" and "m = rt_mask p"
  define st1 where "st1 = (if rip_redist_static cfg \<noteq> 0
     then (ecmp_del cfg ip m st)\<lparr>static_update_trigger := 10\<rparr> else ecmp_del cfg ip m st)"
  define kill where "kill = (\<lambda>e. e\<lparr>rt_metric := 16 :: u32, rt_timeout := 0 :: u8\<rparr> :: RipDbElem)"
  have st1: "out st1 = out (ecmp_del cfg ip m st)" "ripdb_index st1 = ripdb_index st"
    by (simp_all add: st1_def)
  have rip: "rip_sync (ecmp_add cfg ip m (upd_elem h i kill st1))"
  proof (rule rip_reprogram [OF sync])
    show "active_gws (upd_elem h i kill st1) k = active_gws st k" if "k \<noteq> (ip, m)" for k
      using active_upd_other [of i st1 h kill ip m k] that active_cong [OF st1(2)]
      by (simp add: kill_def ip_def m_def p_def st1(2))
  qed (simp add: st1)
  have other: "rip_sync (upd_elem h i kill st)" if "rt_type p \<noteq> RCP_ROUTE_RIP"
  proof -
    have "active_gws (upd_elem h i kill st) = active_gws st"
      using that by (intro active_upd_same) (simp add: kill_def ecmp_route_def p_def)
    then show ?thesis using sync rip_sync_cong [of st "upd_elem h i kill st"] by simp
  qed
  define st3 where "st3 = (if rt_type p = RCP_ROUTE_RIP
     then ecmp_add cfg ip m (upd_elem h i kill st1) else upd_elem h i kill st)"
  have s3: "rip_sync st3" using rip other by (simp add: st3_def)
  define fin where "fin = (\<lambda>e. e\<lparr>rt_gc := word_of_nat (RIP_ROUTE_CLEANUP cfg) :: u8, rt_updated := True\<rparr>
     :: RipDbElem)"
  have "active_gws (upd_elem h i fin st3) = active_gws st3"
    by (rule active_upd_same) (simp add: fin_def ecmp_route_def)
  then have "rip_sync ((upd_elem h i fin st3)\<lparr>ripdb_update_available := True\<rparr>)"
    using s3 rip_sync_cong [of st3 "(upd_elem h i fin st3)\<lparr>ripdb_update_available := True\<rparr>"]
      active_cong [of "(upd_elem h i fin st3)\<lparr>ripdb_update_available := True\<rparr>" "upd_elem h i fin st3"]
    by simp
  moreover have "clean_route cfg h i st =
      (if rt_gc p = 0 then (upd_elem h i fin st3)\<lparr>ripdb_update_available := True\<rparr> else st3)"
    by (simp add: clean_route_def Let_def p_def ip_def m_def st1_def st3_def kill_def fin_def)
  ultimately show ?thesis using s3 by simp
qed

lemma initialize_sync: "db_inv st \<Longrightarrow> rip_sync st \<Longrightarrow> rip_sync (initialize st)"
  by (rule rip_sync_cong [of st]) (auto intro: active_cong)

lemma assert_sync: "rip_sync st \<Longrightarrow> rip_sync (assert_c b st)"
  by (simp add: assert_c_def rip_sync_def fib_of_emit)

lemma flag_sync [simp]:
  "rip_sync (st\<lparr>ripdb_update_available := b\<rparr>) = rip_sync st"
  by (simp add: rip_sync_def fib_of_def active_gws_def)

lemma ripdb_refresh_sync:
  assumes sync: "rip_sync st" and found: "find_exact type ip m gw partner st = Some i"
  shows "rip_sync (ripdb_refresh cfg ip m metric intf i st)"
proof -
  define h where "h = rip_hash ip"
  define e where "e = ripdb_index st h ! i"
  define upd where "upd \<longleftrightarrow> rt_metric e \<noteq> metric \<or> rt_gc e \<noteq> 0 \<or> rt_interface e \<noteq> intf"
  define f1 where "f1 = (\<lambda>p. p\<lparr>rt_timeout := word_of_nat (RIP_ROUTE_TIMEOUT cfg) :: u8,
                                     rt_gc := 0 :: u8, rt_interface := intf\<rparr> :: RipDbElem)"
  define f2 where "f2 = (\<lambda>p. p\<lparr>rt_metric := metric\<rparr> :: RipDbElem)"
  define f3 where "f3 = (\<lambda>p. p\<lparr>rt_updated := True\<rparr> :: RipDbElem)"
  define st1 where "st1 = upd_elem h i f1 st"
  have i: "i < length (ripdb_index st h)" and key: "rt_ip e = ip" "rt_mask e = m"
    using find_exactD [OF found] by (simp_all add: h_def e_def elem_key_def)
  have e1: "ripdb_index st1 h ! i = f1 e" using i by (simp add: st1_def e_def nth_upd_pos)
  have "active_gws st1 = active_gws st"
    unfolding st1_def by (rule active_upd_same) (simp add: f1_def ecmp_route_def)
  then have s1: "rip_sync st1" using sync rip_sync_cong [of st st1] by (simp add: st1_def)
  have rip: "rip_sync (ecmp_add cfg ip m (clean_metric cfg ip m (upd_elem h i f2 (ecmp_del cfg ip m st1))))"
  proof (rule rip_reprogram [OF s1])
    fix k assume k: "k \<noteq> (ip, m)"
    have "active_gws (upd_elem h i f2 (ecmp_del cfg ip m st1)) k = active_gws (ecmp_del cfg ip m st1) k"
      by (rule active_upd_other [OF _ k]) (simp add: e1 f1_def f2_def key)
    then show "active_gws (clean_metric cfg ip m (upd_elem h i f2 (ecmp_del cfg ip m st1))) k = active_gws st1 k"
      using k by (simp add: active_clean_metric_other)
  qed simp
  have other: "rip_sync (upd_elem h i f2 st1)" if "\<not> (rt_type e = RCP_ROUTE_RIP \<and> upd)"
  proof -
    have "active_gws (upd_elem h i f2 st1) = active_gws st1"
      by (rule active_upd_same) (use that in \<open>auto simp: e1 f1_def f2_def ecmp_route_def upd_def\<close>)
    then show ?thesis using s1 rip_sync_cong [of st1 "upd_elem h i f2 st1"] by simp
  qed
  define st2 where "st2 = (if rt_type e = RCP_ROUTE_RIP \<and> upd
     then ecmp_add cfg ip m (clean_metric cfg ip m (upd_elem h i f2 (ecmp_del cfg ip m st1)))
     else upd_elem h i f2 st1)"
  have s2: "rip_sync st2" using rip other by (simp add: st2_def)
  have "active_gws (upd_elem h i f3 st2) = active_gws st2"
    by (rule active_upd_same) (simp add: f3_def ecmp_route_def)
  then have "rip_sync (upd_elem h i f3 st2)"
    using s2 rip_sync_cong [of st2 "upd_elem h i f3 st2"] by simp
  moreover have "ripdb_refresh cfg ip m metric intf i st =
      (if upd then (upd_elem h i f3 st2)\<lparr>ripdb_update_available := True\<rparr> else st2)"
    by (simp only: ripdb_refresh_def Let_def h_def e_def upd_def f1_def f2_def f3_def st1_def st2_def)
  ultimately show ?thesis using s2 by simp
qed

lemma ripdb_replace_sync:
  assumes sync: "rip_sync st" and found: "find_route ip m st = Some i"
  shows "rip_sync (ripdb_replace cfg type ip m gw metric partner intf i st)"
  unfolding ripdb_replace_def
proof (rule rip_reprogram [OF sync])
  fix k assume k: "k \<noteq> (ip, m)"
  let ?f = "\<lambda>p. p\<lparr>rt_type := type, rt_metric := metric, rt_gw := gw, rt_partner := partner,
                  rt_timeout := word_of_nat (RIP_ROUTE_TIMEOUT cfg), rt_gc := 0,
                  rt_interface := intf, rt_updated := True\<rparr>"
  let ?s = "(upd_elem (rip_hash ip) i ?f (ecmp_del cfg ip m st))\<lparr>ripdb_update_available := True\<rparr>"
  have "active_gws ?s k = active_gws (upd_elem (rip_hash ip) i ?f (ecmp_del cfg ip m st)) k"
    by (simp add: active_gws_def)
  also have "\<dots> = active_gws (ecmp_del cfg ip m st) k"
    using find_routeD [OF found] by (intro active_upd_other [OF _ k]) simp
  finally show "active_gws (clean_metric cfg ip m ?s) k = active_gws st k"
    using k by (simp add: active_clean_metric_other)
qed simp

lemma active_insert_other:
  "k \<noteq> (rt_ip e, rt_mask e) \<or> rt_type e \<noteq> RCP_ROUTE_RIP \<Longrightarrow>
   active_gws (st\<lparr>ripdb_index := (ripdb_index st)(h := e # ripdb_index st h)\<rparr>) k = active_gws st k"
  by (cases k) (auto simp: active_gws_def ecmp_route_def)

lemma ripdb_insert_sync:
  assumes sync: "rip_sync st" and fits: "ecmp_fits ecmp type ip m metric st" and metric: "metric < 16"
  shows "rip_sync (snd (ripdb_insert cfg type ip m gw metric partner intf ecmp st))"
proof -
  define e where "e = new_elem cfg type ip m gw metric partner intf"
  define link where "link = (\<lambda>s. s\<lparr>ripdb_index := (ripdb_index s)(rip_hash ip := e # ripdb_index s (rip_hash ip))\<rparr>
      :: rip_state)"
  define st1 where "st1 = st\<lparr>ripdb_update_available := True\<rparr>"
  have s1: "rip_sync st1" using sync by (simp add: st1_def)
  have other: "rip_sync (link st1)" if "type \<noteq> RCP_ROUTE_RIP"
  proof (rule rip_sync_cong [OF _ _ s1])
    show "active_gws st1 = active_gws (link st1)"
      using that by (simp add: link_def fun_eq_iff active_insert_other e_def del: split_paired_All)
  qed (simp add: link_def)
  have multi: "rip_sync (ecmp_add cfg ip m (link (ecmp_del cfg ip m st1)))"
  proof (rule rip_reprogram [OF s1])
    show "active_gws (link (ecmp_del cfg ip m st1)) k = active_gws st1 k" if "k \<noteq> (ip, m)" for k
      using active_insert_other [of k e "ecmp_del cfg ip m st1" "rip_hash ip"] that
      unfolding link_def by (simp add: e_def)
  qed (simp add: link_def)
  have single: "rip_sync (ripdb_redistribute_route cfg True ip m gw
       (emit (Kernel (KAddRoute RCP_ROUTE_RIP ip m gw metric)) (link st1)))"
    if "type = RCP_ROUTE_RIP" "\<not> ecmp"
  proof -
    have none: "active_gws st1 (ip, m) = []"
      using fits that(2)
      by (auto simp: ecmp_fits_def active_gws_def st1_def find_route_def find_pos_None ecmp_route_def
                     filter_empty_conv split: option.splits)
    have "ecmp_route ip m e" using that(1) metric by (simp add: e_def ecmp_route_def)
    with none have "active_gws (link st1) (ip, m) = [gw]"
      by (simp add: link_def active_gws_def e_def)
    moreover have "active_gws (link st1) k = active_gws st1 k" if "k \<noteq> (ip, m)" for k
      using that by (simp add: link_def active_insert_other e_def)
    ultimately have "active_gws (link st1) = (active_gws st1)((ip, m) := [gw])"
      by (simp add: fun_eq_iff del: split_paired_All)
    moreover have "fib_of (link st1) = fib_of st1" by (rule fib_of_cong) (simp add: link_def)
    ultimately show ?thesis using s1 none by (simp add: rip_sync_def fib_of_emit)
  qed
  show ?thesis
    using sync other multi single
    by (auto simp: ripdb_insert_def Let_def link_def st1_def e_def)
qed

lemma ripdb_add_sync:
  assumes "db_inv st0" "rip_sync st0" "metric < 16"
  shows "rip_sync (snd (ripdb_add cfg type ip m gw metric partner intf st0))"
proof -
  have "rip_sync (initialize (assert_c (metric < 16) (assert_c (metric \<noteq> 0) st0)))"
    using assms by (intro initialize_sync assert_sync) simp_all
  then show ?thesis
    using assms(3)
    by (cases rule: ripdb_add_cases [OF assms(1), of type ip m gw partner metric cfg intf])
       (auto intro: ripdb_refresh_sync ripdb_replace_sync ripdb_insert_sync)
qed

lemma ripdb_delete_sync:
  assumes "db_inv st0" "rip_sync st0"
  shows "rip_sync (snd (ripdb_delete cfg type ip m gw partner st0))"
    and "rip_sync (snd (ripdb_delete_rip cfg ip m st0))"
  using initialize_sync [OF assms]
  by (auto simp: ripdb_delete_def ripdb_delete_rip_def Let_def split: option.split intro: clean_route_sync)

lemma clean_all_sync: "db_inv st \<Longrightarrow> rip_sync st \<Longrightarrow> rip_sync (clean_all cfg P st)"
  by (rule clean_all_induct [where I = rip_sync]) (auto intro: clean_route_sync initialize_sync)

lemma ripdb_clean_updates_sync:
  assumes "db_inv st" "rip_sync st"
  shows "rip_sync (ripdb_clean_updates st)"
proof (rule rip_sync_cong [OF _ _ assms(2)])
  have "map rt_gw (filter (ecmp_route ip m) (map (rt_updated_update (\<lambda>_. False)) xs))
      = map rt_gw (filter (ecmp_route ip m) xs)" for ip m xs
    by (induction xs) (auto simp: ecmp_route_def)
  then show "active_gws st = active_gws (ripdb_clean_updates st)"
    using assms(1) by (simp add: ripdb_clean_updates_def Let_def active_gws_def)
qed (simp add: ripdb_clean_updates_def Let_def)

lemma upd_same_sync:
  assumes "rip_sync st" and "\<And>p. rt_gw (f p) = rt_gw p" "\<And>ip m p. ecmp_route ip m (f p) = ecmp_route ip m p"
  shows "rip_sync (upd_elem h i f st)"
  using rip_sync_cong [of st "upd_elem h i f st"] active_upd_same [of i st h f] assms by simp

lemma age_route_sync: "rip_sync st \<Longrightarrow> rip_sync (age_route cfg h i st)"
  unfolding age_route_def Let_def
  by (auto intro!: clean_route_sync upd_same_sync simp: ecmp_route_def)

lemma filter_remove:
  "i < length xs \<Longrightarrow> \<not> P (xs ! i) \<Longrightarrow> filter P (take i xs @ drop (Suc i) xs) = filter P xs"
  by (subst (3) id_take_nth_drop [of i xs]) simp_all

lemma remove_elem_sync:
  assumes "rip_sync st" "db_inv st" "i < length (ripdb_index st h)" "rt_timeout (ripdb_index st h ! i) = 0"
  shows "rip_sync (remove_elem h i st)"
proof (rule rip_sync_cong [OF _ _ assms(1)])
  have "elem_ok (ripdb_index st h ! i)"
    using chain_okD [OF db_inv_chain nth_mem [OF assms(3)]] assms(2) by blast
  then have "\<not> ecmp_route ip m (ripdb_index st h ! i)" for ip m
    using assms(4) by (auto simp: elem_ok_def ecmp_route_def split: if_splits)
  then show "active_gws st = active_gws (remove_elem h i st)"
    using filter_remove [OF assms(3)] by (auto simp: active_gws_def remove_elem_def fun_eq_iff)
qed (simp add: remove_elem_def)

lemma gc_tick_sync: "rip_sync st \<Longrightarrow> rip_sync (upd_elem h i gc_tick st)"
  by (rule upd_same_sync) (simp_all add: gc_tick_def ecmp_route_def)

section \<open>Assertions\<close>

definition no_assert :: "rip_state \<Rightarrow> bool" where
  "no_assert st \<longleftrightarrow> Assertion \<notin> set (out st)"

lemma no_assert_emit [simp]: "no_assert (emit e st) \<longleftrightarrow> e \<noteq> Assertion \<and> no_assert st"
  by (auto simp: no_assert_def)

lemma no_assert_cong [simp]:
  "no_assert (upd_elem h i f st) = no_assert st" "no_assert (clean_metric cfg ip m st) = no_assert st"
  "no_assert (initialize st) = no_assert st" "no_assert (remove_elem h i st) = no_assert st"
  "no_assert (st\<lparr>ripdb_index := x\<rparr>) = no_assert st"
  "no_assert (st\<lparr>ripdb_update_available := b\<rparr>) = no_assert st"
  "no_assert (st\<lparr>static_update_trigger := n\<rparr>) = no_assert st"
  "no_assert (st\<lparr>muxsock := b\<rparr>) = no_assert st"
  by (simp_all add: no_assert_def remove_elem_def)

lemma no_assert_redistribute [simp]:
  "no_assert (ripdb_redistribute_route cfg a ip m g st) = no_assert st"
  by (simp add: ripdb_redistribute_route_def)

lemma no_assert_fold [simp]:
  "no_assert (fold (\<lambda>p. ripdb_redistribute_route cfg a ip m (g p)) ps st) = no_assert st"
  by (induction ps arbitrary: st) simp_all

lemma no_assert_ecmp [simp]:
  "no_assert (ecmp_del cfg ip m st) = no_assert st" "no_assert (ecmp_add cfg ip m st) = no_assert st"
  by (simp_all add: ecmp_del_def ecmp_add_def Let_def split: list.split)

lemma no_assert_clean_route [simp]: "no_assert (clean_route cfg h i st) = no_assert st"
  by (simp add: clean_route_def Let_def)

lemma no_assert_age_route [simp]: "no_assert (age_route cfg h i st) = no_assert st"
  by (simp add: age_route_def Let_def)

lemma no_assert_clean_all: "no_assert st \<Longrightarrow> no_assert (clean_all cfg P st)"
  by (rule clean_all_induct [where I = no_assert]) simp_all

lemma no_assert_insert [simp]:
  "no_assert (snd (ripdb_insert cfg type ip m gw metric partner intf ecmp st)) = no_assert st"
  by (simp add: ripdb_insert_def Let_def)

lemma no_assert_add:
  assumes "db_inv st" "no_assert st" "metric \<noteq> 0" "metric < 16"
  shows "no_assert (snd (ripdb_add cfg type ip m gw metric partner intf st))"
  using assms
  by (cases rule: ripdb_add_cases [OF assms(1), of type ip m gw partner metric cfg intf])
     (simp_all add: assert_c_def ripdb_refresh_def ripdb_replace_def Let_def)

section \<open>The database under any sequence of operations\<close>

text \<open>One good state: the invariant, the kernel in step, no failed assertion.\<close>

definition rip_good :: "rip_state \<Rightarrow> bool" where
  "rip_good st \<longleftrightarrow> db_inv st \<and> rip_sync st \<and> no_assert st"

datatype db_op =
    DbAdd RcpRouteType u32 u32 u32 u32 u32 nat
  | DbDelete RcpRouteType u32 u32 u32 u32
  | DbDeleteRip u32 u32
  | DbDeleteInterface nat
  | DbDeleteType RcpRouteType
  | DbDeleteAll
  | DbCleanUpdates
  | DbTimeout
  | DbRouteRequest

primrec db_step :: "rip_cfg \<Rightarrow> db_op \<Rightarrow> rip_state \<Rightarrow> rip_state" where
  "db_step cfg (DbAdd type ip m gw metric partner intf) st =
     snd (ripdb_add cfg type ip m gw metric partner intf st)"
| "db_step cfg (DbDelete type ip m gw partner) st = snd (ripdb_delete cfg type ip m gw partner st)"
| "db_step cfg (DbDeleteRip ip m) st = snd (ripdb_delete_rip cfg ip m st)"
| "db_step cfg (DbDeleteInterface intf) st = ripdb_delete_interface cfg intf st"
| "db_step cfg (DbDeleteType type) st = ripdb_delete_type cfg type st"
| "db_step cfg DbDeleteAll st = ripdb_delete_all cfg st"
| "db_step cfg DbCleanUpdates st = ripdb_clean_updates st"
| "db_step cfg DbTimeout st = ripdb_timeout cfg st"
| "db_step cfg DbRouteRequest st = ripdb_route_request cfg st"

text \<open>Callers add routes with a metric of 1 to 15.\<close>

primrec db_op_ok :: "db_op \<Rightarrow> bool" where
  "db_op_ok (DbAdd type ip m gw metric partner intf) \<longleftrightarrow> metric \<noteq> 0 \<and> metric < 16"
| "db_op_ok (DbDelete type ip m gw partner) \<longleftrightarrow> True"
| "db_op_ok (DbDeleteRip ip m) \<longleftrightarrow> True"
| "db_op_ok (DbDeleteInterface intf) \<longleftrightarrow> True"
| "db_op_ok (DbDeleteType type) \<longleftrightarrow> True"
| "db_op_ok DbDeleteAll \<longleftrightarrow> True"
| "db_op_ok DbCleanUpdates \<longleftrightarrow> True"
| "db_op_ok DbTimeout \<longleftrightarrow> True"
| "db_op_ok DbRouteRequest \<longleftrightarrow> True"

definition rip_init :: rip_state where
  "rip_init = \<lparr>initialized = False, ripdb_index = (\<lambda>_. []), ripdb_update_available = False,
               static_update_trigger = 0, muxsock = True, out = []\<rparr>"

lemma rip_good_init: "rip_good rip_init"
  by (simp add: rip_good_def rip_init_def db_inv_def rip_sync_def fib_of_def fib_run_def
                active_gws_def no_assert_def fun_eq_iff)

lemma ripdb_timeout_good:
  assumes "timer_ok cfg" "rip_good st"
  shows "rip_good (ripdb_timeout cfg st)"
proof -
  define I where "I = (\<lambda>s. rip_sync s \<and> no_assert s)"
  have one: "I (list_timeout cfg h 0 s) \<and> db_inv (list_timeout cfg h 0 s) \<and> initialized (list_timeout cfg h 0 s)"
    if "I s" "db_inv s" "initialized s" for h s
    by (rule list_timeout_induct [where I = I, OF assms(1) _ _ _ that])
       (auto simp: I_def age_route_sync remove_elem_sync gc_tick_sync)
  have "I s \<Longrightarrow> db_inv s \<Longrightarrow> initialized s \<Longrightarrow>
     I (fold (\<lambda>h. list_timeout cfg h 0) hs s) \<and> db_inv (fold (\<lambda>h. list_timeout cfg h 0) hs s)" for hs s
    by (induction hs arbitrary: s) (simp_all add: one)
  from this [of "initialize st" buckets] show ?thesis
    using assms(2) by (simp add: ripdb_timeout_def rip_good_def I_def initialize_sync)
qed

lemma redistribute_good [simp]: "rip_good (ripdb_redistribute_route cfg a ip m g st) = rip_good st"
  by (simp add: rip_good_def db_inv_def rip_sync_def)

lemma request_chain_good: "rip_good (snd cs) \<Longrightarrow> rip_good (snd (request_chain cfg ps cs))"
  by (induction cfg ps cs rule: request_chain.induct) simp_all

lemma ripdb_route_request_good:
  assumes "rip_good st"
  shows "rip_good (ripdb_route_request cfg st)"
proof -
  have "rip_good (snd cs) \<Longrightarrow>
      rip_good (snd (fold (\<lambda>h cs. request_chain cfg (ripdb_index (snd cs) h) cs) hs cs))" for hs cs
    by (induction hs arbitrary: cs) (simp_all add: request_chain_good)
  from this [of "(0, st)" buckets] assms show ?thesis by (simp add: ripdb_route_request_def)
qed

lemma db_step_good:
  assumes t: "timer_ok cfg" and good: "rip_good st" and ok: "db_op_ok op"
  shows "rip_good (db_step cfg op st)"
proof -
  have inv: "db_inv st" and sync: "rip_sync st" and na: "no_assert st"
    using good by (simp_all add: rip_good_def)
  show ?thesis
  proof (cases op)
    case (DbAdd type ip m gw metric partner intf)
    then show ?thesis using t inv sync na ok
      by (simp add: rip_good_def ripdb_add_inv ripdb_add_sync no_assert_add)
  next
    case (DbDelete type ip m gw partner)
    then show ?thesis using t inv sync na
      by (auto simp: rip_good_def ripdb_delete_inv ripdb_delete_sync)
         (simp add: ripdb_delete_def Let_def split: option.split)
  next
    case (DbDeleteRip ip m)
    then show ?thesis using t inv sync na
      by (auto simp: rip_good_def ripdb_delete_rip_inv ripdb_delete_sync)
         (simp add: ripdb_delete_rip_def Let_def split: option.split)
  next
    case DbCleanUpdates
    then show ?thesis using inv sync na
      by (simp add: rip_good_def ripdb_clean_updates_inv ripdb_clean_updates_sync)
         (simp add: ripdb_clean_updates_def Let_def)
  qed (simp_all add: rip_good_def ripdb_delete_interface_def ripdb_delete_type_def ripdb_delete_all_def
        clean_all_inv clean_all_sync no_assert_clean_all t inv sync na
        ripdb_timeout_good [OF t good, unfolded rip_good_def]
        ripdb_route_request_good [OF good, unfolded rip_good_def])
qed

text \<open>The database as a step system.\<close>

definition db_op_cfg_ok :: "rip_cfg \<times> db_op \<Rightarrow> bool" where
  "db_op_cfg_ok x \<longleftrightarrow> timer_range (fst x) \<and> db_op_ok (snd x)"

definition db_step_cfg :: "rip_cfg \<times> db_op \<Rightarrow> rip_state \<Rightarrow> rip_state" where
  "db_step_cfg x st = db_step (fst x) (snd x) st"

interpretation ripdb: step_system db_step_cfg rip_good db_op_cfg_ok
  by unfold_locales (simp add: db_step_cfg_def db_op_cfg_ok_def db_step_good timer_range_ok)

end
