(* ===== verification/Rip_Life.thy ===== *)
theory Rip_Life
  imports Rip_Sync
begin

text \<open>
  The life of a route in the RIP database: what one second of \<open>ripdb_timeout\<close> does to every
  element, when a route that is not refreshed becomes unreachable and when it is removed; what
  \<open>ripdb_add\<close> leaves behind; and what a response packet is made of.
\<close>

section \<open>One tick of the timers\<close>

text \<open>The effect of a tick on one element: the list of what is left of it.\<close>

definition tick :: "rip_cfg \<Rightarrow> RipDbElem \<Rightarrow> RipDbElem list" where
  "tick cfg p =
     (if rt_timeout p \<noteq> 0 then [aged cfg p]
      else if rt_gc p - 1 = 0 then [] else [gc_tick p])"

lemma upd_pos_split:
  "i < length xs \<Longrightarrow> upd_pos i f xs = take i xs @ f (xs ! i) # drop (Suc i) xs"
  by (simp add: upd_pos_def upd_conv_take_nth_drop)

lemma list_timeout_chain:
  "\<lbrakk>timer_ok cfg; db_inv st; initialized st; i \<le> length (ripdb_index st h)\<rbrakk> \<Longrightarrow>
   ripdb_index (list_timeout cfg h i st) =
     (ripdb_index st)(h := take i (ripdb_index st h) @ concat (map (tick cfg) (drop i (ripdb_index st h))))"
proof (induction cfg h i st rule: list_timeout.induct)
  case (1 cfg h i st)
  let ?xs = "ripdb_index st h"
  let ?e = "?xs ! i"
  show ?case
  proof (cases "i < length ?xs")
    case False
    then show ?thesis by (subst list_timeout.simps) simp
  next
    case i: True
    have ok: "elem_ok ?e" using chain_okD [OF db_inv_chain nth_mem [OF i]] "1.prems"(2) by blast
    have drop: "drop i ?xs = ?e # drop (Suc i) ?xs" using i by (simp add: Cons_nth_drop_Suc)
    consider (live) "rt_timeout ?e \<noteq> 0"
      | (last) "rt_timeout ?e = 0" "rt_gc ?e \<noteq> 0" "rt_gc ?e - 1 = 0"
      | (gc) "rt_timeout ?e = 0" "rt_gc ?e \<noteq> 0" "rt_gc ?e - 1 \<noteq> 0"
      using ok by (auto simp: elem_ok_def split: if_splits)
    then show ?thesis
    proof cases
      case live
      have "list_timeout cfg h i st = list_timeout cfg h (Suc i) (age_route cfg h i st)"
        using i live by (subst list_timeout.simps) (simp add: word_neq_0_conv)
      moreover have "tick cfg ?e = [aged cfg ?e]" using live by (simp add: tick_def)
      moreover have "ripdb_index (list_timeout cfg h (Suc i) (age_route cfg h i st)) =
          (ripdb_index (age_route cfg h i st))(h := take (Suc i) (ripdb_index (age_route cfg h i st) h) @
             concat (map (tick cfg) (drop (Suc i) (ripdb_index (age_route cfg h i st) h))))"
        using "1.IH"(1) [OF _ refl] "1.prems" i live age_route_inv [of cfg st i h]
        by (simp add: word_neq_0_conv Suc_leI fun_eq_iff)
      ultimately show ?thesis
        using i by (simp add: age_route_index upd_pos_split drop)
    next
      case last
      have "list_timeout cfg h i st = list_timeout cfg h i (remove_elem h i st)"
        using i last by (subst list_timeout.simps) (simp add: word_neq_0_conv)
      moreover have "ripdb_index (list_timeout cfg h i (remove_elem h i st)) =
          (ripdb_index (remove_elem h i st))(h := take i (ripdb_index (remove_elem h i st) h) @
             concat (map (tick cfg) (drop i (ripdb_index (remove_elem h i st) h))))"
        using "1.IH"(2) [OF _ refl] "1.prems" i last remove_elem_inv [of st h i]
        by (simp add: word_neq_0_conv remove_elem_def fun_eq_iff)
      moreover have "tick cfg ?e = []" using last by (simp add: tick_def)
      ultimately show ?thesis
        using i by (simp add: remove_elem_def drop)
    next
      case gc
      have "list_timeout cfg h i st = list_timeout cfg h (Suc i) (upd_elem h i gc_tick st)"
        using i gc unfolding gc_tick_def by (subst list_timeout.simps) (simp add: word_neq_0_conv)
      moreover have "tick cfg ?e = [gc_tick ?e]" using gc by (simp add: tick_def)
      moreover have "ripdb_index (list_timeout cfg h (Suc i) (upd_elem h i gc_tick st)) =
          (ripdb_index (upd_elem h i gc_tick st))(h := take (Suc i) (ripdb_index (upd_elem h i gc_tick st) h) @
             concat (map (tick cfg) (drop (Suc i) (ripdb_index (upd_elem h i gc_tick st) h))))"
        using "1.IH"(3) [OF _ refl] "1.prems" i gc gc_tick_inv [of st i h]
        by (simp add: word_neq_0_conv Suc_leI fun_eq_iff flip: gc_tick_def)
      ultimately show ?thesis
        using i by (simp add: upd_pos_split drop)
    qed
  qed
qed

lemma list_timeout_keeps:
  "\<lbrakk>timer_ok cfg; db_inv st; initialized st\<rbrakk> \<Longrightarrow>
   db_inv (list_timeout cfg h i st) \<and> initialized (list_timeout cfg h i st)"
  using list_timeout_induct [where I = "\<lambda>_. True", of cfg h st i] by simp

lemma distinct_buckets: "distinct buckets"
  unfolding buckets_def distinct_map
proof (intro conjI inj_onI)
  fix x y :: nat
  assume "x \<in> set [0..<256]" "y \<in> set [0..<256]" "(word_of_nat x :: u8) = word_of_nat y"
  then have "unat (word_of_nat x :: u8) = unat (word_of_nat y :: u8)" by simp
  then show "x = y" using \<open>x \<in> _\<close> \<open>y \<in> _\<close> by (simp add: unat_of_nat)
qed simp

lemma set_buckets: "h \<in> set buckets"
proof -
  have "h = word_of_nat (unat h)" by simp
  moreover have "unat h \<in> set [0..<256]" by simp
  ultimately show ?thesis unfolding buckets_def by (metis image_eqI set_map)
qed

lemma ripdb_timeout_index:
  assumes "timer_ok cfg" "db_inv st"
  shows "ripdb_index (ripdb_timeout cfg st) h = concat (map (tick cfg) (ripdb_index st h))"
proof -
  have "ripdb_index (fold (\<lambda>h. list_timeout cfg h 0) hs s) h =
      (if h \<in> set hs then concat (map (tick cfg) (ripdb_index s h)) else ripdb_index s h)"
    if "distinct hs" "db_inv s" "initialized s" for hs s
    using that
  proof (induction hs arbitrary: s)
    case (Cons k ks)
    have "db_inv (list_timeout cfg k 0 s) \<and> initialized (list_timeout cfg k 0 s)"
      using assms(1) Cons.prems by (intro list_timeout_keeps) simp_all
    with Cons list_timeout_chain [OF assms(1), of s 0 k] show ?case by auto
  qed simp
  from this [OF distinct_buckets, of "initialize st"] assms(2) show ?thesis
    by (simp add: ripdb_timeout_def set_buckets)
qed

lemma ripdb_timeout_inv: "timer_ok cfg \<Longrightarrow> db_inv st \<Longrightarrow> db_inv (ripdb_timeout cfg st)"
proof -
  assume t: "timer_ok cfg" and inv: "db_inv st"
  have "db_inv s \<Longrightarrow> initialized s \<Longrightarrow> db_inv (fold (\<lambda>h. list_timeout cfg h 0) hs s)" for hs s
    by (induction hs arbitrary: s) (simp_all add: list_timeout_keeps t)
  from this [of "initialize st"] inv show ?thesis by (simp add: ripdb_timeout_def)
qed

section \<open>Expiry of a route\<close>

text \<open>The elements with one key evolve on their own.\<close>

definition with_key :: "RcpRouteType \<times> u32 \<times> u32 \<times> u32 \<times> u32 \<Rightarrow> rip_state \<Rightarrow> RipDbElem list" where
  "with_key k st = filter (\<lambda>p. elem_key p = k) (ripdb_index st (rip_hash (fst (snd k))))"

lemma tick_key: "q \<in> set (tick cfg p) \<Longrightarrow> elem_key q = elem_key p"
  by (auto simp: tick_def gc_tick_def elem_key_def aged_def drop_loser_def Let_def split: if_splits)

lemma filter_ticks:
  "filter (\<lambda>p. elem_key p = k) (concat (map (tick cfg) xs))
     = concat (map (tick cfg) (filter (\<lambda>p. elem_key p = k) xs))"
proof (induction xs)
  case (Cons x xs)
  have "filter (\<lambda>p. elem_key p = k) (tick cfg x) = (if elem_key x = k then tick cfg x else [])"
    by (auto simp: filter_id_conv filter_empty_conv dest: tick_key)
  with Cons show ?case by simp
qed simp

lemma with_key_timeout:
  "\<lbrakk>timer_ok cfg; db_inv st\<rbrakk> \<Longrightarrow> with_key k (ripdb_timeout cfg st) = concat (map (tick cfg) (with_key k st))"
  by (simp add: with_key_def ripdb_timeout_index filter_ticks)

lemma with_key_funpow:
  assumes "timer_ok cfg" "db_inv st"
  shows "db_inv ((ripdb_timeout cfg ^^ n) st) \<and>
         with_key k ((ripdb_timeout cfg ^^ n) st) = ((\<lambda>xs. concat (map (tick cfg) xs)) ^^ n) (with_key k st)"
  by (induction n) (simp_all add: assms ripdb_timeout_inv with_key_timeout)

text \<open>An unreachable element is counted down and removed after \<open>gc\<close> ticks.\<close>

lemma dead_life:
  assumes "rt_timeout p = 0" "rt_gc p \<noteq> 0"
  shows "((\<lambda>xs. concat (map (tick cfg) xs)) ^^ unat (rt_gc p)) [p] = []"
  using assms
proof (induction "unat (rt_gc p)" arbitrary: p)
  case 0
  then show ?case by (simp add: unat_eq_0)
next
  case (Suc n)
  have n: "unat (rt_gc p - 1) = n"
    using Suc.hyps(2) Suc.prems(2) by (simp add: unat_minus_one)
  show ?case
  proof (cases "rt_gc p - 1 = 0")
    case True
    with n have "n = 0" by simp
    with True Suc.prems Suc.hyps(2) [symmetric] show ?thesis by (simp add: tick_def)
  next
    case False
    have "((\<lambda>xs. concat (map (tick cfg) xs)) ^^ n) [gc_tick p] = []"
      using Suc.hyps(1) [of "gc_tick p"] n Suc.prems False by (simp add: gc_tick_def)
    moreover have "tick cfg p = [gc_tick p]" using Suc.prems False by (simp add: tick_def)
    ultimately show ?thesis
      using Suc.hyps(2) [symmetric] by (simp add: funpow_Suc_right del: funpow.simps)
  qed
qed

text \<open>A usable RIP element that is not refreshed is unreachable after \<open>timeout\<close> ticks, with the
  garbage collection timer just started.\<close>

lemma live_life:
  assumes "rt_type p = RCP_ROUTE_RIP" "rt_timeout p \<noteq> 0"
  shows "\<exists>q. ((\<lambda>xs. concat (map (tick cfg) xs)) ^^ unat (rt_timeout p)) [p] = [q] \<and>
             rt_metric q = 16 \<and> rt_timeout q = 0 \<and> rt_gc q = word_of_nat (RIP_ROUTE_CLEANUP cfg)"
  using assms
proof (induction "unat (rt_timeout p)" arbitrary: p)
  case 0
  then show ?case by (simp add: unat_eq_0)
next
  case (Suc n)
  have n: "unat (rt_timeout p - 1) = n"
    using Suc.hyps(2) Suc.prems(2) by (simp add: unat_minus_one)
  show ?case
  proof (cases "rt_timeout p - 1 = 0")
    case True
    with n have "n = 0" by simp
    with True Suc.prems Suc.hyps(2) [symmetric] show ?thesis
      by (simp add: tick_def aged_def drop_loser_def)
  next
    case False
    have "\<exists>q. ((\<lambda>xs. concat (map (tick cfg) xs)) ^^ n) [aged cfg p] = [q] \<and>
             rt_metric q = 16 \<and> rt_timeout q = 0 \<and> rt_gc q = word_of_nat (RIP_ROUTE_CLEANUP cfg)"
      using Suc.hyps(1) [of "aged cfg p"] n Suc.prems False by (simp add: aged_def)
    moreover have "tick cfg p = [aged cfg p]" using Suc.prems by (simp add: tick_def)
    ultimately show ?thesis
      using Suc.hyps(2) [symmetric] by (simp add: funpow_Suc_right del: funpow.simps)
  qed
qed

lemma with_key_single:
  assumes "db_inv st" "p \<in> set (ripdb_index st h)"
  shows "with_key (elem_key p) st = [p]"
proof -
  have h: "rip_hash (rt_ip p) = h" "distinct (map elem_key (ripdb_index st h))"
    using chain_okD [OF db_inv_chain assms(2)] db_inv_chain [OF assms(1), of h] assms(1)
    by (auto simp: chain_ok_def)
  obtain us vs where split: "ripdb_index st h = us @ p # vs"
    using split_list [OF assms(2)] by blast
  have "filter (\<lambda>q. elem_key q = elem_key p) us = []" "filter (\<lambda>q. elem_key q = elem_key p) vs = []"
    using h(2) unfolding split by (simp_all add: filter_empty_conv) (metis imageI)+
  with h(1) show ?thesis by (simp add: with_key_def split elem_key_def)
qed

section \<open>What an addition leaves behind\<close>

definition usable_route :: "u32 \<Rightarrow> u32 \<Rightarrow> u32 \<Rightarrow> RipDbElem \<Rightarrow> bool" where
  "usable_route ip m metric p \<longleftrightarrow>
     rt_ip p = ip \<and> rt_mask p = m \<and> rt_metric p < 16 \<and> rt_metric p \<le> metric"

text \<open>\<open>clean_metric\<close> keeps the element it is called for, or a better one.\<close>

lemma best_metric_attained:
  "best_metric ip m xs \<noteq> 16 \<Longrightarrow>
   \<exists>p \<in> set xs. rt_type p = RCP_ROUTE_RIP \<and> rt_ip p = ip \<and> rt_mask p = m \<and> rt_metric p = best_metric ip m xs"
proof -
  define f where "f = (\<lambda>(p :: RipDbElem) best. if rt_type p = RCP_ROUTE_RIP \<and> rt_ip p = ip \<and> rt_mask p = m \<and> rt_metric p < best
                        then rt_metric p else (best :: u32))"
  have "fold f xs b = b \<or> (\<exists>p \<in> set xs. rt_type p = RCP_ROUTE_RIP \<and> rt_ip p = ip \<and> rt_mask p = m \<and>
          rt_metric p = fold f xs b)" for b
  proof (induction xs arbitrary: b)
    case (Cons x xs)
    show ?case
    proof (cases "f x b = b")
      case True
      with Cons.IH [of b] show ?thesis by auto
    next
      case False
      then have "rt_type x = RCP_ROUTE_RIP" "rt_ip x = ip" "rt_mask x = m" "f x b = rt_metric x"
        by (auto simp: f_def split: if_splits)
      with Cons.IH [of "f x b"] show ?thesis by auto
    qed
  qed simp
  then show "best_metric ip m xs \<noteq> 16 \<Longrightarrow> ?thesis"
    unfolding best_metric_def f_def by blast
qed

lemma clean_metric_keeps_usable:
  assumes "p \<in> set xs" "usable_route ip m metric p"
  shows "\<exists>q \<in> set (clean_metric_list cfg ip m xs). usable_route ip m metric q"
proof (cases "best_metric ip m xs = 16 \<or> \<not> metric_loser ip m (best_metric ip m xs) p")
  case True
  then have "p \<in> set (clean_metric_list cfg ip m xs)"
    using assms(1) by (auto simp: clean_metric_list_def image_iff intro!: bexI [of _ p])
  with assms(2) show ?thesis by blast
next
  case False
  then obtain q where q: "q \<in> set xs" "rt_ip q = ip" "rt_mask q = m" "rt_metric q = best_metric ip m xs"
    using best_metric_attained by blast
  have le: "best_metric ip m xs < rt_metric p" using False by (simp add: metric_loser_def)
  have "q \<in> set (clean_metric_list cfg ip m xs)"
    using q False by (auto simp: clean_metric_list_def image_iff metric_loser_def intro!: bexI [of _ q])
  moreover have "usable_route ip m metric q"
    using q le assms(2) by (auto simp: usable_route_def)
  ultimately show ?thesis by blast
qed

lemma upd_pos_mem: "i < length xs \<Longrightarrow> f (xs ! i) \<in> set (upd_pos i f xs)"
  by (simp add: upd_pos_def set_update_memI)

lemma mark_keeps_usable:
  "\<exists>q \<in> set xs. usable_route ip m metric q \<Longrightarrow>
   \<exists>q \<in> set (upd_pos i (\<lambda>p. p\<lparr>rt_updated := True\<rparr>) xs). usable_route ip m metric q"
proof -
  let ?f = "\<lambda>p. p\<lparr>rt_updated := True\<rparr> :: RipDbElem"
  assume "\<exists>q \<in> set xs. usable_route ip m metric q"
  then obtain j where j: "j < length xs" "usable_route ip m metric (xs ! j)"
    by (auto simp: in_set_conv_nth)
  have "usable_route ip m metric (upd_pos i ?f xs ! j)"
    using j by (simp add: nth_upd_pos usable_route_def)
  then show ?thesis using j(1) nth_mem [of j "upd_pos i ?f xs"] by (metis length_upd_pos)
qed

lemma ripdb_add_usable:
  assumes "db_inv st0" "malloc_ok cfg" "metric < 16"
  shows "\<exists>p \<in> set (ripdb_index (snd (ripdb_add cfg type ip m gw metric partner intf st0)) (rip_hash ip)).
           usable_route ip m metric p"
proof (cases rule: ripdb_add_cases [OF assms(1), of type ip m gw partner metric cfg intf])
  case (1 i)
  note refresh = this
  let ?st = "initialize (assert_c (metric < 16) (assert_c (metric \<noteq> 0) st0))"
  let ?xs = "ripdb_index ?st (rip_hash ip)"
  have e: "i < length ?xs" "elem_key (?xs ! i) = (type, ip, m, gw, partner)"
    using find_exactD [OF refresh(1)] by auto
  let ?ys = "upd_pos i (refreshed cfg metric intf) ?xs"
  have new: "refreshed cfg metric intf (?xs ! i) \<in> set ?ys"
     "usable_route ip m metric (refreshed cfg metric intf (?xs ! i))"
    using e assms(3) by (auto simp: upd_pos_mem usable_route_def elem_key_def)
  then have a: "\<exists>q \<in> set ?ys. usable_route ip m metric q"
     and b: "\<exists>q \<in> set (clean_metric_list cfg ip m ?ys). usable_route ip m metric q"
    by (blast intro: clean_metric_keeps_usable)+
  show ?thesis
    using a b mark_keeps_usable [OF a, of i] mark_keeps_usable [OF b, of i]
    by (simp only: refresh(2) snd_conv ripdb_refresh_index fun_upd_same) (simp split: if_split)
next
  case (2 i)
  note worse = this
  let ?st = "initialize (assert_c (metric < 16) (assert_c (metric \<noteq> 0) st0))"
  let ?e = "ripdb_index ?st (rip_hash ip) ! i"
  have "rt_metric ?e \<le> metric"
    using worse(3) by (auto simp: compare_type_metric_def split: if_splits)
  moreover from this assms(3) have "rt_metric ?e < 16" by (rule le_less_trans)
  ultimately have "usable_route ip m metric ?e"
    unfolding usable_route_def using find_routeD [OF worse(2)] by blast
  then show ?thesis
    using find_routeD(1) [OF worse(2)] nth_mem by (simp add: worse(4)) blast
next
  case (3 i)
  note replace = this
  let ?st = "initialize (assert_c (metric < 16) (assert_c (metric \<noteq> 0) st0))"
  let ?xs = "ripdb_index ?st (rip_hash ip)"
  let ?f = "replaced cfg type gw metric partner intf"
  have "?f (?xs ! i) \<in> set (upd_pos i ?f ?xs)"
    using find_routeD(1) [OF replace(2)] by (rule upd_pos_mem)
  moreover have "usable_route ip m metric (?f (?xs ! i))"
    using find_routeD(2,3) [OF replace(2)] assms(3) unfolding usable_route_def replaced_def by simp
  ultimately show ?thesis
    by (simp only: replace(4) snd_conv ripdb_replace_index fun_upd_same) (rule clean_metric_keeps_usable)
next
  case (4 ecmp)
  note insert = this
  show ?thesis
    using assms(3)
    by (simp add: insert(3) ripdb_insert_index [OF assms(2)] usable_route_def)
qed

section \<open>Response packets\<close>

definition known_type :: "RcpRouteType \<Rightarrow> bool" where
  "known_type t \<longleftrightarrow> t \<in> {RCP_ROUTE_RIP_NETWORK, RCP_ROUTE_CONNECTED, RCP_ROUTE_CONNECTED_SUBNETS,
                       RCP_ROUTE_STATIC, RCP_ROUTE_OSPF, RCP_ROUTE_RIP}"

lemma fill_route_slot: "known_type (rt_type p) \<Longrightarrow> fill_route intf p slot = fill_route intf p slot'"
  by (auto simp: known_type_def fill_route_def Let_def)

lemma response_chain_eq:
  assumes "\<forall>p \<in> set ps. known_type (rt_type p)"
  shows "length acc \<le> RIP_MAX_ROUTES \<Longrightarrow> response_chain intf upd buf ps acc =
     take RIP_MAX_ROUTES (acc @ map (\<lambda>p. fill_route intf p (buf 0)) (filter (\<lambda>p. upd \<longrightarrow> rt_updated p) ps))"
  using assms
proof (induction ps arbitrary: acc)
  case (Cons p ps)
  show ?case
  proof (cases "length acc < RIP_MAX_ROUTES")
    case True
    have "fill_route intf p (buf (length acc)) = fill_route intf p (buf 0)"
      using Cons.prems(2) by (intro fill_route_slot) simp
    moreover have "response_chain intf upd buf ps acc' =
        take RIP_MAX_ROUTES (acc' @ map (\<lambda>p. fill_route intf p (buf 0)) (filter (\<lambda>p. upd \<longrightarrow> rt_updated p) ps))"
      if "length acc' \<le> RIP_MAX_ROUTES" for acc'
      using Cons.IH [OF that] Cons.prems(2) by simp
    ultimately show ?thesis
      using True by (cases upd; cases "rt_updated p") (simp_all del: take_append)
  next
    case False
    then show ?thesis using Cons.prems by simp
  qed
qed simp

text \<open>The advertised entries are those of the elements of the table in bucket order, at most
  \<open>RIP_MAX_ROUTES\<close> of them, whatever the array held before.\<close>

definition response_spec :: "RcpInterface \<Rightarrow> bool \<Rightarrow> (nat \<Rightarrow> RipRoute) \<Rightarrow> rip_state \<Rightarrow> RipRoute list" where
  "response_spec intf upd buf st =
     take RIP_MAX_ROUTES (map (\<lambda>p. fill_route intf p (buf 0))
       (filter (\<lambda>p. upd \<longrightarrow> rt_updated p) (concat (map (ripdb_index st) buckets))))"

lemma take_append_take: "take n (take n xs @ ys) = take n (xs @ (ys :: 'a list))"
  by (cases "n \<le> length xs") simp_all

lemma ripdb_build_response_eq:
  assumes "\<forall>h. \<forall>p \<in> set (ripdb_index st h). known_type (rt_type p)"
  shows "ripdb_build_response intf upd buf st = response_spec intf upd buf st"
proof -
  define r where "r = (\<lambda>h. map (\<lambda>p. fill_route intf p (buf 0)) (filter (\<lambda>p. upd \<longrightarrow> rt_updated p) (ripdb_index st h)))"
  have "length acc \<le> RIP_MAX_ROUTES \<Longrightarrow>
      fold (\<lambda>h acc. response_chain intf upd buf (ripdb_index st h) acc) hs acc
      = take RIP_MAX_ROUTES (acc @ concat (map r hs))" for hs acc
  proof (induction hs arbitrary: acc)
    case (Cons h hs)
    have eq: "response_chain intf upd buf (ripdb_index st h) acc = take RIP_MAX_ROUTES (acc @ r h)"
      unfolding r_def using assms Cons.prems by (intro response_chain_eq) simp_all
    have "fold (\<lambda>h acc. response_chain intf upd buf (ripdb_index st h) acc) hs (take RIP_MAX_ROUTES (acc @ r h))
        = take RIP_MAX_ROUTES (take RIP_MAX_ROUTES (acc @ r h) @ concat (map r hs))"
      by (rule Cons.IH) simp
    then show ?case by (simp add: eq take_append_take del: take_append)
  qed simp
  from this [of "[]" buckets] show ?thesis
    by (simp add: ripdb_build_response_def response_spec_def r_def filter_concat map_concat comp_def)
qed

end
