(* ===== verification/Rip_Props.thy ===== *)
theory Rip_Props
  imports Rip_Life
begin

text \<open>
  The properties of the RIP route database: the kernel's table, the consistency of the stored
  routes and the assertions of the code for any sequence of operations from the empty database,
  the effect of an addition, the expiry of routes, and what is advertised to neighbours and to OSPF.
\<close>

section \<open>Shared facts\<close>

definition rip_run :: "(rip_cfg \<times> db_op) list \<Rightarrow> rip_state" where
  "rip_run ops = fold db_step_cfg ops rip_init"

lemma rip_run_good: "list_all db_op_cfg_ok ops \<Longrightarrow> rip_good (rip_run ops)"
  unfolding rip_run_def by (rule ripdb.run_inv [OF rip_good_init])

lemma rip_run_inv: "list_all db_op_cfg_ok ops \<Longrightarrow> db_inv (rip_run ops)"
  using rip_run_good by (simp add: rip_good_def)

text \<open>A configuration and a sequence of operations for the witnesses: two equal cost routes to
  10.0.0.0/8, a better one, an expiry tick and a deletion.\<close>

definition cfg0 :: rip_cfg where
  "cfg0 = \<lparr>rip_update_timer = 30, rip_redist_static = 1, rip_redist_connected = 0,
           rip_redist_connected_subnets = 0, rip_redist_ospf = 0, rip_default_information = 0,
           ospf_redist_rip = True, mux_send = (\<lambda>_. True), malloc_ok = True\<rparr>"

definition ops0 :: "(rip_cfg \<times> db_op) list" where
  "ops0 = map (Pair cfg0)
     [DbAdd RCP_ROUTE_RIP 0x0a000000 0xff000000 0xc0a80101 3 0xc0a80101 0,
      DbAdd RCP_ROUTE_RIP 0x0a000000 0xff000000 0xc0a80102 3 0xc0a80102 0,
      DbAdd RCP_ROUTE_RIP 0x0a000000 0xff000000 0xc0a80103 2 0xc0a80103 0,
      DbTimeout, DbDeleteRip 0x0a000000 0xff000000]"

lemma ops0_ok: "list_all db_op_cfg_ok ops0"
  by (simp add: ops0_def db_op_cfg_ok_def timer_range_def cfg0_def)

section \<open>Any sequence of operations\<close>

text \<open>C1: after any sequence of database operations with configured timers and metrics of 1 to 15, the
  kernel routing table obtained by executing the netlink calls issued so far, in order, holds for
  every prefix exactly the gateways of its reachable RIP routes, and no call was refused (no route
  added twice, none deleted that is not there).\<close>
theorem kernel_table_refines_database:
  assumes "list_all db_op_cfg_ok ops"
  shows "fib_of (rip_run ops) = Some (active_gws (rip_run ops))"
  using rip_run_good [OF assms] by (simp add: rip_good_def rip_sync_def)

theorem kernel_table_refines_database_witness:
  "list_all db_op_cfg_ok ops0 \<and> fib_of (rip_run ops0) = Some (active_gws (rip_run ops0))"
  using kernel_table_refines_database [OF ops0_ok] ops0_ok by simp

text \<open>C5: after any such sequence every route is in the bucket of its address, no two entries of a bucket
  have the same type, prefix, gateway and neighbour, and every entry is either reachable (metric 1
  to 15, timeout running, no garbage collection) or unreachable (metric 16, no timeout, garbage
  collection running).\<close>
theorem database_consistent:
  assumes "list_all db_op_cfg_ok ops"
  shows "\<forall>h. distinct (map elem_key (ripdb_index (rip_run ops) h)) \<and>
             list_all (\<lambda>p. rip_hash (rt_ip p) = h \<and>
               (if rt_metric p = 16 then rt_timeout p = 0 \<and> rt_gc p \<noteq> 0
                else rt_metric p \<noteq> 0 \<and> rt_metric p < 16 \<and> rt_timeout p \<noteq> 0 \<and> rt_gc p = 0))
               (ripdb_index (rip_run ops) h)"
  using rip_run_inv [OF assms] unfolding db_inv_def chain_ok_def elem_ok_def by blast

theorem database_consistent_witness:
  "list_all db_op_cfg_ok ops0 \<and> (\<forall>h. distinct (map elem_key (ripdb_index (rip_run ops0) h)))"
  using database_consistent [OF ops0_ok] ops0_ok by simp

text \<open>the reachable RIP routes of one prefix, which are installed together as an equal cost
  multipath route, always have the same metric.\<close>
theorem multipath_equal_cost:
  assumes "list_all db_op_cfg_ok ops"
    and "p \<in> set (ripdb_index (rip_run ops) h)" "ecmp_route ip m p"
    and "q \<in> set (ripdb_index (rip_run ops) h)" "ecmp_route ip m q"
  shows "rt_metric p = rt_metric q"
  using rip_run_inv [OF assms(1)] assms(2-5)
  unfolding db_inv_def chain_ok_def same_metric_def same_metric_at_def by blast

theorem multipath_equal_cost_witness:
  "let ops = [(cfg0, DbAdd RCP_ROUTE_RIP 0 0 1 3 1 0), (cfg0, DbAdd RCP_ROUTE_RIP 0 0 2 3 2 0)];
       p = new_elem cfg0 RCP_ROUTE_RIP 0 0 1 3 1 0; q = new_elem cfg0 RCP_ROUTE_RIP 0 0 2 3 2 0
   in list_all db_op_cfg_ok ops \<and> p \<in> set (ripdb_index (rip_run ops) 0) \<and>
      q \<in> set (ripdb_index (rip_run ops) 0) \<and> rt_metric p = rt_metric q"
proof -
  let ?ops = "[(cfg0, DbAdd RCP_ROUTE_RIP 0 0 1 3 1 0), (cfg0, DbAdd RCP_ROUTE_RIP 0 0 2 3 2 0)]"
  let ?p = "new_elem cfg0 RCP_ROUTE_RIP 0 0 1 3 1 0"
  let ?q = "new_elem cfg0 RCP_ROUTE_RIP 0 0 2 3 2 0"
  have ok: "list_all db_op_cfg_ok ?ops"
    by (simp add: db_op_cfg_ok_def timer_range_def cfg0_def)
  have eval: "ripdb_index (rip_run ?ops) 0 = [?q, ?p]"
    by (simp add: rip_run_def rip_init_def db_step_cfg_def ripdb_add_def Let_def initialize_def
        assert_c_def find_exact_def find_route_def ripdb_insert_def cfg0_def rip_hash_def
        compare_type_metric_def)
  then have mem: "?p \<in> set (ripdb_index (rip_run ?ops) 0)" "?q \<in> set (ripdb_index (rip_run ?ops) 0)"
    by simp_all
  have act: "ecmp_route 0 0 ?p" "ecmp_route 0 0 ?q" by (simp_all add: ecmp_route_def)
  show ?thesis
    unfolding Let_def
    using multipath_equal_cost [OF ok mem(1) act(1) mem(2) act(2)] ok mem by blast
qed

text \<open>no \<open>ASSERT\<close> of the database code fails in any such sequence.\<close>
theorem database_asserts_hold:
  assumes "list_all db_op_cfg_ok ops"
  shows "Assertion \<notin> set (out (rip_run ops))"
  using rip_run_good [OF assms] by (simp add: rip_good_def no_assert_def)

theorem database_asserts_hold_witness:
  "list_all db_op_cfg_ok ops0 \<and> Assertion \<notin> set (out (rip_run ops0))"
  using database_asserts_hold [OF ops0_ok] ops0_ok by simp

text \<open>Adding a route with a metric of 1 to 15 leaves a reachable entry for the prefix that is at
  least as good, whatever was stored before (when memory is available).\<close>
theorem ripdb_add_reachable:
  assumes "list_all db_op_cfg_ok ops" "malloc_ok cfg" "metric < 16"
  shows "\<exists>p \<in> set (ripdb_index (snd (ripdb_add cfg type ip m gw metric partner intf (rip_run ops)))
                    (rip_hash ip)).
           rt_ip p = ip \<and> rt_mask p = m \<and> rt_metric p \<le> metric"
  using ripdb_add_usable [OF rip_run_inv [OF assms(1)] assms(2,3), of type ip m gw partner intf]
  by (auto simp: usable_route_def)

theorem ripdb_add_reachable_witness:
  "\<exists>p \<in> set (ripdb_index (snd (ripdb_add cfg0 RCP_ROUTE_STATIC 0x0a000000 0xff000000 7 1 0 2 (rip_run ops0)))
                (rip_hash 0x0a000000)). rt_metric p \<le> 1"
proof -
  have "malloc_ok cfg0" "(1 :: u32) < 16" by (simp_all add: cfg0_def)
  from ripdb_add_reachable [OF ops0_ok this, of RCP_ROUTE_STATIC "0x0a000000" "0xff000000" 7 0 2]
  show ?thesis by blast
qed

section \<open>Expiry\<close>

text \<open>C27: a reachable RIP route that no neighbour refreshes is unreachable once its timeout has
  elapsed (one tick per second), and its entry is gone when the garbage collection time has elapsed
  after that.\<close>
theorem rip_route_expires:
  assumes "list_all db_op_cfg_ok ops" "timer_range cfg"
    and "p \<in> set (ripdb_index (rip_run ops) h)" "rt_type p = RCP_ROUTE_RIP" "rt_metric p < 16"
  shows "(\<exists>q. with_key (elem_key p) ((ripdb_timeout cfg ^^ unat (rt_timeout p)) (rip_run ops)) = [q] \<and>
             rt_metric q = 16) \<and>
    with_key (elem_key p) ((ripdb_timeout cfg ^^
           (unat (word_of_nat (RIP_ROUTE_CLEANUP cfg) :: u8) + unat (rt_timeout p))) (rip_run ops)) = []"
proof -
  let ?t = "\<lambda>xs. concat (map (tick cfg) xs)"
  note inv = rip_run_inv [OF assms(1)] and t = timer_range_ok [OF assms(2)]
  have "elem_ok p" using chain_okD [OF db_inv_chain assms(3)] inv by blast
  then have live: "rt_timeout p \<noteq> 0" using assms(5) by (auto simp: elem_ok_def split: if_splits)
  obtain q where q: "(?t ^^ unat (rt_timeout p)) [p] = [q]" "rt_metric q = 16" "rt_timeout q = 0"
      "rt_gc q = word_of_nat (RIP_ROUTE_CLEANUP cfg)"
    using live_life [OF assms(4) live] by blast
  have gc: "rt_gc q \<noteq> 0" using t q(4) by (simp add: timer_ok_def)
  note run = with_key_funpow [OF t inv, of _ "elem_key p", unfolded with_key_single [OF inv assms(3)]]
  have "\<exists>q. with_key (elem_key p) ((ripdb_timeout cfg ^^ unat (rt_timeout p)) (rip_run ops)) = [q] \<and>
            rt_metric q = 16"
    using run q by metis
  moreover have "(?t ^^ (unat (rt_gc q) + unat (rt_timeout p))) [p] = []"
    using dead_life [OF q(3) gc, of cfg] q(1) by (simp add: funpow_add)
  then have "with_key (elem_key p) ((ripdb_timeout cfg ^^
           (unat (word_of_nat (RIP_ROUTE_CLEANUP cfg) :: u8) + unat (rt_timeout p))) (rip_run ops)) = []"
    using run [THEN conjunct2] q(4) by metis
  ultimately show ?thesis by blast
qed

theorem rip_route_expires_witness:
  "with_key (RCP_ROUTE_RIP, 0, 0, 1, 1) ((ripdb_timeout cfg0 ^^ 300)
     (rip_run [(cfg0, DbAdd RCP_ROUTE_RIP 0 0 1 3 1 0)])) = []"
proof -
  let ?ops = "[(cfg0, DbAdd RCP_ROUTE_RIP 0 0 1 3 1 0)]"
  let ?p = "new_elem cfg0 RCP_ROUTE_RIP 0 0 1 3 1 0"
  have ok: "list_all db_op_cfg_ok ?ops" "timer_range cfg0"
    by (simp_all add: db_op_cfg_ok_def timer_range_def cfg0_def)
  have mem: "?p \<in> set (ripdb_index (rip_run ?ops) 0)"
    by (simp add: rip_run_def rip_init_def db_step_cfg_def ripdb_add_def Let_def initialize_def
        assert_c_def find_exact_def find_route_def ripdb_insert_def cfg0_def rip_hash_def)
  have "elem_key ?p = (RCP_ROUTE_RIP, 0, 0, 1, 1)" "unat (rt_timeout ?p) = 180"
       "unat (word_of_nat (RIP_ROUTE_CLEANUP cfg0) :: u8) = 120"
    by (simp_all add: new_elem_def elem_key_def RIP_ROUTE_TIMEOUT_def RIP_ROUTE_CLEANUP_def cfg0_def)
  then show ?thesis
    using rip_route_expires [OF ok mem, THEN conjunct2] by simp
qed

text \<open>an update timer of 43 seconds, which the command line accepts, makes new routes expire after
  2 seconds: six times 43 does not fit the byte that holds the timeout.\<close>
theorem route_timeout_wraps:
  "\<exists>cfg. timer_range cfg \<and> RIP_ROUTE_TIMEOUT cfg = 258 \<and>
     rt_timeout (new_elem cfg type ip m gw metric partner intf) = 2"
  by (rule exI [of _ "cfg0\<lparr>rip_update_timer := 43\<rparr>"])
     (simp add: timer_range_def RIP_ROUTE_TIMEOUT_def new_elem_def)

section \<open>Advertising\<close>

text \<open>a response lists the routes of the table in bucket order (only the changed ones in a
  triggered update), cut at the size of the array, whatever the array held before.\<close>
theorem build_response_spec:
  assumes "\<forall>h. \<forall>p \<in> set (ripdb_index st h). known_type (rt_type p)"
  shows "ripdb_build_response intf upd buf st = response_spec intf upd buf st \<and>
         length (ripdb_build_response intf upd buf st) \<le> RIP_MAX_ROUTES"
  unfolding ripdb_build_response_eq [OF assms] by (simp add: response_spec_def)

text \<open>A state with one RIP route, a changed connected network and an interface.\<close>

definition intf0 :: RcpInterface where
  "intf0 = \<lparr>if_name = ''eth0'', if_link_up = True, if_kindex = 1, if_ip = 0xc0a80114,
            if_mask = 0xffffff00, if_typ = IF_ETHERNET, rip_passive_interface = False,
            rip_multicast_ip = 0, rip_multicast_mask = 0, rip_timeout = 0, rip_passwd = []\<rparr>"

definition st0 :: rip_state where
  "st0 = rip_init\<lparr>initialized := True, ripdb_index := (\<lambda>h. if h = 10
     then [new_elem cfg0 RCP_ROUTE_RIP 0x0a000000 0xff000000 0xc0a80101 3 0xc0a80101 0] else [])\<rparr>"

theorem build_response_spec_witness:
  "ripdb_build_response intf0 True (\<lambda>_. undefined) st0 = response_spec intf0 True (\<lambda>_. undefined) st0"
proof -
  have "\<forall>h. \<forall>p \<in> set (ripdb_index st0 h). known_type (rt_type p)"
    by (simp add: st0_def known_type_def)
  with build_response_spec [OF this] show ?thesis by blast
qed



section \<open>Redistribution into OSPF\<close>

lemma redistribute_fold_out:
  assumes "muxsock st" "ospf_redist_rip cfg" "\<forall>e. mux_send cfg e"
  shows "out (fold (\<lambda>p. ripdb_redistribute_route cfg a ip m (rt_gw p)) ps st) =
         out st @ map (\<lambda>p. Redist a ip m (rt_gw p)) ps"
  using assms
  by (induction ps arbitrary: st) (simp_all add: ripdb_redistribute_route_def emit_def)

text \<open>when a prefix has several reachable RIP routes, \<open>ecmp_add\<close> announces the prefix to OSPF once
  for every entry of its hash bucket, with that entry's gateway: also for entries of other
  prefixes and for unreachable ones, whose gateways do not lead to the prefix.\<close>
theorem ecmp_add_announces_whole_bucket:
  assumes "muxsock st" "ospf_redist_rip cfg" "\<forall>e. mux_send cfg e"
    and "1 < length (filter (ecmp_route ip m) (ripdb_index st (rip_hash ip)))"
  shows "out (ecmp_add cfg ip m st) = out st @
           map (\<lambda>p. Redist True ip m (rt_gw p)) (ripdb_index st (rip_hash ip)) @
           [Kernel (KAddECMP RCP_ROUTE_RIP ip m
              (rt_metric (last (filter (ecmp_route ip m) (ripdb_index st (rip_hash ip)))))
              (active_gws st (ip, m)))]"
proof -
  obtain a b cs where f: "filter (ecmp_route ip m) (ripdb_index st (rip_hash ip)) = a # b # cs"
    using assms(4) by (cases "filter (ecmp_route ip m) (ripdb_index st (rip_hash ip))"; simp)
       (metis list.exhaust)
  show ?thesis
    by (simp add: ecmp_add_def Let_def f active_gws_def redistribute_fold_out [OF assms(1-3)])
qed

text \<open>Two equal cost routes to 10.0.0.0/8 share the bucket with an unreachable route to 10.1.1.0/24.\<close>

definition st1 :: rip_state where
  "st1 = rip_init\<lparr>initialized := True, ripdb_index := (\<lambda>h. if h = 10
     then [new_elem cfg0 RCP_ROUTE_RIP 0x0a000000 0xff000000 0xc0a80101 3 0xc0a80101 0,
           new_elem cfg0 RCP_ROUTE_RIP 0x0a000000 0xff000000 0xc0a80102 3 0xc0a80102 0,
           drop_loser cfg0 (new_elem cfg0 RCP_ROUTE_RIP 0x0a010100 0xffffff00 0xc0a80163 5 0xc0a80163 0)]
     else [])\<rparr>"

lemma cfg0_sends: "muxsock st1" "ospf_redist_rip cfg0" "\<forall>e. mux_send cfg0 e"
  by (simp_all add: st1_def rip_init_def cfg0_def)

theorem ecmp_add_announces_whole_bucket_witness:
  "Redist True 0x0a000000 0xff000000 0xc0a80163 \<in> set (out (ecmp_add cfg0 0x0a000000 0xff000000 st1)) \<and>
   0xc0a80163 \<notin> set (active_gws st1 (0x0a000000, 0xff000000))"
proof -
  have h: "rip_hash 0x0a000000 = 10" by (simp add: rip_hash_def)
  have "1 < length (filter (ecmp_route 0x0a000000 0xff000000) (ripdb_index st1 (rip_hash 0x0a000000)))"
    by (simp add: st1_def h ecmp_route_def new_elem_def drop_loser_def)
  from ecmp_add_announces_whole_bucket [OF cfg0_sends this]
  show ?thesis
    by (simp add: active_gws_def h st1_def ecmp_route_def new_elem_def drop_loser_def cfg0_def)
qed

text \<open>a route request from OSPF is answered with every stored RIP route, unreachable ones (metric
  16, waiting for garbage collection) included.\<close>
theorem route_request_announces_unreachable:
  assumes "muxsock st" "ospf_redist_rip cfg" "\<forall>e. mux_send cfg e"
    and "length (concat (map (ripdb_index st) buckets)) \<le> RIP_MAX_ROUTES"
  shows "out (ripdb_route_request cfg st) = out st @
           map (\<lambda>p. Redist True (rt_ip p) (rt_mask p) (rt_gw p))
             (filter (\<lambda>p. rt_type p = RCP_ROUTE_RIP) (concat (map (ripdb_index st) buckets)))"
proof -
  let ?ev = "\<lambda>ps. map (\<lambda>p. Redist True (rt_ip p) (rt_mask p) (rt_gw p))
                  (filter (\<lambda>p. rt_type p = RCP_ROUTE_RIP) ps)"
  have chain: "muxsock s \<Longrightarrow> c + length ps \<le> RIP_MAX_ROUTES \<Longrightarrow>
     request_chain cfg ps (c, s) = (c + length ps, s\<lparr>out := out s @ ?ev ps\<rparr>)" for ps c s
    using assms(2,3)
    by (induction ps arbitrary: c s) (simp_all add: ripdb_redistribute_route_def emit_def)
  have "muxsock s \<Longrightarrow> ripdb_index s = ripdb_index st \<Longrightarrow>
     c + length (concat (map (ripdb_index st) hs)) \<le> RIP_MAX_ROUTES \<Longrightarrow>
     snd (fold (\<lambda>h cs. request_chain cfg (ripdb_index (snd cs) h) cs) hs (c, s))
       = s\<lparr>out := out s @ ?ev (concat (map (ripdb_index st) hs))\<rparr>" for hs c s
    by (induction hs arbitrary: c s) (simp_all add: chain)
  from this [of st 0 buckets] assms show ?thesis by (simp add: ripdb_route_request_def)
qed

theorem route_request_announces_unreachable_witness:
  "Redist True 0x0a010100 0xffffff00 0xc0a80163 \<in> set (out (ripdb_route_request cfg0 st1))"
proof -
  have idx: "ripdb_index st1 h = []" if "h \<noteq> 10" for h
    using that by (simp add: st1_def)
  have "concat (map (ripdb_index st1) hs) = (if 10 \<in> set hs then ripdb_index st1 10 else [])"
    if "distinct hs" for hs
    using that by (induction hs) (auto simp: idx, metis idx)
  then have all: "concat (map (ripdb_index st1) buckets) = ripdb_index st1 10"
    by (simp add: distinct_buckets set_buckets)
  have "length (concat (map (ripdb_index st1) buckets)) \<le> RIP_MAX_ROUTES"
    unfolding all by (simp add: st1_def RIP_MAX_ROUTES_def)
  from route_request_announces_unreachable [OF cfg0_sends this]
  show ?thesis
    unfolding all by (simp add: st1_def new_elem_def drop_loser_def cfg0_def)
qed

end
