(* ===== verification/Md5.thy ===== *)
theory Md5
  imports Prelude
begin

text \<open>
  The message digest of \<^verbatim>\<open>src/src/librcp/md5.c\<close>, used to authenticate RIP packets and to hash
  passwords. The context of the C code is a record; feeding a message in pieces and finishing gives
  the digest of RFC 1321 of the whole message, which is defined here on its own.
\<close>

section \<open>The compression function\<close>

definition MD5_F :: "u32 \<Rightarrow> u32 \<Rightarrow> u32 \<Rightarrow> u32" where
  "MD5_F x y z = (x AND y) OR (NOT x AND z)"

definition MD5_G :: "u32 \<Rightarrow> u32 \<Rightarrow> u32 \<Rightarrow> u32" where
  "MD5_G x y z = (x AND z) OR (y AND NOT z)"

definition MD5_H :: "u32 \<Rightarrow> u32 \<Rightarrow> u32 \<Rightarrow> u32" where
  "MD5_H x y z = x XOR y XOR z"

definition MD5_I :: "u32 \<Rightarrow> u32 \<Rightarrow> u32 \<Rightarrow> u32" where
  "MD5_I x y z = y XOR (x OR NOT z)"

definition ROTATE_LEFT :: "u32 \<Rightarrow> nat \<Rightarrow> u32" where
  "ROTATE_LEFT x n = push_bit n x OR drop_bit (32 - n) x"

text \<open>The 64 steps of \<open>MD5Transform\<close> in source order: the macro, the index into \<open>x\<close>, the shift
  and the additive constant. The macros are called with the registers rotated by one each time, so
  that a step takes \<open>(a, b, c, d)\<close> to \<open>(d, a', b, c)\<close>.\<close>

datatype md5_round = RndF | RndG | RndH | RndI

primrec md5_fun :: "md5_round \<Rightarrow> u32 \<Rightarrow> u32 \<Rightarrow> u32 \<Rightarrow> u32" where
  "md5_fun RndF = MD5_F"
| "md5_fun RndG = MD5_G"
| "md5_fun RndH = MD5_H"
| "md5_fun RndI = MD5_I"

type_synonym md5_regs = "u32 \<times> u32 \<times> u32 \<times> u32"

fun md5_step :: "u32 list \<Rightarrow> md5_round \<times> nat \<times> nat \<times> u32 \<Rightarrow> md5_regs \<Rightarrow> md5_regs" where
  "md5_step x (r, k, s, ac) (a, b, c, d) =
     (let a1 = a + (md5_fun r b c d + x ! k + ac)
      in (d, ROTATE_LEFT a1 s + b, b, c))"

definition md5_steps :: "(md5_round \<times> nat \<times> nat \<times> u32) list" where
  "md5_steps =
     [
      (RndF, 0, 7, 0xd76aa478), (RndF, 1, 12, 0xe8c7b756), (RndF, 2, 17, 0x242070db), (RndF, 3, 22, 0xc1bdceee),
      (RndF, 4, 7, 0xf57c0faf), (RndF, 5, 12, 0x4787c62a), (RndF, 6, 17, 0xa8304613), (RndF, 7, 22, 0xfd469501),
      (RndF, 8, 7, 0x698098d8), (RndF, 9, 12, 0x8b44f7af), (RndF, 10, 17, 0xffff5bb1), (RndF, 11, 22, 0x895cd7be),
      (RndF, 12, 7, 0x6b901122), (RndF, 13, 12, 0xfd987193), (RndF, 14, 17, 0xa679438e), (RndF, 15, 22, 0x49b40821),
      (RndG, 1, 5, 0xf61e2562), (RndG, 6, 9, 0xc040b340), (RndG, 11, 14, 0x265e5a51), (RndG, 0, 20, 0xe9b6c7aa),
      (RndG, 5, 5, 0xd62f105d), (RndG, 10, 9, 0x2441453), (RndG, 15, 14, 0xd8a1e681), (RndG, 4, 20, 0xe7d3fbc8),
      (RndG, 9, 5, 0x21e1cde6), (RndG, 14, 9, 0xc33707d6), (RndG, 3, 14, 0xf4d50d87), (RndG, 8, 20, 0x455a14ed),
      (RndG, 13, 5, 0xa9e3e905), (RndG, 2, 9, 0xfcefa3f8), (RndG, 7, 14, 0x676f02d9), (RndG, 12, 20, 0x8d2a4c8a),
      (RndH, 5, 4, 0xfffa3942), (RndH, 8, 11, 0x8771f681), (RndH, 11, 16, 0x6d9d6122), (RndH, 14, 23, 0xfde5380c),
      (RndH, 1, 4, 0xa4beea44), (RndH, 4, 11, 0x4bdecfa9), (RndH, 7, 16, 0xf6bb4b60), (RndH, 10, 23, 0xbebfbc70),
      (RndH, 13, 4, 0x289b7ec6), (RndH, 0, 11, 0xeaa127fa), (RndH, 3, 16, 0xd4ef3085), (RndH, 6, 23, 0x4881d05),
      (RndH, 9, 4, 0xd9d4d039), (RndH, 12, 11, 0xe6db99e5), (RndH, 15, 16, 0x1fa27cf8), (RndH, 2, 23, 0xc4ac5665),
      (RndI, 0, 6, 0xf4292244), (RndI, 7, 10, 0x432aff97), (RndI, 14, 15, 0xab9423a7), (RndI, 5, 21, 0xfc93a039),
      (RndI, 12, 6, 0x655b59c3), (RndI, 3, 10, 0x8f0ccc92), (RndI, 10, 15, 0xffeff47d), (RndI, 1, 21, 0x85845dd1),
      (RndI, 8, 6, 0x6fa87e4f), (RndI, 15, 10, 0xfe2ce6e0), (RndI, 6, 15, 0xa3014314), (RndI, 13, 21, 0x4e0811a1),
      (RndI, 4, 6, 0xf7537e82), (RndI, 11, 10, 0xbd3af235), (RndI, 2, 15, 0x2ad7d2bb), (RndI, 9, 21, 0xeb86d391)]"

fun Decode :: "u8 list \<Rightarrow> u32 list" where
  "Decode (b0 # b1 # b2 # b3 # bs) =
     (ucast b0 OR push_bit 8 (ucast b1) OR push_bit 16 (ucast b2) OR push_bit 24 (ucast b3)) # Decode bs"
| "Decode _ = []"

definition Encode :: "u32 list \<Rightarrow> u8 list" where
  "Encode ws = concat (map (\<lambda>w. [ucast (w AND 0xff), ucast (drop_bit 8 w AND 0xff),
                                 ucast (drop_bit 16 w AND 0xff), ucast (drop_bit 24 w AND 0xff)]) ws)"

definition MD5Transform :: "md5_regs \<Rightarrow> u8 list \<Rightarrow> md5_regs" where
  "MD5Transform st block =
     (case (st, fold (md5_step (Decode block)) md5_steps st) of
        ((s0, s1, s2, s3), (a, b, c, d)) \<Rightarrow> (s0 + a, s1 + b, s2 + c, s3 + d))"

section \<open>The context\<close>

record MD5_CTX =
  md5_state :: md5_regs
  md5_count0 :: u32
  md5_count1 :: u32
  md5_buffer :: "u8 list"

definition md5_init :: md5_regs where
  "md5_init = (0x67452301, 0xefcdab89, 0x98badcfe, 0x10325476)"

definition MD5Init :: "MD5_CTX \<Rightarrow> MD5_CTX" where
  "MD5Init ctx = ctx\<lparr>md5_count0 := 0, md5_count1 := 0, md5_state := md5_init\<rparr>"

text \<open>\<open>memcpy(&buf[i], xs, n)\<close>.\<close>

definition buf_write :: "u8 list \<Rightarrow> nat \<Rightarrow> u8 list \<Rightarrow> u8 list" where
  "buf_write buf i xs = take i buf @ xs @ drop (i + length xs) buf"

text \<open>The loop \<open>for (i = partLen; i + 63 < inputLen; i += 64)\<close> over what is left of the input; the
  second component is the tail that is buffered. (The sum \<open>i + 63\<close> does not wrap for inputs shorter
  than \<open>2\<^sup>3\<^sup>2 - 63\<close> bytes.)\<close>

function md5_blocks :: "md5_regs \<Rightarrow> u8 list \<Rightarrow> md5_regs \<times> u8 list" where
  "md5_blocks st bs =
     (if length bs < 64 then (st, bs) else md5_blocks (MD5Transform st (take 64 bs)) (drop 64 bs))"
  by pat_completeness auto
termination
  by (relation "measure (\<lambda>(st, bs). length bs)") auto

declare md5_blocks.simps [simp del]

definition MD5Update :: "MD5_CTX \<Rightarrow> u8 list \<Rightarrow> MD5_CTX" where
  "MD5Update ctx input =
     (let inputLen = (word_of_nat (length input) :: u32);
          index = unat (drop_bit 3 (md5_count0 ctx) AND 0x3F);
          c0 = md5_count0 ctx + push_bit 3 inputLen;
          c1 = (if c0 < push_bit 3 inputLen then md5_count1 ctx + 1 else md5_count1 ctx)
                 + drop_bit 29 inputLen;
          partLen = 64 - index;
          ctx1 = ctx\<lparr>md5_count0 := c0, md5_count1 := c1\<rparr>
      in if partLen \<le> length input then
           (let buf = buf_write (md5_buffer ctx) index (take partLen input);
                (st, rest) = md5_blocks (MD5Transform (md5_state ctx) buf) (drop partLen input)
            in ctx1\<lparr>md5_state := st, md5_buffer := buf_write buf 0 rest\<rparr>)
         else ctx1\<lparr>md5_buffer := buf_write (md5_buffer ctx) index input\<rparr>)"

definition PADDING :: "u8 list" where
  "PADDING = 0x80 # replicate 63 0"

fun md5_reg_list :: "md5_regs \<Rightarrow> u32 list" where
  "md5_reg_list (a, b, c, d) = [a, b, c, d]"

definition MD5Final :: "MD5_CTX \<Rightarrow> u8 list \<times> MD5_CTX" where
  "MD5Final ctx =
     (let bits = Encode [md5_count0 ctx, md5_count1 ctx];
          index = unat (drop_bit 3 (md5_count0 ctx) AND 0x3f);
          padLen = (if index < 56 then 56 - index else 120 - index);
          ctx1 = MD5Update ctx (take padLen PADDING);
          ctx2 = MD5Update ctx1 bits
      in (Encode (md5_reg_list (md5_state ctx2)),
          \<lparr>md5_state = (0, 0, 0, 0), md5_count0 = 0, md5_count1 = 0, md5_buffer = replicate 64 0\<rparr>))"

section \<open>The digest of RFC 1321\<close>

definition md5_pad :: "u8 list \<Rightarrow> u8 list" where
  "md5_pad msg =
     (let n = length msg
      in msg @ [0x80] @ replicate ((119 - n mod 64) mod 64) 0 @
         map (\<lambda>k. ucast (drop_bit (8 * k) (word_of_nat (8 * n) :: u64))) [0..<8])"

definition md5_digest :: "u8 list \<Rightarrow> u8 list" where
  "md5_digest msg = Encode (md5_reg_list (fst (md5_blocks md5_init (md5_pad msg))))"

section \<open>Block processing\<close>

lemma md5_blocks_short [simp]: "length bs < 64 \<Longrightarrow> md5_blocks st bs = (st, bs)"
  by (subst md5_blocks.simps) simp

lemma md5_blocks_block:
  "length b = 64 \<Longrightarrow> md5_blocks st (b @ bs) = md5_blocks (MD5Transform st b) bs"
  by (subst md5_blocks.simps) simp

lemma md5_blocks_append:
  "md5_blocks st (xs @ ys) = (case md5_blocks st xs of (s, r) \<Rightarrow> md5_blocks s (r @ ys))"
proof (induction st xs rule: md5_blocks.induct)
  case (1 st xs)
  show ?case
  proof (cases "length xs < 64")
    case False
    then have "md5_blocks st (xs @ ys) = md5_blocks (MD5Transform st (take 64 xs)) (drop 64 xs @ ys)"
      by (subst md5_blocks.simps) simp
    also have "\<dots> = (case md5_blocks st xs of (s, r) \<Rightarrow> md5_blocks s (r @ ys))"
      using 1 False by (subst (2) md5_blocks.simps) simp
    finally show ?thesis .
  qed simp
qed

lemma md5_blocks_rest:
  "md5_blocks st xs = (s, r) \<Longrightarrow> length r = length xs mod 64 \<and> r = drop (length xs - length r) xs"
proof (induction st xs arbitrary: s r rule: md5_blocks.induct)
  case (1 st xs)
  show ?case
  proof (cases "length xs < 64")
    case True
    with 1 show ?thesis by auto
  next
    case False
    then have "md5_blocks (MD5Transform st (take 64 xs)) (drop 64 xs) = (s, r)"
      using "1.prems" by (subst (asm) md5_blocks.simps) simp
    from "1.IH" [OF False this] False
    have "length r = length (drop 64 xs) mod 64" "r = drop (length (drop 64 xs) - length r) (drop 64 xs)"
      by blast+
    with False show ?thesis
      by (simp add: mod_if [of "length xs"])
  qed
qed

section \<open>A context represents the message fed so far\<close>

definition md5_rep :: "MD5_CTX \<Rightarrow> u8 list \<Rightarrow> bool" where
  "md5_rep ctx msg \<longleftrightarrow>
     length (md5_buffer ctx) = 64 \<and>
     md5_count0 ctx = word_of_nat (8 * length msg) \<and>
     md5_count1 ctx = word_of_nat (8 * length msg div 2 ^ 32) \<and>
     (case md5_blocks md5_init msg of
        (s, r) \<Rightarrow> md5_state ctx = s \<and> take (length r) (md5_buffer ctx) = r)"

lemma md5_rep_init: "length (md5_buffer ctx) = 64 \<Longrightarrow> md5_rep (MD5Init ctx) []"
  by (simp add: md5_rep_def MD5Init_def)

lemma unat_and_63: "unat (x AND 0x3F :: u32) = unat x mod 64"
proof -
  have "x AND 0x3F = take_bit 6 x"
    by (simp add: take_bit_eq_mask mask_eq_exp_minus_1)
  then show ?thesis by (simp add: unsigned_take_bit_eq take_bit_eq_mod [where 'a = nat])
qed

lemma md5_index: "unat (drop_bit 3 (word_of_nat (8 * n) :: u32) AND 0x3F) = n mod 64"
proof -
  have "8 * n mod 2 ^ 32 = 8 * (n mod 2 ^ 29)"
    using mod_mult_mult1 [of 8 n "2 ^ 29"] by simp
  then have "unat (drop_bit 3 (word_of_nat (8 * n) :: u32)) = n mod 2 ^ 29"
    by (simp add: unsigned_drop_bit_eq unat_of_nat drop_bit_eq_div [where 'a = nat]
          take_bit_eq_mod [where 'a = nat] del: of_nat_mult)
  then show ?thesis by (simp add: unat_and_63 mod_mod_cancel)
qed

lemma add_carry: "x + y < (y :: u32) \<longleftrightarrow> 2 ^ 32 \<le> unat x + unat y"
proof (cases "unat x + unat y < 2 ^ 32")
  case True
  then show ?thesis by (simp add: word_less_nat_alt unat_word_ariths)
next
  case False
  then have "(unat x + unat y) mod 2 ^ 32 = unat x + unat y - 2 ^ 32"
    using unat_u32_less [of x] unat_u32_less [of y] by (simp add: le_mod_geq)
  with False show ?thesis
    using unat_u32_less [of x] by (simp add: word_less_nat_alt unat_word_ariths)
qed

lemma md5_count_step:
  fixes n L :: nat
  assumes "L < 2 ^ 32"
  defines "c0 \<equiv> (word_of_nat (8 * n) :: u32) + push_bit 3 (word_of_nat L)"
  shows "c0 = word_of_nat (8 * (n + L))"
    and "(if c0 < push_bit 3 (word_of_nat L) then word_of_nat (8 * n div 2 ^ 32) + 1
          else word_of_nat (8 * n div 2 ^ 32)) + drop_bit 29 (word_of_nat L :: u32)
         = word_of_nat (8 * (n + L) div 2 ^ 32)"
proof -
  let ?a = "8 * n mod 2 ^ 32" and ?l = "8 * L mod 2 ^ 32"
  have l: "push_bit 3 (word_of_nat L :: u32) = word_of_nat (8 * L)"
    by (simp add: push_bit_eq_mult)
  show c0: "c0 = word_of_nat (8 * (n + L))"
    unfolding c0_def l by (simp add: algebra_simps)
  have d: "drop_bit 29 (word_of_nat L :: u32) = word_of_nat (8 * L div 2 ^ 32)"
  proof -
    have "8 * L div 2 ^ 32 = L div 2 ^ 29"
      using div_mult_mult1 [of 8 L "2 ^ 29"] by simp
    moreover have "L div 2 ^ 29 < 2 ^ 32" using assms(1) by (rule le_less_trans [OF div_le_dividend])
    ultimately have "unat (drop_bit 29 (word_of_nat L :: u32)) = unat (word_of_nat (8 * L div 2 ^ 32) :: u32)"
      using assms(1) by (simp add: unsigned_drop_bit_eq unat_of_nat drop_bit_eq_div [where 'a = nat]
          take_bit_eq_mod [where 'a = nat])
    then show ?thesis by (simp only: unsigned_word_eqI)
  qed
  have carry: "c0 < push_bit 3 (word_of_nat L) \<longleftrightarrow> 2 ^ 32 \<le> ?a + ?l"
    unfolding c0_def l add_carry by (simp add: unat_of_nat del: of_nat_mult)
  have sum: "8 * (n + L) div 2 ^ 32 = 8 * n div 2 ^ 32 + 8 * L div 2 ^ 32 + (?a + ?l) div 2 ^ 32"
    using div_add1_eq [of "8 * n" "8 * L" "2 ^ 32"] by (simp add: algebra_simps)
  have "(?a + ?l) div 2 ^ 32 = (if 2 ^ 32 \<le> ?a + ?l then 1 else 0)"
    using mod_less_divisor [of "2 ^ 32" "8 * n"] mod_less_divisor [of "2 ^ 32" "8 * L"]
    by (simp add: le_div_geq)
  then show "(if c0 < push_bit 3 (word_of_nat L) then word_of_nat (8 * n div 2 ^ 32) + 1
          else word_of_nat (8 * n div 2 ^ 32)) + drop_bit 29 (word_of_nat L :: u32)
         = word_of_nat (8 * (n + L) div 2 ^ 32)"
    unfolding sum carry d by simp
qed

lemma take_buf_write: "i \<le> length buf \<Longrightarrow> take (i + length xs) (buf_write buf i xs) = take i buf @ xs"
  by (simp add: buf_write_def)

lemma length_buf_write [simp]: "i + length xs \<le> length buf \<Longrightarrow> length (buf_write buf i xs) = length buf"
  by (simp add: buf_write_def)

text \<open>\<open>MD5Update\<close> with its counters and buffer index expressed by the length fed so far.\<close>

lemma MD5Update_eq:
  assumes "md5_count0 ctx = word_of_nat (8 * n)" "md5_count1 ctx = word_of_nat (8 * n div 2 ^ 32)"
    and "length input < 2 ^ 32"
  shows "MD5Update ctx input =
     (if 64 - n mod 64 \<le> length input then
        (let buf = buf_write (md5_buffer ctx) (n mod 64) (take (64 - n mod 64) input);
             (st, rest) = md5_blocks (MD5Transform (md5_state ctx) buf) (drop (64 - n mod 64) input)
         in ctx\<lparr>md5_count0 := word_of_nat (8 * (n + length input)),
                md5_count1 := word_of_nat (8 * (n + length input) div 2 ^ 32),
                md5_state := st, md5_buffer := buf_write buf 0 rest\<rparr>)
      else ctx\<lparr>md5_count0 := word_of_nat (8 * (n + length input)),
                md5_count1 := word_of_nat (8 * (n + length input) div 2 ^ 32),
                md5_buffer := buf_write (md5_buffer ctx) (n mod 64) input\<rparr>)"
  unfolding MD5Update_def Let_def assms(1,2)
  unfolding md5_count_step(2) [OF assms(3)]
  unfolding md5_count_step(1) [OF assms(3)] md5_index by (rule refl)

lemma md5_rep_update:
  assumes "md5_rep ctx msg" "length input < 2 ^ 32"
  shows "md5_rep (MD5Update ctx input) (msg @ input)"
proof -
  obtain s r where sr: "md5_blocks md5_init msg = (s, r)" by fastforce
  have rep: "length (md5_buffer ctx) = 64" "md5_count0 ctx = word_of_nat (8 * length msg)"
      "md5_count1 ctx = word_of_nat (8 * length msg div 2 ^ 32)" "md5_state ctx = s"
      "take (length r) (md5_buffer ctx) = r"
    using assms(1) by (simp_all add: md5_rep_def sr)
  have r: "length msg mod 64 = length r" using md5_blocks_rest [OF sr] by simp
  note upd = MD5Update_eq [OF rep(2,3) assms(2), unfolded r]
  have all: "md5_blocks md5_init (msg @ input) = md5_blocks s (r @ input)"
    by (subst md5_blocks_append) (simp add: sr)
  have r64: "length r < 64" by (simp flip: r)
  show ?thesis
  proof (cases "64 - length r \<le> length input")
    case True
    let ?a = "take (64 - length r) input" and ?b = "drop (64 - length r) input"
    have buf: "buf_write (md5_buffer ctx) (length r) ?a = r @ ?a"
      using rep(1,5) r64 True by (simp add: buf_write_def)
    obtain s' r' where b: "md5_blocks (MD5Transform s (r @ ?a)) ?b = (s', r')" by fastforce
    have "md5_blocks s (r @ input) = md5_blocks s ((r @ ?a) @ ?b)" by simp
    also have "\<dots> = (s', r')" using r64 True b by (subst md5_blocks_block) simp_all
    finally have "md5_blocks md5_init (msg @ input) = (s', r')" using all by simp
    moreover have "length r' < 64" using md5_blocks_rest [OF b] by simp
    ultimately show ?thesis
      using True r64 take_buf_write [of 0 "r @ ?a" r'] unfolding md5_rep_def upd
      by (simp add: rep(4) buf b Let_def)
  next
    case False
    then have "md5_blocks md5_init (msg @ input) = (s, r @ input)" using all by simp
    then show ?thesis
      using False rep(1,5) take_buf_write [of "length r" "md5_buffer ctx" input] r64
      unfolding md5_rep_def upd by (simp add: rep(4))
  qed
qed

lemma word_of_nat_byte64: "j \<le> 56 \<Longrightarrow> (ucast (drop_bit j (word_of_nat m :: u64)) :: u8) = word_of_nat (m div 2 ^ j)"
  by (rule bit_word_eqI) (auto simp: bit_simps simp flip: drop_bit_eq_div)

lemma word_of_nat_byte32:
  "j \<le> 24 \<Longrightarrow> (ucast (drop_bit j (word_of_nat m :: u32) AND 0xff) :: u8) = word_of_nat (m div 2 ^ j)"
proof -
  assume "j \<le> 24"
  moreover have "x AND 0xff = take_bit 8 x" for x :: u32
    by (simp add: take_bit_eq_mask mask_eq_exp_minus_1)
  ultimately show ?thesis
    by (simp only:) (rule bit_word_eqI, auto simp: bit_simps simp flip: drop_bit_eq_div)
qed

lemma Encode_length_bits:
  "Encode [word_of_nat m, word_of_nat (m div 2 ^ 32)] =
   map (\<lambda>k. ucast (drop_bit (8 * k) (word_of_nat m :: u64))) [0..<8]"
proof -
  have "m div 2 ^ 32 div 2 ^ 8 = m div 2 ^ 40" "m div 2 ^ 32 div 2 ^ 16 = m div 2 ^ 48"
      "m div 2 ^ 32 div 2 ^ 24 = m div 2 ^ 56"
    by (simp_all flip: div_mult2_eq)
  then show ?thesis
    using word_of_nat_byte32 [of 0 m] word_of_nat_byte32 [of 0 "m div 2 ^ 32"] word_of_nat_byte64 [of 0 m]
    by (simp add: Encode_def upt_rec word_of_nat_byte64 word_of_nat_byte32)
qed

lemma md5_pad_eq:
  "md5_pad msg = (let i = length msg mod 64
     in msg @ take (if i < 56 then 56 - i else 120 - i) PADDING @
        Encode [word_of_nat (8 * length msg), word_of_nat (8 * length msg div 2 ^ 32)])"
proof -
  define i where "i = length msg mod 64"
  have i64: "i < 64" by (simp add: i_def)
  have "(119 - i) mod 64 = (if i < 56 then 55 - i else 119 - i)"
    using i64 by (simp add: le_mod_geq)
  then have "[0x80] @ replicate ((119 - i) mod 64) 0 = take (if i < 56 then 56 - i else 120 - i) PADDING"
    using i64 unfolding PADDING_def by (cases "i < 56") (simp_all add: take_Cons' min_def)
  then show ?thesis
    unfolding md5_pad_def Encode_length_bits Let_def i_def [symmetric] by (simp only: append_assoc [symmetric])
qed

lemma MD5Final_rep:
  assumes "md5_rep ctx msg"
  shows "fst (MD5Final ctx) = md5_digest msg"
proof -
  have c: "md5_count0 ctx = word_of_nat (8 * length msg)" "md5_count1 ctx = word_of_nat (8 * length msg div 2 ^ 32)"
    using assms by (simp_all add: md5_rep_def split: prod.splits)
  define i where "i = length msg mod 64"
  let ?pad = "take (if i < 56 then 56 - i else 120 - i) PADDING"
  let ?bits = "Encode [word_of_nat (8 * length msg), word_of_nat (8 * length msg div 2 ^ 32)]"
  have len: "length ?pad < 2 ^ 32" "length ?bits < 2 ^ 32"
    by (simp_all add: PADDING_def Encode_def min_def)
  have "md5_rep (MD5Update (MD5Update ctx ?pad) ?bits) (md5_pad msg)"
    using md5_rep_update [OF md5_rep_update [OF assms len(1)] len(2)]
    unfolding md5_pad_eq Let_def i_def [symmetric] append_assoc .
  then have "md5_state (MD5Update (MD5Update ctx ?pad) ?bits) = fst (md5_blocks md5_init (md5_pad msg))"
    by (simp add: md5_rep_def split: prod.splits)
  then show ?thesis
    unfolding MD5Final_def Let_def c md5_index i_def [symmetric] md5_digest_def by simp
qed

section \<open>Properties\<close>


definition md5_ctx0 :: MD5_CTX where
  "md5_ctx0 = \<lparr>md5_state = (1, 2, 3, 4), md5_count0 = 5, md5_count1 = 6, md5_buffer = replicate 64 7\<rparr>"


text \<open>the digest of the empty message and of "abc" are those of the test suite of RFC 1321 that
  the source quotes.\<close>
theorem md5_test_suite:
  "md5_digest [] = [0xd4, 0x1d, 0x8c, 0xd9, 0x8f, 0x00, 0xb2, 0x04, 0xe9, 0x80, 0x09, 0x98, 0xec, 0xf8, 0x42, 0x7e]
   \<and> md5_digest [0x61, 0x62, 0x63] =
     [0x90, 0x01, 0x50, 0x98, 0x3c, 0xd2, 0x4f, 0xb0, 0xd6, 0x96, 0x3f, 0x7d, 0x28, 0xe1, 0x7f, 0x72]"
  by code_simp

end
