(* ===== verification/Rip_Tx.thy ===== *)
theory Rip_Tx
  imports Rip_Db Md5
begin

text \<open>
  The state of the RIP process and the sending side, \<^verbatim>\<open>src/src/rip/exec/rip_tx.c\<close>, with the packet
  formats of \<^verbatim>\<open>src/src/rip/exec/rip.h\<close>. Packets are byte lists. The environment supplies the
  outcome of system calls, the clock, \<open>rand()\<close> and what the stack variables (the digest context, the
  array of routes) held before.
\<close>

section \<open>The process\<close>

text \<open>A configured network or neighbour, \<open>RcpRipPartner\<close>.\<close>

record RcpRipPartner =
  rp_valid :: bool
  rp_ip :: u32
  rp_mask :: u32
  rp_timeout :: int
  req_rx :: u32
  req_tx :: u32
  resp_rx :: u32
  resp_tx :: u32

record RipNeighbor =
  nb_ip :: u32
  rx_time :: u32
  auth_seq :: u32
  nb_errors :: u32
  route_errors :: u32
  md5_errors :: u32

record RcpStaticRoute =
  sr_valid :: bool
  sr_type :: RcpRouteType
  sr_ip :: u32
  sr_mask :: u32
  sr_gw :: u32

record RcpActiveNeighbor =
  an_valid :: bool
  an_area :: u32
  an_router_id :: u32
  an_network :: u32
  an_netmask_cnt :: u8
  an_if_ip :: u32
  an_ip :: u32

record rip_proc =
  rp_db :: rip_state
  rp_cfg :: rip_cfg
  rp_intf :: "RcpInterface list"
  rip_network :: "RcpRipPartner list"
  rip_neighbor :: "RcpRipPartner list"
  sroute :: "RcpStaticRoute list"
  neighbors :: "RipNeighbor list"
  shm_update_timeout :: int
  rip_active :: "RcpActiveNeighbor list"
  rip_active_overrun :: bool
  update_redist :: int
  reconnect_timer :: int
  rand_cnt :: nat

datatype tx_result = TxSent | TxSendFailed | TxNoSocket

record rip_env =
  env_tx :: "rip_event \<Rightarrow> tx_result"
  env_multi :: "rip_event \<Rightarrow> bool"
  env_rand :: "nat \<Rightarrow> int"
  env_time :: u32
  env_md5 :: MD5_CTX
  env_routes :: "nat \<Rightarrow> RipRoute"
  env_connect :: bool

text \<open>A pointer to a partner is into one of the two tables.\<close>

datatype partner_ref = NetRef nat | NbrRef nat

primrec partner :: "partner_ref \<Rightarrow> rip_proc \<Rightarrow> RcpRipPartner" where
  "partner (NetRef k) p = rip_network p ! k"
| "partner (NbrRef k) p = rip_neighbor p ! k"

primrec upd_partner :: "partner_ref \<Rightarrow> (RcpRipPartner \<Rightarrow> RcpRipPartner) \<Rightarrow> rip_proc \<Rightarrow> rip_proc" where
  "upd_partner (NetRef k) f p = p\<lparr>rip_network := upd_pos k f (rip_network p)\<rparr>"
| "upd_partner (NbrRef k) f p = p\<lparr>rip_neighbor := upd_pos k f (rip_neighbor p)\<rparr>"

definition upd_db :: "(rip_state \<Rightarrow> rip_state) \<Rightarrow> rip_proc \<Rightarrow> rip_proc" where
  "upd_db f p = p\<lparr>rp_db := f (rp_db p)\<rparr>"

definition upd_intf :: "nat \<Rightarrow> (RcpInterface \<Rightarrow> RcpInterface) \<Rightarrow> rip_proc \<Rightarrow> rip_proc" where
  "upd_intf i f p = p\<lparr>rp_intf := upd_pos i f (rp_intf p)\<rparr>"

section \<open>Packets\<close>

definition MAX_ROUTES_PKT :: nat where
  "MAX_ROUTES_PKT = 25"

definition rip_pkt_len :: "nat \<Rightarrow> nat" where
  "rip_pkt_len routes = 4 + 20 * routes"

definition route_bytes :: "RipRoute \<Rightarrow> u8 list" where
  "route_bytes r = put16 (rr_family r) @ put16 (rr_tag r) @ put32 (rr_ip r) @ put32 (rr_mask r) @
                   put32 (rr_gw r) @ put32 (rr_metric r)"

definition auth_md5_bytes :: "u16 \<Rightarrow> u32 \<Rightarrow> u8 list" where
  "auth_md5_bytes offset seq =
     put16 0xffff @ put16 3 @ put16 offset @ [1, 20] @ put32 seq @ replicate 8 0"

text \<open>The key: the password padded with zeros to 16 bytes.\<close>

definition rip_secret :: "string \<Rightarrow> u8 list" where
  "rip_secret passwd = map of_char passwd @ replicate (16 - length passwd) 0"

definition rip_digest :: "MD5_CTX \<Rightarrow> u8 list \<Rightarrow> u8 list \<Rightarrow> u8 list" where
  "rip_digest ctx bytes secret = fst (MD5Final (MD5Update (MD5Update (MD5Init ctx) bytes) secret))"

section \<open>Sending\<close>

definition txpacket :: "rip_env \<Rightarrow> nat \<Rightarrow> u32 \<Rightarrow> u8 list \<Rightarrow> rip_state \<Rightarrow> rip_state" where
  "txpacket env intf ip msg st =
     (let st1 = assert_c (msg \<noteq> []) st; ev = TxPacket intf ip msg
      in case env_tx env ev of
           TxSent \<Rightarrow> emit ev st1
         | TxSendFailed \<Rightarrow> emit Assertion st1
         | TxNoSocket \<Rightarrow> emit Assertion (emit Assertion st1))"

definition txrequest :: "rip_env \<Rightarrow> nat \<Rightarrow> partner_ref \<Rightarrow> rip_proc \<Rightarrow> rip_proc" where
  "txrequest env i net p =
     (let intf = rp_intf p ! i;
          ip = (if rp_mask (partner net p) = 0xffffffff then rp_ip (partner net p) else 0)
      in if ip = 0 \<and> rip_passive_interface intf then p
         else
           (let pkt = [1, 2, 0, 0] @ route_bytes \<lparr>rr_family = 0, rr_tag = 0, rr_ip = 0, rr_mask = 0,
                                                  rr_gw = 0, rr_metric = 16\<rparr>
            in upd_db (txpacket env i ip pkt)
                 (upd_partner net (\<lambda>n. n\<lparr>req_tx := req_tx n + 1\<rparr>) p)))"

text \<open>The packet \<open>send_response\<close> builds for \<open>cnt\<close> routes; with a password it starts with an
  authentication header and ends with a digest.\<close>

definition response_body :: "u32 \<Rightarrow> RipRoute list \<Rightarrow> u8 list" where
  "response_body now rts =
     [2, 2, 0, 0] @ auth_md5_bytes (word_of_nat (rip_pkt_len (length rts + 1))) now @
     concat (map route_bytes rts) @ put16 0xffff @ put16 1"

definition response_packet :: "rip_env \<Rightarrow> string \<Rightarrow> RipRoute list \<Rightarrow> u8 list" where
  "response_packet env passwd rts =
     (if passwd = [] then [2, 2, 0, 0] @ concat (map route_bytes rts)
      else response_body (env_time env) rts @
           rip_digest (env_md5 env) (response_body (env_time env) rts) (rip_secret passwd))"

definition send_response :: "rip_env \<Rightarrow> nat \<Rightarrow> u32 \<Rightarrow> string \<Rightarrow> RipRoute list \<Rightarrow> rip_state \<Rightarrow> rip_state" where
  "send_response env i ip passwd rts st =
     (let n = (if passwd = [] then length rts else length rts + 2)
      in txpacket env i ip (response_packet env passwd rts) (assert_c (n \<le> MAX_ROUTES_PKT) st))"

text \<open>The loop over full packets, and the last packet with the rest.\<close>

fun tx_packets ::
    "rip_env \<Rightarrow> nat \<Rightarrow> u32 \<Rightarrow> string \<Rightarrow> partner_ref \<Rightarrow> nat \<Rightarrow> nat \<Rightarrow> RipRoute list \<Rightarrow> rip_proc \<Rightarrow> rip_proc" where
  "tx_packets env i ip passwd net mx 0 routes p =
     upd_partner net (\<lambda>n. n\<lparr>resp_tx := resp_tx n + 1\<rparr>)
       (upd_db (send_response env i ip passwd (take (length routes mod mx) routes)) p)"
| "tx_packets env i ip passwd net mx (Suc k) routes p =
     tx_packets env i ip passwd net mx k (drop mx routes)
       (upd_db (send_response env i ip passwd (take mx routes))
         (upd_partner net (\<lambda>n. n\<lparr>resp_tx := resp_tx n + 1\<rparr>) p))"

definition txresponse ::
    "rip_env \<Rightarrow> nat \<Rightarrow> bool \<Rightarrow> partner_ref \<Rightarrow> rip_proc \<Rightarrow> rip_proc" where
  "txresponse env i updates_only net p =
     (let intf = rp_intf p ! i;
          ip = (if rp_mask (partner net p) = 0xffffffff then rp_ip (partner net p) else 0)
      in if ip = 0 \<and> rip_passive_interface intf then p
         else
           (let routes = ripdb_build_response intf updates_only (env_routes env) (rp_db p);
                mx = (if rip_passwd intf = [] then MAX_ROUTES_PKT else MAX_ROUTES_PKT - 2)
            in tx_packets env i ip (rip_passwd intf) net mx (length routes div mx) routes p))"

section \<open>What is sent\<close>

lemma length_route_bytes [simp]: "length (route_bytes r) = 20"
  by (simp add: route_bytes_def)

lemma length_concat_routes [simp]: "length (concat (map route_bytes rts)) = 20 * length rts"
  by (induction rts) simp_all

lemma length_response_body [simp]: "length (response_body now rts) = 28 + 20 * length rts"
  by (simp add: response_body_def auth_md5_bytes_def)

text \<open>The chunks a list of routes is cut into: full ones and the rest.\<close>

fun chunks :: "nat \<Rightarrow> nat \<Rightarrow> 'a list \<Rightarrow> 'a list list" where
  "chunks mx 0 xs = [take (length xs mod mx) xs]"
| "chunks mx (Suc k) xs = take mx xs # chunks mx k (drop mx xs)"

lemma concat_chunks:
  "0 < mx \<Longrightarrow> length xs div mx = k \<Longrightarrow> concat (chunks mx k xs) = xs"
proof (induction k arbitrary: xs)
  case 0
  then have "length xs < mx" by (simp add: div_eq_0_iff)
  then show ?case by simp
next
  case (Suc k)
  then have "mx \<le> length xs" by (metis div_less linorder_not_less nat.distinct(1))
  then have "length (drop mx xs) div mx = k" using Suc.prems by (simp add: div_if)
  with Suc show ?case by simp
qed

lemma chunks_short: "0 < mx \<Longrightarrow> list_all (\<lambda>c. length c \<le> mx) (chunks mx k xs)"
  by (induction mx k xs rule: chunks.induct) (auto simp: min_def intro: le_trans mod_le_divisor)

definition tx_all_ok :: "rip_env \<Rightarrow> bool" where
  "tx_all_ok env \<longleftrightarrow> (\<forall>e. env_tx env e = TxSent) \<and> (\<forall>e. env_multi env e)"

lemma response_packet_not_Nil [simp]: "response_packet env passwd rts \<noteq> []"
  by (simp add: response_packet_def response_body_def)

lemma send_response_ok:
  assumes "tx_all_ok env" "length rts \<le> (if passwd = [] then MAX_ROUTES_PKT else MAX_ROUTES_PKT - 2)"
  shows "send_response env i ip passwd rts st = emit (TxPacket i ip (response_packet env passwd rts)) st"
  using assms
  by (simp add: send_response_def Let_def assert_c_def txpacket_def tx_all_ok_def MAX_ROUTES_PKT_def
           split: if_splits)

lemma upd_partner_db [simp]:
  "rp_db (upd_partner net f p) = rp_db p" "rp_cfg (upd_partner net f p) = rp_cfg p"
  "rp_intf (upd_partner net f p) = rp_intf p" "sroute (upd_partner net f p) = sroute p"
  by (cases net; simp)+

lemma upd_db_simps [simp]:
  "rp_db (upd_db f p) = f (rp_db p)" "rp_cfg (upd_db f p) = rp_cfg p" "rp_intf (upd_db f p) = rp_intf p"
  "sroute (upd_db f p) = sroute p"
  by (simp_all add: upd_db_def)

lemma tx_packets_out:
  assumes "tx_all_ok env" "mx = (if passwd = [] then MAX_ROUTES_PKT else MAX_ROUTES_PKT - 2)"
  shows "rp_db (tx_packets env i ip passwd net mx k routes p) =
     fold (\<lambda>c. emit (TxPacket i ip (response_packet env passwd c))) (chunks mx k routes) (rp_db p)"
proof -
  note ok = send_response_ok [OF assms(1), where passwd = passwd, folded assms(2)]
  have mx: "0 < mx" using assms(2) by (simp add: MAX_ROUTES_PKT_def)
  show ?thesis
  proof (induction k arbitrary: routes p)
    case 0
    have "length (take (length routes mod mx) routes) \<le> mx"
      using mx by (simp add: min_def) (metis le_trans mod_le_divisor)
    then show ?case by (simp add: ok)
  next
    case (Suc k)
    then show ?case by (simp add: ok)
  qed
qed

section \<open>Properties\<close>

text \<open>\<open>txresponse\<close> sends every route of the response exactly once and in order, in packets of at most
  25 routes (23 when packets are authenticated), unless the interface is passive and the partner is
  not a unicast neighbour.\<close>
theorem txresponse_sends_all:
  assumes "tx_all_ok env" "intf = rp_intf p ! i"
    and "ip = (if rp_mask (partner net p) = 0xffffffff then rp_ip (partner net p) else 0)"
    and "\<not> (ip = 0 \<and> rip_passive_interface intf)"
  shows "\<exists>cs. concat cs = ripdb_build_response intf upd (env_routes env) (rp_db p) \<and>
      list_all (\<lambda>c. length c \<le> (if rip_passwd intf = [] then 25 else 23)) cs \<and>
      out (rp_db (txresponse env i upd net p)) =
        out (rp_db p) @ map (\<lambda>c. TxPacket i ip (response_packet env (rip_passwd intf) c)) cs"
proof -
  let ?r = "ripdb_build_response intf upd (env_routes env) (rp_db p)"
  define mx where "mx = (if rip_passwd intf = [] then MAX_ROUTES_PKT else MAX_ROUTES_PKT - 2)"
  have mx: "0 < mx" "mx = (if rip_passwd intf = [] then 25 else 23)"
    by (simp_all add: mx_def MAX_ROUTES_PKT_def)
  let ?cs = "chunks mx (length ?r div mx) ?r"
  have "out (fold (\<lambda>c. emit (TxPacket i ip (f c))) cs st) = out st @ map (\<lambda>c. TxPacket i ip (f c)) cs"
    for f :: "RipRoute list \<Rightarrow> u8 list" and cs st
    by (induction cs arbitrary: st) simp_all
  moreover have "txresponse env i upd net p =
      tx_packets env i ip (rip_passwd intf) net mx (length ?r div mx) ?r p"
    unfolding txresponse_def Let_def assms(2,3) [symmetric] if_not_P [OF assms(4)] mx_def [symmetric]
    by (rule refl)
  ultimately have "out (rp_db (txresponse env i upd net p)) =
      out (rp_db p) @ map (\<lambda>c. TxPacket i ip (response_packet env (rip_passwd intf) c)) ?cs"
    using tx_packets_out [OF assms(1) mx_def] by simp
  moreover have "concat ?cs = ?r" using mx by (intro concat_chunks) simp_all
  moreover have "list_all (\<lambda>c. length c \<le> (if rip_passwd intf = [] then 25 else 23)) ?cs"
    unfolding mx(2) [symmetric] by (rule chunks_short [OF mx(1)])
  ultimately show ?thesis by blast
qed

text \<open>A process with one authenticated interface 192.168.1.20/24, a RIP network 192.168.0.0/16 and
  one route, in an environment where the system calls succeed.\<close>

definition env1 :: rip_env where
  "env1 = \<lparr>env_tx = (\<lambda>_. TxSent), env_multi = (\<lambda>_. True), env_rand = (\<lambda>_. 0), env_time = 1000,
           env_md5 = \<lparr>md5_state = (1, 2, 3, 4), md5_count0 = 5, md5_count1 = 6, md5_buffer = replicate 64 7\<rparr>,
           env_routes = (\<lambda>_. undefined), env_connect = True\<rparr>"

definition cfg1 :: rip_cfg where
  "cfg1 = \<lparr>rip_update_timer = 30, rip_redist_static = 1, rip_redist_connected = 1,
           rip_redist_connected_subnets = 0, rip_redist_ospf = 0, rip_default_information = 0,
           ospf_redist_rip = False, mux_send = (\<lambda>_. True), malloc_ok = True\<rparr>"

definition intf1 :: RcpInterface where
  "intf1 = \<lparr>if_name = ''eth0'', if_link_up = True, if_kindex = 1, if_ip = 0xc0a80114,
            if_mask = 0xffffff00, if_typ = IF_ETHERNET, rip_passive_interface = False,
            rip_multicast_ip = 0xc0a80114, rip_multicast_mask = 0xffffff00, rip_timeout = 0,
            rip_passwd = ''secret''\<rparr>"

definition proc1 :: rip_proc where
  "proc1 = \<lparr>rp_db = \<lparr>initialized = True, ripdb_index = (\<lambda>h. if h = 10
                then [new_elem cfg1 RCP_ROUTE_STATIC 0x0a000000 0xff000000 0xc0a80101 3 0 0] else []),
              ripdb_update_available = False, static_update_trigger = 0, muxsock = True, out = []\<rparr>,
            rp_cfg = cfg1, rp_intf = [intf1],
            rip_network = [\<lparr>rp_valid = True, rp_ip = 0xc0a80000, rp_mask = 0xffff0000, rp_timeout = 0,
              req_rx = 0, req_tx = 0, resp_rx = 0, resp_tx = 0\<rparr>],
            rip_neighbor = [], sroute = [], neighbors = [], shm_update_timeout = 0, rip_active = [],
            rip_active_overrun = False, update_redist = 60, reconnect_timer = 0, rand_cnt = 0\<rparr>"

theorem txresponse_sends_all_witness:
  "\<exists>cs. concat cs = ripdb_build_response intf1 False (env_routes env1) (rp_db proc1) \<and>
      out (rp_db (txresponse env1 0 False (NetRef 0) proc1)) =
        out (rp_db proc1) @ map (\<lambda>c. TxPacket 0 0 (response_packet env1 (rip_passwd intf1) c)) cs"
proof -
  have "tx_all_ok env1" by (simp add: tx_all_ok_def env1_def)
  moreover have "intf1 = rp_intf proc1 ! 0" by (simp add: proc1_def)
  moreover have "0 = (if rp_mask (partner (NetRef 0) proc1) = 0xffffffff
                      then rp_ip (partner (NetRef 0) proc1) else 0)"
    by (simp add: proc1_def)
  moreover have "\<not> (0 = 0 \<and> rip_passive_interface intf1)" by (simp add: intf1_def)
  ultimately show ?thesis
    using txresponse_sends_all [of env1 intf1 proc1 0 0 "NetRef 0" False] by metis
qed

end
