(* ===== verification/Rip_Rx.thy ===== *)
theory Rip_Rx
  imports Rip_Tx Rip_Sync
begin

text \<open>
  The receiving side of the RIP process, \<^verbatim>\<open>src/src/rip/exec/rip_rx.c\<close>: the list of neighbours heard,
  the checks a datagram goes through, MD5 authentication, and the routes taken into the database.
  \<open>None\<close> is the result of the paths that call \<open>exit(1)\<close>.
\<close>

section \<open>Neighbours\<close>

definition new_neighbor :: "u32 \<Rightarrow> RipNeighbor" where
  "new_neighbor ip = \<lparr>nb_ip = ip, rx_time = 0, auth_seq = 0, nb_errors = 0, route_errors = 0, md5_errors = 0\<rparr>"

text \<open>The position of the neighbour in the list and the updated list.\<close>

definition touch_neighbor :: "u32 \<Rightarrow> RipNeighbor list \<Rightarrow> nat \<times> RipNeighbor list" where
  "touch_neighbor src nbs =
     (case find_pos (\<lambda>n. nb_ip n = src) nbs of
        Some k \<Rightarrow> (k, upd_pos k (\<lambda>n. n\<lparr>rx_time := 0\<rparr>) nbs)
      | None \<Rightarrow> (0, new_neighbor src # nbs))"

definition upd_neigh :: "nat \<Rightarrow> (RipNeighbor \<Rightarrow> RipNeighbor) \<Rightarrow> rip_proc \<Rightarrow> rip_proc" where
  "upd_neigh k f p = p\<lparr>neighbors := upd_pos k f (neighbors p)\<rparr>"

definition find_network_for_interface :: "RcpRipPartner list \<Rightarrow> RcpInterface \<Rightarrow> nat option" where
  "find_network_for_interface nets intf =
     (if if_ip intf = 0 then None
      else find_pos (\<lambda>net. rp_valid net \<and> if_mask intf \<ge> rp_mask net \<and>
                           if_ip intf AND rp_mask net = rp_ip net AND rp_mask net) nets)"

section \<open>Routes of a packet\<close>

definition parse_route :: "u8 list \<Rightarrow> RipRoute" where
  "parse_route b =
     \<lparr>rr_family = be16 (b ! 0) (b ! 1), rr_tag = be16 (b ! 2) (b ! 3),
      rr_ip = be32 (b ! 4) (b ! 5) (b ! 6) (b ! 7), rr_mask = be32 (b ! 8) (b ! 9) (b ! 10) (b ! 11),
      rr_gw = be32 (b ! 12) (b ! 13) (b ! 14) (b ! 15),
      rr_metric = be32 (b ! 16) (b ! 17) (b ! 18) (b ! 19)\<rparr>"

definition packet_route :: "u8 list \<Rightarrow> nat \<Rightarrow> RipRoute" where
  "packet_route data k = parse_route (drop (4 + 20 * k) data)"

text \<open>The checks on a route entry, in source order.\<close>

definition rte_ok :: "u8 \<Rightarrow> RipRoute \<Rightarrow> bool" where
  "rte_ok version r =
     (let metric = rr_metric r; msk = rr_mask r; ip = rr_ip r; gw = rr_gw r
      in if rr_family r \<noteq> 2 then False
         else if isLoopback ip then False
         else if isBroadcast ip then False
         else if isMulticast ip then False
         else if metric > 16 \<or> metric = 0 then False
         else if \<not> (ip = 0 \<and> msk = 0) \<and> version = 2 \<and> msk = 0 then False
         else if \<not> (ip = 0 \<and> msk = 0) \<and> version = 1 \<and> msk \<noteq> 0 then False
         else if msk \<noteq> 0 \<and> \<not> maskContiguous msk then False
         else if gw \<noteq> 0 \<and> (isLoopback gw \<or> isMulticast gw \<or> isBroadcast gw) then False
         else True)"

definition rx_route :: "u8 \<Rightarrow> u32 \<Rightarrow> nat \<Rightarrow> nat \<Rightarrow> RipRoute \<Rightarrow> rip_proc \<Rightarrow> rip_proc" where
  "rx_route version src i k r p =
     (if \<not> rte_ok version r then upd_neigh k (\<lambda>n. n\<lparr>route_errors := route_errors n + 1\<rparr>) p
      else
        (let msk = (if version = 1 then classMask (rr_ip r) else rr_mask r);
             metric = rr_metric r + 1;
             gw = (if rr_gw r = 0 then src else rr_gw r)
         in if metric < 16 then
              upd_db (\<lambda>st. snd (ripdb_add (rp_cfg p) RCP_ROUTE_RIP (rr_ip r) msk gw metric src i st)) p
            else upd_db (\<lambda>st. snd (ripdb_delete (rp_cfg p) RCP_ROUTE_RIP (rr_ip r) msk gw src st)) p))"

section \<open>Authentication\<close>

text \<open>The new neighbour record, and the range of route entries to parse unless the packet is dropped.\<close>

definition rx_auth ::
    "MD5_CTX \<Rightarrow> string \<Rightarrow> u8 list \<Rightarrow> nat \<Rightarrow> RipNeighbor \<Rightarrow> RipNeighbor \<times> (nat \<times> nat) option" where
  "rx_auth ctx passwd data routes nb =
     (let hdr = packet_route data 0;
          err = (\<lambda>n :: RipNeighbor. n\<lparr>md5_errors := md5_errors n + 1\<rparr>)
      in if passwd \<noteq> [] \<and> (rr_family hdr \<noteq> 0xffff \<or> rr_tag hdr \<noteq> 3) then (err nb, None)
         else if rr_family hdr = 0xffff then
           (if rr_tag hdr = 3 \<and> passwd \<noteq> [] then
              (let offset = be16 (data ! 8) (data ! 9);
                   seq = be32 (data ! 12) (data ! 13) (data ! 14) (data ! 15)
               in if unat offset + 20 \<noteq> length data then (err nb, None)
                  else if seq \<noteq> 0 \<and> seq < auth_seq nb then (err nb, None)
                  else
                    (let nb1 = nb\<lparr>auth_seq := seq\<rparr>;
                         digest = rip_digest ctx (take (length data - 16) data) (rip_secret passwd)
                     in if take 16 (drop (4 + unat offset) data) \<noteq> digest then (err nb1, None)
                        else (nb1, Some (1, routes - 1))))
            else (nb, Some (1, routes - 1)))
         else (nb, Some (0, routes)))"

section \<open>Receiving a datagram\<close>

text \<open>What \<open>recvmsg\<close> returns: the bytes (at most the size of a \<open>RipPacket\<close>), the source address, and
  the destination address and interface index when the kernel delivers them.\<close>

record rx_dgram =
  dg_data :: "u8 list"
  dg_source :: u32
  dg_info :: "(u32 \<times> int) option"

definition rx_response :: "rip_env \<Rightarrow> u8 list \<Rightarrow> u32 \<Rightarrow> nat \<Rightarrow> nat \<Rightarrow> rip_proc \<Rightarrow> rip_proc" where
  "rx_response env data src i k p =
     (let routes = (length data - 4) div 20;
          (nb, range) = rx_auth (env_md5 env) (rip_passwd (rp_intf p ! i)) data routes (neighbors p ! k);
          p1 = upd_neigh k (\<lambda>_. nb) p
      in case range of
           None \<Rightarrow> p1
         | Some (rt, n) \<Rightarrow>
             fold (rx_route (data ! 1) src i k) (map (packet_route data) [rt..<n]) p1)"

definition rx_partner :: "u32 \<Rightarrow> u32 \<Rightarrow> RcpInterface \<Rightarrow> rip_proc \<Rightarrow> partner_ref option" where
  "rx_partner src dst rxif p =
     (case find_pos (\<lambda>net. rp_valid net \<and> rp_ip net = src \<and> if_ip rxif = dst) (rip_neighbor p) of
        Some k \<Rightarrow> Some (NbrRef k)
      | None \<Rightarrow> map_option NetRef (find_network_for_interface (rip_network p) rxif))"

definition neigh_error :: "nat \<Rightarrow> rip_proc \<Rightarrow> rip_proc" where
  "neigh_error k p = upd_neigh k (\<lambda>n. n\<lparr>nb_errors := nb_errors n + 1\<rparr>) p"

definition rx_command ::
    "rip_env \<Rightarrow> u8 list \<Rightarrow> u32 \<Rightarrow> nat \<Rightarrow> nat \<Rightarrow> partner_ref \<Rightarrow> rip_proc \<Rightarrow> rip_proc" where
  "rx_command env data src i k net p =
     (let rxif = rp_intf p ! i
      in if src AND if_mask rxif \<noteq> if_ip rxif AND if_mask rxif then neigh_error k p
         else if data ! 0 > 2 then neigh_error k p
         else if data ! 0 = 1 then
           upd_intf i (\<lambda>x. x\<lparr>rip_timeout := 1\<rparr>) (upd_partner net (\<lambda>n. n\<lparr>req_rx := req_rx n + 1\<rparr>) p)
         else rx_response env data src i k (upd_partner net (\<lambda>n. n\<lparr>resp_rx := resp_rx n + 1\<rparr>) p))"

definition rx_interface ::
    "rip_env \<Rightarrow> u8 list \<Rightarrow> u32 \<Rightarrow> u32 \<Rightarrow> int \<Rightarrow> nat \<Rightarrow> rip_proc \<Rightarrow> rip_proc" where
  "rx_interface env data src dst ifindex k p =
     (case rcpFindInterfaceByKIndex (rp_intf p) ifindex of
        None \<Rightarrow> neigh_error k p
      | Some i \<Rightarrow>
          (case rx_partner src dst (rp_intf p ! i) p of
             None \<Rightarrow> neigh_error k p
           | Some net \<Rightarrow> rx_command env data src i k net p))"

definition rxpacket :: "rip_env \<Rightarrow> rx_dgram option \<Rightarrow> rip_proc \<Rightarrow> rip_proc option" where
  "rxpacket env dgram p =
     (case dgram of
        None \<Rightarrow> None
      | Some dg \<Rightarrow>
          if length (dg_data dg) \<le> 4 \<or> (length (dg_data dg) - 4) mod 20 \<noteq> 0 then Some p
          else
            (case dg_info dg of
               None \<Rightarrow> Some p
             | Some (dst, ifindex) \<Rightarrow>
                 if rcpFindInterface (rp_intf p) (dg_source dg) \<noteq> None then Some p
                 else if find_pos (\<lambda>n. nb_ip n = dg_source dg) (neighbors p) = None \<and> \<not> malloc_ok (rp_cfg p)
                 then None
                 else
                   (let (k, nbs) = touch_neighbor (dg_source dg) (neighbors p)
                    in Some (rx_interface env (dg_data dg) (dg_source dg) dst ifindex k
                               (p\<lparr>neighbors := nbs\<rparr>)))))"

section \<open>Aging of neighbours\<close>

definition RCP_ACTIVE_NEIGHBOR_LIMIT :: nat where
  "RCP_ACTIVE_NEIGHBOR_LIMIT = 64"

text \<open>\<open>active_walk\<close> fills the table of active neighbours shown by the web interface; the flag is set
  when an element past the end of the array is written.\<close>

fun active_walk ::
    "RcpInterface list \<Rightarrow> RipNeighbor list \<Rightarrow> nat \<Rightarrow> RcpActiveNeighbor list \<Rightarrow> bool
       \<Rightarrow> nat \<times> RcpActiveNeighbor list \<times> bool" where
  "active_walk intfs [] i tab over = (i, tab, over)"
| "active_walk intfs (n # ns) i tab over =
     (let over1 = (over \<or> RCP_ACTIVE_NEIGHBOR_LIMIT \<le> i);
          tab1 = upd_pos i (\<lambda>a. a\<lparr>an_valid := False, an_area := 0, an_router_id := 0\<rparr>) tab
      in case rcpFindInterfaceByLPM intfs (nb_ip n) of
           None \<Rightarrow> active_walk intfs ns i tab1 over1
         | Some k \<Rightarrow>
             (let intf = intfs ! k;
                  tab2 = upd_pos i (\<lambda>a. a\<lparr>an_network := if_ip intf AND if_mask intf,
                                         an_netmask_cnt := mask2bits (if_mask intf),
                                         an_if_ip := if_ip intf, an_ip := nb_ip n, an_valid := True\<rparr>) tab1
              in active_walk intfs ns (Suc i) tab2 over1))"

definition clear_active :: "nat \<Rightarrow> RcpActiveNeighbor list \<Rightarrow> RcpActiveNeighbor list" where
  "clear_active i tab = take i tab @ map (\<lambda>a. a\<lparr>an_valid := False\<rparr>) (drop i tab)"

definition age_neighbors :: "rip_cfg \<Rightarrow> RipNeighbor list \<Rightarrow> RipNeighbor list" where
  "age_neighbors cfg nbs =
     filter (\<lambda>n. \<not> (rx_time n > word_of_nat (RIP_ROUTE_TIMEOUT cfg)))
       (map (\<lambda>n. n\<lparr>rx_time := rx_time n + 1\<rparr>) nbs)"

definition rxneigh_update :: "rip_proc \<Rightarrow> rip_proc" where
  "rxneigh_update p =
     (let p1 = p\<lparr>neighbors := age_neighbors (rp_cfg p) (neighbors p),
                 shm_update_timeout := shm_update_timeout p - 1\<rparr>
      in if shm_update_timeout p1 \<le> 0 then
           (let (i, tab, over) = active_walk (rp_intf p1) (neighbors p1) 0 (rip_active p1) (rip_active_overrun p1)
            in p1\<lparr>shm_update_timeout := 10, rip_active := clear_active i tab, rip_active_overrun := over\<rparr>)
         else p1)"

section \<open>The effect on the database\<close>

text \<open>The part of \<open>rx_route\<close> that touches the database.\<close>

definition rx_db :: "rip_cfg \<Rightarrow> u8 \<Rightarrow> u32 \<Rightarrow> nat \<Rightarrow> RipRoute \<Rightarrow> rip_state \<Rightarrow> rip_state" where
  "rx_db cfg version src i r st =
     (if \<not> rte_ok version r then st
      else
        (let msk = (if version = 1 then classMask (rr_ip r) else rr_mask r);
             gw = (if rr_gw r = 0 then src else rr_gw r)
         in if rr_metric r + 1 < 16
            then snd (ripdb_add cfg RCP_ROUTE_RIP (rr_ip r) msk gw (rr_metric r + 1) src i st)
            else snd (ripdb_delete cfg RCP_ROUTE_RIP (rr_ip r) msk gw src st)))"

lemma upd_neigh_simps [simp]:
  "rp_db (upd_neigh k f p) = rp_db p" "rp_cfg (upd_neigh k f p) = rp_cfg p"
  "rp_intf (upd_neigh k f p) = rp_intf p" "neighbors (upd_neigh k f p) = upd_pos k f (neighbors p)"
  "sroute (upd_neigh k f p) = sroute p"
  by (simp_all add: upd_neigh_def)

lemma upd_partner_neighbors [simp]: "neighbors (upd_partner net f p) = neighbors p"
  by (cases net) simp_all

lemma upd_intf_simps [simp]:
  "rp_db (upd_intf i f p) = rp_db p" "rp_cfg (upd_intf i f p) = rp_cfg p"
  "rp_intf (upd_intf i f p) = upd_pos i f (rp_intf p)" "sroute (upd_intf i f p) = sroute p"
  by (simp_all add: upd_intf_def)

lemma rx_route_simps [simp]:
  "rp_db (rx_route ver src i k r p) = rx_db (rp_cfg p) ver src i r (rp_db p)"
  "rp_cfg (rx_route ver src i k r p) = rp_cfg p"
  "rp_intf (rx_route ver src i k r p) = rp_intf p"
  by (simp_all add: rx_route_def rx_db_def Let_def)

lemma rx_route_fold [simp]:
  "rp_db (fold (rx_route ver src i k) rs p) = fold (rx_db (rp_cfg p) ver src i) rs (rp_db p)"
  "rp_cfg (fold (rx_route ver src i k) rs p) = rp_cfg p"
  "rp_intf (fold (rx_route ver src i k) rs p) = rp_intf p"
  by (induction rs arbitrary: p) simp_all

lemma rte_ok_metric: "rte_ok ver r \<Longrightarrow> rr_metric r + 1 \<noteq> 0"
proof -
  assume "rte_ok ver r"
  then have "rr_metric r \<le> 16" by (auto simp: rte_ok_def Let_def split: if_splits)
  then have "unat (rr_metric r + 1) = unat (rr_metric r) + 1"
    by (simp add: word_le_nat_alt unat_word_ariths)
  then show "rr_metric r + 1 \<noteq> 0" by (metis add_is_0 one_neq_zero unat_0)
qed

lemma rx_db_good:
  assumes "timer_ok cfg" "rip_good st"
  shows "rip_good (rx_db cfg ver src i r st)"
proof (cases "rte_ok ver r")
  case False
  then show ?thesis using assms by (simp add: rx_db_def)
next
  case True
  from rte_ok_metric [OF this] show ?thesis
    using db_step_good [OF assms, of "DbAdd _ _ _ _ _ _ _"] db_step_good [OF assms, of "DbDelete _ _ _ _ _"] True
    by (simp add: rx_db_def Let_def)
qed

lemma rx_db_fold_good:
  "timer_ok cfg \<Longrightarrow> rip_good st \<Longrightarrow> rip_good (fold (rx_db cfg ver src i) rs st)"
  by (induction rs arbitrary: st) (simp_all add: rx_db_good)

text \<open>What a datagram can do to the database: nothing, or the routes of an accepted response.\<close>

definition rx_apply ::
    "MD5_CTX \<Rightarrow> string \<Rightarrow> rip_cfg \<Rightarrow> u8 list \<Rightarrow> u32 \<Rightarrow> nat \<Rightarrow> RipNeighbor \<Rightarrow> rip_state \<Rightarrow> rip_state" where
  "rx_apply ctx passwd cfg data src i nb st =
     (case snd (rx_auth ctx passwd data ((length data - 4) div 20) nb) of
        None \<Rightarrow> st
      | Some (rt, n) \<Rightarrow> fold (rx_db cfg (data ! 1) src i) (map (packet_route data) [rt..<n]) st)"

lemma rx_response_simps [simp]:
  "rp_db (rx_response env data src i k p) =
     rx_apply (env_md5 env) (rip_passwd (rp_intf p ! i)) (rp_cfg p) data src i (neighbors p ! k) (rp_db p)"
  "rp_cfg (rx_response env data src i k p) = rp_cfg p"
  by (simp_all add: rx_response_def rx_apply_def Let_def split: prod.split option.split)

lemma rx_apply_good: "timer_ok cfg \<Longrightarrow> rip_good st \<Longrightarrow> rip_good (rx_apply ctx pw cfg data src i nb st)"
  by (simp add: rx_apply_def rx_db_fold_good split: option.split)

lemma neigh_error_simps [simp]:
  "rp_db (neigh_error k p) = rp_db p" "rp_cfg (neigh_error k p) = rp_cfg p"
  by (simp_all add: neigh_error_def)

text \<open>\<open>rx_accepts p src i\<close>: the guards that a datagram from \<open>src\<close> on interface \<open>i\<close> passes before
  its content is looked at.\<close>

definition rx_accepts :: "rip_proc \<Rightarrow> u32 \<Rightarrow> int \<Rightarrow> nat \<Rightarrow> bool" where
  "rx_accepts p src ifindex i \<longleftrightarrow>
     rcpFindInterfaceByKIndex (rp_intf p) ifindex = Some i \<and>
     src AND if_mask (rp_intf p ! i) = if_ip (rp_intf p ! i) AND if_mask (rp_intf p ! i)"

lemma rx_interface_db:
  "rp_cfg (rx_interface env data src dst ifindex k p) = rp_cfg p \<and>
   (rp_db (rx_interface env data src dst ifindex k p) = rp_db p \<or>
    (\<exists>i. rx_accepts p src ifindex i \<and>
       rp_db (rx_interface env data src dst ifindex k p) =
         rx_apply (env_md5 env) (rip_passwd (rp_intf p ! i)) (rp_cfg p) data src i (neighbors p ! k) (rp_db p)))"
  by (auto simp: rx_interface_def rx_command_def Let_def rx_accepts_def split: option.split)

lemma rxpacket_db:
  assumes "rxpacket env (Some dg) p = Some p'"
  shows "rp_cfg p' = rp_cfg p \<and> (rp_db p' = rp_db p \<or>
     (\<exists>i nb dst ifindex. dg_info dg = Some (dst, ifindex) \<and> rx_accepts p (dg_source dg) ifindex i \<and>
        rcpFindInterface (rp_intf p) (dg_source dg) = None \<and>
        rp_db p' = rx_apply (env_md5 env) (rip_passwd (rp_intf p ! i)) (rp_cfg p) (dg_data dg)
                     (dg_source dg) i nb (rp_db p)))"
proof (cases "p' = p")
  case False
  then have len: "\<not> (length (dg_data dg) \<le> 4 \<or> (length (dg_data dg) - 4) mod 20 \<noteq> 0)"
    using assms unfolding rxpacket_def option.case by (metis option.inject)
  obtain dst ifindex where info: "dg_info dg = Some (dst, ifindex)"
    using assms False len by (cases "dg_info dg") (auto simp: rxpacket_def)
  have own: "rcpFindInterface (rp_intf p) (dg_source dg) = None"
    using assms False len unfolding rxpacket_def info option.case prod.case by (metis option.inject)
  obtain k nbs where nb: "touch_neighbor (dg_source dg) (neighbors p) = (k, nbs)" by fastforce
  have "p' = rx_interface env (dg_data dg) (dg_source dg) dst ifindex k (p\<lparr>neighbors := nbs\<rparr>)"
    using assms len own unfolding rxpacket_def info option.case prod.case nb Let_def
    by (metis option.distinct(1) option.inject)
  then show ?thesis
    using rx_interface_db [of env "dg_data dg" "dg_source dg" dst ifindex k "p\<lparr>neighbors := nbs\<rparr>"]
      info own by (auto simp: rx_accepts_def)
qed simp

section \<open>Authenticated exchange\<close>

lemma rip_digest_eq:
  assumes "length (md5_buffer ctx) = 64" "length bytes < 2 ^ 32" "length secret < 2 ^ 32"
  shows "rip_digest ctx bytes secret = md5_digest (bytes @ secret)"
  using MD5Final_rep [OF md5_rep_update [OF md5_rep_update [OF md5_rep_init [OF assms(1)] assms(2)] assms(3)]]
  by (simp add: rip_digest_def)

lemma length_Encode_regs: "length (Encode (md5_reg_list s)) = 16"
  by (cases s rule: md5_reg_list.cases) (simp add: Encode_def)

lemma length_rip_digest [simp]: "length (rip_digest ctx bytes secret) = 16"
  by (simp add: rip_digest_def MD5Final_def Let_def length_Encode_regs)

lemmas be_put = be16_put16 [unfolded One_nat_def] be32_put32 [unfolded One_nat_def]

lemma parse_route_bytes [simp]: "parse_route (route_bytes r @ xs) = r"
  by (simp add: parse_route_def route_bytes_def put16_def put32_def be_put)

lemma drop_routes:
  "k \<le> length rs \<Longrightarrow> drop (20 * k) (concat (map route_bytes rs) @ xs) = concat (map route_bytes (drop k rs)) @ xs"
proof (induction k arbitrary: rs)
  case (Suc k)
  then obtain r rs' where rs: "rs = r # rs'" by (cases rs) auto
  have "drop (20 * Suc k) (concat (map route_bytes rs) @ xs) = drop (20 * k) (concat (map route_bytes rs') @ xs)"
    by (simp add: rs)
  with Suc rs show ?case by simp
qed simp

lemma packet_route_nth:
  assumes "length hdr = 4 + 20 * j" "k < length rs"
  shows "packet_route (hdr @ concat (map route_bytes rs) @ xs) (j + k) = rs ! k"
proof -
  have "drop (4 + 20 * (j + k)) (hdr @ concat (map route_bytes rs) @ xs) =
        drop (20 * k) (concat (map route_bytes rs) @ xs)"
    using assms(1) by (simp add: add.assoc distrib_left)
  also have "\<dots> = route_bytes (rs ! k) @ concat (map route_bytes (drop (Suc k) rs)) @ xs"
    using assms(2) by (simp only: drop_routes less_imp_le) (simp flip: Cons_nth_drop_Suc)
  finally show ?thesis by (simp add: packet_route_def)
qed

lemma packet_routes:
  assumes "length hdr = 4 + 20 * j"
  shows "map (packet_route (hdr @ concat (map route_bytes rs) @ xs)) [j..<j + length rs] = rs"
  by (rule nth_equalityI) (simp_all add: packet_route_nth [OF assms])

text \<open>The authentication header of a packet built by \<open>send_response\<close>, as the receiver reads it.\<close>

lemma auth_header:
  assumes "data = [a, b, c, d] @ auth_md5_bytes offset seq @ xs"
  shows "rr_family (packet_route data 0) = 0xffff" "rr_tag (packet_route data 0) = 3"
    "be16 (data ! 8) (data ! 9) = offset" "be32 (data ! 12) (data ! 13) (data ! 14) (data ! 15) = seq"
proof -
  have "be16 (byte_of (Suc 0) (unat (0xffff :: u16))) (byte_of 0 (unat (0xffff :: u16))) = 0xffff"
       "be16 (byte_of (Suc 0) (unat (3 :: u16))) (byte_of 0 (unat (3 :: u16))) = 3"
    by (rule be_put)+
  then show "rr_family (packet_route data 0) = 0xffff" "rr_tag (packet_route data 0) = 3"
    by (simp_all add: assms packet_route_def parse_route_def auth_md5_bytes_def put16_def)
  show "be16 (data ! 8) (data ! 9) = offset" "be32 (data ! 12) (data ! 13) (data ! 14) (data ! 15) = seq"
    by (simp_all add: assms auth_md5_bytes_def put16_def put32_def be_put)
qed

lemma length_rip_secret: "length pw \<le> 16 \<Longrightarrow> length (rip_secret pw) = 16"
  by (simp add: rip_secret_def)

lemma rx_auth_response:
  assumes "pw \<noteq> []" "length pw \<le> 16" "length rts \<le> 23"
    and "length (md5_buffer ctx) = 64" "length (md5_buffer (env_md5 env)) = 64"
    and "env_time env = 0 \<or> auth_seq nb \<le> env_time env"
  defines "data \<equiv> response_packet env pw rts"
  shows "rx_auth ctx pw data ((length data - 4) div 20) nb =
           (nb\<lparr>auth_seq := env_time env\<rparr>, Some (1, Suc (length rts)))"
proof -
  let ?body = "response_body (env_time env) rts"
  let ?off = "word_of_nat (rip_pkt_len (length rts + 1)) :: u16"
  have data: "data = ?body @ rip_digest (env_md5 env) ?body (rip_secret pw)"
    using assms(1) by (simp add: data_def response_packet_def)
  then have "data = [2, 2, 0, 0] @ auth_md5_bytes ?off (env_time env) @ (concat (map route_bytes rts) @
      put16 0xffff @ put16 1 @ rip_digest (env_md5 env) ?body (rip_secret pw))"
    by (simp add: response_body_def)
  note hdr = auth_header [OF this]
  have len: "length data = 44 + 20 * length rts" by (simp add: data)
  have off: "unat ?off = 24 + 20 * length rts"
    using assms(3) by (simp add: rip_pkt_len_def unat_of_nat del: of_nat_add of_nat_mult)
  have dig: "take 16 (drop (4 + (24 + 20 * length rts)) data) = rip_digest (env_md5 env) ?body (rip_secret pw)"
       "take (length data - 16) data = ?body"
    unfolding len by (simp_all add: data)
  have "rip_digest ctx ?body (rip_secret pw) = rip_digest (env_md5 env) ?body (rip_secret pw)"
    using assms(3-5) length_rip_secret [OF assms(2)] by (simp add: rip_digest_eq)
  moreover have "\<not> (env_time env \<noteq> 0 \<and> env_time env < auth_seq nb)" using assms(6) by auto
  ultimately show ?thesis
    using assms(1) unfolding rx_auth_def Let_def hdr off dig by (simp add: len)
qed

lemma response_packet_routes:
  assumes "pw \<noteq> []"
  shows "map (packet_route (response_packet env pw rts)) [1..<Suc (length rts)] = rts"
proof -
  let ?body = "response_body (env_time env) rts"
  let ?hdr = "[2, 2, 0, 0] @ auth_md5_bytes (word_of_nat (rip_pkt_len (length rts + 1))) (env_time env)"
  let ?xs = "put16 0xffff @ put16 1 @ rip_digest (env_md5 env) ?body (rip_secret pw)"
  have "response_packet env pw rts = ?hdr @ concat (map route_bytes rts) @ ?xs"
    using assms by (simp add: response_packet_def) (simp add: response_body_def)
  moreover have "length ?hdr = 24" by (simp add: auth_md5_bytes_def)
  ultimately show ?thesis using packet_routes [of ?hdr 1 rts ?xs] by simp
qed

lemma response_packet_plain:
  "map (packet_route (response_packet env [] rts)) [0..<length rts] = rts"
  using packet_routes [of "[2, 2, 0, 0]" 0 rts "[]"] by (simp add: response_packet_def)

lemma rx_apply_response:
  assumes "length pw \<le> 16" "length rts \<le> 23" "list_all (\<lambda>r. rr_family r = 2) rts" "pw \<noteq> [] \<or> rts \<noteq> []"
    and "length (md5_buffer ctx) = 64" "length (md5_buffer (env_md5 env)) = 64"
    and "env_time env = 0 \<or> auth_seq nb \<le> env_time env"
  shows "rx_apply ctx pw cfg (response_packet env pw rts) src i nb st = fold (rx_db cfg 2 src i) rts st"
proof (cases "pw = []")
  case False
  have "response_packet env pw rts ! 1 = 2" by (simp add: response_packet_def response_body_def False)
  then show ?thesis
    unfolding rx_apply_def rx_auth_response [OF False assms(1,2,5-7)] using response_packet_routes [OF False]
    by simp
next
  case True
  let ?data = "response_packet env [] rts"
  have rts: "rts \<noteq> []" using assms(4) True by simp
  then have "packet_route ?data 0 = hd rts"
    using packet_route_nth [of "[2, 2, 0, 0]" 0 0 rts "[]"] by (simp add: response_packet_def hd_conv_nth)
  then have "rr_family (packet_route ?data 0) = 2" using assms(3) rts by (cases rts) simp_all
  moreover have "(length ?data - 4) div 20 = length rts" "?data ! 1 = 2" by (simp_all add: response_packet_def)
  ultimately show ?thesis
    using response_packet_plain [of env rts] by (simp add: True rx_apply_def rx_auth_def Let_def)
qed

lemma touch_neighbor_seq:
  assumes "touch_neighbor src nbs = (k, nbs')" "\<forall>n \<in> set nbs. nb_ip n = src \<longrightarrow> P (auth_seq n)" "P 0"
  shows "P (auth_seq (nbs' ! k))"
proof (cases "find_pos (\<lambda>n. nb_ip n = src) nbs")
  case None
  then show ?thesis using assms by (auto simp: touch_neighbor_def new_neighbor_def)
next
  case (Some j)
  then have "j < length nbs" "nb_ip (nbs ! j) = src" by (auto dest: find_pos_Some)
  then show ?thesis using assms Some by (auto simp: touch_neighbor_def nth_upd_pos)
qed

lemma rx_interface_response:
  assumes "rx_accepts p src ifindex i" "rx_partner src dst (rp_intf p ! i) p \<noteq> None" "data ! 0 = 2"
  shows "rp_db (rx_interface env data src dst ifindex k p) =
     rx_apply (env_md5 env) (rip_passwd (rp_intf p ! i)) (rp_cfg p) data src i (neighbors p ! k) (rp_db p)"
  using assms by (auto simp: rx_accepts_def rx_interface_def rx_command_def Let_def)

lemma response_received:
  assumes "length pw \<le> 16" "length rts \<le> 23" "list_all (\<lambda>r. rr_family r = 2) rts" "pw \<noteq> [] \<or> rts \<noteq> []"
    and "length (md5_buffer (env_md5 env)) = 64" "length (md5_buffer (env_md5 snd_env)) = 64"
    and "rcpFindInterface (rp_intf p) src = None" "malloc_ok (rp_cfg p)"
    and "rx_accepts p src ifindex i" "rx_partner src dst (rp_intf p ! i) p \<noteq> None"
    and "rip_passwd (rp_intf p ! i) = pw"
    and "\<forall>n \<in> set (neighbors p). nb_ip n = src \<longrightarrow> auth_seq n \<le> env_time snd_env"
  shows "\<exists>p'. rxpacket env (Some \<lparr>dg_data = response_packet snd_env pw rts, dg_source = src,
                                 dg_info = Some (dst, ifindex)\<rparr>) p = Some p' \<and>
              rp_db p' = fold (rx_db (rp_cfg p) 2 src i) rts (rp_db p)"
proof -
  let ?data = "response_packet snd_env pw rts"
  obtain k nbs where nb: "touch_neighbor src (neighbors p) = (k, nbs)" by fastforce
  have seq: "auth_seq (nbs ! k) \<le> env_time snd_env"
    using touch_neighbor_seq [OF nb, where P = "\<lambda>x. x \<le> env_time snd_env"] assms(12) by simp
  have len: "4 < length ?data" "(length ?data - 4) mod 20 = 0" "?data ! 0 = 2"
    using assms(4) by (auto simp: response_packet_def response_body_def auth_md5_bytes_def)
  let ?p = "p\<lparr>neighbors := nbs\<rparr>"
  have "rx_partner src dst (rp_intf ?p ! i) ?p \<noteq> None" "rx_accepts ?p src ifindex i"
    using assms(9,10) by (simp_all add: rx_partner_def rx_accepts_def split: option.splits)
  then have "rp_db (rx_interface env ?data src dst ifindex k ?p) = fold (rx_db (rp_cfg p) 2 src i) rts (rp_db p)"
    using rx_interface_response [of ?p src ifindex i dst ?data env k] len(3) assms(11) seq
      rx_apply_response [OF assms(1-6), of "nbs ! k" "rp_cfg p" src i "rp_db p"]
    by simp
  moreover have "rxpacket env (Some \<lparr>dg_data = ?data, dg_source = src, dg_info = Some (dst, ifindex)\<rparr>) p
      = Some (rx_interface env ?data src dst ifindex k ?p)"
    using len(1,2) assms(7,8) by (simp add: rxpacket_def nb)
  ultimately show ?thesis by blast
qed

lemma rxpacket_total: "malloc_ok (rp_cfg p) \<Longrightarrow> \<exists>p'. rxpacket env (Some dg) p = Some p'"
  by (simp add: rxpacket_def split: option.split prod.split)

text \<open>A receiver with an empty database, a route and the packet that carries it.\<close>

definition proc2 :: rip_proc where
  "proc2 = proc1\<lparr>rp_db := rip_init\<rparr>"

definition route2 :: RipRoute where
  "route2 = \<lparr>rr_family = 2, rr_tag = 0, rr_ip = 0x0a000000, rr_mask = 0xff000000, rr_gw = 0, rr_metric = 3\<rparr>"

definition dgram2 :: rx_dgram where
  "dgram2 = \<lparr>dg_data = response_packet env1 ''secret'' [route2], dg_source = 0xc0a80163,
             dg_info = Some (0xe0000009, 1)\<rparr>"

lemma intf2: "rp_intf proc2 = [intf1]" "rp_intf proc2 ! 0 = intf1" "rp_cfg proc2 = cfg1" "neighbors proc2 = []"
    "rip_passwd intf1 = ''secret''" "rp_db proc2 = rip_init"
  by (simp_all add: proc2_def proc1_def intf1_def)

lemma rx_accepts2: "rx_accepts proc2 0xc0a80163 1 0" "rcpFindInterface [intf1] 0xc0a80163 = None"
    "rx_partner 0xc0a80163 0xe0000009 intf1 proc2 = Some (NetRef 0)"
  by (simp_all add: intf2 rx_accepts_def rcpFindInterfaceByKIndex_def rcpFindInterface_def rx_partner_def
        find_network_for_interface_def intf1_def proc2_def proc1_def)

lemma received2:
  "\<exists>p'. rxpacket env1 (Some dgram2) proc2 = Some p' \<and>
        rp_db p' = fold (rx_db cfg1 2 0xc0a80163 0) [route2] rip_init"
  unfolding dgram2_def intf2(3,6) [symmetric]
  by (rule response_received) (simp_all add: intf2 rx_accepts2 route2_def env1_def cfg1_def)

section \<open>Properties\<close>

text \<open>whatever bytes a datagram carries, receiving it keeps the database consistent, the kernel
  table in step with it and every assertion of the database code true.\<close>
theorem rxpacket_keeps_database:
  assumes "rxpacket env (Some dg) p = Some p'" "timer_range (rp_cfg p)" "rip_good (rp_db p)"
  shows "rip_good (rp_db p')"
  using rxpacket_db [OF assms(1)] assms(3) rx_apply_good [OF timer_range_ok [OF assms(2)] assms(3)] by auto

theorem rxpacket_keeps_database_witness:
  "\<exists>p'. rxpacket env1 (Some dgram2) proc2 = Some p' \<and> rip_good (rp_db p')"
proof -
  obtain p' where p': "rxpacket env1 (Some dgram2) proc2 = Some p'" using received2 by blast
  moreover have "timer_range (rp_cfg proc2)" "rip_good (rp_db proc2)"
    by (simp_all add: intf2 timer_range_def cfg1_def rip_good_init)
  ultimately show ?thesis using rxpacket_keeps_database by blast
qed

text \<open>C30: on an interface with a password, a datagram that changes the database carries the MD5 digest,
  computed with that password, of the rest of the packet.\<close>
theorem rxpacket_authenticated:
  assumes "rxpacket env (Some dg) p = Some p'" "rp_db p' \<noteq> rp_db p"
    and "dg_info dg = Some (dst, ifindex)" "rcpFindInterfaceByKIndex (rp_intf p) ifindex = Some i"
    and "rip_passwd (rp_intf p ! i) \<noteq> []" "length (rip_passwd (rp_intf p ! i)) \<le> 16"
    and "length (md5_buffer (env_md5 env)) = 64" "length (dg_data dg) \<le> 504"
  shows "drop (length (dg_data dg) - 16) (dg_data dg) =
         md5_digest (take (length (dg_data dg) - 16) (dg_data dg) @ rip_secret (rip_passwd (rp_intf p ! i)))"
proof -
  let ?pw = "rip_passwd (rp_intf p ! i)" and ?data = "dg_data dg"
  obtain nb where "rp_db p' = rx_apply (env_md5 env) ?pw (rp_cfg p) ?data (dg_source dg) i nb (rp_db p)"
    using rxpacket_db [OF assms(1)] assms(2-4) by (auto simp: rx_accepts_def)
  then have "rx_apply (env_md5 env) ?pw (rp_cfg p) ?data (dg_source dg) i nb (rp_db p) \<noteq> rp_db p"
    using assms(2) by simp
  then have "snd (rx_auth (env_md5 env) ?pw ?data ((length ?data - 4) div 20) nb) \<noteq> None"
    unfolding rx_apply_def by (metis option.simps(4))
  then have off: "unat (be16 (?data ! 8) (?data ! 9)) + 20 = length ?data"
    and dig: "take 16 (drop (4 + unat (be16 (?data ! 8) (?data ! 9))) ?data) =
         rip_digest (env_md5 env) (take (length ?data - 16) ?data) (rip_secret ?pw)"
    using assms(5) by (auto simp: rx_auth_def Let_def split: if_splits)
  have "4 + unat (be16 (?data ! 8) (?data ! 9)) = length ?data - 16" using off by linarith
  then have "drop (length ?data - 16) ?data = rip_digest (env_md5 env) (take (length ?data - 16) ?data) (rip_secret ?pw)"
    using dig off by simp
  then show ?thesis
    using assms(7,8) length_rip_secret [OF assms(6)] by (simp add: rip_digest_eq)
qed

theorem rxpacket_authenticated_witness:
  "drop (length (dg_data dgram2) - 16) (dg_data dgram2) =
   md5_digest (take (length (dg_data dgram2) - 16) (dg_data dgram2) @ rip_secret ''secret'')"
proof -
  obtain p' where p': "rxpacket env1 (Some dgram2) proc2 = Some p'"
      "rp_db p' = fold (rx_db cfg1 2 0xc0a80163 0) [route2] rip_init"
    using received2 by blast
  have "maskContiguous 0xff000000" by code_simp
  then have "ripdb_index (rp_db p') 10 \<noteq> []"
    by (simp add: p'(2) rx_db_def rte_ok_def route2_def isLoopback_def isBroadcast_def isMulticast_def
        IN_CLASSA_def IN_CLASSB_def IN_CLASSC_def IN_CLASSD_def Let_def
        ripdb_add_def rip_init_def initialize_def assert_c_def find_exact_def find_route_def
        ripdb_insert_def cfg1_def rip_hash_def)
  then have ch: "rp_db p' \<noteq> rp_db proc2" by (auto simp: intf2 rip_init_def)
  have "dg_info dgram2 = Some (0xe0000009, 1)" "rcpFindInterfaceByKIndex (rp_intf proc2) 1 = Some 0"
       "rip_passwd (rp_intf proc2 ! 0) \<noteq> []" "length (rip_passwd (rp_intf proc2 ! 0)) \<le> 16"
       "length (md5_buffer (env_md5 env1)) = 64" "length (dg_data dgram2) \<le> 504"
    using rx_accepts2(1) by (simp_all add: dgram2_def intf2 env1_def rx_accepts_def response_packet_def)
  from rxpacket_authenticated [OF p'(1) ch this] show ?thesis by (simp add: intf2)
qed

text \<open>C31: what one router sends with \<open>send_response\<close> another one with the same password accepts, and it
  takes exactly the routes that were sent, in order: sender and receiver agree on the packet format,
  the digest and the place of the authentication entries.\<close>
theorem rip_exchange:
  assumes "length pw \<le> 16" "length rts \<le> 23" "list_all (\<lambda>r. rr_family r = 2) rts" "pw \<noteq> [] \<or> rts \<noteq> []"
    and "length (md5_buffer (env_md5 env)) = 64" "length (md5_buffer (env_md5 snd_env)) = 64"
    and "rcpFindInterface (rp_intf p) src = None" "malloc_ok (rp_cfg p)"
    and "rx_accepts p src ifindex i" "rx_partner src dst (rp_intf p ! i) p \<noteq> None"
    and "rip_passwd (rp_intf p ! i) = pw"
    and "\<forall>n \<in> set (neighbors p). nb_ip n = src \<longrightarrow> auth_seq n \<le> env_time snd_env"
  shows "\<exists>p'. rxpacket env (Some \<lparr>dg_data = response_packet snd_env pw rts, dg_source = src,
                                 dg_info = Some (dst, ifindex)\<rparr>) p = Some p' \<and>
              rp_db p' = fold (rx_db (rp_cfg p) 2 src i) rts (rp_db p)"
  using assms by (rule response_received)

theorem rip_exchange_witness:
  "\<exists>p'. rxpacket env1 (Some dgram2) proc2 = Some p' \<and>
        rp_db p' = fold (rx_db cfg1 2 0xc0a80163 0) [route2] rip_init"
  unfolding dgram2_def intf2(3,6) [symmetric]
  by (rule rip_exchange) (simp_all add: intf2 rx_accepts2 route2_def env1_def cfg1_def)


end
