(* ===== verification/Rip_Proc.thy ===== *)
theory Rip_Proc
  imports Rip_Rx
begin

text \<open>
  The RIP process: interface and multicast group tracking, periodic and triggered updates,
  redistribution of connected and static routes (\<^verbatim>\<open>src/src/rip/exec/rip_interface.c\<close>), the
  configuration commands (\<^verbatim>\<open>src/src/rip/exec/callbacks.c\<close>, \<^verbatim>\<open>restart.c\<close>) and the main loop
  (\<^verbatim>\<open>src/src/rip/exec/main.c\<close>), where one iteration handles one input.
\<close>

section \<open>Multicast group membership\<close>

definition rxmultijoin :: "rip_env \<Rightarrow> u32 \<Rightarrow> rip_state \<Rightarrow> rip_state" where
  "rxmultijoin env ip st =
     (if env_multi env (MultiJoin ip) then emit (MultiJoin ip) st else emit Assertion st)"

definition rxmultidrop :: "rip_env \<Rightarrow> u32 \<Rightarrow> rip_state \<Rightarrow> rip_state" where
  "rxmultidrop env ip st =
     (if env_multi env (MultiDrop ip) then emit (MultiDrop ip) st else emit Assertion st)"

text \<open>The block that takes an interface out of RIP; it occurs three times in the source.\<close>

definition leave_interface :: "rip_env \<Rightarrow> nat \<Rightarrow> rip_proc \<Rightarrow> rip_proc" where
  "leave_interface env i p =
     upd_db (ripdb_delete_interface (rp_cfg p) i)
       (upd_intf i (\<lambda>x. x\<lparr>rip_multicast_ip := 0, rip_multicast_mask := 0, rip_timeout := 0\<rparr>)
         (upd_db (rxmultidrop env (rip_multicast_ip (rp_intf p ! i))) p))"

definition join_interface :: "rip_env \<Rightarrow> nat \<Rightarrow> nat \<Rightarrow> rip_proc \<Rightarrow> rip_proc" where
  "join_interface env i net p =
     (let intf = rp_intf p ! i;
          p1 = upd_intf i (\<lambda>x. x\<lparr>rip_multicast_ip := if_ip x, rip_multicast_mask := if_mask x, rip_timeout := 1\<rparr>)
                 (upd_db (rxmultijoin env (if_ip intf)) p);
          p2 = upd_db (\<lambda>st. let (rv, st') = ripdb_add (rp_cfg p) RCP_ROUTE_RIP_NETWORK
                                   (if_ip intf AND if_mask intf) (if_mask intf) 0 1 0 i st
                            in assert_c (rv = 0) st') p1
      in txrequest env i (NetRef net) p2)"

definition rip_update_interface :: "rip_env \<Rightarrow> nat \<Rightarrow> rip_proc \<Rightarrow> rip_proc" where
  "rip_update_interface env i p =
     (let intf = rp_intf p ! i
      in if if_name intf = [] \<or> if_typ intf = IF_LOOPBACK then p
         else if if_ip intf \<noteq> rip_multicast_ip intf \<or> if_mask intf \<noteq> rip_multicast_mask intf then
           (let p1 = (if rip_multicast_ip intf \<noteq> 0 then leave_interface env i p else p)
            in if if_ip intf = 0 then p1
               else if if_link_up intf then
                 (case find_network_for_interface (rip_network p1) intf of
                    None \<Rightarrow> p1
                  | Some net \<Rightarrow> join_interface env i net p1)
               else p1)
         else if \<not> if_link_up intf \<and> rip_multicast_ip intf \<noteq> 0 then leave_interface env i p
         else if if_link_up intf \<and> rip_multicast_ip intf \<noteq> 0 then
           (case find_network_for_interface (rip_network p) intf of
              None \<Rightarrow> leave_interface env i p
            | Some net \<Rightarrow> p)
         else p)"

definition rip_update_interfaces :: "rip_env \<Rightarrow> rip_proc \<Rightarrow> rip_proc" where
  "rip_update_interfaces env p = fold (rip_update_interface env) [0..<length (rp_intf p)] p"

section \<open>Updates to neighbours\<close>

definition next_timeout :: "rip_env \<Rightarrow> rip_proc \<Rightarrow> int \<times> rip_proc" where
  "next_timeout env p =
     (let t = uint (rip_update_timer (rp_cfg p))
      in if t > 15 then (t - 5 + env_rand env (rand_cnt p) mod 10, p\<lparr>rand_cnt := Suc (rand_cnt p)\<rparr>)
         else (t, p))"

definition timeout_interface :: "rip_env \<Rightarrow> nat \<Rightarrow> rip_proc \<Rightarrow> rip_proc" where
  "timeout_interface env i p =
     (let intf = rp_intf p ! i
      in if if_name intf = [] \<or> if_typ intf = IF_LOOPBACK then p
         else
           (case find_network_for_interface (rip_network p) intf of
              None \<Rightarrow> p
            | Some net \<Rightarrow>
                if rip_multicast_ip intf \<noteq> 0 then
                  (let p1 = upd_intf i (\<lambda>x. x\<lparr>rip_timeout := rip_timeout x - 1\<rparr>) p
                   in if rip_timeout intf - 1 \<le> 0 then
                        (let p2 = (if if_link_up intf then txresponse env i False (NetRef net) p1 else p1);
                             (t, p3) = next_timeout env p2
                         in upd_intf i (\<lambda>x. x\<lparr>rip_timeout := t\<rparr>) p3)
                      else p1)
                else p))"

definition timeout_neighbor :: "rip_env \<Rightarrow> nat \<Rightarrow> rip_proc \<Rightarrow> rip_proc" where
  "timeout_neighbor env k p =
     (let net = rip_neighbor p ! k
      in if \<not> rp_valid net then p
         else
           (let p1 = upd_partner (NbrRef k) (\<lambda>n. n\<lparr>rp_timeout := rp_timeout n - 1\<rparr>) p
            in if rp_timeout net - 1 \<le> 0 then
                 (let p2 = (case rcpFindInterfaceByLPM (rp_intf p1) (rp_ip net) of
                              None \<Rightarrow> p1
                            | Some i \<Rightarrow> if if_link_up (rp_intf p1 ! i)
                                       then txresponse env i False (NbrRef k) p1 else p1);
                      (t, p3) = next_timeout env p2
                  in upd_partner (NbrRef k) (\<lambda>n. n\<lparr>rp_timeout := t\<rparr>) p3)
               else p1))"

definition rip_send_timeout_updates :: "rip_env \<Rightarrow> rip_proc \<Rightarrow> rip_proc" where
  "rip_send_timeout_updates env p =
     (let p1 = fold (timeout_interface env) [0..<length (rp_intf p)] p;
          p2 = fold (timeout_neighbor env) [0..<length (rip_neighbor p1)] p1
      in upd_db ripdb_clean_updates p2)"

definition delta_interface :: "rip_env \<Rightarrow> nat \<Rightarrow> rip_proc \<Rightarrow> rip_proc" where
  "delta_interface env i p =
     (let intf = rp_intf p ! i
      in if if_name intf = [] \<or> if_typ intf = IF_LOOPBACK then p
         else
           (case find_network_for_interface (rip_network p) intf of
              None \<Rightarrow> p
            | Some net \<Rightarrow>
                if rip_multicast_ip intf \<noteq> 0 \<and> if_link_up intf then txresponse env i True (NetRef net) p
                else p))"

definition delta_neighbor :: "rip_env \<Rightarrow> nat \<Rightarrow> rip_proc \<Rightarrow> rip_proc" where
  "delta_neighbor env k p =
     (if \<not> rp_valid (rip_neighbor p ! k) then p
      else
        (case rcpFindInterfaceByLPM (rp_intf p) (rp_ip (rip_neighbor p ! k)) of
           None \<Rightarrow> p
         | Some i \<Rightarrow> if if_link_up (rp_intf p ! i) then txresponse env i True (NbrRef k) p else p))"

definition rip_send_delta_updates :: "rip_env \<Rightarrow> rip_proc \<Rightarrow> rip_proc" where
  "rip_send_delta_updates env p =
     (let p1 = fold (delta_interface env) [0..<length (rp_intf p)] p
      in fold (delta_neighbor env) [0..<length (rip_neighbor p1)] p1)"

section \<open>Redistribution\<close>

definition connected_interface :: "nat \<Rightarrow> rip_proc \<Rightarrow> rip_proc" where
  "connected_interface i p =
     (let intf = rp_intf p ! i
      in if if_name intf = [] \<or> if_typ intf = IF_LOOPBACK \<or> if_ip intf = 0 then p
         else if \<not> if_link_up intf then p
         else upd_db (\<lambda>st. snd (ripdb_add (rp_cfg p) RCP_ROUTE_CONNECTED (if_ip intf AND if_mask intf)
                (if_mask intf) 0 (ucast (rip_redist_connected (rp_cfg p))) 0 i st)) p)"

definition rip_update_connected :: "rip_proc \<Rightarrow> rip_proc" where
  "rip_update_connected p =
     (if rip_redist_connected (rp_cfg p) = 0 then p
      else fold connected_interface [0..<length (rp_intf p)] p)"

definition subnets_interface :: "nat \<Rightarrow> rip_proc \<Rightarrow> rip_proc" where
  "subnets_interface i p =
     (let intf = rp_intf p ! i
      in if if_name intf = [] \<or> if_typ intf \<noteq> IF_LOOPBACK \<or> if_ip intf = 0 then p
         else if \<not> rcpInterfaceVirtual (if_name intf) then p
         else upd_db (\<lambda>st. snd (ripdb_add (rp_cfg p) RCP_ROUTE_CONNECTED_SUBNETS (if_ip intf AND if_mask intf)
                (if_mask intf) 0 1 0 i st)) p)"

definition rip_update_connected_subnets :: "rip_proc \<Rightarrow> rip_proc" where
  "rip_update_connected_subnets p =
     (if rip_redist_connected_subnets (rp_cfg p) = 0
      then upd_db (ripdb_delete_type (rp_cfg p) RCP_ROUTE_CONNECTED_SUBNETS) p
      else fold subnets_interface [0..<length (rp_intf p)] p)"

definition static_route :: "RcpStaticRoute \<Rightarrow> rip_proc \<Rightarrow> rip_proc" where
  "static_route r p =
     (if \<not> sr_valid r \<or> sr_type r \<noteq> RCP_ROUTE_STATIC then p
      else if sr_ip r = 0 \<and> sr_mask r = 0 \<and> rip_default_information (rp_cfg p) = 0 then p
      else
        (let del = upd_db (\<lambda>st. snd (ripdb_delete (rp_cfg p) RCP_ROUTE_STATIC (sr_ip r) (sr_mask r) (sr_gw r) 0 st)) p
         in case rcpFindInterfaceByLPM (rp_intf p) (sr_gw r) of
              None \<Rightarrow> del
            | Some i \<Rightarrow>
                if \<not> if_link_up (rp_intf p ! i) then del
                else upd_db (\<lambda>st. snd (ripdb_add (rp_cfg p) RCP_ROUTE_STATIC (sr_ip r) (sr_mask r) (sr_gw r)
                       (ucast (rip_redist_static (rp_cfg p))) 0 i st)) p))"

definition rip_update_static :: "rip_proc \<Rightarrow> rip_proc" where
  "rip_update_static p =
     (if rip_redist_static (rp_cfg p) = 0 then upd_db (ripdb_delete_type (rp_cfg p) RCP_ROUTE_STATIC) p
      else fold static_route (sroute p) p)"

definition route_request :: "rip_cfg \<Rightarrow> rip_state \<Rightarrow> rip_state" where
  "route_request cfg st =
     (if muxsock st then
        (if mux_send cfg RouteRequest then emit RouteRequest st else st\<lparr>muxsock := False\<rparr>)
      else st)"

section \<open>Configuration commands\<close>

text \<open>A command returns 0 or \<open>RCPERR\<close>; error texts are not modelled. \<open>argv\<close> holds the words of
  the command line.\<close>

definition RCPERR :: int where
  "RCPERR = 1"

definition atoi :: "string \<Rightarrow> int" where
  "atoi s =
     (let s1 = dropWhile is_space s;
          neg = (s1 \<noteq> [] \<and> hd s1 = CHR ''-'');
          s2 = (if s1 \<noteq> [] \<and> (hd s1 = CHR ''-'' \<or> hd s1 = CHR ''+'') then tl s1 else s1);
          v = int (foldl (\<lambda>n c. n * 10 + digit_val c) 0 (takeWhile is_digit s2))
      in if neg then - v else v)"

definition is_no :: "string list \<Rightarrow> bool" where
  "is_no argv \<longleftrightarrow> argv ! 0 = ''no''"

definition find_network :: "u32 \<Rightarrow> u32 \<Rightarrow> RcpRipPartner list \<Rightarrow> nat option" where
  "find_network ip msk nets = find_pos (\<lambda>n. rp_valid n \<and> ip = rp_ip n \<and> msk = rp_mask n) nets"

definition find_network_empty :: "RcpRipPartner list \<Rightarrow> nat option" where
  "find_network_empty nets = find_pos (\<lambda>n. \<not> rp_valid n) nets"

definition new_partner :: "u32 \<Rightarrow> u32 \<Rightarrow> RcpRipPartner" where
  "new_partner ip msk = \<lparr>rp_valid = True, rp_ip = ip, rp_mask = msk, rp_timeout = 0,
                         req_rx = 0, req_tx = 0, resp_rx = 0, resp_tx = 0\<rparr>"

definition invalidate :: "RcpRipPartner \<Rightarrow> RcpRipPartner" where
  "invalidate n = n\<lparr>rp_valid := False\<rparr>"

definition cliNoNetworkCidrAll :: "rip_proc \<Rightarrow> int \<times> rip_proc" where
  "cliNoNetworkCidrAll p = (0, p\<lparr>rip_network := map invalidate (rip_network p)\<rparr>)"

definition cliNetworkCidrCmd :: "string list \<Rightarrow> rip_proc \<Rightarrow> int \<times> rip_proc" where
  "cliNetworkCidrCmd argv p =
     (case atocidr (argv ! (if is_no argv then 2 else 1)) of
        None \<Rightarrow> (RCPERR, p)
      | Some (ip, msk) \<Rightarrow>
          if ip AND NOT msk \<noteq> 0 then (RCPERR, p)
          else
            (case find_network ip msk (rip_network p) of
               Some k \<Rightarrow> (0, if is_no argv then upd_partner (NetRef k) invalidate p else p)
             | None \<Rightarrow>
                 if is_no argv then (0, p)
                 else
                   (case find_network_empty (rip_network p) of
                      None \<Rightarrow> (RCPERR, p)
                    | Some k \<Rightarrow> (0, upd_partner (NetRef k) (\<lambda>_. new_partner ip msk) p))))"

definition cliNeighborCmd :: "rip_env \<Rightarrow> string list \<Rightarrow> rip_proc \<Rightarrow> int \<times> rip_proc" where
  "cliNeighborCmd env argv p =
     (case atoip (argv ! (if is_no argv then 2 else 1)) of
        None \<Rightarrow> (RCPERR, p)
      | Some ip \<Rightarrow>
          (case find_network ip 0xffffffff (rip_neighbor p) of
             Some k \<Rightarrow> (0, if is_no argv then upd_partner (NbrRef k) invalidate p else p)
           | None \<Rightarrow>
               if is_no argv then (0, p)
               else
                 (case find_network_empty (rip_neighbor p) of
                    None \<Rightarrow> (RCPERR, p)
                  | Some k \<Rightarrow>
                      (let p1 = upd_partner (NbrRef k) (\<lambda>_. new_partner ip 0xffffffff) p
                       in (0, case rcpFindInterfaceByLPM (rp_intf p1) ip of
                                None \<Rightarrow> p1
                              | Some i \<Rightarrow> if if_link_up (rp_intf p1 ! i) then txrequest env i (NbrRef k) p1
                                         else p1)))))"

definition cliPassiveInterfaceCmd :: "string list \<Rightarrow> rip_proc \<Rightarrow> int \<times> rip_proc" where
  "cliPassiveInterfaceCmd argv p =
     (case rcpFindInterfaceByName (rp_intf p) (argv ! (if is_no argv then 2 else 1)) of
        None \<Rightarrow> (RCPERR, p)
      | Some i \<Rightarrow> (0, upd_intf i (\<lambda>x. x\<lparr>rip_passive_interface := \<not> is_no argv\<rparr>) p))"

definition upd_cfg :: "(rip_cfg \<Rightarrow> rip_cfg) \<Rightarrow> rip_proc \<Rightarrow> rip_proc" where
  "upd_cfg f p = p\<lparr>rp_cfg := f (rp_cfg p)\<rparr>"

definition delete_type :: "RcpRouteType \<Rightarrow> rip_proc \<Rightarrow> rip_proc" where
  "delete_type type p = upd_db (ripdb_delete_type (rp_cfg p) type) p"

definition newmetric :: "string list \<Rightarrow> u32" where
  "newmetric argv = (if length argv = 4 then word_of_int (atoi (argv ! 3)) else 1)"

definition cliRedistStaticCmd :: "string list \<Rightarrow> rip_proc \<Rightarrow> int \<times> rip_proc" where
  "cliRedistStaticCmd argv p =
     (let p1 = (if is_no argv
                then delete_type RCP_ROUTE_STATIC (upd_cfg (\<lambda>c. c\<lparr>rip_redist_static := 0\<rparr>) p)
                else upd_cfg (\<lambda>c. c\<lparr>rip_redist_static := ucast (newmetric argv)\<rparr>)
                       (if ucast (rip_redist_static (rp_cfg p)) \<noteq> newmetric argv
                        then delete_type RCP_ROUTE_STATIC p else p))
      in (0, rip_update_static p1))"

definition cliRedistConnectedCmd :: "string list \<Rightarrow> rip_proc \<Rightarrow> int \<times> rip_proc" where
  "cliRedistConnectedCmd argv p =
     (if is_no argv
      then (0, delete_type RCP_ROUTE_CONNECTED (upd_cfg (\<lambda>c. c\<lparr>rip_redist_connected := 0\<rparr>) p))
      else (0, rip_update_connected
             (upd_cfg (\<lambda>c. c\<lparr>rip_redist_connected := ucast (newmetric argv)\<rparr>)
               (if ucast (rip_redist_connected (rp_cfg p)) \<noteq> newmetric argv
                then delete_type RCP_ROUTE_CONNECTED p else p))))"

definition cliRedistConnectedSubnetsCmd :: "string list \<Rightarrow> rip_proc \<Rightarrow> int \<times> rip_proc" where
  "cliRedistConnectedSubnetsCmd argv p =
     (if is_no argv
      then (0, delete_type RCP_ROUTE_CONNECTED_SUBNETS (upd_cfg (\<lambda>c. c\<lparr>rip_redist_connected_subnets := 0\<rparr>) p))
      else (0, rip_update_connected_subnets (upd_cfg (\<lambda>c. c\<lparr>rip_redist_connected_subnets := 1\<rparr>) p)))"

definition cliRedistOspfCmd :: "string list \<Rightarrow> rip_proc \<Rightarrow> int \<times> rip_proc" where
  "cliRedistOspfCmd argv p =
     (if is_no argv
      then (0, delete_type RCP_ROUTE_OSPF (upd_cfg (\<lambda>c. c\<lparr>rip_redist_ospf := 0\<rparr>) p))
      else
        (let p1 = upd_cfg (\<lambda>c. c\<lparr>rip_redist_ospf := ucast (newmetric argv)\<rparr>)
                    (if ucast (rip_redist_ospf (rp_cfg p)) \<noteq> newmetric argv
                     then delete_type RCP_ROUTE_OSPF p else p)
         in (0, upd_db (route_request (rp_cfg p1)) p1)))"

definition cliDefaultInformationOriginateCmd :: "string list \<Rightarrow> rip_proc \<Rightarrow> int \<times> rip_proc" where
  "cliDefaultInformationOriginateCmd argv p =
     (let p1 = (if is_no argv
                then delete_type RCP_ROUTE_STATIC (upd_cfg (\<lambda>c. c\<lparr>rip_default_information := 0\<rparr>) p)
                else upd_cfg (\<lambda>c. c\<lparr>rip_default_information := 1\<rparr>) p)
      in (0, rip_update_static p1))"

definition cliUpdateTimerCmd :: "string list \<Rightarrow> rip_proc \<Rightarrow> int \<times> rip_proc" where
  "cliUpdateTimerCmd argv p =
     (0, upd_cfg (\<lambda>c. c\<lparr>rip_update_timer := if is_no argv then 30 else word_of_int (atoi (argv ! 1))\<rparr>) p)"

definition cliNoRouterRipCmd :: "rip_proc \<Rightarrow> int \<times> rip_proc" where
  "cliNoRouterRipCmd p =
     (let p1 = p\<lparr>rip_network := map invalidate (rip_network p), rip_neighbor := map invalidate (rip_neighbor p),
                 rp_intf := map (\<lambda>x. x\<lparr>rip_passive_interface := False\<rparr>) (rp_intf p)\<rparr>;
          p2 = upd_cfg (\<lambda>c. c\<lparr>rip_redist_connected := 0, rip_redist_static := 0, rip_default_information := 0,
                             rip_update_timer := 30\<rparr>) p1
      in (0, upd_db (ripdb_delete_all (rp_cfg p2)) p2))"

definition cliIpRipMd5 :: "string \<Rightarrow> string list \<Rightarrow> rip_proc \<Rightarrow> int \<times> rip_proc" where
  "cliIpRipMd5 ifname argv p =
     (case rcpFindInterfaceByName (rp_intf p) ifname of
        None \<Rightarrow> (RCPERR, p)
      | Some i \<Rightarrow> (0, upd_intf i (\<lambda>x. x\<lparr>rip_passwd := if is_no argv then [] else argv ! 4\<rparr>) p))"

definition clear_rip_stats :: "rip_proc \<Rightarrow> rip_proc" where
  "clear_rip_stats p =
     (let f = (\<lambda>n. n\<lparr>req_rx := 0, req_tx := 0, resp_rx := 0, resp_tx := 0\<rparr>)
      in p\<lparr>rip_network := map f (rip_network p), rip_neighbor := map f (rip_neighbor p)\<rparr>)"

text \<open>\<open>rxsock\<close> is the argument: the socket is not open yet at start.\<close>

definition restart :: "rip_env \<Rightarrow> bool \<Rightarrow> rip_proc \<Rightarrow> rip_proc" where
  "restart env rxsock p =
     (let p1 = upd_db (\<lambda>st. ripdb_delete_all (rp_cfg p) (emit RtClean st)) p;
          leave = (\<lambda>i p. upd_intf i (\<lambda>x. x\<lparr>rip_multicast_ip := 0, rip_multicast_mask := 0\<rparr>)
                     (if rxsock \<and> rip_multicast_ip (rp_intf p ! i) \<noteq> 0
                      then upd_db (rxmultidrop env (rip_multicast_ip (rp_intf p ! i))) p else p));
          p2 = fold leave [0..<length (rp_intf p1)] p1
      in rip_update_static (rip_update_connected (clear_rip_stats p2)))"

definition cliClearIpRipCmd :: "rip_env \<Rightarrow> rip_proc \<Rightarrow> int \<times> rip_proc" where
  "cliClearIpRipCmd env p = (0, (restart env True p)\<lparr>update_redist := 5\<rparr>)"

section \<open>The main loop\<close>

datatype cli_cmd =
    NoNetworkCidrAll
  | NetworkCidrCmd "string list"
  | NeighborCmd "string list"
  | PassiveInterfaceCmd "string list"
  | RedistStaticCmd "string list"
  | RedistConnectedCmd "string list"
  | RedistConnectedSubnetsCmd "string list"
  | RedistOspfCmd "string list"
  | DefaultInformationOriginateCmd "string list"
  | UpdateTimerCmd "string list"
  | NoRouterRipCmd
  | IpRipMd5 string "string list"
  | ClearIpRipCmd

primrec processCli :: "rip_env \<Rightarrow> cli_cmd \<Rightarrow> rip_proc \<Rightarrow> int \<times> rip_proc" where
  "processCli env NoNetworkCidrAll p = cliNoNetworkCidrAll p"
| "processCli env (NetworkCidrCmd argv) p = cliNetworkCidrCmd argv p"
| "processCli env (NeighborCmd argv) p = cliNeighborCmd env argv p"
| "processCli env (PassiveInterfaceCmd argv) p = cliPassiveInterfaceCmd argv p"
| "processCli env (RedistStaticCmd argv) p = cliRedistStaticCmd argv p"
| "processCli env (RedistConnectedCmd argv) p = cliRedistConnectedCmd argv p"
| "processCli env (RedistConnectedSubnetsCmd argv) p = cliRedistConnectedSubnetsCmd argv p"
| "processCli env (RedistOspfCmd argv) p = cliRedistOspfCmd argv p"
| "processCli env (DefaultInformationOriginateCmd argv) p = cliDefaultInformationOriginateCmd argv p"
| "processCli env (UpdateTimerCmd argv) p = cliUpdateTimerCmd argv p"
| "processCli env NoRouterRipCmd p = cliNoRouterRipCmd p"
| "processCli env (IpRipMd5 ifname argv) p = cliIpRipMd5 ifname argv p"
| "processCli env ClearIpRipCmd p = cliClearIpRipCmd env p"

text \<open>Packets from the other processes of the router.\<close>

datatype mux_msg =
    MsgCli cli_cmd
  | MsgIfup nat
  | MsgIfdown nat
  | MsgLoopback bool u32 u32
  | MsgAddroute RcpRouteType u32 u32 u32
  | MsgDelroute RcpRouteType u32 u32 u32
  | MsgRouteRq
  | MsgVlanDeleted nat
  | MsgOther

definition refresh_all :: "rip_env \<Rightarrow> rip_proc \<Rightarrow> rip_proc" where
  "refresh_all env p =
     rip_update_static (rip_update_connected_subnets (rip_update_connected (rip_update_interfaces env p)))"

definition msg_addroute :: "RcpRouteType \<Rightarrow> u32 \<Rightarrow> u32 \<Rightarrow> u32 \<Rightarrow> rip_proc \<Rightarrow> rip_proc" where
  "msg_addroute type ip msk gw p =
     (case rcpFindInterfaceByLPM (rp_intf p) gw of
        None \<Rightarrow> p
      | Some i \<Rightarrow>
          if \<not> if_link_up (rp_intf p ! i) then p
          else if (type = RCP_ROUTE_STATIC \<and> rip_redist_static (rp_cfg p) \<noteq> 0) \<or>
                  (type = RCP_ROUTE_OSPF \<and> rip_redist_ospf (rp_cfg p) \<noteq> 0) then
            (if ip = 0 \<and> msk = 0 \<and> rip_default_information (rp_cfg p) = 0 then p
             else
               (let metric = (if type = RCP_ROUTE_STATIC then rip_redist_static (rp_cfg p)
                              else if type = RCP_ROUTE_OSPF then rip_redist_ospf (rp_cfg p) else 1)
                in upd_db (\<lambda>st. snd (ripdb_add (rp_cfg p) type ip msk gw (ucast metric) 0 i st)) p))
          else p)"

primrec mux_message :: "rip_env \<Rightarrow> mux_msg \<Rightarrow> rip_proc \<Rightarrow> rip_proc" where
  "mux_message env (MsgCli c) p = snd (processCli env c p)"
| "mux_message env (MsgIfup i) p = refresh_all env p"
| "mux_message env (MsgIfdown i) p = refresh_all env (upd_db (ripdb_delete_interface (rp_cfg p) i) p)"
| "mux_message env (MsgLoopback up ip msk) p =
     (if up then rip_update_connected_subnets p
      else upd_db (\<lambda>st. snd (ripdb_delete (rp_cfg p) RCP_ROUTE_CONNECTED_SUBNETS (ip AND msk) msk 0 0 st)) p)"
| "mux_message env (MsgAddroute type ip msk gw) p = msg_addroute type ip msk gw p"
| "mux_message env (MsgDelroute type ip msk gw) p =
     upd_db (\<lambda>st. snd (ripdb_delete (rp_cfg p) type ip msk gw 0 st)) p"
| "mux_message env MsgRouteRq p = upd_db (ripdb_route_request (rp_cfg p)) p"
| "mux_message env (MsgVlanDeleted i) p = refresh_all env (upd_db (ripdb_delete_interface (rp_cfg p) i) p)"
| "mux_message env MsgOther p = upd_db (emit Assertion) p"

definition tick_static :: "rip_proc \<Rightarrow> rip_proc" where
  "tick_static p =
     (if static_update_trigger (rp_db p) \<noteq> 0 then
        (let t = static_update_trigger (rp_db p) - 1;
             p1 = upd_db (\<lambda>st. st\<lparr>static_update_trigger := t\<rparr>) p
         in if t = 0 then rip_update_static p1 else p1)
      else p)"

definition tick_redist :: "rip_proc \<Rightarrow> rip_proc" where
  "tick_redist p =
     (if update_redist p \<noteq> 0 then
        (let t = update_redist p - 1; p1 = p\<lparr>update_redist := t\<rparr>
         in if t = 0 then
              (let p2 = (if rip_redist_ospf (rp_cfg p1) \<noteq> 0 then upd_db (route_request (rp_cfg p1)) p1 else p1)
               in (rip_update_static (rip_update_connected_subnets (rip_update_connected p2)))
                    \<lparr>update_redist := 180\<rparr>)
            else p1)
      else p)"

text \<open>One second without input.\<close>

definition rip_tick :: "rip_env \<Rightarrow> rip_proc \<Rightarrow> rip_proc" where
  "rip_tick env p =
     (let p0 = (if reconnect_timer p > 0 then p\<lparr>reconnect_timer := reconnect_timer p + 1\<rparr> else p);
          p1 = rip_update_interfaces env p0;
          p2 = upd_db (ripdb_timeout (rp_cfg p1)) p1;
          p3 = (if ripdb_update_available (rp_db p2)
                then upd_db ripdb_clean_updates (rip_send_delta_updates env p2) else p2);
          p4 = rip_send_timeout_updates env p3;
          p5 = rxneigh_update p4
      in tick_redist (tick_static p5))"

datatype rip_input = InTimeout | InMux "mux_msg option" | InDgram "rx_dgram option" | InSelectError

text \<open>An iteration of the loop: reconnect to the multiplexer if needed, then handle one input. A message
  that cannot be read closes the socket. \<open>None\<close> means the process has exited.\<close>

definition mux_reconnect :: "rip_env \<Rightarrow> rip_proc \<Rightarrow> rip_proc" where
  "mux_reconnect env p =
     (if reconnect_timer p \<ge> 5 then
        (let p1 = upd_db (\<lambda>st. (assert_c (\<not> muxsock st) st)\<lparr>muxsock := env_connect env\<rparr>) p
         in p1\<lparr>reconnect_timer := if env_connect env then 0 else 1\<rparr>)
      else p)"

definition rip_step :: "rip_env \<Rightarrow> rip_input \<Rightarrow> rip_proc \<Rightarrow> rip_proc option" where
  "rip_step env inp p0 =
     (let p = mux_reconnect env p0
      in case inp of
           InTimeout \<Rightarrow> Some (rip_tick env p)
         | InMux msg \<Rightarrow>
             if \<not> muxsock (rp_db p) then Some p
             else
               (case msg of
                  None \<Rightarrow> Some ((upd_db (\<lambda>st. st\<lparr>muxsock := False\<rparr>) p)\<lparr>reconnect_timer := 1\<rparr>)
                | Some m \<Rightarrow> Some (mux_message env m p))
         | InDgram dg \<Rightarrow> rxpacket env dg p
         | InSelectError \<Rightarrow> Some p)"

end
