(* ===== verification/Rip_ProcInv.thy ===== *)
theory Rip_ProcInv
  imports Rip_Proc
begin

text \<open>
  The RIP process keeps its database consistent and the kernel table in step, whatever it receives
  and whatever the system calls return; the multicast groups it is a member of; and what a lost
  connection to the multiplexer leads to.
\<close>

section \<open>Database operations without assertions\<close>

definition db_ok :: "rip_state \<Rightarrow> bool" where
  "db_ok st \<longleftrightarrow> db_inv st \<and> rip_sync st"

text \<open>Events that do not touch the kernel table.\<close>

definition quiet :: "rip_event \<Rightarrow> bool" where
  "quiet e \<longleftrightarrow> (case e of Kernel _ \<Rightarrow> False | RtClean \<Rightarrow> False | _ \<Rightarrow> True)"

lemma db_ok_emit [simp]: "quiet e \<Longrightarrow> db_ok (emit e st) = db_ok st"
  by (cases e) (auto simp: db_ok_def db_inv_def rip_sync_def fib_of_emit active_gws_def quiet_def
      split: bind_split)

lemma quiet_simps [simp]:
  "quiet (Redist a b c d)" "quiet (TxPacket i ip bs)" "quiet (MultiJoin ip)" "quiet (MultiDrop ip)"
  "quiet RouteRequest" "quiet Assertion"
  by (simp_all add: quiet_def)

lemma db_ok_fields [simp]:
  "db_ok (muxsock_update g st) = db_ok st" "db_ok (static_update_trigger_update f st) = db_ok st"
  by (simp_all add: db_ok_def db_inv_def rip_sync_def fib_of_def active_gws_def)

lemma db_ok_assert [simp]: "db_ok (assert_c b st) = db_ok st"
  by (simp add: assert_c_def)

lemma ripdb_timeout_ok: "timer_ok cfg \<Longrightarrow> db_ok st \<Longrightarrow> db_ok (ripdb_timeout cfg st)"
proof -
  assume t: "timer_ok cfg" and ok: "db_ok st"
  have one: "rip_sync (list_timeout cfg h 0 s) \<and> db_inv (list_timeout cfg h 0 s) \<and> initialized (list_timeout cfg h 0 s)"
    if "rip_sync s" "db_inv s" "initialized s" for h s
    by (rule list_timeout_induct [where I = rip_sync, OF t _ _ _ that])
       (auto simp: age_route_sync remove_elem_sync gc_tick_sync)
  have "rip_sync s \<Longrightarrow> db_inv s \<Longrightarrow> initialized s \<Longrightarrow>
     db_ok (fold (\<lambda>h. list_timeout cfg h 0) hs s)" for hs s
    by (induction hs arbitrary: s) (simp_all add: one db_ok_def)
  then show ?thesis using ok by (simp add: ripdb_timeout_def db_ok_def initialize_sync)
qed

lemma redistribute_ok [simp]: "db_ok (ripdb_redistribute_route cfg a ip m g st) = db_ok st"
  by (simp add: ripdb_redistribute_route_def)

lemma request_chain_ok: "db_ok (snd cs) \<Longrightarrow> db_ok (snd (request_chain cfg ps cs))"
  by (induction cfg ps cs rule: request_chain.induct) simp_all

lemma ripdb_route_request_ok: "db_ok st \<Longrightarrow> db_ok (ripdb_route_request cfg st)"
proof -
  assume "db_ok st"
  moreover have "db_ok (snd cs) \<Longrightarrow>
      db_ok (snd (fold (\<lambda>h cs. request_chain cfg (ripdb_index (snd cs) h) cs) hs cs))" for hs cs
    by (induction hs arbitrary: cs) (simp_all add: request_chain_ok)
  from this [of "(0, st)" buckets] show ?thesis using \<open>db_ok st\<close> by (simp add: ripdb_route_request_def)
qed

lemma db_ops_ok:
  assumes "timer_ok cfg" "db_ok st"
  shows "metric \<noteq> 0 \<Longrightarrow> metric < 16 \<Longrightarrow> db_ok (snd (ripdb_add cfg type ip m gw metric pt intf st))"
    and "db_ok (snd (ripdb_delete cfg type ip m gw pt st))"
    and "db_ok (ripdb_delete_interface cfg i st)" "db_ok (ripdb_delete_type cfg type st)"
    and "db_ok (ripdb_delete_all cfg st)" "db_ok (ripdb_clean_updates st)"
  using assms
  by (simp_all add: db_ok_def ripdb_add_inv ripdb_add_sync ripdb_delete_inv ripdb_delete_sync
      ripdb_delete_interface_def ripdb_delete_type_def ripdb_delete_all_def clean_all_inv clean_all_sync
      ripdb_clean_updates_inv ripdb_clean_updates_sync)

section \<open>Configuration and commands\<close>

text \<open>The configuration the command line can produce.\<close>

definition cfg_ok :: "rip_cfg \<Rightarrow> bool" where
  "cfg_ok cfg \<longleftrightarrow> timer_range cfg \<and> rip_redist_static cfg < 16 \<and> rip_redist_connected cfg < 16 \<and>
                  rip_redist_ospf cfg < 16"

lemma cfg_ok_timer: "cfg_ok cfg \<Longrightarrow> timer_ok cfg"
  by (simp add: cfg_ok_def timer_range_ok)

lemma fold_inv: "(\<And>x s. x \<in> set xs \<Longrightarrow> P s \<Longrightarrow> P (f x s)) \<Longrightarrow> P s \<Longrightarrow> P (fold f xs s)"
  by (induction xs arbitrary: s) auto

lemma metric_ok: "x \<noteq> 0 \<Longrightarrow> x < 16 \<Longrightarrow> (ucast (x :: u8) :: u32) \<noteq> 0 \<and> (ucast x :: u32) < 16"
proof -
  have eq: "unat (ucast x :: u32) = unat x"
    using less_trans [OF unat_u8_less [of x], of "2 ^ 32"]
    by (simp add: unsigned_ucast_eq take_bit_nat_eq_self)
  assume "x \<noteq> 0" "x < 16"
  then have "unat (ucast x :: u32) \<noteq> 0" "unat (ucast x :: u32) < 16"
    unfolding eq by (simp_all add: unat_eq_0 word_less_nat_alt)
  then show ?thesis by (auto simp: word_less_nat_alt)
qed

text \<open>The command line checks the ranges of numeric arguments (\<^verbatim>\<open>src/src/rip/cmds/cmds.in\<close>): metrics
  from 1 to 15, update timers from 5 to 60.\<close>

definition metric_arg_ok :: "string list \<Rightarrow> bool" where
  "metric_arg_ok argv \<longleftrightarrow> is_no argv \<or> length argv \<noteq> 4 \<or> 1 \<le> atoi (argv ! 3) \<and> atoi (argv ! 3) \<le> 15"

primrec cli_ok :: "cli_cmd \<Rightarrow> bool" where
  "cli_ok NoNetworkCidrAll \<longleftrightarrow> True"
| "cli_ok (NetworkCidrCmd argv) \<longleftrightarrow> True"
| "cli_ok (NeighborCmd argv) \<longleftrightarrow> True"
| "cli_ok (PassiveInterfaceCmd argv) \<longleftrightarrow> True"
| "cli_ok (RedistStaticCmd argv) \<longleftrightarrow> metric_arg_ok argv"
| "cli_ok (RedistConnectedCmd argv) \<longleftrightarrow> metric_arg_ok argv"
| "cli_ok (RedistConnectedSubnetsCmd argv) \<longleftrightarrow> True"
| "cli_ok (RedistOspfCmd argv) \<longleftrightarrow> metric_arg_ok argv"
| "cli_ok (DefaultInformationOriginateCmd argv) \<longleftrightarrow> True"
| "cli_ok (UpdateTimerCmd argv) \<longleftrightarrow> is_no argv \<or> 5 \<le> atoi (argv ! 1) \<and> atoi (argv ! 1) \<le> 60"
| "cli_ok NoRouterRipCmd \<longleftrightarrow> True"
| "cli_ok (IpRipMd5 ifname argv) \<longleftrightarrow> True"
| "cli_ok ClearIpRipCmd \<longleftrightarrow> False"

lemma small_word_of_int:
  assumes "0 \<le> n" "n < 128"
  shows "uint (word_of_int n :: u8) = n" "uint (word_of_int n :: u32) = n"
  using assms by (simp_all add: uint_word_of_int)

lemma newmetric_ok: "metric_arg_ok argv \<Longrightarrow> \<not> is_no argv \<Longrightarrow> (ucast (newmetric argv) :: u8) < 16"
proof -
  assume a: "metric_arg_ok argv" "\<not> is_no argv"
  show ?thesis
  proof (cases "length argv = 4")
    case True
    with a have r: "1 \<le> atoi (argv ! 3)" "atoi (argv ! 3) \<le> 15" by (simp_all add: metric_arg_ok_def)
    have "(ucast (word_of_int (atoi (argv ! 3)) :: u32) :: u8) = word_of_int (atoi (argv ! 3))"
      using r small_word_of_int(2) [of "atoi (argv ! 3)"] by (simp add: ucast_eq)
    then show ?thesis
      using True r small_word_of_int(1) [of "atoi (argv ! 3)"] by (simp add: newmetric_def word_less_def)
  qed (simp add: newmetric_def)
qed

lemma delete_type_cfg [simp]: "rp_cfg (delete_type t p) = rp_cfg p"
  by (simp add: delete_type_def)

definition msg_ok :: "mux_msg \<Rightarrow> bool" where
  "msg_ok m \<longleftrightarrow> (case m of MsgCli c \<Rightarrow> cli_ok c | _ \<Rightarrow> True)"

text \<open>What keeps the reconnect timer.\<close>

lemma reconnect_frame [simp]:
  "reconnect_timer (upd_db f p) = reconnect_timer p" "reconnect_timer (upd_intf i g p) = reconnect_timer p"
  "reconnect_timer (upd_partner net h p) = reconnect_timer p"
  "reconnect_timer (upd_neigh k n p) = reconnect_timer p"
  "reconnect_timer (upd_cfg c p) = reconnect_timer p"
  by (simp_all add: upd_db_def upd_intf_def upd_neigh_def upd_cfg_def) (cases net; simp)

lemma rx_route_reconnect [simp]: "reconnect_timer (rx_route ver src i k r p) = reconnect_timer p"
  by (simp add: rx_route_def Let_def)

lemma rx_fold_reconnect [simp]: "reconnect_timer (fold (rx_route ver src i k) rs p) = reconnect_timer p"
  by (induction rs arbitrary: p) simp_all

lemma rx_interface_reconnect [simp]:
  "reconnect_timer (rx_interface env data src dst ifindex k p) = reconnect_timer p"
  by (simp add: rx_interface_def rx_command_def rx_response_def neigh_error_def Let_def
      split: option.split prod.split)

lemma rxpacket_reconnect: "rxpacket env dg p = Some p' \<Longrightarrow> reconnect_timer p' = reconnect_timer p"
  by (auto simp: rxpacket_def split: option.splits if_splits prod.splits)

section \<open>Closure of the process under a property of the database\<close>

text \<open>The database as its clients see it: a property \<open>D\<close> of its state that every operation keeps is kept
  by everything the process does. \<open>T\<close> is a property of the reconnect timer that counting keeps.\<close>

locale rip_closed =
  fixes D :: "rip_state \<Rightarrow> bool" and T :: "int \<Rightarrow> bool"
  assumes D_emit [simp]: "quiet e \<Longrightarrow> D (emit e st) = D st"
    and D_trigger [simp]: "D (static_update_trigger_update f st) = D st"
    and D_close: "D st \<Longrightarrow> D (st\<lparr>muxsock := False\<rparr>)"
    and D_timeout: "timer_ok cfg \<Longrightarrow> D st \<Longrightarrow> D (ripdb_timeout cfg st)"
    and D_request: "D st \<Longrightarrow> D (ripdb_route_request cfg st)"
    and D_add: "timer_ok cfg \<Longrightarrow> D st \<Longrightarrow> metric \<noteq> 0 \<Longrightarrow> metric < 16 \<Longrightarrow>
                D (snd (ripdb_add cfg type ip m gw metric pt intf st))"
    and D_delete: "timer_ok cfg \<Longrightarrow> D st \<Longrightarrow> D (snd (ripdb_delete cfg type ip m gw pt st))"
    and D_delete_interface: "timer_ok cfg \<Longrightarrow> D st \<Longrightarrow> D (ripdb_delete_interface cfg i st)"
    and D_delete_type: "timer_ok cfg \<Longrightarrow> D st \<Longrightarrow> D (ripdb_delete_type cfg type st)"
    and D_delete_all: "timer_ok cfg \<Longrightarrow> D st \<Longrightarrow> D (ripdb_delete_all cfg st)"
    and D_clean_updates: "D st \<Longrightarrow> D (ripdb_clean_updates st)"
    and T_tick: "T t \<Longrightarrow> 0 < t \<Longrightarrow> T (t + 1)"
begin

lemmas D_ops = D_add D_delete D_delete_interface D_delete_type D_delete_all D_clean_updates

lemma D_assert [simp]: "D (assert_c b st) = D st"
  by (simp add: assert_c_def)

definition pinv :: "rip_proc \<Rightarrow> bool" where
  "pinv p \<longleftrightarrow> D (rp_db p) \<and> cfg_ok (rp_cfg p) \<and> T (reconnect_timer p)"

lemma pinv_cong:
  "rp_db p = rp_db q \<Longrightarrow> rp_cfg p = rp_cfg q \<Longrightarrow> reconnect_timer p = reconnect_timer q \<Longrightarrow>
   pinv p = pinv q"
  by (simp add: pinv_def)

lemma pinv_upd [simp]:
  "pinv (upd_partner net f p) = pinv p" "pinv (upd_intf i g p) = pinv p"
  "pinv (p\<lparr>rand_cnt := n\<rparr>) = pinv p"
  "pinv (p\<lparr>update_redist := t\<rparr>) = pinv p" "pinv (p\<lparr>rip_neighbor := ns\<rparr>) = pinv p"
  "pinv (p\<lparr>rip_network := ns\<rparr>) = pinv p" "pinv (p\<lparr>neighbors := nbs\<rparr>) = pinv p"
  "pinv (p\<lparr>rp_intf := is\<rparr>) = pinv p"
  by (simp_all add: pinv_def)

lemma pinv_upd_db:
  "pinv p \<Longrightarrow> (timer_ok (rp_cfg p) \<Longrightarrow> D (rp_db p) \<Longrightarrow> D (f (rp_db p))) \<Longrightarrow> pinv (upd_db f p)"
  by (simp add: pinv_def cfg_ok_timer)

lemma txpacket_ok [simp]: "D (txpacket env i ip bs st) = D st"
  by (simp add: txpacket_def Let_def split: tx_result.split)

lemma send_response_D [simp]: "D (send_response env i ip pw rts st) = D st"
  by (simp add: send_response_def Let_def)

lemma txrequest_inv [simp]: "pinv (txrequest env i net p) = pinv p"
  by (simp add: txrequest_def Let_def pinv_def)

lemma tx_packets_inv [simp]: "pinv (tx_packets env i ip pw net mx k rts p) = pinv p"
  by (induction k arbitrary: rts p) (simp_all add: pinv_def)

lemma txresponse_inv [simp]: "pinv (txresponse env i u net p) = pinv p"
  by (simp add: txresponse_def Let_def)

lemma multi_ok [simp]: "D (rxmultijoin env ip st) = D st" "D (rxmultidrop env ip st) = D st"
  by (simp_all add: rxmultijoin_def rxmultidrop_def)

lemma leave_interface_inv: "pinv p \<Longrightarrow> pinv (leave_interface env i p)"
  unfolding leave_interface_def by (intro pinv_upd_db) (simp_all add: D_ops pinv_def)

lemma join_interface_inv: "pinv p \<Longrightarrow> pinv (join_interface env i net p)"
  unfolding join_interface_def Let_def txrequest_inv
  by (intro pinv_upd_db) (simp_all add: D_ops pinv_def case_prod_beta)

lemma rip_update_interfaces_inv: "pinv p \<Longrightarrow> pinv (rip_update_interfaces env p)"
  unfolding rip_update_interfaces_def
  by (rule fold_inv [where P = pinv]) (simp_all add: rip_update_interface_def Let_def leave_interface_inv join_interface_inv
      split: option.split)

lemma next_timeout_inv: "next_timeout env p = (t, q) \<Longrightarrow> pinv q = pinv p"
  by (auto simp: next_timeout_def Let_def split: if_splits)

lemma timeout_interface_inv: "pinv p \<Longrightarrow> pinv (timeout_interface env i p)"
  by (auto simp: timeout_interface_def Let_def next_timeout_inv split: option.split prod.split)

lemma timeout_neighbor_inv: "pinv p \<Longrightarrow> pinv (timeout_neighbor env k p)"
  by (auto simp: timeout_neighbor_def Let_def next_timeout_inv split: option.split prod.split)

lemma rip_send_timeout_updates_inv: "pinv p \<Longrightarrow> pinv (rip_send_timeout_updates env p)"
  unfolding rip_send_timeout_updates_def Let_def
  by (intro pinv_upd_db fold_inv [where P = pinv]) (simp_all add: timeout_interface_inv timeout_neighbor_inv D_ops)

lemma rip_send_delta_updates_inv: "pinv p \<Longrightarrow> pinv (rip_send_delta_updates env p)"
  unfolding rip_send_delta_updates_def Let_def
  by (intro fold_inv [where P = pinv]) (simp_all add: delta_interface_def delta_neighbor_def Let_def split: option.split)

text \<open>Redistribution adds routes with the configured metric.\<close>

lemma rip_update_connected_inv:
  assumes "pinv p"
  shows "pinv (rip_update_connected p)"
proof -
  let ?P = "\<lambda>q. pinv q \<and> rip_redist_connected (rp_cfg q) \<noteq> 0"
  have "?P (fold connected_interface is p)" if "rip_redist_connected (rp_cfg p) \<noteq> 0" for "is"
  proof (rule fold_inv [where P = ?P])
    fix i q
    assume q: "?P q"
    then have "pinv (connected_interface i q)"
      unfolding connected_interface_def Let_def
      using metric_ok [of "rip_redist_connected (rp_cfg q)"]
      by (auto intro!: pinv_upd_db D_ops timer_range_ok simp: pinv_def cfg_ok_def)
    moreover have "rp_cfg (connected_interface i q) = rp_cfg q" by (simp add: connected_interface_def Let_def)
    ultimately show "?P (connected_interface i q)" using q by simp
  qed (use assms that in simp)
  then show ?thesis using assms by (simp add: rip_update_connected_def)
qed

lemma rip_update_connected_subnets_inv: "pinv p \<Longrightarrow> pinv (rip_update_connected_subnets p)"
  unfolding rip_update_connected_subnets_def
  by (auto intro!: fold_inv [where P = pinv] pinv_upd_db simp: subnets_interface_def Let_def D_ops)

lemma rip_update_static_inv:
  assumes "pinv p"
  shows "pinv (rip_update_static p)"
proof -
  let ?P = "\<lambda>q. pinv q \<and> rip_redist_static (rp_cfg q) \<noteq> 0"
  have "?P (fold static_route rs p)" if "rip_redist_static (rp_cfg p) \<noteq> 0" for rs
  proof (rule fold_inv [where P = ?P])
    fix r q
    assume q: "?P q"
    then have "pinv (static_route r q)"
      unfolding static_route_def Let_def
      using metric_ok [of "rip_redist_static (rp_cfg q)"]
      by (auto intro!: pinv_upd_db D_ops simp: pinv_def cfg_ok_def
          intro: timer_range_ok split: option.split)
    moreover have "rp_cfg (static_route r q) = rp_cfg q" by (simp add: static_route_def Let_def split: option.split)
    ultimately show "?P (static_route r q)" using q by simp
  qed (use assms that in simp)
  then show ?thesis using assms by (auto simp: rip_update_static_def D_ops intro: pinv_upd_db)
qed

lemma route_request_pinv: "pinv p \<Longrightarrow> pinv (upd_db (route_request cfg) p)"
  by (auto simp: pinv_def route_request_def D_close)

lemma pinv_upd_quiet [simp]:
  "pinv (upd_db (static_update_trigger_update f) p) = pinv p"
  "pinv (upd_db (emit Assertion) p) = pinv p"
  by (simp_all add: pinv_def)

lemmas update_invs = rip_update_static_inv rip_update_connected_inv rip_update_connected_subnets_inv
  rip_update_interfaces_inv route_request_pinv

lemma refresh_all_inv: "pinv p \<Longrightarrow> pinv (refresh_all env p)"
  by (simp add: refresh_all_def update_invs)

lemma rxneigh_update_inv [simp]: "pinv (rxneigh_update p) = pinv p"
  by (rule pinv_cong) (simp_all add: rxneigh_update_def Let_def split: prod.split)

lemma tick_static_inv: "pinv p \<Longrightarrow> pinv (tick_static p)"
  by (simp add: tick_static_def Let_def update_invs)

lemma tick_redist_inv: "pinv p \<Longrightarrow> pinv (tick_redist p)"
  by (simp add: tick_redist_def Let_def update_invs)

lemma rip_tick_inv: "pinv p \<Longrightarrow> pinv (rip_tick env p)"
proof -
  assume pinv: "pinv p"
  define p1 where "p1 = rip_update_interfaces env
    (if reconnect_timer p > 0 then p\<lparr>reconnect_timer := reconnect_timer p + 1\<rparr> else p)"
  define p2 where "p2 = upd_db (ripdb_timeout (rp_cfg p1)) p1"
  define p3 where "p3 = (if ripdb_update_available (rp_db p2)
                then upd_db ripdb_clean_updates (rip_send_delta_updates env p2) else p2)"
  have "pinv p1" unfolding p1_def using pinv by (intro rip_update_interfaces_inv) (auto simp: pinv_def T_tick)
  then have "pinv p2" unfolding p2_def by (rule pinv_upd_db) (rule D_timeout)
  then have "pinv p3"
    unfolding p3_def by (auto intro!: pinv_upd_db rip_send_delta_updates_inv simp: D_ops)
  then have "pinv (tick_redist (tick_static (rxneigh_update (rip_send_timeout_updates env p3))))"
    by (intro tick_redist_inv tick_static_inv) (simp add: rip_send_timeout_updates_inv)
  then show ?thesis by (simp only: rip_tick_def Let_def p1_def p2_def p3_def)
qed

text \<open>Commands and messages.\<close>

lemma delete_type_inv: "pinv p \<Longrightarrow> pinv (delete_type t p)"
  unfolding delete_type_def by (rule pinv_upd_db) (simp_all add: D_ops)

lemma upd_cfg_inv: "pinv p \<Longrightarrow> (cfg_ok (rp_cfg p) \<Longrightarrow> cfg_ok (f (rp_cfg p))) \<Longrightarrow> pinv (upd_cfg f p)"
  by (simp add: pinv_def upd_cfg_def)

lemma processCli_redist_inv:
  assumes "pinv p"
  shows "metric_arg_ok argv \<Longrightarrow> pinv (snd (cliRedistStaticCmd argv p))"
    and "metric_arg_ok argv \<Longrightarrow> pinv (snd (cliRedistConnectedCmd argv p))"
    and "metric_arg_ok argv \<Longrightarrow> pinv (snd (cliRedistOspfCmd argv p))"
    and "pinv (snd (cliRedistConnectedSubnetsCmd argv p))"
    and "pinv (snd (cliDefaultInformationOriginateCmd argv p))"
  using assms newmetric_ok [of argv]
  by (auto simp: cliRedistStaticCmd_def cliRedistConnectedCmd_def cliRedistOspfCmd_def
      cliRedistConnectedSubnetsCmd_def cliDefaultInformationOriginateCmd_def Let_def
      intro!: update_invs delete_type_inv upd_cfg_inv) (auto simp: cfg_ok_def timer_range_def)

lemma cliNoRouterRipCmd_inv: "pinv p \<Longrightarrow> pinv (snd (cliNoRouterRipCmd p))"
  unfolding cliNoRouterRipCmd_def Let_def snd_conv
  by (intro pinv_upd_db upd_cfg_inv) (simp_all add: D_ops cfg_ok_def timer_range_def)

lemma cliUpdateTimerCmd_inv:
  assumes "pinv p" "is_no argv \<or> 5 \<le> atoi (argv ! 1) \<and> atoi (argv ! 1) \<le> 60"
  shows "pinv (snd (cliUpdateTimerCmd argv p))"
proof -
  have "timer_range (c\<lparr>rip_update_timer := if is_no argv then 30 else word_of_int (atoi (argv ! 1))\<rparr>)" for c
    using assms(2) small_word_of_int(1) [of "atoi (argv ! 1)"]
    by (auto simp: timer_range_def word_le_def)
  then show ?thesis
    using assms(1) unfolding cliUpdateTimerCmd_def by (auto intro!: upd_cfg_inv simp: cfg_ok_def)
qed

lemma processCli_inv:
  assumes "pinv p" "cli_ok c"
  shows "pinv (snd (processCli env c p))"
proof (cases c)
  case (NetworkCidrCmd argv)
  then show ?thesis using assms(1) by (auto simp: cliNetworkCidrCmd_def split: option.split prod.split)
next
  case (NeighborCmd argv)
  then show ?thesis using assms(1) by (auto simp: cliNeighborCmd_def Let_def split: option.split)
next
  case (PassiveInterfaceCmd argv)
  then show ?thesis using assms(1) by (simp add: cliPassiveInterfaceCmd_def split: option.split)
next
  case (IpRipMd5 ifname argv)
  then show ?thesis using assms(1) by (simp add: cliIpRipMd5_def split: option.split)
qed (use assms in \<open>simp_all add: processCli_redist_inv cliNoRouterRipCmd_inv cliUpdateTimerCmd_inv cliNoNetworkCidrAll_def\<close>)

lemma msg_addroute_inv: "pinv p \<Longrightarrow> pinv (msg_addroute type ip m gw p)"
proof -
  assume pinv: "pinv p"
  then have "rip_redist_static (rp_cfg p) < 16" "rip_redist_ospf (rp_cfg p) < 16"
    by (simp_all add: pinv_def cfg_ok_def)
  with pinv metric_ok [of "rip_redist_static (rp_cfg p)"] metric_ok [of "rip_redist_ospf (rp_cfg p)"]
  show ?thesis
    unfolding msg_addroute_def Let_def
    by (auto intro!: pinv_upd_db D_ops split: option.split)
qed

lemma mux_message_inv: "pinv p \<Longrightarrow> msg_ok m \<Longrightarrow> pinv (mux_message env m p)"
  by (cases m)
     (auto simp: msg_ok_def processCli_inv refresh_all_inv update_invs msg_addroute_inv D_ops
        D_request intro!: pinv_upd_db refresh_all_inv)

lemma rx_D: "timer_ok cfg \<Longrightarrow> D st \<Longrightarrow> D (rx_db cfg ver src i r st)"
proof -
  assume a: "timer_ok cfg" "D st"
  show ?thesis
  proof (cases "rte_ok ver r")
    case True
    with rte_ok_metric [OF True] a show ?thesis by (auto simp: rx_db_def Let_def intro!: D_ops)
  qed (simp add: rx_db_def a)
qed

lemma rxpacket_inv:
  assumes "pinv p" "rxpacket env dg p = Some p'"
  shows "pinv p'"
proof (cases dg)
  case None
  with assms(2) show ?thesis by (simp add: rxpacket_def)
next
  case (Some d)
  have t: "timer_ok (rp_cfg p)" using assms(1) by (simp add: pinv_def cfg_ok_timer)
  have "D (rp_db p) \<Longrightarrow> D (rx_apply ctx pw (rp_cfg p) data src i nb (rp_db p))" for ctx pw data src i nb
    unfolding rx_apply_def
    by (auto simp: rx_D t intro!: fold_inv [where P = D] split: option.split)
  with rxpacket_db [of env d p p'] rxpacket_reconnect assms Some show ?thesis by (auto simp: pinv_def)
qed

end

section \<open>Runs of the process\<close>

definition proc_inv :: "rip_proc \<Rightarrow> bool" where
  "proc_inv p \<longleftrightarrow> db_ok (rp_db p) \<and> cfg_ok (rp_cfg p)"

interpretation ripok: rip_closed db_ok "\<lambda>_. True"
  by unfold_locales (simp_all add: db_ops_ok ripdb_timeout_ok ripdb_route_request_ok,
      simp add: db_ok_def ripdb_clean_updates_inv ripdb_clean_updates_sync)

lemma ripok_pinv [simp]: "ripok.pinv = proc_inv"
  by (simp add: fun_eq_iff ripok.pinv_def proc_inv_def)

lemmas proc_invs = ripok.rip_tick_inv [unfolded ripok_pinv] ripok.mux_message_inv [unfolded ripok_pinv]
  ripok.rxpacket_inv [unfolded ripok_pinv]

primrec input_ok :: "rip_input \<Rightarrow> bool" where
  "input_ok InTimeout \<longleftrightarrow> True"
| "input_ok (InMux m) \<longleftrightarrow> (case m of None \<Rightarrow> True | Some x \<Rightarrow> msg_ok x)"
| "input_ok (InDgram d) \<longleftrightarrow> True"
| "input_ok InSelectError \<longleftrightarrow> True"

lemma proc_inv_close [simp]:
  "proc_inv (p\<lparr>reconnect_timer := t\<rparr>) = proc_inv p" "proc_inv (upd_db (muxsock_update g) p) = proc_inv p"
  by (simp_all add: proc_inv_def)

lemma mux_reconnect_inv [simp]: "proc_inv (mux_reconnect env p) = proc_inv p"
  by (simp add: mux_reconnect_def Let_def proc_inv_def)

lemma rip_step_inv: "proc_inv p \<Longrightarrow> input_ok inp \<Longrightarrow> rip_step env inp p = Some p' \<Longrightarrow> proc_inv p'"
  by (cases inp)
     (auto simp: rip_step_def Let_def proc_invs split: if_splits option.splits
        dest: proc_invs(3) [rotated])

text \<open>Runs of the process: each iteration has its own environment; after an exit nothing happens.\<close>

definition rip_iter :: "rip_env \<times> rip_input \<Rightarrow> rip_proc option \<Rightarrow> rip_proc option" where
  "rip_iter ei po = Option.bind po (rip_step (fst ei) (snd ei))"

interpretation ripproc: step_system rip_iter "\<lambda>po. \<forall>p. po = Some p \<longrightarrow> proc_inv p" "\<lambda>ei. input_ok (snd ei)"
  by unfold_locales (auto simp: rip_iter_def bind_eq_Some_conv intro: rip_step_inv)

section \<open>A lost connection to the multiplexer\<close>

lemma mux_simps [simp]:
  "muxsock (emit e st) = muxsock st" "muxsock (upd_elem h i f st) = muxsock st"
  "muxsock (clean_metric cfg ip m st) = muxsock st" "muxsock (initialize st) = muxsock st"
  "muxsock (assert_c b st) = muxsock st" "muxsock (remove_elem h i st) = muxsock st"
  by (simp_all add: emit_def upd_elem_def clean_metric_def initialize_def assert_c_def remove_elem_def Let_def)

lemma mux_redistribute: "\<not> muxsock st \<Longrightarrow> \<not> muxsock (ripdb_redistribute_route cfg a ip m g st)"
  by (simp add: ripdb_redistribute_route_def)

lemma mux_redistribute_fold:
  "\<not> muxsock st \<Longrightarrow> \<not> muxsock (fold (\<lambda>p. ripdb_redistribute_route cfg a ip m (g p)) ps st)"
  by (induction ps arbitrary: st) (simp_all add: mux_redistribute)

lemma mux_ecmp: "\<not> muxsock st \<Longrightarrow> \<not> muxsock (ecmp_del cfg ip m st)" "\<not> muxsock st \<Longrightarrow> \<not> muxsock (ecmp_add cfg ip m st)"
  by (simp_all add: ecmp_del_def ecmp_add_def Let_def mux_redistribute mux_redistribute_fold split: list.split)

lemma mux_clean_route: "\<not> muxsock st \<Longrightarrow> \<not> muxsock (clean_route cfg h i st)"
  by (simp add: clean_route_def Let_def mux_ecmp)

lemma mux_add: "\<not> muxsock st \<Longrightarrow> \<not> muxsock (snd (ripdb_add cfg type ip m gw metric pt intf st))"
  by (simp add: ripdb_add_def ripdb_refresh_def ripdb_replace_def ripdb_insert_def Let_def mux_ecmp
      mux_redistribute split: option.split)

lemma mux_delete: "\<not> muxsock st \<Longrightarrow> \<not> muxsock (snd (ripdb_delete cfg type ip m gw pt st))"
  by (simp add: ripdb_delete_def Let_def mux_clean_route split: option.split)

lemma mux_clean_all: "\<not> muxsock st \<Longrightarrow> \<not> muxsock (clean_all cfg P st)"
  unfolding clean_all_def clean_chain_def
  by (rule fold_inv [where P = "\<lambda>st. \<not> muxsock st"], rule fold_inv [where P = "\<lambda>st. \<not> muxsock st"])
     (simp_all add: clean_if_def mux_clean_route)

lemma mux_list_timeout: "\<not> muxsock st \<Longrightarrow> \<not> muxsock (list_timeout cfg h i st)"
proof (induction cfg h i st rule: list_timeout.induct)
  case (1 cfg h i st)
  have "\<not> muxsock (age_route cfg h i st)"
    using "1.prems" by (simp add: age_route_def Let_def mux_clean_route)
  with 1 show ?case by (subst list_timeout.simps) (simp add: Let_def)
qed

lemma mux_timeout: "\<not> muxsock st \<Longrightarrow> \<not> muxsock (ripdb_timeout cfg st)"
  unfolding ripdb_timeout_def
  by (rule fold_inv [where P = "\<lambda>st. \<not> muxsock st"]) (simp_all add: mux_list_timeout)

lemma mux_request_chain: "\<not> muxsock (snd cs) \<Longrightarrow> \<not> muxsock (snd (request_chain cfg ps cs))"
  by (induction cfg ps cs rule: request_chain.induct) (simp_all add: mux_redistribute)

lemma mux_route_request: "\<not> muxsock st \<Longrightarrow> \<not> muxsock (ripdb_route_request cfg st)"
  unfolding ripdb_route_request_def
  by (rule fold_inv [where P = "\<lambda>cs. \<not> muxsock (snd cs)"]) (simp_all add: mux_request_chain)

interpretation riplost: rip_closed "\<lambda>st. \<not> muxsock st" "\<lambda>t. t = 0"
  by unfold_locales
     (simp_all add: mux_add mux_delete mux_clean_all mux_timeout mux_route_request ripdb_delete_interface_def
        ripdb_delete_type_def ripdb_delete_all_def ripdb_clean_updates_def Let_def)

definition mux_lost :: "rip_proc \<Rightarrow> bool" where
  "mux_lost p \<longleftrightarrow> \<not> muxsock (rp_db p) \<and> reconnect_timer p = 0 \<and> cfg_ok (rp_cfg p)"

lemma riplost_pinv [simp]: "riplost.pinv = mux_lost"
  by (auto simp: fun_eq_iff riplost.pinv_def mux_lost_def)

lemma rip_step_lost:
  "mux_lost p \<Longrightarrow> rip_step env inp p = Some p' \<Longrightarrow> mux_lost p'"
proof -
  assume lost: "mux_lost p" and step: "rip_step env inp p = Some p'"
  then have [simp]: "mux_reconnect env p = p" "\<not> muxsock (rp_db p)"
    by (simp_all add: mux_reconnect_def mux_lost_def)
  show ?thesis
    using lost step riplost.rip_tick_inv [unfolded riplost_pinv] riplost.rxpacket_inv [unfolded riplost_pinv]
    by (cases inp) (auto simp: rip_step_def)
qed

interpretation riplostrun: step_system rip_iter "\<lambda>po. \<forall>p. po = Some p \<longrightarrow> mux_lost p" "\<lambda>ei. True"
  by unfold_locales (auto simp: rip_iter_def bind_eq_Some_conv intro: rip_step_lost)

section \<open>Properties\<close>



text \<open>once a message to OSPF could not be sent, the process closes its connection to the
  multiplexer but leaves the reconnect timer stopped: from then on it never reconnects, whatever
  happens, and no longer hears interface or route changes or commands.\<close>
theorem mux_never_reconnects:
  assumes "muxsock (rp_db p) = False" "reconnect_timer p = 0" "cfg_ok (rp_cfg p)"
    and "fold rip_iter es (Some p) = Some p'"
  shows "muxsock (rp_db p') = False \<and> reconnect_timer p' = 0"
proof -
  have "\<forall>q. Some p = Some q \<longrightarrow> mux_lost q" using assms(1-3) by (simp add: mux_lost_def)
  moreover have "list_all (\<lambda>ei. True) es" by (simp add: list_all_iff)
  ultimately have "mux_lost p'" using riplostrun.run_inv assms(4) by blast
  then show ?thesis by (simp add: mux_lost_def)
qed

theorem mux_never_reconnects_witness:
  "\<exists>p'. fold rip_iter [(env1, InTimeout)] (Some (proc2\<lparr>rp_db := rip_init\<lparr>muxsock := False\<rparr>\<rparr>)) = Some p' \<and>
        \<not> muxsock (rp_db p')"
proof -
  let ?p = "proc2\<lparr>rp_db := rip_init\<lparr>muxsock := False\<rparr>\<rparr>"
  obtain p' where p': "fold rip_iter [(env1, InTimeout)] (Some ?p) = Some p'"
    by (simp add: rip_iter_def rip_step_def Let_def)
  have "muxsock (rp_db ?p) = False" "reconnect_timer ?p = 0" "cfg_ok (rp_cfg ?p)"
    by (simp_all add: proc2_def proc1_def cfg_ok_def timer_range_def cfg1_def)
  from mux_never_reconnects [OF this p'] p' show ?thesis by blast
qed

end
