(* ===== verification/Rip_ProcProps.thy ===== *)
theory Rip_ProcProps
  imports Rip_ProcInv Rip_Life
begin

text \<open>
  Properties of the parts of the RIP process: which multicast groups it belongs to, what happens to
  the routes of an interface that goes away, aging of the neighbours, and deviations of the
  authentication and configuration code.
\<close>

section \<open>Walks that clean routes\<close>

lemma clean_chain_index:
  "ripdb_index (clean_chain cfg P h st) =
     (ripdb_index st)(h := map (\<lambda>p. if P p then drop_loser cfg p else p) (ripdb_index st h))"
proof -
  let ?f = "\<lambda>p. if P p then drop_loser cfg p else p"
  have "n \<le> length (ripdb_index st h) \<Longrightarrow>
    ripdb_index (fold (clean_if cfg P h) [0..<n] st) =
      (ripdb_index st)(h := map ?f (take n (ripdb_index st h)) @ drop n (ripdb_index st h))" for n
  proof (induction n)
    case (Suc n)
    let ?s = "fold (clean_if cfg P h) [0..<n] st"
    have n: "n < length (ripdb_index st h)" using Suc.prems by simp
    have idx: "ripdb_index ?s = (ripdb_index st)(h := map ?f (take n (ripdb_index st h)) @ drop n (ripdb_index st h))"
      by (rule Suc.IH [OF Suc_leD [OF Suc.prems]])
    have e: "ripdb_index ?s h ! n = ripdb_index st h ! n" "n < length (ripdb_index ?s h)"
      using n by (simp_all add: idx nth_append)
    have "ripdb_index (clean_if cfg P h n ?s) = (ripdb_index ?s)(h := upd_pos n ?f (ripdb_index ?s h))"
      using e(2) clean_route_index [of n ?s h cfg] by (auto simp: clean_if_def upd_pos_def)
    also have "\<dots> = (ripdb_index st)(h := map ?f (take (Suc n) (ripdb_index st h)) @ drop (Suc n) (ripdb_index st h))"
      using n by (simp add: idx upd_pos_split take_Suc_conv_app_nth nth_append)
    finally show ?case by simp
  qed simp
  from this [of "length (ripdb_index st h)"] show ?thesis by (simp add: clean_chain_def)
qed

lemma clean_all_index:
  assumes "db_inv st"
  shows "ripdb_index (clean_all cfg P st) h = map (\<lambda>p. if P p then drop_loser cfg p else p) (ripdb_index st h)"
proof -
  have "distinct hs \<Longrightarrow> ripdb_index (fold (clean_chain cfg P) hs s) h =
      (if h \<in> set hs then map (\<lambda>p. if P p then drop_loser cfg p else p) (ripdb_index s h) else ripdb_index s h)"
    for hs s
    by (induction hs arbitrary: s) (auto simp: clean_chain_index)
  from this [OF distinct_buckets] assms show ?thesis by (simp add: clean_all_def set_buckets)
qed

section \<open>Interfaces\<close>

text \<open>What the interface code leaves alone: everything but the RIP fields of one interface, and what
  identifies the configured networks.\<close>

definition net_id :: "RcpRipPartner \<Rightarrow> bool \<times> u32 \<times> u32" where
  "net_id n = (rp_valid n, rp_ip n, rp_mask n)"

definition same_nets :: "rip_proc \<Rightarrow> rip_proc \<Rightarrow> bool" where
  "same_nets p q \<longleftrightarrow> map net_id (rip_network p) = map net_id (rip_network q)"

lemma find_pos_map: "find_pos P (map f xs) = find_pos (\<lambda>x. P (f x)) xs"
  by (induction xs) simp_all

lemma find_network_same:
  assumes "map net_id ns = map net_id ns'"
  shows "find_network_for_interface ns intf = find_network_for_interface ns' intf"
proof -
  let ?P = "\<lambda>(v, ip, m). v \<and> if_mask intf \<ge> m \<and> if_ip intf AND m = ip AND m"
  have "find_network_for_interface ns intf = (if if_ip intf = 0 then None else find_pos ?P (map net_id ns))" for ns
    by (simp add: find_network_for_interface_def find_pos_map net_id_def)
  with assms show ?thesis by simp
qed

lemma upd_pos_id_map: "(\<And>x. g (f x) = g x) \<Longrightarrow> map g (upd_pos k f xs) = map g xs"
  by (rule nth_equalityI) (simp_all add: nth_upd_pos)

lemma upd_partner_nets: "(\<And>n. net_id (f n) = net_id n) \<Longrightarrow> same_nets (upd_partner net f p) p"
  by (cases net) (simp_all add: same_nets_def upd_pos_id_map)

lemma upd_nets [simp]: "rip_network (upd_db f p) = rip_network p" "rip_network (upd_intf i g p) = rip_network p"
  by (simp_all add: upd_db_def upd_intf_def)

lemma txrequest_frame: "same_nets (txrequest env i net p) p" "rp_intf (txrequest env i net p) = rp_intf p"
  using upd_partner_nets [of "\<lambda>n. n\<lparr>req_tx := req_tx n + 1\<rparr>" net p]
  by (simp_all add: txrequest_def Let_def same_nets_def net_id_def)

definition rip_member :: "rip_proc \<Rightarrow> RcpInterface \<Rightarrow> bool" where
  "rip_member p intf \<longleftrightarrow> if_link_up intf \<and> find_network_for_interface (rip_network p) intf \<noteq> None"

definition eligible :: "RcpInterface \<Rightarrow> bool" where
  "eligible intf \<longleftrightarrow> if_name intf \<noteq> [] \<and> if_typ intf \<noteq> IF_LOOPBACK"

lemma leave_interface_frame:
  "rp_intf (leave_interface env i p) =
     upd_pos i (\<lambda>x. x\<lparr>rip_multicast_ip := 0, rip_multicast_mask := 0, rip_timeout := 0\<rparr>) (rp_intf p)"
  "rip_network (leave_interface env i p) = rip_network p"
  by (simp_all add: leave_interface_def)

lemma join_interface_frame:
  "rp_intf (join_interface env i net p) =
     upd_pos i (\<lambda>x. x\<lparr>rip_multicast_ip := if_ip x, rip_multicast_mask := if_mask x, rip_timeout := 1\<rparr>) (rp_intf p)"
  "same_nets (join_interface env i net p) p"
  using txrequest_frame(1) by (simp_all add: join_interface_def Let_def txrequest_frame(2) same_nets_def)

text \<open>One interface: the group membership it ends up with, and the other interfaces.\<close>

lemma rip_update_interface_frame:
  "length (rp_intf (rip_update_interface env i p)) = length (rp_intf p)"
  "j \<noteq> i \<Longrightarrow> j < length (rp_intf p) \<Longrightarrow> rp_intf (rip_update_interface env i p) ! j = rp_intf p ! j"
  "same_nets (rip_update_interface env i p) p"
  unfolding rip_update_interface_def Let_def
  using join_interface_frame(2) leave_interface_frame(2)
  by (auto simp: same_nets_def join_interface_frame(1) leave_interface_frame nth_upd_pos split: option.split)

lemma rip_update_interface_member:
  assumes "i < length (rp_intf p)" "eligible (rp_intf p ! i)"
  shows "rip_multicast_ip (rp_intf (rip_update_interface env i p) ! i) =
           (if rip_member p (rp_intf p ! i) then if_ip (rp_intf p ! i) else 0)"
proof -
  have "if_ip (rp_intf p ! i) = 0 \<Longrightarrow> \<not> rip_member p (rp_intf p ! i)"
    by (simp add: rip_member_def find_network_for_interface_def)
  with assms show ?thesis
    unfolding rip_update_interface_def Let_def
    by (auto simp: eligible_def rip_member_def join_interface_frame(1) leave_interface_frame nth_upd_pos
        split: option.split)
qed

section \<open>Properties\<close>

text \<open>After \<open>rip_update_interfaces\<close> the process is a member of the RIP multicast group on exactly
  the configured non-loopback interfaces whose link is up and whose address lies in a configured RIP
  network, with their current address.\<close>
theorem rip_interfaces_membership:
  assumes "i < length (rp_intf p)" "eligible (rp_intf p ! i)"
  shows "rip_multicast_ip (rp_intf (rip_update_interfaces env p) ! i) =
           (if if_link_up (rp_intf p ! i) \<and> find_network_for_interface (rip_network p) (rp_intf p ! i) \<noteq> None
            then if_ip (rp_intf p ! i) else 0)"
proof -
  have "n \<le> length (rp_intf p) \<Longrightarrow>
     (let q = fold (rip_update_interface env) [0..<n] p
      in same_nets q p \<and> length (rp_intf q) = length (rp_intf p) \<and>
         (\<forall>j < length (rp_intf p). n \<le> j \<longrightarrow> rp_intf q ! j = rp_intf p ! j) \<and>
         (\<forall>j < n. eligible (rp_intf p ! j) \<longrightarrow> rip_multicast_ip (rp_intf q ! j) =
            (if rip_member p (rp_intf p ! j) then if_ip (rp_intf p ! j) else 0)))" for n
  proof (induction n)
    case (Suc n)
    let ?q = "fold (rip_update_interface env) [0..<n] p"
    have "rip_member ?q intf = rip_member p intf" for intf
      using Suc find_network_same [of "rip_network ?q" "rip_network p"]
      by (simp add: rip_member_def same_nets_def Let_def)
    then show ?case
      using Suc rip_update_interface_frame(1,3) [of env n ?q]
        rip_update_interface_frame(2) [of _ n ?q env] rip_update_interface_member [of n ?q env]
      by (auto simp: Let_def same_nets_def less_Suc_eq)
  qed (simp add: same_nets_def)
  from this [of "length (rp_intf p)"] assms show ?thesis
    by (simp add: rip_update_interfaces_def rip_member_def Let_def)
qed

theorem rip_interfaces_membership_witness:
  "rip_multicast_ip (rp_intf (rip_update_interfaces env1 (proc2\<lparr>rip_network := []\<rparr>)) ! 0) = 0"
  using rip_interfaces_membership [of 0 "proc2\<lparr>rip_network := []\<rparr>" env1]
  by (simp add: proc2_def proc1_def eligible_def intf1_def find_network_for_interface_def)

text \<open>when an interface goes away, exactly the routes learnt over it become unreachable and start
  garbage collection; the routes of other interfaces stay as they are.\<close>
theorem delete_interface_exact:
  assumes "db_inv st"
  shows "ripdb_index (ripdb_delete_interface cfg i st) h =
     map (\<lambda>p. if rt_interface p = i
              then p\<lparr>rt_metric := 16, rt_timeout := 0,
                     rt_gc := if rt_gc p = 0 then word_of_nat (RIP_ROUTE_CLEANUP cfg) else rt_gc p,
                     rt_updated := rt_gc p = 0 \<or> rt_updated p\<rparr>
              else p) (ripdb_index st h)"
  unfolding ripdb_delete_interface_def clean_all_index [OF assms]
  by (rule map_cong [OF refl]) (simp add: drop_loser_def Let_def)

theorem delete_interface_exact_witness:
  "ripdb_index (ripdb_delete_interface cfg1 0 rip_init) 10 = []"
  using delete_interface_exact [of rip_init cfg1 0 10] rip_good_init by (simp add: rip_good_def rip_init_def)

text \<open>a neighbour that is not heard for longer than the route timeout is dropped from the list; the
  others stay, with their silence counted.\<close>
theorem neighbors_age:
  "neighbors (rxneigh_update p) =
     map (\<lambda>n. n\<lparr>rx_time := rx_time n + 1\<rparr>)
       (filter (\<lambda>n. rx_time n + 1 \<le> word_of_nat (RIP_ROUTE_TIMEOUT (rp_cfg p))) (neighbors p))"
  by (simp add: rxneigh_update_def age_neighbors_def Let_def filter_map comp_def not_less
      split: prod.split)

text \<open>a packet whose first entry is a simple password, received on an interface without a password,
  loses its last route: the code skips the entry after the routes as if it held an MD5 digest.\<close>
theorem simple_password_drops_last_route:
  assumes "rip_passwd (rp_intf p ! i) = []" "hdr = \<lparr>rr_family = 0xffff, rr_tag = 2, rr_ip = a, rr_mask = b, rr_gw = c, rr_metric = d\<rparr>"
    and "data = [2, 2, 0, 0] @ concat (map route_bytes (hdr # rts @ [lost]))"
  shows "rp_db (rx_response env data src i k p) = fold (rx_db (rp_cfg p) 2 src i) rts (rp_db p)"
proof -
  have len: "(length data - 4) div 20 = Suc (Suc (length rts))" "data ! 1 = 2" using assms(3) by simp_all
  have routes: "map (packet_route data) [0..<Suc (Suc (length rts))] = hdr # rts @ [lost]"
    using packet_routes [of "[2, 2, 0, 0]" 0 "hdr # rts @ [lost]" "[]"] assms(3) by simp
  then have "packet_route data 0 = hdr"
    by (simp add: upt_conv_Cons del: upt_Suc)
  moreover have "map (packet_route data) [1..<Suc (length rts)] = rts"
  proof -
    have "take (length rts) (drop 1 (map (packet_route data) [0..<Suc (Suc (length rts))])) = rts"
      unfolding routes by simp
    then show ?thesis by (simp add: drop_map take_map del: upt_Suc)
  qed
  ultimately show ?thesis using assms(1,2) by (simp add: rx_apply_def rx_auth_def Let_def len [unfolded One_nat_def])
qed

theorem simple_password_drops_last_route_witness:
  "let p = proc2\<lparr>rp_intf := [intf1\<lparr>rip_passwd := []\<rparr>]\<rparr>;
       hdr = \<lparr>rr_family = 0xffff, rr_tag = 2, rr_ip = 0, rr_mask = 0, rr_gw = 0, rr_metric = 0\<rparr>
   in rp_db (rx_response env1 ([2, 2, 0, 0] @ concat (map route_bytes (hdr # [] @ [route2]))) 0xc0a80163 0 0 p)
      = rp_db p"
  unfolding Let_def
  by (subst simple_password_drops_last_route [OF _ refl refl]) (simp_all add: intf1_def)

text \<open>\<open>no router rip\<close> clears the networks, the neighbours and the redistribution of static and
  connected routes, but leaves the redistribution of OSPF and loopback routes configured.\<close>
theorem no_router_rip_keeps_ospf:
  "rip_redist_ospf (rp_cfg (snd (cliNoRouterRipCmd p))) = rip_redist_ospf (rp_cfg p) \<and>
   rip_redist_connected_subnets (rp_cfg (snd (cliNoRouterRipCmd p))) = rip_redist_connected_subnets (rp_cfg p) \<and>
   rip_redist_static (rp_cfg (snd (cliNoRouterRipCmd p))) = 0 \<and>
   list_all (\<lambda>n. \<not> rp_valid n) (rip_network (snd (cliNoRouterRipCmd p)))"
  by (simp add: cliNoRouterRipCmd_def Let_def upd_cfg_def upd_db_def list_all_iff invalidate_def)

end
