(* ===== verification/Crypt.thy ===== *)
theory Crypt
  imports Md5
begin

text \<open>
  Password hashing, \<^verbatim>\<open>src/src/librcp/crypt.c\<close>: the administrator and enable passwords of the router
  are stored as the result of \<open>rcpCrypt\<close> and checked by hashing the typed password with the stored
  string as salt. Strings are byte lists without the terminating NUL; the two digest contexts, which
  are uninitialised stack variables, are arguments.
\<close>

definition itoa64 :: "u8 list" where
  "itoa64 = [0x2e, 0x2f] @ map word_of_nat ([48..<58] @ [65..<91] @ [97..<123])"

fun to64 :: "u64 \<Rightarrow> nat \<Rightarrow> u8 list" where
  "to64 v 0 = []"
| "to64 v (Suc n) = itoa64 ! unat (v AND 0x3f) # to64 (drop_bit 6 v) n"

definition magic :: "u8 list" where
  "magic = [0x24, 0x31, 0x24]"

text \<open>\<open>for (ep = sp; *ep && *ep != '$' && ep < (sp+8); ep++)\<close>: the bytes from \<open>sp\<close> to \<open>ep\<close>.\<close>

fun salt_loop :: "nat \<Rightarrow> u8 list \<Rightarrow> u8 list" where
  "salt_loop n [] = []"
| "salt_loop n (c # cs) = (if c \<noteq> 0x24 \<and> 0 < n then c # salt_loop (n - 1) cs else [])"

definition crypt_salt :: "u8 list \<Rightarrow> u8 list" where
  "crypt_salt salt = salt_loop 8 (if take 3 salt = magic then drop 3 salt else salt)"

text \<open>Consecutive calls of \<open>MD5Update\<close>.\<close>

definition md5_feed :: "u8 list list \<Rightarrow> MD5_CTX \<Rightarrow> MD5_CTX" where
  "md5_feed pieces ctx = fold (\<lambda>p c. MD5Update c p) pieces ctx"

text \<open>\<open>for (pl = strlen(pw); pl > 0; pl -= 16) MD5Update(&ctx, final, pl > 16 ? 16 : pl)\<close>.\<close>

function final_pieces :: "nat \<Rightarrow> u8 list \<Rightarrow> u8 list list" where
  "final_pieces pl final =
     (if pl = 0 then [] else take (if pl > 16 then 16 else pl) final # final_pieces (pl - 16) final)"
  by pat_completeness auto
termination
  by (relation "measure (\<lambda>(pl, final). pl)") auto

text \<open>\<open>for (j = 0, i = strlen(pw); i; i >>= 1)\<close>; \<open>final\<close> has been cleared and \<open>j\<close> stays 0.\<close>

function weird_pieces :: "nat \<Rightarrow> u8 list \<Rightarrow> u8 list list" where
  "weird_pieces i pw =
     (if i = 0 then []
      else (if odd i then [0] else take 1 pw) # weird_pieces (i div 2) pw)"
  by pat_completeness auto
termination
  by (relation "measure (\<lambda>(i, pw). i)") auto

declare final_pieces.simps [simp del] weird_pieces.simps [simp del]

definition round_pieces :: "nat \<Rightarrow> u8 list \<Rightarrow> u8 list \<Rightarrow> u8 list \<Rightarrow> u8 list list" where
  "round_pieces i pw sp final =
     [if odd i then pw else final] @ (if i mod 3 \<noteq> 0 then [sp] else []) @
     (if i mod 7 \<noteq> 0 then [pw] else []) @ [if odd i then final else pw]"

definition crypt_round ::
    "u8 list \<Rightarrow> u8 list \<Rightarrow> nat \<Rightarrow> u8 list \<times> MD5_CTX \<Rightarrow> u8 list \<times> MD5_CTX" where
  "crypt_round pw sp i fc =
     (case fc of (final, ctx1) \<Rightarrow> MD5Final (md5_feed (round_pieces i pw sp final) (MD5Init ctx1)))"

definition crypt_chars :: "u8 list \<Rightarrow> u8 list" where
  "crypt_chars final =
     (let b = (\<lambda>i. ucast (final ! i) :: u64); l = (\<lambda>i j k. push_bit 16 (b i) OR push_bit 8 (b j) OR b k)
      in to64 (l 0 6 12) 4 @ to64 (l 1 7 13) 4 @ to64 (l 2 8 14) 4 @ to64 (l 3 9 15) 4 @
         to64 (l 4 10 5) 4 @ to64 (b 11) 2)"

definition rcpCrypt :: "MD5_CTX \<Rightarrow> MD5_CTX \<Rightarrow> u8 list \<Rightarrow> u8 list \<Rightarrow> u8 list" where
  "rcpCrypt ctx ctx1 pw salt =
     (let sp = crypt_salt salt;
          c1 = md5_feed [pw, magic, sp] (MD5Init ctx);
          (final, ctx1a) = MD5Final (md5_feed [pw, sp, pw] (MD5Init ctx1));
          c2 = md5_feed (final_pieces (length pw) final) c1;
          c3 = md5_feed (weird_pieces (length pw) pw) c2;
          passwd = magic @ sp @ [0x24];
          final2 = fst (MD5Final c3);
          (final3, _) = fold (crypt_round pw sp) [0..<1000] (final2, ctx1a)
      in passwd @ crypt_chars final3)"

section \<open>The hash as a function of the digest\<close>

definition crypt_spec :: "u8 list \<Rightarrow> u8 list \<Rightarrow> u8 list" where
  "crypt_spec pw sp =
     (let f1 = md5_digest (pw @ sp @ pw);
          f2 = md5_digest (pw @ magic @ sp @ concat (final_pieces (length pw) f1) @
                           concat (weird_pieces (length pw) pw));
          f3 = fold (\<lambda>i f. md5_digest (concat (round_pieces i pw sp f))) [0..<1000] f2
      in magic @ sp @ [0x24] @ crypt_chars f3)"

lemma md5_feed_rep:
  "md5_rep c msg \<Longrightarrow> list_all (\<lambda>p. length p < 2 ^ 32) ps \<Longrightarrow> md5_rep (md5_feed ps c) (msg @ concat ps)"
  unfolding md5_feed_def
  by (induction ps arbitrary: c msg) (simp_all add: md5_rep_update flip: append_assoc)

lemma md5_feed_init:
  "length (md5_buffer c) = 64 \<Longrightarrow> list_all (\<lambda>p. length p < 2 ^ 32) ps \<Longrightarrow>
   md5_rep (md5_feed ps (MD5Init c)) (concat ps)"
  using md5_feed_rep [OF md5_rep_init] by fastforce

lemma MD5Final_ctx [simp]: "length (md5_buffer (snd (MD5Final c))) = 64"
  by (simp add: MD5Final_def Let_def)

lemma length_md5_digest [simp]: "length (md5_digest msg) = 16"
  by (cases "fst (md5_blocks md5_init (md5_pad msg))" rule: md5_reg_list.cases)
     (simp add: md5_digest_def Encode_def)

lemma salt_loop_length: "length (salt_loop n s) \<le> n"
  by (induction n s rule: salt_loop.induct) auto

lemma salt_loop_no_dollar: "0x24 \<notin> set (salt_loop n s)"
  by (induction n s rule: salt_loop.induct) auto

lemma salt_loop_again:
  "0x24 \<notin> set sp \<Longrightarrow> length sp \<le> n \<Longrightarrow> salt_loop n (sp @ 0x24 # rest) = sp"
  by (induction sp arbitrary: n) auto

lemma final_pieces_short: "list_all (\<lambda>p. length p < 2 ^ 32) (final_pieces n f)"
proof (induction n f rule: final_pieces.induct)
  case (1 pl final)
  then show ?case by (subst final_pieces.simps) (simp add: min_def)
qed

lemma weird_pieces_short: "list_all (\<lambda>p. length p < 2 ^ 32) (weird_pieces i pw)"
proof (induction i pw rule: weird_pieces.induct)
  case (1 i pw)
  then show ?case by (subst weird_pieces.simps) (simp add: min_def)
qed

lemma crypt_rounds:
  assumes "length pw < 2 ^ 32" "length sp \<le> 8"
  shows "length f = 16 \<Longrightarrow> length (md5_buffer c) = 64 \<Longrightarrow>
     fst (fold (crypt_round pw sp) is (f, c)) = fold (\<lambda>i f. md5_digest (concat (round_pieces i pw sp f))) is f"
proof (induction "is" arbitrary: f c)
  case (Cons i "is")
  have "list_all (\<lambda>p. length p < 2 ^ 32) (round_pieces i pw sp f)"
    using assms Cons.prems by (simp add: round_pieces_def)
  from MD5Final_rep [OF md5_feed_init [OF Cons.prems(2) this]]
  obtain c2 where "crypt_round pw sp i (f, c) = (md5_digest (concat (round_pieces i pw sp f)), c2)"
      "length (md5_buffer c2) = 64"
    by (simp add: crypt_round_def) (metis MD5Final_ctx prod.collapse)
  then show ?case using Cons.IH by simp
qed simp

lemma rcpCrypt_eq:
  assumes "length pw < 2 ^ 32" "length (md5_buffer ctx) = 64" "length (md5_buffer ctx1) = 64"
  shows "rcpCrypt ctx ctx1 pw salt = crypt_spec pw (crypt_salt salt)"
proof -
  let ?sp = "crypt_salt salt"
  have sp: "length ?sp \<le> 8" unfolding crypt_salt_def by (rule salt_loop_length)
  have f1: "fst (MD5Final (md5_feed [pw, ?sp, pw] (MD5Init ctx1))) = md5_digest (pw @ ?sp @ pw)"
    using MD5Final_rep [OF md5_feed_init [OF assms(3), of "[pw, ?sp, pw]"]] assms(1) sp by simp
  have c1: "md5_rep (md5_feed [pw, magic, ?sp] (MD5Init ctx)) (pw @ magic @ ?sp)"
    using md5_feed_init [OF assms(2), of "[pw, magic, ?sp]"] assms(1) sp by (simp add: magic_def)
  note c3 = MD5Final_rep [OF md5_feed_rep [OF md5_feed_rep [OF c1 final_pieces_short] weird_pieces_short]]
  show ?thesis
    unfolding rcpCrypt_def crypt_spec_def Let_def case_prod_beta f1 c3
    using assms sp by (subst crypt_rounds) simp_all
qed

section \<open>Properties\<close>



end
