(* ===== verification/Ospf_Checksum.thy ===== *)
theory Ospf_Checksum
  imports Prelude "HOL-Library.Signed_Division"
begin

text \<open>
  The two checksums of the OSPF process (\<open>ospf/exec/checksum.c\<close>): the Internet checksum of the packet
  header, computed over 16 bit words read in host order (little endian) with a 32 bit accumulator,
  and the Fletcher checksum of the link state advertisements. Both are instances of one interface,
  the locale \<open>checksum_code\<close>: a routine that writes the check field and a test that accepts what was
  written and rejects it after the corruption of a byte.
\<close>

section \<open>The Internet checksum\<close>

definition le16 :: "u8 \<Rightarrow> u8 \<Rightarrow> u16" where
  "le16 a b = word_of_nat (unat a + 256 * unat b)"

text \<open>The accumulation loop: words, then the odd byte shifted by 8.\<close>

fun sum_words :: "u8 list \<Rightarrow> u32 \<Rightarrow> u32" where
  "sum_words (a # b # xs) s = sum_words xs (s + ucast (le16 a b))"
| "sum_words [a] s = s + push_bit 8 (ucast a)"
| "sum_words [] s = s"

text \<open>\<open>while (sum >> 16) sum = (sum & 0xffff) + (sum >> 16)\<close>.\<close>

function fold_carries :: "u32 \<Rightarrow> u32" where
  "fold_carries s = (if drop_bit 16 s = 0 then s else fold_carries ((s AND 0xffff) + drop_bit 16 s))"
  by auto

definition validate_checksum :: "u8 list \<Rightarrow> bool" where
  "validate_checksum xs \<longleftrightarrow> fold_carries (sum_words xs 0) = 0xffff"

definition calculate_checksum :: "u8 list \<Rightarrow> u16" where
  "calculate_checksum xs = ucast (NOT (fold_carries (sum_words xs 0)))"

section \<open>The Fletcher checksum\<close>

text \<open>The inner loop adds the bytes of one block to the two sums.\<close>

fun fletcher_block :: "u8 list \<Rightarrow> int \<Rightarrow> int \<Rightarrow> int \<times> int" where
  "fletcher_block [] c0 c1 = (c0, c1)"
| "fletcher_block (b # xs) c0 c1 = fletcher_block xs (c0 + int (unat b)) (c1 + (c0 + int (unat b)))"

text \<open>The outer loop: blocks of at most 4102 bytes, each followed by the reduction modulo 255.\<close>

function fletcher_sums :: "u8 list \<Rightarrow> int \<Rightarrow> int \<Rightarrow> int \<times> int" where
  "fletcher_sums xs c0 c1 =
     (if xs = [] then (c0, c1)
      else case fletcher_block (take 4102 xs) c0 c1 of
             (d0, d1) \<Rightarrow> fletcher_sums (drop 4102 xs) (d0 smod 255) (d1 smod 255))"
  by auto
termination
  by (relation "measure (\<lambda>(xs, _). length xs)") auto

definition fletcher_clear :: "u8 list \<Rightarrow> nat \<Rightarrow> u8 list" where
  "fletcher_clear msg coffset = (if coffset \<noteq> 0 then msg[coffset - 1 := 0, coffset := 0] else msg)"

text \<open>The result and the message with the checksum inserted at \<open>coffset\<close> (0: no insertion).\<close>

definition fletcher16 :: "u8 list \<Rightarrow> nat \<Rightarrow> u16 \<times> u8 list" where
  "fletcher16 msg coffset =
     (let msg = fletcher_clear msg coffset;
          (c0, c1) = fletcher_sums msg 0 0;
          cksum = word_of_int (c1 * 256 + c0)
      in if coffset \<noteq> 0
         then let m = ((int (length msg) - int coffset) * c0 - c1) smod 255;
                  x = (if m \<le> 0 then m + 255 else m);
                  n = 510 - c0 - x;
                  y = (if n > 255 then n - 255 else n)
              in (cksum, msg[coffset - 1 := word_of_int x, coffset := word_of_int y])
         else (cksum, msg))"

section \<open>Lemmas on the Internet checksum\<close>

lemma unat_le16: "unat (le16 a b) = unat a + 256 * unat b"
proof -
  have "unat a + 256 * unat b < 65536" using unat_u8_less [of a] unat_u8_less [of b] by linarith
  then show ?thesis by (simp add: le16_def unat_of_nat del: of_nat_add of_nat_mult)
qed

lemma drop_bit_16_div: "unat (drop_bit 16 (s :: u32)) = unat s div 65536"
  by (simp add: unat_drop_bit_eq drop_bit_eq_div [where 'a = nat])

lemma and_ffff_mod: "unat ((s :: u32) AND 0xffff) = unat s mod 65536"
proof -
  have "s AND 0xffff = take_bit 16 s"
    by (simp add: take_bit_eq_mask mask_eq_exp_minus_1)
  then show ?thesis by (simp add: take_bit_eq_mod unat_mod_distrib)
qed

lemma unat_fold_step:
  "unat ((s AND 0xffff) + drop_bit 16 (s :: u32)) = unat s mod 65536 + unat s div 65536"
proof -
  have "unat s div 65536 < 65536" using unat_u32_less [of s] by simp
  then show ?thesis
    by (subst unat_add_lem [THEN iffD1]) (simp_all add: and_ffff_mod drop_bit_16_div)
qed

termination fold_carries
proof (relation "measure unat")
  fix s :: u32 assume "drop_bit 16 s \<noteq> 0"
  then have "unat s div 65536 \<noteq> 0" by (metis drop_bit_16_div unat_eq_zero)
  then have "unat s mod 65536 + unat s div 65536 < unat s"
    using div_mult_mod_eq [of "unat s" 65536] by linarith
  then show "((s AND 0xffff) + drop_bit 16 s, s) \<in> measure unat"
    by (simp only: in_measure unat_fold_step)
qed simp

declare fold_carries.simps [simp del]

text \<open>The carry loop computes the ones complement sum: the representative of the sum modulo 65535
  that is 0 only for the sum 0.\<close>

definition ones_sum :: "nat \<Rightarrow> nat" where
  "ones_sum n = (if n = 0 then 0 else (n - 1) mod 65535 + 1)"

lemma ones_sum_small: "n < 65536 \<Longrightarrow> ones_sum n = n"
  by (auto simp: ones_sum_def)

lemma ones_sum_fold: "65536 \<le> n \<Longrightarrow> ones_sum (n mod 65536 + n div 65536) = ones_sum n"
proof -
  assume n: "65536 \<le> n"
  define q r where "q = n div 65536" and "r = n mod 65536"
  have nq: "n = 65536 * q + r" and q: "q \<ge> 1" using n by (auto simp: q_def r_def)
  have "n - 1 = (r + q - 1) + 65535 * q" using nq q by simp
  then have "(n - 1) mod 65535 = (r + q - 1) mod 65535" by simp
  then show ?thesis using q n by (simp add: ones_sum_def q_def r_def)
qed

lemma unat_fold_carries: "unat (fold_carries s) = ones_sum (unat s)"
proof (induction s rule: fold_carries.induct)
  case (1 s)
  have z: "drop_bit 16 s = 0 \<longleftrightarrow> unat s < 65536"
    by (metis drop_bit_16_div unat_eq_zero div_eq_0_iff zero_neq_numeral)
  show ?case
  proof (cases "drop_bit 16 s = 0")
    case True
    then show ?thesis using z by (subst fold_carries.simps) (simp add: ones_sum_small)
  next
    case False
    with 1 z show ?thesis
      by (subst fold_carries.simps) (simp add: unat_fold_step ones_sum_fold)
  qed
qed

text \<open>The sum of the words as a number.\<close>

fun word_total :: "u8 list \<Rightarrow> nat" where
  "word_total (a # b # xs) = unat a + 256 * unat b + word_total xs"
| "word_total [a] = 256 * unat a"
| "word_total [] = 0"

lemma word_total_bound: "word_total xs \<le> 65535 * ((length xs + 1) div 2)"
proof (induction xs rule: word_total.induct)
  case (1 a b xs)
  have "unat a + 256 * unat b \<le> 65535" using unat_u8_less [of a] unat_u8_less [of b] by linarith
  with 1 show ?case by simp
next
  case (2 a)
  have "256 * unat a \<le> 65535" using unat_u8_less [of a] by linarith
  then show ?case by simp
qed simp

lemma sum_words_nat: "sum_words xs s = s + word_of_nat (word_total xs)"
proof (induction xs s rule: sum_words.induct)
  case (1 a b xs s)
  have "ucast (le16 a b) = (word_of_nat (unat a + 256 * unat b) :: u32)"
    by (simp only: unat_le16 [symmetric] of_nat_unat)
  then show ?case using 1 by (simp add: add.assoc)
next
  case (2 a s)
  have "push_bit 8 (ucast a :: u32) = word_of_nat (256 * unat a)"
    by (simp add: push_bit_eq_mult mult.commute)
  then show ?case by simp
qed simp

lemma unat_sum_words:
  "length xs < 131072 \<Longrightarrow> unat (sum_words xs 0) = word_total xs"
  using word_total_bound [of xs] by (simp add: sum_words_nat unat_of_nat)

lemma word_total_append: "even (length xs) \<Longrightarrow> word_total (xs @ ys) = word_total xs + word_total ys"
  by (induction xs rule: word_total.induct) auto

text \<open>The weight of the byte at position \<open>i\<close>.\<close>

definition weight :: "nat \<Rightarrow> nat \<Rightarrow> nat" where
  "weight len i = (if even i \<and> Suc i < len then 1 else 256)"

lemma word_total_update:
  "i < length xs \<Longrightarrow>
   word_total (xs[i := b]) + weight (length xs) i * unat (xs ! i) =
   word_total xs + weight (length xs) i * unat b"
proof (induction xs arbitrary: i rule: word_total.induct)
  case (1 a c xs)
  consider "i = 0" | "i = 1" | j where "i = Suc (Suc j)" by (metis One_nat_def not0_implies_Suc)
  then show ?case
  proof cases
    case 3
    then have "word_total (xs[j := b]) + weight (length xs) j * unat (xs ! j) =
               word_total xs + weight (length xs) j * unat b"
      using 1 by simp
    moreover have "weight (length (a # c # xs)) i = weight (length xs) j"
      using 3 by (simp add: weight_def)
    ultimately show ?thesis using 3 by simp
  qed (simp_all add: weight_def)
qed (auto simp: weight_def)

lemma ones_sum_ffff: "ones_sum n = 65535 \<longleftrightarrow> 0 < n \<and> n mod 65535 = 0"
proof (cases n)
  case (Suc m)
  have "Suc m mod 65535 = 0 \<longleftrightarrow> m mod 65535 = 65534"
    by (auto simp: mod_Suc)
  then show ?thesis using Suc by (auto simp: ones_sum_def)
qed (simp add: ones_sum_def)

lemma validate_total:
  assumes "length xs < 131072"
  shows "validate_checksum xs \<longleftrightarrow> 0 < word_total xs \<and> word_total xs mod 65535 = 0"
proof -
  have "validate_checksum xs \<longleftrightarrow> unat (fold_carries (sum_words xs 0)) = 65535"
    by (simp add: validate_checksum_def word_unat_eq_iff)
  then show ?thesis by (simp add: unat_fold_carries unat_sum_words assms ones_sum_ffff)
qed

section \<open>Lemmas on the Fletcher checksum\<close>

definition S0 :: "u8 list \<Rightarrow> int" where
  "S0 xs = (\<Sum>b \<leftarrow> xs. int (unat b))"

primrec S1 :: "u8 list \<Rightarrow> int" where
  "S1 [] = 0"
| "S1 (b # xs) = (int (length xs) + 1) * int (unat b) + S1 xs"

lemma S0_simps [simp]: "S0 [] = 0" "S0 (b # xs) = int (unat b) + S0 xs"
  by (simp_all add: S0_def)

lemma S0_append: "S0 (xs @ ys) = S0 xs + S0 ys"
  by (induction xs) auto

lemma S1_append: "S1 (xs @ ys) = S1 xs + int (length ys) * S0 xs + S1 ys"
  by (induction xs) (auto simp: algebra_simps)

lemma S_nonneg: "0 \<le> S0 xs" "0 \<le> S1 xs"
  by (induction xs) auto

lemma fletcher_block_sums:
  "fletcher_block xs c0 c1 = (c0 + S0 xs, c1 + int (length xs) * c0 + S1 xs)"
  by (induction xs arbitrary: c0 c1) (auto simp: algebra_simps)

lemma smod_nonneg: "0 \<le> a \<Longrightarrow> a smod (255 :: int) = a mod 255"
  by (simp add: signed_modulo_int_def signed_divide_int_def minus_div_mult_eq_mod [symmetric] abs_if sgn_if)

lemma mod_linear: "(a mod m + l * (b mod m) + c) mod m = (a + l * b + c) mod (m :: int)"
  by (intro mod_add_cong mod_mult_cong) simp_all

lemma fletcher_sums_mod:
  "\<lbrakk>0 \<le> c0; c0 < 255; 0 \<le> c1; c1 < 255\<rbrakk> \<Longrightarrow>
   fletcher_sums xs c0 c1 = ((c0 + S0 xs) mod 255, (c1 + int (length xs) * c0 + S1 xs) mod 255)"
proof (induction xs c0 c1 rule: fletcher_sums.induct)
  case (1 xs c0 c1)
  show ?case
  proof (cases "xs = []")
    case True
    then show ?thesis using 1 by (subst fletcher_sums.simps) simp
  next
    case False
    define ys zs where "ys = take 4102 xs" and "zs = drop 4102 xs"
    have xs: "xs = ys @ zs" by (simp add: ys_def zs_def)
    define d0 d1 where "d0 = (c0 + S0 ys) mod 255" and "d1 = (c1 + int (length ys) * c0 + S1 ys) mod 255"
    have nn: "0 \<le> c0 + S0 ys" "0 \<le> c1 + int (length ys) * c0 + S1 ys"
      using 1 S_nonneg [of ys] by simp_all
    have "fletcher_sums xs c0 c1 = fletcher_sums zs d0 d1"
      using False nn
      by (subst fletcher_sums.simps)
        (simp add: fletcher_block_sums ys_def [symmetric] zs_def [symmetric] smod_nonneg d0_def d1_def)
    also have "\<dots> = ((d0 + S0 zs) mod 255, (d1 + int (length zs) * d0 + S1 zs) mod 255)"
      using "1.IH" [OF False, of "c0 + S0 ys" "c1 + int (length ys) * c0 + S1 ys"] nn
      by (simp add: fletcher_block_sums ys_def [symmetric] zs_def [symmetric] smod_nonneg d0_def d1_def)
    also have "\<dots> = ((c0 + S0 xs) mod 255, (c1 + int (length xs) * c0 + S1 xs) mod 255)"
      unfolding d0_def d1_def mod_linear by (simp add: xs S0_append S1_append mod_simps algebra_simps)
    finally show ?thesis .
  qed
qed

lemmas fletcher_sums_0 = fletcher_sums_mod [of 0 0, simplified]

text \<open>The block size of 4102 bytes keeps both sums inside a 32 bit signed integer.\<close>

lemma S_bound: "S0 xs \<le> 255 * int (length xs)" "2 * S1 xs \<le> 255 * (int (length xs) * (int (length xs) + 1))"
proof (induction xs)
  case (Cons b xs)
  have b: "int (unat b) \<le> 255" using unat_u8_less [of b] by linarith
  { case 1 then show ?case using Cons(1) b by simp }
  { case 2
    have "(int (length xs) + 1) * int (unat b) \<le> (int (length xs) + 1) * 255"
      using b by (intro mult_left_mono) auto
    then show ?case using Cons(2) by (simp add: algebra_simps) }
qed auto

lemma fletcher_block_bounded:
  assumes "length xs \<le> 4102" "0 \<le> c0" "c0 < 255" "0 \<le> c1" "c1 < 255"
  shows "fst (fletcher_block xs c0 c1) < 2 ^ 31" "snd (fletcher_block xs c0 c1) < 2 ^ 31"
proof -
  have l: "int (length xs) \<le> 4102" using assms by simp
  have "int (length xs) * c0 \<le> 4102 * 254" using assms by (intro mult_mono) auto
  moreover have "int (length xs) * (int (length xs) + 1) \<le> 4102 * 4103" using l by (intro mult_mono) auto
  ultimately show "fst (fletcher_block xs c0 c1) < 2 ^ 31" "snd (fletcher_block xs c0 c1) < 2 ^ 31"
    using S_bound [of xs] assms by (simp_all add: fletcher_block_sums)
qed

section \<open>The interface of a checksum\<close>

text \<open>\<open>put k xs\<close> stores the check field at bytes \<open>k\<close> and \<open>k + 1\<close>, \<open>ok\<close> is the test of the receiver,
  \<open>fits k n\<close> the sizes for which the routine is used.\<close>

locale checksum_code =
  fixes put :: "nat \<Rightarrow> u8 list \<Rightarrow> u8 list"
    and ok :: "u8 list \<Rightarrow> bool"
    and fits :: "nat \<Rightarrow> nat \<Rightarrow> bool"
  assumes put_ok: "fits k (length xs) \<Longrightarrow> ok (put k xs)"
    and put_frame: "put k xs = xs[k := put k xs ! k, Suc k := put k xs ! Suc k]"
    and detect: "\<lbrakk>fits k (length xs); ok xs; i < length xs; unat b mod 255 \<noteq> unat (xs ! i) mod 255\<rbrakk>
                 \<Longrightarrow> \<not> ok (xs[i := b])"
begin

lemma length_put_check: "length (put k xs) = length xs"
  by (subst put_frame) simp

lemma put_payload: "i \<noteq> k \<Longrightarrow> i \<noteq> Suc k \<Longrightarrow> put k xs ! i = xs ! i"
  by (subst put_frame) simp

lemma corruption_detected:
  assumes "fits k (length xs)" "i < length xs" "unat b mod 255 \<noteq> unat (put k xs ! i) mod 255"
  shows "\<not> ok ((put k xs)[i := b])"
  using detect [of k "put k xs" i b] put_ok assms by (simp add: length_put_check)

end

text \<open>The sender's use of the Internet checksum (\<open>headerBuild\<close>): the field is cleared, the checksum
  computed over the whole packet and stored in host order.\<close>

definition put_inet :: "nat \<Rightarrow> u8 list \<Rightarrow> u8 list" where
  "put_inet k xs =
     (let xs = xs[k := 0, Suc k := 0]; c = calculate_checksum xs
      in xs[k := ucast c, Suc k := ucast (drop_bit 8 c)])"

definition inet_fits :: "nat \<Rightarrow> nat \<Rightarrow> bool" where
  "inet_fits k n \<longleftrightarrow> even k \<and> Suc k < n \<and> n < 131072"

definition put_fletcher :: "nat \<Rightarrow> u8 list \<Rightarrow> u8 list" where
  "put_fletcher k xs = snd (fletcher16 xs (Suc k))"

definition fletcher_ok :: "u8 list \<Rightarrow> bool" where
  "fletcher_ok xs \<longleftrightarrow> fst (fletcher16 xs 0) = 0"

definition fletcher_fits :: "nat \<Rightarrow> nat \<Rightarrow> bool" where
  "fletcher_fits k n \<longleftrightarrow> Suc k < n \<and> n < 65536"

lemma unat_calculate_checksum:
  assumes "length xs < 131072"
  shows "unat (calculate_checksum xs) = 65535 - ones_sum (word_total xs)"
proof -
  define f where "f = fold_carries (sum_words xs 0)"
  have f: "unat f = ones_sum (word_total xs)"
    by (simp add: f_def unat_fold_carries unat_sum_words assms)
  have "unat f \<le> 65535" unfolding f ones_sum_def by (auto simp: less_Suc_eq_le [symmetric])
  moreover have "unat (NOT f) = 4294967295 - unat f"
    using unat_sub [of f "- 1"]
    by (simp add: not_eq_complement minus_diff_commute [of f 1] word_order.extremum unsigned_minus_1_eq_mask mask_eq_exp_minus_1)
  moreover have "4294967295 - unat f = (65535 - unat f) + 65535 * 65536"
    using calculation(1) by simp
  then have "(4294967295 - unat f) mod 65536 = 65535 - unat f"
    by (simp only: mod_mult_self1) simp
  ultimately show ?thesis
    by (simp add: calculate_checksum_def f_def [symmetric] f [symmetric] unsigned_ucast_eq take_bit_eq_mod)
qed

text \<open>Both check fields are stored by overwriting two bytes.\<close>

lemma two_updates: "ys = xs[k := a, Suc k := b] \<Longrightarrow> ys = xs[k := ys ! k, Suc k := ys ! Suc k]"
  by (cases "k < length xs"; cases "Suc k < length xs") (auto simp: list_update_beyond nth_list_update)

lemma two_updates_again: "xs[k := a, Suc k := b, k := c, Suc k := d] = xs[k := c, Suc k := d]"
  by (simp add: list_update_swap [of "Suc k" k])

lemma word_total_put:
  assumes "even k" "Suc k < length xs"
  shows "word_total (xs[k := a, Suc k := b]) = word_total (xs[k := 0, Suc k := 0]) + unat a + 256 * unat b"
proof -
  have xs: "xs = take k xs @ xs ! k # xs ! Suc k # drop (Suc (Suc k)) xs"
    using assms by (simp add: Cons_nth_drop_Suc)
  have upd: "xs[k := c, Suc k := d] = take k xs @ c # d # drop (Suc (Suc k)) xs" for c d
    using assms by (subst xs) (simp add: list_update_append)
  have "even (length (take k xs))" using assms by simp
  then show ?thesis by (simp add: upd word_total_append)
qed

lemma put_inet_total:
  assumes "inet_fits k (length xs)"
  defines "t \<equiv> word_total (xs[k := 0, Suc k := 0])"
  shows "word_total (put_inet k xs) = t + (65535 - ones_sum t)"
proof -
  let ?c = "calculate_checksum (xs[k := 0, Suc k := 0])"
  have "unat (ucast ?c :: u8) + 256 * unat (ucast (drop_bit 8 ?c) :: u8) = unat ?c"
  proof -
    have "unat ?c div 256 < 256" using unat_u16_less [of ?c] by simp
    then show ?thesis
      by (simp add: unsigned_ucast_eq take_bit_eq_mod unat_drop_bit_eq drop_bit_eq_div [where 'a = nat])
  qed
  then show ?thesis
    using assms unat_calculate_checksum [of "xs[k := 0, Suc k := 0]"]
      word_total_put [of k xs "ucast ?c" "ucast (drop_bit 8 ?c)"]
    by (simp add: put_inet_def Let_def inet_fits_def two_updates_again)
qed

lemma ones_sum_cong: "ones_sum n \<le> 65535" "(n + (65535 - ones_sum n)) mod 65535 = 0" "n \<le> 0 \<or> 0 < ones_sum n"
proof -
  show a: "ones_sum n \<le> 65535" by (auto simp: ones_sum_def less_Suc_eq_le [symmetric])
  show "(n + (65535 - ones_sum n)) mod 65535 = 0"
  proof (cases n)
    case (Suc m)
    define q r where "q = m div 65535" and "r = m mod 65535"
    have "m = 65535 * q + r" "r < 65535" by (simp_all add: q_def r_def)
    then have "n + (65535 - ones_sum n) = 65535 * (q + 1)"
      using Suc by (simp add: ones_sum_def r_def [symmetric])
    then show ?thesis by simp
  qed (simp add: ones_sum_def)
  show "n \<le> 0 \<or> 0 < ones_sum n" by (simp add: ones_sum_def)
qed

interpretation inet: checksum_code put_inet validate_checksum inet_fits
proof unfold_locales
  fix k and xs :: "u8 list"
  assume f: "inet_fits k (length xs)"
  define t where "t = word_total (xs[k := 0, Suc k := 0])"
  have "length (put_inet k xs) < 131072" using f by (simp add: put_inet_def Let_def inet_fits_def)
  moreover have "0 < t + (65535 - ones_sum t)"
    by (cases t) (simp_all add: ones_sum_def)
  ultimately show "validate_checksum (put_inet k xs)"
    using put_inet_total [OF f] ones_sum_cong(2) [of t] by (simp add: validate_total t_def)
next
  fix k and xs :: "u8 list"
  show "put_inet k xs = xs[k := put_inet k xs ! k, Suc k := put_inet k xs ! Suc k]"
    by (rule two_updates) (simp add: put_inet_def Let_def two_updates_again)
next
  fix k i and xs :: "u8 list" and b :: u8
  assume f: "inet_fits k (length xs)" and ok: "validate_checksum xs" and i: "i < length xs"
    and b: "unat b mod 255 \<noteq> unat (xs ! i) mod 255"
  define w where "w = int (weight (length xs) i)"
  have w: "w = 1 \<or> w = 256" by (simp add: w_def weight_def)
  have len: "length xs < 131072" using f by (simp add: inet_fits_def)
  show "\<not> validate_checksum (xs[i := b])"
  proof
    assume "validate_checksum (xs[i := b])"
    then have "int (word_total (xs[i := b])) mod 65535 = 0" "int (word_total xs) mod 65535 = 0"
      using ok len by (simp_all add: validate_total) presburger+
    then have "65535 dvd int (word_total (xs[i := b])) - int (word_total xs)"
      by (simp add: mod_0_imp_dvd)
    moreover have "int (word_total (xs[i := b])) - int (word_total xs) = w * (int (unat b) - int (unat (xs ! i)))"
      using arg_cong [OF word_total_update [OF i, of b], of int] by (simp add: w_def algebra_simps)
    ultimately have d: "65535 dvd w * (int (unat b) - int (unat (xs ! i)))" by simp
    have "\<bar>int (unat b) - int (unat (xs ! i))\<bar> < 256"
      using unat_u8_less [of b] unat_u8_less [of "xs ! i"] by linarith
    then have "\<bar>w * (int (unat b) - int (unat (xs ! i)))\<bar> < 65535" using w by (auto simp: abs_mult)
    with d have "w * (int (unat b) - int (unat (xs ! i))) = 0" 
      using dvd_imp_le_int [of "w * (int (unat b) - int (unat (xs ! i)))" 65535] by linarith
    then have "int (unat b) - int (unat (xs ! i)) = 0" using w by auto
    then have "unat b = unat (xs ! i)" by linarith
    then show False using b by simp
  qed
qed

lemma S_put:
  assumes "Suc k < length xs"
  shows "S0 (xs[k := a, Suc k := b]) = S0 (xs[k := 0, Suc k := 0]) + int (unat a) + int (unat b)"
    and "S1 (xs[k := a, Suc k := b]) =
           S1 (xs[k := 0, Suc k := 0]) + (int (length xs) - int k) * int (unat a)
             + (int (length xs) - int k - 1) * int (unat b)"
proof -
  have xs: "xs = take k xs @ xs ! k # xs ! Suc k # drop (Suc (Suc k)) xs"
    using assms by (simp add: Cons_nth_drop_Suc)
  have upd: "xs[k := c, Suc k := d] = take k xs @ c # d # drop (Suc (Suc k)) xs" for c d
    using assms by (subst xs) (simp add: list_update_append)
  show "S0 (xs[k := a, Suc k := b]) = S0 (xs[k := 0, Suc k := 0]) + int (unat a) + int (unat b)"
    by (simp add: upd S0_append)
  show "S1 (xs[k := a, Suc k := b]) =
           S1 (xs[k := 0, Suc k := 0]) + (int (length xs) - int k) * int (unat a)
             + (int (length xs) - int k - 1) * int (unat b)"
    using assms by (simp add: upd S0_append S1_append of_nat_diff algebra_simps)
qed

lemma S0_update: "i < length xs \<Longrightarrow> S0 (xs[i := b]) = S0 xs - int (unat (xs ! i)) + int (unat b)"
  by (induction xs arbitrary: i) (auto split: nat.split)

lemma fletcher_ok_sums: "fletcher_ok xs \<longleftrightarrow> S0 xs mod 255 = 0 \<and> S1 xs mod 255 = 0"
proof -
  define a b where "a = S0 xs mod 255" and "b = S1 xs mod 255"
  have ab: "0 \<le> a" "a < 255" "0 \<le> b" "b < 255" by (simp_all add: a_def b_def)
  have "fletcher_ok xs \<longleftrightarrow> (word_of_int (b * 256 + a) :: u16) = 0"
    by (simp add: fletcher_ok_def fletcher16_def fletcher_clear_def fletcher_sums_0 Let_def a_def b_def)
  also have "\<dots> \<longleftrightarrow> (b * 256 + a) mod 65536 = 0"
    by (simp add: word_of_int_eq_0_iff dvd_eq_mod_eq_0 del: of_int_add of_int_mult)
  also have "\<dots> \<longleftrightarrow> b * 256 + a = 0" using ab by (simp add: mod_pos_pos_trivial)
  also have "\<dots> \<longleftrightarrow> a = 0 \<and> b = 0" using ab by auto
  finally show ?thesis by (simp add: a_def b_def)
qed

text \<open>The two check bytes solve the two congruences.\<close>

lemma fletcher_solution:
  fixes c0 c1 n k :: int
  defines "m \<equiv> ((n - (k + 1)) * c0 - c1) smod 255"
  defines "x \<equiv> if m \<le> 0 then m + 255 else m"
  defines "y \<equiv> if 510 - c0 - x > 255 then 510 - c0 - x - 255 else 510 - c0 - x"
  assumes "0 \<le> c0" "c0 < 255"
  shows "0 < x" "x \<le> 255" "0 < y" "y \<le> 255"
    and "(c0 + x + y) mod 255 = 0" "(c1 + (n - k) * x + (n - k - 1) * y) mod 255 = 0"
proof -
  have m: "- 255 < m" "m < 255"
    using smod_int_range [of 255 "(n - (k + 1)) * c0 - c1"] by (auto simp: m_def)
  then show x: "0 < x" "x \<le> 255" by (auto simp: x_def)
  then show "0 < y" "y \<le> 255" using assms by (auto simp: y_def)
  define d where "d = ((n - (k + 1)) * c0 - c1) sdiv 255"
  have "m = (n - (k + 1)) * c0 - c1 - d * 255"
    by (metis d_def m_def add_diff_cancel_left' sdiv_mult_smod_eq)
  then obtain q where q: "x = (n - (k + 1)) * c0 - c1 + 255 * q"
    by (rule_tac that [of "if m \<le> 0 then 1 - d else - d"]) (simp add: x_def algebra_simps)
  obtain r where r: "y = - c0 - x + 255 * r" by (rule that [of "if 510 - c0 - x > 255 then 1 else 2"]) (simp add: y_def)
  show "(c0 + x + y) mod 255 = 0" by (simp add: r)
  have "c1 + (n - k) * x + (n - k - 1) * y = 255 * (q + (n - k - 1) * r)"
    unfolding r by (simp add: q algebra_simps)
  then show "(c1 + (n - k) * x + (n - k - 1) * y) mod 255 = 0" by simp
qed

lemma unat_byte_of_int: "0 \<le> x \<Longrightarrow> x \<le> 255 \<Longrightarrow> int (unat (word_of_int x :: u8)) = x"
  by (simp add: unsigned_of_int take_bit_eq_mod mod_pos_pos_trivial)

lemma put_fletcher_bytes:
  fixes xs :: "u8 list" and k :: nat
  defines "c0 \<equiv> S0 (xs[k := 0, Suc k := 0]) mod 255" and "c1 \<equiv> S1 (xs[k := 0, Suc k := 0]) mod 255"
  defines "m \<equiv> ((int (length xs) - (int k + 1)) * c0 - c1) smod 255"
  defines "x \<equiv> if m \<le> 0 then m + 255 else m"
  defines "y \<equiv> if 510 - c0 - x > 255 then 510 - c0 - x - 255 else 510 - c0 - x"
  shows "put_fletcher k xs = xs[k := word_of_int x, Suc k := word_of_int y]"
  by (simp add: put_fletcher_def fletcher16_def fletcher_clear_def fletcher_sums_0 Let_def
      two_updates_again c0_def c1_def m_def x_def y_def algebra_simps)

interpretation fletcher: checksum_code put_fletcher fletcher_ok fletcher_fits
proof unfold_locales
  fix k and xs :: "u8 list"
  assume f: "fletcher_fits k (length xs)"
  define c0 c1 where "c0 = S0 (xs[k := 0, Suc k := 0]) mod 255" and "c1 = S1 (xs[k := 0, Suc k := 0]) mod 255"
  define m where "m = ((int (length xs) - (int k + 1)) * c0 - c1) smod 255"
  define x where "x = (if m \<le> 0 then m + 255 else m)"
  define y where "y = (if 510 - c0 - x > 255 then 510 - c0 - x - 255 else 510 - c0 - x)"
  have put: "put_fletcher k xs = xs[k := word_of_int x, Suc k := word_of_int y]"
    unfolding x_def y_def m_def c0_def c1_def by (rule put_fletcher_bytes)
  have c0: "0 \<le> c0" "c0 < 255" by (simp_all add: c0_def)
  note sol = fletcher_solution [OF c0, where n = "int (length xs)" and k = "int k" and ?c1.0 = c1,
      folded m_def, folded x_def, folded y_def]
  have xy: "int (unat (word_of_int x :: u8)) = x" "int (unat (word_of_int y :: u8)) = y"
    using sol unat_byte_of_int [of x] unat_byte_of_int [of y] by simp_all
  have k: "Suc k < length xs" using f by (simp add: fletcher_fits_def)
  have "S0 (put_fletcher k xs) mod 255 = (c0 + x + y) mod 255"
    using S_put(1) [OF k, of "word_of_int x" "word_of_int y", unfolded xy]
    unfolding put c0_def by (simp only:) (intro mod_add_cong; simp)
  moreover have "S1 (put_fletcher k xs) mod 255 = (c1 + (int (length xs) - int k) * x + (int (length xs) - int k - 1) * y) mod 255"
    using S_put(2) [OF k, of "word_of_int x" "word_of_int y", unfolded xy]
    unfolding put c1_def by (simp only:) (intro mod_add_cong; simp)
  ultimately show "fletcher_ok (put_fletcher k xs)"
    using sol by (simp add: fletcher_ok_sums)
next
  fix k and xs :: "u8 list"
  show "put_fletcher k xs = xs[k := put_fletcher k xs ! k, Suc k := put_fletcher k xs ! Suc k]"
    by (rule two_updates) (rule put_fletcher_bytes)
next
  fix k i and xs :: "u8 list" and b :: u8
  assume ok: "fletcher_ok xs" and i: "i < length xs" and b: "unat b mod 255 \<noteq> unat (xs ! i) mod 255"
  show "\<not> fletcher_ok (xs[i := b])"
  proof
    assume "fletcher_ok (xs[i := b])"
    with ok have "255 dvd S0 (xs[i := b]) - S0 xs"
      by (simp add: fletcher_ok_sums mod_0_imp_dvd)
    then have "255 dvd int (unat b) - int (unat (xs ! i))"
      by (simp add: S0_update [OF i] algebra_simps)
    then have "int (unat b mod 255) = int (unat (xs ! i) mod 255)"
      by (metis mod_eq_dvd_iff zmod_int of_nat_numeral)
    then show False using b by linarith
  qed
qed

section \<open>Properties\<close>

text \<open>C39: the LSA checksum: after \<open>fletcher16\<close> inserted the two check bytes the receiver's test
  accepts the advertisement, every other byte is unchanged, and a change of any one byte (other than
  between 0 and 255, which the arithmetic modulo 255 does not distinguish) is detected.\<close>
theorem lsa_checksum:
  assumes "0 < off" "off < length lsa" "length lsa < 65536"
    and "i < length lsa" "unat b mod 255 \<noteq> unat (snd (fletcher16 lsa off) ! i) mod 255"
  shows "fst (fletcher16 (snd (fletcher16 lsa off)) 0) = 0 \<and>
         snd (fletcher16 lsa off) = lsa[off - 1 := snd (fletcher16 lsa off) ! (off - 1),
                                        off := snd (fletcher16 lsa off) ! off] \<and>
         fst (fletcher16 ((snd (fletcher16 lsa off))[i := b]) 0) \<noteq> 0"
  using assms fletcher.put_ok [of "off - 1" lsa] fletcher.put_frame [of "off - 1" lsa]
    fletcher.corruption_detected [of "off - 1" lsa i b]
  by (simp add: put_fletcher_def fletcher_ok_def fletcher_fits_def)

text \<open>The router LSA of the test in the source, without the age field.\<close>

definition test_lsa :: "u8 list" where
  "test_lsa = [2, 1, 0xa, 0, 0, 0xc, 0xa, 0, 0, 0xc, 0x80, 0, 0, 2, 0x83, 0x97,
               0, 0x24, 0, 0, 0, 1, 0xa, 0, 0, 0, 0xff, 0xff, 0, 0, 3, 0, 0, 1]"

lemma test_lsa_checksum: "snd (fletcher16 test_lsa 15) = test_lsa"
  by code_simp

theorem lsa_checksum_witness:
  "fst (fletcher16 test_lsa 0) = 0 \<and> fst (fletcher16 (test_lsa[3 := 7]) 0) \<noteq> 0"
  using lsa_checksum [of 15 test_lsa 3 7, unfolded test_lsa_checksum] by (simp add: test_lsa_def)

text \<open>The packet checksum: what \<open>calculate_checksum\<close> puts into the cleared field at an even
  offset makes the receiver's \<open>validate_checksum\<close> accept the packet, and a change of any one byte
  makes it reject the packet.\<close>
theorem packet_checksum:
  assumes "even off" "off + 1 < length pkt" "length pkt < 131072" "pkt ! off = 0" "pkt ! (off + 1) = 0"
    and "sent = pkt[off := ucast (calculate_checksum pkt), off + 1 := ucast (drop_bit 8 (calculate_checksum pkt))]"
    and "i < length pkt" "unat b mod 255 \<noteq> unat (sent ! i) mod 255"
  shows "validate_checksum sent \<and> \<not> validate_checksum (sent[i := b])"
proof -
  have "pkt[off := 0, Suc off := 0] = pkt"
    using assms(4,5) by (metis Suc_eq_plus1 list_update_id)
  then have "sent = put_inet off pkt"
    using assms(6) by (simp add: put_inet_def Let_def)
  then show ?thesis
    using inet.put_ok [of off pkt] inet.corruption_detected [of off pkt i b] assms by (simp add: inet_fits_def)
qed

theorem packet_checksum_witness:
  "calculate_checksum [2, 1, 0, 8, 0, 0, 192, 168] = 0x4e3d \<and>
   validate_checksum [2, 1, 0, 8, 0x3d, 0x4e, 192, 168] \<and> \<not> validate_checksum [2, 1, 0, 9, 0x3d, 0x4e, 192, 168]"
proof -
  have c: "calculate_checksum [2, 1, 0, 8, 0, 0, 192, 168] = 0x4e3d"
    using unat_calculate_checksum [of "[2, 1, 0, 8, 0, 0, 192, 168]"]
    by (simp add: word_unat_eq_iff ones_sum_def)
  show ?thesis
    using packet_checksum [of 4 "[2, 1, 0, 8, 0, 0, 192, 168]" "[2, 1, 0, 8, 0x3d, 0x4e, 192, 168]" 3 9]
    by (simp add: c drop_bit_eq_div)
qed

end
