(* ===== verification/Ospf_Types.thy ===== *)
theory Ospf_Types
  imports Prelude
begin

text \<open>
  Data that the parts of the OSPF process share: the header of an advertisement and the lists of
  headers a neighbour record keeps (\<open>ospf/exec/lsa.h\<close>), the constants and the contents of the hello,
  database description and request packets (\<open>ospf/exec/packet.h\<close>). A packet is kept as its fields in
  host order; the common header with checksum and authentication is added when it is sent.
\<close>

record OspfLsaHeader =
  lh_age :: u16
  lh_options :: u8
  lh_type :: u8
  lh_link_state_id :: u32
  lh_adv_router :: u32
  lh_seq :: u32
  lh_checksum :: u16
  lh_length :: u16

definition LSA_TYPE_ROUTER :: u8 where [simp]: "LSA_TYPE_ROUTER = 1"
definition LSA_TYPE_NETWORK :: u8 where [simp]: "LSA_TYPE_NETWORK = 2"
definition LSA_TYPE_SUM_NET :: u8 where [simp]: "LSA_TYPE_SUM_NET = 3"
definition LSA_TYPE_SUM_ROUTER :: u8 where [simp]: "LSA_TYPE_SUM_ROUTER = 4"
definition LSA_TYPE_EXTERNAL :: u8 where [simp]: "LSA_TYPE_EXTERNAL = 5"
definition LSA_TYPE_MAX :: u8 where [simp]: "LSA_TYPE_MAX = 6"

text \<open>An element of a header list; the flags are 0 or 1 in the source.\<close>

record OspfLsaHeaderList =
  hl_ack :: bool
  hl_sent :: bool
  hl_header :: OspfLsaHeader

record OspfLsRequest =
  rq_type :: u32
  rq_id :: u32
  rq_adv_router :: u32

record OspfHello =
  he_mask :: u32
  he_hello_interval :: u16
  he_options :: u8
  he_router_priority :: u8
  he_dead_interval :: u32
  he_designated_router :: u32
  he_backup_router :: u32

record OspfDbd =
  dd_mtu :: u16
  dd_options :: u8
  dd_fields :: u8
  dd_seq :: u32

text \<open>A packet with the list that follows the fixed part: the router ids of the known neighbours, the
  described advertisements, the requests.\<close>

datatype OspfPacket =
    HelloPkt OspfHello "u32 list"
  | DdPkt OspfDbd "OspfLsaHeader list"
  | LsReqPkt "OspfLsRequest list"

definition OSPF_DD_MAX :: nat where [simp]: "OSPF_DD_MAX = 70"
definition OSPF_LS_REQ_MAX :: nat where [simp]: "OSPF_LS_REQ_MAX = 250"
definition OSPF_NB_ADJ_MAX :: nat where [simp]: "OSPF_NB_ADJ_MAX = 4"

end
