(* ===== verification/Ospf_Area.thy ===== *)
theory Ospf_Area
  imports Ospf_Types
begin

text \<open>
  Areas, networks and neighbours of the OSPF process (\<open>ospf/exec/area.h\<close>, \<open>ospf/exec/area.c\<close>). The
  global \<open>area_list\<close> is a list of area records with their networks and neighbours nested in them; a
  pointer to a network is the pair of positions of its area and of the network in it. Malloc and free
  are not visible at this level: a removed element is simply no longer in its list. The lists of
  advertisements that wait to be flooded or acknowledged (\<open>rxmt_list\<close>, \<open>flooding_alldrouters\<close>,
  \<open>flooding_allspfrouters\<close>) belong to flooding and are not part of the records.
\<close>

record OspfNeighbor =
  on_ip :: u32
  on_router_id :: u32
  on_state :: nat
  on_inactivity_timer :: int
  on_master :: bool
  on_dd_seq_number :: u32
  on_lastdbd_seq :: u32
  on_lastdbd_options :: u8
  on_lastdbd_fields :: u8
  on_priority :: u8
  on_options :: u8
  on_designated_router :: u32
  on_backup_router :: u32
  on_more0sent :: bool
  on_ddsum :: "OspfLsaHeaderList list"
  on_lsreq :: "OspfLsaHeaderList list"
  on_last_lsreq_pkt :: "OspfPacket option"
  on_lsreq_rxmt_timer :: int
  on_dr_election_sum :: u64
  on_bdr_election_sum :: u64
  on_last_dd_pkt :: "OspfPacket option"
  on_dd_rxmt_timer :: int
  on_adj_posponed :: bool
  on_md5_seq :: u32

definition NSTATE_DOWN :: nat where [simp]: "NSTATE_DOWN = 0"
definition NSTATE_ATTEMPT :: nat where [simp]: "NSTATE_ATTEMPT = 1"
definition NSTATE_INIT :: nat where [simp]: "NSTATE_INIT = 2"
definition NSTATE_2WAY :: nat where [simp]: "NSTATE_2WAY = 3"
definition NSTATE_EXSTART :: nat where [simp]: "NSTATE_EXSTART = 4"
definition NSTATE_EXCHANGE :: nat where [simp]: "NSTATE_EXCHANGE = 5"
definition NSTATE_LOADING :: nat where [simp]: "NSTATE_LOADING = 6"
definition NSTATE_FULL :: nat where [simp]: "NSTATE_FULL = 7"

definition N_TYPE_BROADCAST :: u8 where [simp]: "N_TYPE_BROADCAST = 0"
definition N_TYPE_VLINK :: u8 where [simp]: "N_TYPE_VLINK = 1"

definition NETSTATE_DOWN :: nat where [simp]: "NETSTATE_DOWN = 0"
definition NETSTATE_WAITING :: nat where [simp]: "NETSTATE_WAITING = 1"
definition NETSTATE_P2P :: nat where [simp]: "NETSTATE_P2P = 2"
definition NETSTATE_DROTHER :: nat where [simp]: "NETSTATE_DROTHER = 3"
definition NETSTATE_BACKUP :: nat where [simp]: "NETSTATE_BACKUP = 4"
definition NETSTATE_DR :: nat where [simp]: "NETSTATE_DR = 5"

text \<open>The pointers \<open>dr_nb\<close> and \<open>bdr_nb\<close> are only used to read the address of the neighbour, which never
  changes: they are kept as that address.\<close>

record OspfNetwork =
  net_neighbor :: "OspfNeighbor list"
  net_type :: u8
  net_state :: nat
  net_hello_interval :: u16
  net_hello_timer :: int
  net_ip :: u32
  net_mask :: u32
  net_area_id :: u32
  net_router_id :: u32
  net_dead_interval :: u32
  net_router_priority :: u8
  net_wait_timer :: int
  net_designated_router :: u32
  net_backup_router :: u32
  net_cost :: u32
  net_rxtm_interval :: u32
  net_auth_type :: u16
  ospf_passwd :: "u8 list"
  ospf_md5_passwd :: "u8 list"
  ospf_md5_key :: u8
  net_dr_nb :: "u32 option"
  net_bdr_nb :: "u32 option"

record OspfArea =
  oa_area_id :: u32
  oa_router_id :: u32
  oa_network :: "OspfNetwork list"
  oa_stub :: bool
  oa_no_summary :: bool
  oa_mylsa :: "nat option"

type_synonym area_list = "OspfArea list"
type_synonym net_ptr = "nat \<times> nat"

section \<open>Access through pointers\<close>

text \<open>Unlinking the element at a position of a chain.\<close>

definition drop_at :: "nat \<Rightarrow> 'a list \<Rightarrow> 'a list" where
  "drop_at k xs = take k xs @ drop (Suc k) xs"

lemma distinct_drop_at: "distinct xs \<Longrightarrow> distinct (drop_at k xs)"
  by (simp add: drop_at_def set_take_disj_set_drop_if_distinct)

lemma map_drop_at: "map f (drop_at k xs) = drop_at k (map f xs)"
  by (simp add: drop_at_def take_map drop_map)

definition the_net :: "net_ptr \<Rightarrow> area_list \<Rightarrow> OspfNetwork" where
  "the_net p al = oa_network (al ! fst p) ! snd p"

definition upd_net :: "net_ptr \<Rightarrow> (OspfNetwork \<Rightarrow> OspfNetwork) \<Rightarrow> area_list \<Rightarrow> area_list" where
  "upd_net p f = upd_pos (fst p) (\<lambda>a. a\<lparr>oa_network := upd_pos (snd p) f (oa_network a)\<rparr>)"

definition net_valid :: "net_ptr \<Rightarrow> area_list \<Rightarrow> bool" where
  "net_valid p al \<longleftrightarrow> fst p < length al \<and> snd p < length (oa_network (al ! fst p))"

lemma the_net_upd_net:
  "net_valid p al \<Longrightarrow> the_net p (upd_net p f al) = f (the_net p al)"
  by (simp add: the_net_def upd_net_def net_valid_def nth_upd_pos)

lemma the_net_upd_other:
  "net_valid q al \<Longrightarrow> q \<noteq> p \<Longrightarrow> the_net q (upd_net p f al) = the_net q al"
  by (cases p; cases q) (auto simp: the_net_def upd_net_def net_valid_def nth_upd_pos)

lemma net_valid_upd [simp]: "net_valid q (upd_net p f al) = net_valid q al"
  by (auto simp: net_valid_def upd_net_def nth_upd_pos split: if_splits)

section \<open>Areas\<close>

definition areaFind :: "u32 \<Rightarrow> area_list \<Rightarrow> nat option" where
  "areaFind area_id = find_pos (\<lambda>a. oa_area_id a = area_id)"

definition net_contains :: "u32 \<Rightarrow> OspfNetwork \<Rightarrow> bool" where
  "net_contains ip net \<longleftrightarrow> ip AND net_mask net = net_ip net AND net_mask net"

definition areaFindAnyIp :: "u32 \<Rightarrow> area_list \<Rightarrow> nat option" where
  "areaFindAnyIp ip = find_pos (\<lambda>a. \<exists>net \<in> set (oa_network a). net_contains ip net)"

text \<open>Results 0 and 1 of the C functions: \<open>True\<close> stands for 1, an error.\<close>

definition areaAdd :: "OspfArea \<Rightarrow> area_list \<Rightarrow> bool \<times> area_list" where
  "areaAdd area al = (if areaFind (oa_area_id area) al \<noteq> None then (True, al) else (False, area # al))"

definition areaRemove :: "nat \<Rightarrow> area_list \<Rightarrow> bool \<times> area_list" where
  "areaRemove i al =
     (if al = [] then (True, al)
      else if areaFind (oa_area_id (al ! i)) al = None then (True, al)
      else if i < length al then (False, drop_at i al) else (True, al))"

section \<open>Networks\<close>

definition networkFind :: "u32 \<Rightarrow> u32 \<Rightarrow> u32 \<Rightarrow> area_list \<Rightarrow> net_ptr option" where
  "networkFind area_id ip msk al =
     (case areaFind area_id al of
        None \<Rightarrow> None
      | Some i \<Rightarrow> map_option (Pair i) (find_pos (\<lambda>n. net_ip n = ip \<and> net_mask n = msk) (oa_network (al ! i))))"

definition networkFindIp :: "u32 \<Rightarrow> u32 \<Rightarrow> area_list \<Rightarrow> net_ptr option" where
  "networkFindIp area_id ip al =
     (case areaFind area_id al of
        None \<Rightarrow> None
      | Some i \<Rightarrow> map_option (Pair i) (find_pos (net_contains ip) (oa_network (al ! i))))"

definition networkFindAnyIp :: "u32 \<Rightarrow> area_list \<Rightarrow> net_ptr option" where
  "networkFindAnyIp ip al =
     (case areaFindAnyIp ip al of
        None \<Rightarrow> None
      | Some i \<Rightarrow> map_option (Pair i) (find_pos (net_contains ip) (oa_network (al ! i))))"

definition networkAdd :: "u32 \<Rightarrow> OspfNetwork \<Rightarrow> area_list \<Rightarrow> bool \<times> area_list" where
  "networkAdd area_id net al =
     (case areaFind area_id al of
        None \<Rightarrow> (True, al)
      | Some i \<Rightarrow>
          if networkFind area_id (net_ip net) (net_mask net) al \<noteq> None then (True, al)
          else (False, upd_pos i (\<lambda>a. a\<lparr>oa_network := net # oa_network a\<rparr>) al))"

definition networkRemove :: "u32 \<Rightarrow> net_ptr \<Rightarrow> area_list \<Rightarrow> bool \<times> area_list" where
  "networkRemove area_id p al =
     (if networkFind area_id (net_ip (the_net p al)) (net_mask (the_net p al)) al = None then (True, al)
      else case areaFind area_id al of
             None \<Rightarrow> (True, al)
           | Some i \<Rightarrow>
               if fst p = i \<and> snd p < length (oa_network (al ! i))
               then (False, upd_pos i (\<lambda>a. a\<lparr>oa_network := drop_at (snd p) (oa_network a)\<rparr>) al)
               else (True, al))"

section \<open>Neighbours\<close>

definition neighborFind :: "u32 \<Rightarrow> u32 \<Rightarrow> area_list \<Rightarrow> (net_ptr \<times> nat) option" where
  "neighborFind area_id ip al =
     (case networkFindIp area_id ip al of
        None \<Rightarrow> None
      | Some p \<Rightarrow> map_option (Pair p) (find_pos (\<lambda>nb. on_ip nb = ip) (net_neighbor (the_net p al))))"

definition neighborAdd :: "u32 \<Rightarrow> OspfNeighbor \<Rightarrow> area_list \<Rightarrow> bool \<times> area_list" where
  "neighborAdd area_id nb al =
     (if neighborFind area_id (on_ip nb) al \<noteq> None then (True, al)
      else case networkFindIp area_id (on_ip nb) al of
             None \<Rightarrow> (True, al)
           | Some p \<Rightarrow> (False, upd_net p (\<lambda>net. net\<lparr>net_neighbor := nb # net_neighbor net\<rparr>) al))"

text \<open>\<open>neighborRemove\<close> and \<open>neighborUnlink\<close> differ only in the release of the memory. The neighbour is
  given by its address in the list; both first look it up by its IP address.\<close>

definition neighborUnlink :: "u32 \<Rightarrow> net_ptr \<times> nat \<Rightarrow> area_list \<Rightarrow> bool \<times> area_list" where
  "neighborUnlink area_id nb al =
     (let ip = on_ip (net_neighbor (the_net (fst nb) al) ! snd nb)
      in if neighborFind area_id ip al = None then (True, al)
         else case networkFindIp area_id ip al of
                None \<Rightarrow> (True, al)
              | Some p \<Rightarrow>
                  (False, if p = fst nb
                          then upd_net p (\<lambda>net. net\<lparr>net_neighbor := drop_at (snd nb) (net_neighbor net)\<rparr>) al
                          else al))"

definition neighborRemove :: "u32 \<Rightarrow> net_ptr \<times> nat \<Rightarrow> area_list \<Rightarrow> bool \<times> area_list" where
  "neighborRemove = neighborUnlink"

definition neighborRid2Ip :: "u32 \<Rightarrow> u32 \<Rightarrow> area_list \<Rightarrow> u32" where
  "neighborRid2Ip area_id rid al =
     (case areaFind area_id al of
        None \<Rightarrow> 0
      | Some i \<Rightarrow>
          (case find (\<lambda>nb. on_router_id nb = rid) (concat (map net_neighbor (oa_network (al ! i)))) of
             None \<Rightarrow> 0
           | Some nb \<Rightarrow> on_ip nb))"

section \<open>Lemmas\<close>

text \<open>Area ids stay unique, so that \<open>areaFind\<close> finds every area of the list.\<close>

definition areas_ok :: "area_list \<Rightarrow> bool" where
  "areas_ok al \<longleftrightarrow> distinct (map oa_area_id al)"

lemma areaAdd_ok: "areas_ok al \<Longrightarrow> areas_ok (snd (areaAdd area al))"
  by (auto simp: areas_ok_def areaAdd_def areaFind_def find_pos_None)

lemma areaRemove_ok: "areas_ok al \<Longrightarrow> areas_ok (snd (areaRemove i al))"
  by (auto simp: areas_ok_def areaRemove_def map_drop_at distinct_drop_at)

lemma networkFindIp_valid: "networkFindIp area_id ip al = Some p \<Longrightarrow> net_valid p al \<and> net_contains ip (the_net p al)"
  by (auto simp: networkFindIp_def net_valid_def the_net_def areaFind_def split: option.splits)

lemma neighborAdd_unlink:
  assumes "neighborAdd area_id nb al = (False, al')" "networkFindIp area_id (on_ip nb) al = Some p"
  shows "net_neighbor (the_net p al') = nb # net_neighbor (the_net p al)"
  using assms networkFindIp_valid [OF assms(2)]
  by (auto simp: neighborAdd_def the_net_upd_net split: if_splits)

end
