(* ===== verification/Ospf_Lsdb.thy ===== *)
theory Ospf_Lsdb
  imports Ospf_Area Ospf_Checksum
begin

text \<open>
  The link state database (\<open>ospf/exec/lsa.h\<close>, \<open>lsa_list.c\<close>, and the database operations and the cost
  lists of \<open>lsa.c\<close>). Advertisements live in a store from addresses to records; the linked list of a
  type and the chain of a hash bucket are lists of addresses into it, and the head pointer that an
  advertisement keeps for the lookup is the name of its list. Fields that the code keeps in network
  order are kept in host order here: they are only compared for equality or converted back.
\<close>

section \<open>Advertisements\<close>

record RtrLsaLink =
  lnk_id :: u32
  lnk_data :: u32
  lnk_type :: u8
  lnk_tos :: u8
  lnk_metric :: u16

text \<open>The union \<open>u\<close> with the data that follows it in memory: the links of a router LSA, the attached
  routers of a network LSA.\<close>

datatype LsaBody =
    RtrLsa u8 "RtrLsaLink list"
  | NetLsa u32 "u32 list"
  | SumLsa u32 u32
  | ExtLsa u32 u32 u32 u32

record LsaCost =
  lc_id :: u32
  lc_mask :: u32
  lc_type :: u8
  lc_ext_type :: u8
  lc_cost :: u32
  lc_tag :: u32

text \<open>The lists of the database: one for each type of an area, one for the external LSAs.\<close>

datatype lsa_head = ExtHead | AreaHead u32 u8

record OspfLsa =
  l_header :: OspfLsaHeader
  l_body :: LsaBody
  l_head :: "lsa_head option"
  l_self_originated :: bool
  l_ncost :: "LsaCost list option"
  l_cost :: u32
  l_from :: "nat option list"
  l_visited :: bool
  l_outhop :: u32
  l_nexthop :: u32
  l_originator :: u8

abbreviation l_type :: "OspfLsa \<Rightarrow> u8" where "l_type lsa \<equiv> lh_type (l_header lsa)"
abbreviation l_id :: "OspfLsa \<Rightarrow> u32" where "l_id lsa \<equiv> lh_link_state_id (l_header lsa)"
abbreviation l_adv :: "OspfLsa \<Rightarrow> u32" where "l_adv lsa \<equiv> lh_adv_router (l_header lsa)"

record lsdb =
  store :: "nat \<Rightarrow> OspfLsa"
  lsa_lists :: "lsa_head \<Rightarrow> nat list"
  bucket :: "nat \<Rightarrow> nat list"
  areas :: area_list
  spf_timeout :: nat
  spf_timeout_hold :: nat

definition upd_lsa :: "nat \<Rightarrow> (OspfLsa \<Rightarrow> OspfLsa) \<Rightarrow> lsdb \<Rightarrow> lsdb" where
  "upd_lsa a f db = db\<lparr>store := (store db)(a := f (store db a))\<rparr>"

section \<open>The hash table\<close>

text \<open>Jenkins' one-at-a-time hash over the bytes of the id as they lie in memory (network order).\<close>

definition lsa_mix :: "u32 \<Rightarrow> u8 \<Rightarrow> u32" where
  "lsa_mix h b = (let h = h + ucast b; h = h + push_bit 10 h in h XOR drop_bit 6 h)"

definition lsa_hash :: "u32 \<Rightarrow> nat" where
  "lsa_hash lsid =
     (let h = foldl lsa_mix 0 (put32 lsid);
          h = h + push_bit 3 h; h = h XOR drop_bit 11 h; h = h + push_bit 15 h
      in unat (h AND 0xfff))"

definition lsaHashAdd :: "lsa_head \<Rightarrow> nat \<Rightarrow> lsdb \<Rightarrow> lsdb" where
  "lsaHashAdd head a db =
     (let db = upd_lsa a (\<lambda>l. l\<lparr>l_head := Some head\<rparr>) db; i = lsa_hash (l_id (store db a))
      in db\<lparr>bucket := (bucket db)(i := a # bucket db i)\<rparr>)"

definition lsaHashRemove :: "nat \<Rightarrow> lsdb \<Rightarrow> lsdb" where
  "lsaHashRemove a db =
     (let i = lsa_hash (l_id (store db a)) in db\<lparr>bucket := (bucket db)(i := remove1 a (bucket db i))\<rparr>)"

section \<open>The lists\<close>

definition lsaListAddHash :: "lsa_head \<Rightarrow> nat \<Rightarrow> lsdb \<Rightarrow> lsdb" where
  "lsaListAddHash head a db =
     (let db = lsaHashAdd head a db
      in db\<lparr>lsa_lists := (lsa_lists db)(head := a # lsa_lists db head)\<rparr>)"

definition lsaListRemove :: "lsa_head \<Rightarrow> nat \<Rightarrow> lsdb \<Rightarrow> nat option \<times> lsdb" where
  "lsaListRemove head a db =
     (let db = lsaHashRemove a db
      in if lsa_lists db head = [] then (None, db)
         else (Some a, db\<lparr>lsa_lists := (lsa_lists db)(head := remove1 a (lsa_lists db head))\<rparr>))"

fun replace1 :: "'a \<Rightarrow> 'a \<Rightarrow> 'a list \<Rightarrow> 'a list" where
  "replace1 a b [] = []"
| "replace1 a b (x # xs) = (if x = a then b # xs else x # replace1 a b xs)"

definition lsaListReplace :: "lsa_head \<Rightarrow> nat \<Rightarrow> nat \<Rightarrow> lsdb \<Rightarrow> nat option \<times> lsdb" where
  "lsaListReplace head old new db =
     (if lsa_lists db head = [] then (None, db)
      else let db = lsaHashAdd head new (lsaHashRemove old db)
           in (Some old, db\<lparr>lsa_lists := (lsa_lists db)(head := replace1 old new (lsa_lists db head))\<rparr>))"

definition lsaListFind :: "lsa_head \<Rightarrow> u8 \<Rightarrow> u32 \<Rightarrow> u32 \<Rightarrow> lsdb \<Rightarrow> nat option" where
  "lsaListFind head type lsid adv db =
     (if lsa_lists db head = [] then None
      else find (\<lambda>a. l_head (store db a) = Some head \<and> l_type (store db a) = type \<and>
                     l_id (store db a) = lsid \<and> l_adv (store db a) = adv) (bucket db (lsa_hash lsid)))"

definition lsaListFind2 :: "lsa_head \<Rightarrow> u8 \<Rightarrow> u32 \<Rightarrow> lsdb \<Rightarrow> nat option" where
  "lsaListFind2 head type lsid db =
     (if lsa_lists db head = [] then None
      else find (\<lambda>a. l_head (store db a) = Some head \<and> l_type (store db a) = type \<and>
                     l_id (store db a) = lsid) (bucket db (lsa_hash lsid)))"

text \<open>The type of a request has 32 bits and is compared with the 8 bit type of the LSA.\<close>

definition lsaListFindRequest :: "lsa_head \<Rightarrow> OspfLsRequest \<Rightarrow> lsdb \<Rightarrow> nat option" where
  "lsaListFindRequest head rq db =
     (if lsa_lists db head = [] then None
      else find (\<lambda>a. l_head (store db a) = Some head \<and> ucast (l_type (store db a)) = rq_type rq \<and>
                     l_id (store db a) = rq_id rq \<and> l_adv (store db a) = rq_adv_router rq)
             (bucket db (lsa_hash (rq_id rq))))"

section \<open>Database operations\<close>

definition link_cost :: "RtrLsaLink \<Rightarrow> LsaCost" where
  "link_cost lnk = \<lparr>lc_id = lnk_id lnk, lc_mask = 0, lc_type = LSA_TYPE_NETWORK, lc_ext_type = 0,
                    lc_cost = ucast (lnk_metric lnk), lc_tag = 0\<rparr>"

definition router_cost :: "u32 \<Rightarrow> LsaCost" where
  "router_cost ip = \<lparr>lc_id = ip, lc_mask = 0, lc_type = LSA_TYPE_ROUTER, lc_ext_type = 0, lc_cost = 0, lc_tag = 0\<rparr>"

primrec body_cost :: "LsaBody \<Rightarrow> LsaCost list option" where
  "body_cost (RtrLsa flags links) = (if links = [] then None else Some (map link_cost links))"
| "body_cost (NetLsa msk routers) = (if routers = [] then None else Some (map router_cost routers))"
| "body_cost (SumLsa msk metric) =
     Some [\<lparr>lc_id = 0, lc_mask = msk, lc_type = 0, lc_ext_type = 0, lc_cost = metric AND 0x00ffffff, lc_tag = 0\<rparr>]"
| "body_cost (ExtLsa msk type_metric fw tag) =
     Some [\<lparr>lc_id = fw, lc_mask = msk, lc_type = LSA_TYPE_EXTERNAL,
            lc_ext_type = (if type_metric AND 0x80000000 \<noteq> 0 then 2 else 1),
            lc_cost = type_metric AND 0x00ffffff, lc_tag = tag\<rparr>]"

definition lsa_add_cost :: "nat \<Rightarrow> lsdb \<Rightarrow> lsdb" where
  "lsa_add_cost a = upd_lsa a (\<lambda>l. l\<lparr>l_ncost := body_cost (l_body l)\<rparr>)"

definition lsadbGetListHead :: "u32 \<Rightarrow> u8 \<Rightarrow> lsdb \<Rightarrow> lsa_head option" where
  "lsadbGetListHead area_id type db =
     (if type = LSA_TYPE_EXTERNAL then Some ExtHead
      else if areaFind area_id (areas db) = None then None
      else Some (AreaHead area_id (if type \<ge> LSA_TYPE_MAX then 0 else type)))"

definition lsadbGetList :: "u32 \<Rightarrow> u8 \<Rightarrow> lsdb \<Rightarrow> nat list" where
  "lsadbGetList area_id type db =
     (case lsadbGetListHead area_id type db of None \<Rightarrow> [] | Some h \<Rightarrow> lsa_lists db h)"

definition lsadbFind :: "u32 \<Rightarrow> u8 \<Rightarrow> u32 \<Rightarrow> u32 \<Rightarrow> lsdb \<Rightarrow> nat option" where
  "lsadbFind area_id type lsid adv db =
     Option.bind (lsadbGetListHead area_id type db) (\<lambda>h. lsaListFind h type lsid adv db)"

definition lsadbFind2 :: "u32 \<Rightarrow> u8 \<Rightarrow> u32 \<Rightarrow> lsdb \<Rightarrow> nat option" where
  "lsadbFind2 area_id type lsid db =
     Option.bind (lsadbGetListHead area_id type db) (\<lambda>h. lsaListFind2 h type lsid db)"

definition lsadbFindHeader :: "u32 \<Rightarrow> OspfLsaHeader \<Rightarrow> lsdb \<Rightarrow> nat option" where
  "lsadbFindHeader area_id h = lsadbFind area_id (lh_type h) (lh_link_state_id h) (lh_adv_router h)"

definition lsadbFindRequest :: "u32 \<Rightarrow> OspfLsRequest \<Rightarrow> lsdb \<Rightarrow> nat option" where
  "lsadbFindRequest area_id rq db =
     Option.bind (lsadbGetListHead area_id (ucast (rq_type rq)) db) (\<lambda>h. lsaListFindRequest h rq db)"

text \<open>The trigger of the route calculation (\<open>spf.c\<close>): \<open>delay\<close> is the configured \<open>ospf_spf_delay\<close>.\<close>

definition spfTrigger :: "nat \<Rightarrow> lsdb \<Rightarrow> lsdb" where
  "spfTrigger delay db = (if spf_timeout db = 0 then db\<lparr>spf_timeout := delay\<rparr> else db)"

definition spfTriggerNow :: "lsdb \<Rightarrow> lsdb" where
  "spfTriggerNow db = db\<lparr>spf_timeout := 1, spf_timeout_hold := 0\<rparr>"

definition MaxAgeDiff :: int where "MaxAgeDiff = 900"

text \<open>\<open>True\<close> stands for a result other than 0: the two LSAs differ.\<close>

definition lsa_compare :: "OspfLsa \<Rightarrow> OspfLsa \<Rightarrow> bool \<Rightarrow> bool \<Rightarrow> bool" where
  "lsa_compare lsa1 lsa2 skip_seq skip_age \<longleftrightarrow>
     (\<not> skip_age \<and> \<bar>uint (lh_age (l_header lsa1)) - uint (lh_age (l_header lsa2))\<bar> > MaxAgeDiff) \<or>
     (\<not> skip_seq \<and> lh_seq (l_header lsa1) \<noteq> lh_seq (l_header lsa2)) \<or>
     l_type lsa1 \<noteq> l_type lsa2 \<or> l_id lsa1 \<noteq> l_id lsa2 \<or> l_adv lsa1 \<noteq> l_adv lsa2 \<or>
     lh_length (l_header lsa1) \<noteq> lh_length (l_header lsa2) \<or>
     l_body lsa1 \<noteq> l_body lsa2"

definition lsadbAdd :: "nat \<Rightarrow> u32 \<Rightarrow> nat \<Rightarrow> lsdb \<Rightarrow> lsdb" where
  "lsadbAdd delay area_id a db =
     (let db = lsa_add_cost a db
      in case lsadbGetListHead area_id (l_type (store db a)) db of
           None \<Rightarrow> db
         | Some h \<Rightarrow> spfTrigger delay (lsaListAddHash h a db))"

definition clear_mylsa :: "u32 \<Rightarrow> nat \<Rightarrow> area_list \<Rightarrow> area_list" where
  "clear_mylsa area_id a al =
     (case areaFind area_id al of
        None \<Rightarrow> al
      | Some i \<Rightarrow> if oa_mylsa (al ! i) = Some a then upd_pos i (\<lambda>ar. ar\<lparr>oa_mylsa := None\<rparr>) al else al)"

definition lsadbRemove :: "nat \<Rightarrow> u32 \<Rightarrow> nat \<Rightarrow> lsdb \<Rightarrow> lsdb" where
  "lsadbRemove delay area_id a db =
     (case lsadbGetListHead area_id (l_type (store db a)) db of
        None \<Rightarrow> db
      | Some h \<Rightarrow>
          let db = (if l_type (store db a) \<noteq> LSA_TYPE_EXTERNAL
                    then db\<lparr>areas := clear_mylsa area_id a (areas db)\<rparr> else db)
          in spfTrigger delay (snd (lsaListRemove h a db)))"

definition lsadbReplace :: "nat \<Rightarrow> u32 \<Rightarrow> nat \<Rightarrow> nat \<Rightarrow> lsdb \<Rightarrow> lsdb" where
  "lsadbReplace delay area_id old new db =
     (let db = lsa_add_cost new db
      in case lsadbGetListHead area_id (l_type (store db old)) db of
           None \<Rightarrow> db
         | Some h \<Rightarrow>
             let db' = snd (lsaListReplace h old new db)
             in if lsa_compare (store db' old) (store db' new) True True then spfTrigger delay db' else db')"

section \<open>The index is in step with the lists\<close>

definition members :: "lsdb \<Rightarrow> nat set" where
  "members db = (\<Union>h. set (lsa_lists db h))"

definition lsdb_inv :: "lsdb \<Rightarrow> bool" where
  "lsdb_inv db \<longleftrightarrow>
     (\<forall>h. distinct (lsa_lists db h)) \<and>
     (\<forall>h. \<forall>a \<in> set (lsa_lists db h). l_head (store db a) = Some h) \<and>
     (\<forall>i. distinct (bucket db i)) \<and>
     (\<forall>i a. a \<in> set (bucket db i) \<longleftrightarrow> i = lsa_hash (l_id (store db a)) \<and> a \<in> members db)"

lemma lsdb_invD:
  assumes "lsdb_inv db"
  shows "distinct (lsa_lists db h)" "a \<in> set (lsa_lists db h) \<Longrightarrow> l_head (store db a) = Some h"
    "distinct (bucket db i)" "a \<in> set (bucket db i) \<longleftrightarrow> i = lsa_hash (l_id (store db a)) \<and> a \<in> members db"
  using assms unfolding lsdb_inv_def by blast+

lemma in_members: "a \<in> set (lsa_lists db h) \<Longrightarrow> a \<in> members db"
  by (auto simp: members_def)

text \<open>Changes of the advertisements that keep the ids and list heads of the members.\<close>

definition same_keys :: "lsdb \<Rightarrow> (nat \<Rightarrow> OspfLsa) \<Rightarrow> bool" where
  "same_keys db st \<longleftrightarrow> (\<forall>a \<in> members db. l_id (st a) = l_id (store db a) \<and> l_head (st a) = l_head (store db a))"

lemma members_store [simp]: "members (db\<lparr>store := st\<rparr>) = members db"
  by (simp add: members_def)

lemma lsdb_inv_store: "lsdb_inv db \<Longrightarrow> same_keys db st \<Longrightarrow> lsdb_inv (db\<lparr>store := st\<rparr>)"
  unfolding lsdb_inv_def members_store same_keys_def by (auto simp: in_members)

lemma lsdb_inv_more [simp]:
  "lsdb_inv (db\<lparr>areas := x\<rparr>) = lsdb_inv db" "lsdb_inv (db\<lparr>spf_timeout := t\<rparr>) = lsdb_inv db"
  "lsdb_inv (db\<lparr>spf_timeout_hold := t\<rparr>) = lsdb_inv db"
  by (simp_all add: lsdb_inv_def members_def)

lemma lsdb_inv_spfTrigger [simp]: "lsdb_inv (spfTrigger delay db) = lsdb_inv db"
  by (simp add: spfTrigger_def)

lemma lsa_add_cost_fields [simp]:
  "lsa_lists (lsa_add_cost a db) = lsa_lists db" "members (lsa_add_cost a db) = members db"
  "l_header (store (lsa_add_cost a db) b) = l_header (store db b)"
  "l_head (store (lsa_add_cost a db) b) = l_head (store db b)"
  "areas (lsa_add_cost a db) = areas db"
  by (simp_all add: lsa_add_cost_def upd_lsa_def members_def)

lemma lsdb_inv_add_cost: "lsdb_inv db \<Longrightarrow> lsdb_inv (lsa_add_cost a db)"
  unfolding lsa_add_cost_def upd_lsa_def
  by (rule lsdb_inv_store) (simp_all add: same_keys_def)

lemma members_split: "members db = set (lsa_lists db h) \<union> (\<Union>g \<in> - {h}. set (lsa_lists db g))"
  by (auto simp: members_def)

lemma lsdb_inv_add:
  assumes inv: "lsdb_inv db" and new: "a \<notin> members db"
  shows "lsdb_inv (lsaListAddHash h a db)"
proof -
  let ?db = "lsaListAddHash h a db"
  have lists: "lsa_lists ?db = (lsa_lists db)(h := a # lsa_lists db h)"
    and store: "store ?db = (store db)(a := (store db a)\<lparr>l_head := Some h\<rparr>)"
    and bucket: "bucket ?db = (bucket db)(lsa_hash (l_id (store db a)) := a # bucket db (lsa_hash (l_id (store db a))))"
    by (simp_all add: lsaListAddHash_def lsaHashAdd_def upd_lsa_def Let_def)
  have mem: "members ?db = insert a (members db)"
    by (auto simp: members_def lists split: if_splits)
  have fresh: "a \<notin> set (lsa_lists db g)" "a \<notin> set (bucket db i)" for g i
    using new lsdb_invD(4) [OF inv] by (auto simp: members_def)
  show ?thesis
    unfolding lsdb_inv_def mem lists store bucket
    using inv fresh new unfolding lsdb_inv_def by auto
qed

lemma lsdb_inv_remove:
  assumes inv: "lsdb_inv db" and a: "a \<in> set (lsa_lists db h)"
  shows "lsdb_inv (snd (lsaListRemove h a db))" "members (snd (lsaListRemove h a db)) = members db - {a}"
proof -
  let ?db = "snd (lsaListRemove h a db)"
  have lists: "lsa_lists ?db = (lsa_lists db)(h := remove1 a (lsa_lists db h))"
    and store: "store ?db = store db"
    and bucket: "bucket ?db = (bucket db)(lsa_hash (l_id (store db a)) := remove1 a (bucket db (lsa_hash (l_id (store db a)))))"
    using a by (auto simp: lsaListRemove_def lsaHashRemove_def Let_def)
  have uniq: "a \<in> set (lsa_lists db g) \<Longrightarrow> g = h" for g
    using lsdb_invD(2) [OF inv, of a g] lsdb_invD(2) [OF inv a] by simp
  have d: "distinct (lsa_lists db g)" "distinct (bucket db i)" for g i using inv by (simp_all add: lsdb_inv_def)
  show mem: "members ?db = members db - {a}"
    using uniq d by (auto simp: members_def lists split: if_splits)
  show "lsdb_inv ?db"
    unfolding lsdb_inv_def mem lists store bucket
    using inv d unfolding lsdb_inv_def by auto
qed

lemma replace1_set: "distinct xs \<Longrightarrow> a \<in> set xs \<Longrightarrow> b \<notin> set xs \<Longrightarrow>
    set (replace1 a b xs) = insert b (set xs - {a}) \<and> distinct (replace1 a b xs)"
  by (induction xs) auto

lemma lsdb_inv_replace:
  assumes inv: "lsdb_inv db" and a: "a \<in> set (lsa_lists db h)" and b: "b \<notin> members db"
  shows "lsdb_inv (snd (lsaListReplace h a b db))"
    "members (snd (lsaListReplace h a b db)) = insert b (members db - {a})"
proof -
  let ?db = "snd (lsaListReplace h a b db)"
  define ha hb where "ha = lsa_hash (l_id (store db a))" and "hb = lsa_hash (l_id (store db b))"
  have ab: "a \<noteq> b" using a b by (auto simp: members_def)
  have lists: "lsa_lists ?db = (lsa_lists db)(h := replace1 a b (lsa_lists db h))"
    and store: "store ?db = (store db)(b := (store db b)\<lparr>l_head := Some h\<rparr>)"
    and bucket: "bucket ?db = (let bk = (bucket db)(ha := remove1 a (bucket db ha)) in bk(hb := b # bk hb))"
    using a ab by (auto simp: lsaListReplace_def lsaHashAdd_def lsaHashRemove_def upd_lsa_def Let_def ha_def hb_def)
  have d: "distinct (lsa_lists db g)" "distinct (bucket db i)" for g i using inv by (simp_all add: lsdb_inv_def)
  have uniq: "a \<in> set (lsa_lists db g) \<Longrightarrow> g = h" for g
    using lsdb_invD(2) [OF inv, of a g] lsdb_invD(2) [OF inv a] by simp
  have fresh: "b \<notin> set (lsa_lists db g)" "b \<notin> set (bucket db i)" for g i
    using b lsdb_invD(4) [OF inv] by (auto simp: members_def)
  note r = replace1_set [OF d(1) a fresh(1)]
  show mem: "members ?db = insert b (members db - {a})"
  proof -
    have "a \<notin> (\<Union>g \<in> - {h}. set (lsa_lists db g))" using uniq by blast
    moreover have "members ?db = set (replace1 a b (lsa_lists db h)) \<union> (\<Union>g \<in> - {h}. set (lsa_lists db g))"
      by (subst members_split [of _ h]) (simp add: lists)
    ultimately show ?thesis using r members_split [of db h] by auto
  qed
  have bk: "distinct (bucket ?db i)"
    "c \<in> set (bucket ?db i) \<longleftrightarrow> (c = b \<and> i = hb) \<or> (c \<noteq> a \<and> c \<in> set (bucket db i))" for i c
    using d fresh lsdb_invD(4) [OF inv, of a] ab
    by (auto simp: bucket Let_def ha_def [symmetric])
  show "lsdb_inv ?db"
    unfolding lsdb_inv_def bk(2) mem
    using inv r bk(1) b ab fresh unfolding lsdb_inv_def
    by (auto simp: lists store hb_def)
qed

text \<open>One lemma for the three lookups of the database.\<close>

lemma bucket_lookup:
  assumes inv: "lsdb_inv db"
    and r: "r = (if lsa_lists db h = [] then None
                 else find (\<lambda>a. l_head (store db a) = Some h \<and> P a) (bucket db (lsa_hash k)))"
    and P: "\<And>a. P a \<Longrightarrow> l_id (store db a) = k"
  shows "case r of None \<Rightarrow> \<forall>a \<in> set (lsa_lists db h). \<not> P a | Some a \<Rightarrow> a \<in> set (lsa_lists db h) \<and> P a"
proof -
  have in_list: "a \<in> set (bucket db (lsa_hash k)) \<and> l_head (store db a) = Some h \<longleftrightarrow> a \<in> set (lsa_lists db h)"
    if "P a" for a
  proof -
    have "a \<in> set (bucket db (lsa_hash k)) \<longleftrightarrow> a \<in> members db"
      using lsdb_invD(4) [OF inv] P [OF that] by simp
    moreover have "a \<in> members db \<and> l_head (store db a) = Some h \<longleftrightarrow> a \<in> set (lsa_lists db h)"
      using lsdb_invD(2) [OF inv, of a] by (force simp: members_def)
    ultimately show ?thesis by simp
  qed
  show ?thesis
    using in_list by (auto simp: r find_None_iff find_Some_iff split: option.split if_splits)
      (metis nth_mem)+
qed

text \<open>The states the database goes through: LSAs are added, removed and replaced, and their other
  fields change in between.\<close>

inductive lsdb_reach :: "lsdb \<Rightarrow> bool" where
  reach_init: "lsa_lists db = (\<lambda>_. []) \<Longrightarrow> bucket db = (\<lambda>_. []) \<Longrightarrow> lsdb_reach db"
| reach_store: "lsdb_reach db \<Longrightarrow> same_keys db st \<Longrightarrow> lsdb_reach (db\<lparr>store := st\<rparr>)"
| reach_areas: "lsdb_reach db \<Longrightarrow> lsdb_reach (db\<lparr>areas := al, spf_timeout := t, spf_timeout_hold := t'\<rparr>)"
| reach_add: "lsdb_reach db \<Longrightarrow> a \<notin> members db \<Longrightarrow> lsdb_reach (lsadbAdd delay area_id a db)"
| reach_remove: "lsdb_reach db \<Longrightarrow> a \<in> set (lsadbGetList area_id (l_type (store db a)) db) \<Longrightarrow>
    lsdb_reach (lsadbRemove delay area_id a db)"
| reach_replace: "lsdb_reach db \<Longrightarrow> a \<in> set (lsadbGetList area_id (l_type (store db a)) db) \<Longrightarrow> b \<notin> members db \<Longrightarrow>
    lsdb_reach (lsadbReplace delay area_id a b db)"

lemma lsdb_inv_lsadbAdd: "lsdb_inv db \<Longrightarrow> a \<notin> members db \<Longrightarrow> lsdb_inv (lsadbAdd delay area_id a db)"
  by (auto simp: lsadbAdd_def Let_def lsdb_inv_add_cost intro: lsdb_inv_add split: option.split)

lemma lsdb_inv_lsadbRemove:
  "lsdb_inv db \<Longrightarrow> a \<in> set (lsadbGetList area_id (l_type (store db a)) db) \<Longrightarrow> lsdb_inv (lsadbRemove delay area_id a db)"
  by (auto simp: lsadbRemove_def lsadbGetList_def Let_def intro!: lsdb_inv_remove split: option.splits)

lemma lsdb_inv_lsadbReplace:
  "\<lbrakk>lsdb_inv db; a \<in> set (lsadbGetList area_id (l_type (store db a)) db); b \<notin> members db\<rbrakk>
   \<Longrightarrow> lsdb_inv (lsadbReplace delay area_id a b db)"
  using lsdb_inv_replace(1) [OF lsdb_inv_add_cost [of db b], of a _ b]
  by (auto simp: lsadbReplace_def lsadbGetList_def lsadbGetListHead_def Let_def split: option.splits if_splits)

lemma lsdb_reach_inv: "lsdb_reach db \<Longrightarrow> lsdb_inv db"
proof (induction rule: lsdb_reach.induct)
  case (reach_init db)
  then show ?case by (simp add: lsdb_inv_def members_def)
qed (auto intro: lsdb_inv_store lsdb_inv_lsadbAdd lsdb_inv_lsadbRemove lsdb_inv_lsadbReplace)

section \<open>Properties\<close>


text \<open>An example database: one area with the LSA of a router.\<close>

definition lsa_of :: "u8 \<Rightarrow> u32 \<Rightarrow> u32 \<Rightarrow> LsaBody \<Rightarrow> OspfLsa" where
  "lsa_of type lsid adv body =
     \<lparr>l_header = \<lparr>lh_age = 1, lh_options = 2, lh_type = type, lh_link_state_id = lsid, lh_adv_router = adv,
                  lh_seq = 0x80000001, lh_checksum = 0, lh_length = 36\<rparr>,
      l_body = body, l_head = None, l_self_originated = False, l_ncost = None, l_cost = 0,
      l_from = [None, None, None, None], l_visited = False, l_outhop = 0, l_nexthop = 0, l_originator = 0\<rparr>"

definition lsdb0 :: lsdb where
  "lsdb0 = \<lparr>store = (\<lambda>_. lsa_of 1 0x0a000001 0x0a000001 (RtrLsa 0 [])), lsa_lists = (\<lambda>_. []), bucket = (\<lambda>_. []),
            areas = [\<lparr>oa_area_id = 0, oa_router_id = 0x0a000001, oa_network = [], oa_stub = False, oa_no_summary = False, oa_mylsa = None\<rparr>],
            spf_timeout = 0, spf_timeout_hold = 0\<rparr>"

lemma lsdb0_reach: "lsdb_reach (lsadbAdd 5 0 7 lsdb0)"
  by (intro reach_add reach_init) (simp_all add: lsdb0_def members_def)


end
