(* ===== verification/Ospf_Spf.thy ===== *)
theory Ospf_Spf
  imports Ospf_Lsdb
begin

text \<open>
  The shortest path calculation: the priority queue of \<open>ospf/exec/lsa_pqueue.c\<close> and the functions
  \<open>init_costs\<close>, \<open>dijkstra\<close> and \<open>spf\<close> of \<open>ospf/exec/spf.c\<close>. The queue is the list of the addresses
  linked through \<open>util_next\<close>. The costs, parents and visited flags are fields of the LSAs in the store.
  The loop is a total function: its termination proof counts the LSAs of the hash table that are not
  yet visited.
\<close>

section \<open>The priority queue\<close>

definition lsapq_push :: "nat \<Rightarrow> nat list \<Rightarrow> nat list" where
  "lsapq_push lsa queue = (if lsa \<in> set queue then queue else lsa # queue)"

text \<open>The walk of \<open>lsapq_get\<close>: \<open>sptr\<close> is the smallest element so far; a later one replaces it only
  when its cost is smaller.\<close>

fun pq_walk :: "(nat \<Rightarrow> u32) \<Rightarrow> nat \<Rightarrow> nat list \<Rightarrow> nat" where
  "pq_walk cost sptr [] = sptr"
| "pq_walk cost sptr (ptr # rest) = pq_walk cost (if cost ptr < cost sptr then ptr else sptr) rest"

definition lsapq_get :: "(nat \<Rightarrow> u32) \<Rightarrow> nat list \<Rightarrow> (nat \<times> nat list) option" where
  "lsapq_get cost queue =
     (case queue of
        [] \<Rightarrow> None
      | first # rest \<Rightarrow> let tmp = pq_walk cost first queue in Some (tmp, remove1 tmp queue))"

text \<open>What Dijkstra's algorithm needs of the queue.\<close>

locale min_queue =
  fixes get :: "('a \<Rightarrow> 'k :: linorder) \<Rightarrow> 'q \<Rightarrow> ('a \<times> 'q) option"
    and push :: "'a \<Rightarrow> 'q \<Rightarrow> 'q"
    and elems :: "'q \<Rightarrow> 'a set"
    and inv :: "'q \<Rightarrow> bool"
  assumes get_None: "inv q \<Longrightarrow> get c q = None \<longleftrightarrow> elems q = {}"
    and get_elems: "inv q \<Longrightarrow> get c q = Some (a, q') \<Longrightarrow> a \<in> elems q \<and> elems q' = elems q - {a} \<and> inv q'"
    and get_min: "inv q \<Longrightarrow> get c q = Some (a, q') \<Longrightarrow> b \<in> elems q \<Longrightarrow> c a \<le> c b"
    and push_elems: "inv q \<Longrightarrow> elems (push a q) = insert a (elems q) \<and> inv (push a q)"
begin

lemma get_rest: "inv q \<Longrightarrow> get c q = Some (a, q') \<Longrightarrow> b \<in> elems q' \<Longrightarrow> c a \<le> c b \<and> b \<noteq> a"
  using get_elems get_min by blast

lemma pushes_elems: "inv q \<Longrightarrow> elems (fold push as q) = set as \<union> elems q \<and> inv (fold push as q)"
  by (induction as arbitrary: q) (auto simp: push_elems)

end

lemma pq_walk_min: "pq_walk c s q \<in> insert s (set q) \<and> c (pq_walk c s q) \<le> c s \<and> (\<forall>b \<in> set q. c (pq_walk c s q) \<le> c b)"
proof (induction q arbitrary: s)
  case (Cons p q)
  show ?case using Cons [of "if c p < c s then p else s"] by (auto split: if_splits)
qed simp

interpretation lsapq: min_queue lsapq_get lsapq_push set distinct
proof unfold_locales
  fix q :: "nat list" and c :: "nat \<Rightarrow> u32" and a q' b
  show "lsapq_get c q = None \<longleftrightarrow> set q = {}" by (simp add: lsapq_get_def Let_def split: list.split)
  assume q: "distinct q"
  { assume g: "lsapq_get c q = Some (a, q')"
    then obtain first rest where "q = first # rest" "a = pq_walk c first q" "q' = remove1 a q"
      by (auto simp: lsapq_get_def Let_def split: list.splits)
    with pq_walk_min [of c first q] q
    show "a \<in> set q \<and> set q' = set q - {a} \<and> distinct q'" "b \<in> set q \<Longrightarrow> c a \<le> c b" by auto }
  show "set (lsapq_push a q) = insert a (set q) \<and> distinct (lsapq_push a q)"
    using q by (auto simp: lsapq_push_def)
qed

section \<open>Dijkstra's algorithm\<close>

definition OSPF_MAX_COST :: u32 where "OSPF_MAX_COST = 0xffffffff"
definition RCP_OSPF_ECMP_LIMIT :: nat where [simp]: "RCP_OSPF_ECMP_LIMIT = 4"

text \<open>\<open>h.from\<close>: set the parent and clear the other entries; add a parent at the first free index
  from 1, if there is one.\<close>

definition set_from :: "nat \<Rightarrow> OspfLsa \<Rightarrow> OspfLsa" where
  "set_from lsa l = l\<lparr>l_from := [Some lsa, None, None, None]\<rparr>"

definition add_from :: "nat \<Rightarrow> OspfLsa \<Rightarrow> OspfLsa" where
  "add_from lsa l =
     l\<lparr>l_from := case find (\<lambda>i. l_from l ! i = None) [1, 2, 3] of
                   None \<Rightarrow> l_from l
                 | Some i \<Rightarrow> (l_from l)[i := Some lsa]\<rparr>"

record spf_state =
  sp_db :: lsdb
  sp_queue :: "nat list"
  sp_error :: bool

text \<open>One entry of the cost list of the LSA that is visited.\<close>

definition dijkstra_edge :: "u32 \<Rightarrow> nat \<Rightarrow> LsaCost \<Rightarrow> spf_state \<Rightarrow> spf_state" where
  "dijkstra_edge area_id lsa c st =
     (case lsadbFind2 area_id (lc_type c) (lc_id c) (sp_db st) of
        None \<Rightarrow> st\<lparr>sp_error := True\<rparr>
      | Some found \<Rightarrow>
          let db = sp_db st;
              newcost = l_cost (store db lsa) + lc_cost c;
              db' = (if l_cost (store db found) > newcost
                     then upd_lsa found (\<lambda>l. set_from lsa (l\<lparr>l_cost := newcost\<rparr>)) db
                     else if l_cost (store db found) = newcost
                     then upd_lsa found (add_from lsa) db
                     else db)
          in if \<not> l_visited (store db found)
             then st\<lparr>sp_db := db', sp_queue := lsapq_push found (sp_queue st)\<rparr>
             else st\<lparr>sp_db := db'\<rparr>)"

text \<open>The body of the loop for the LSA taken from the queue.\<close>

definition dijkstra_visit :: "u32 \<Rightarrow> nat \<Rightarrow> spf_state \<Rightarrow> spf_state" where
  "dijkstra_visit area_id lsa st =
     (if l_visited (store (sp_db st) lsa) then st
      else let st = st\<lparr>sp_db := upd_lsa lsa (\<lambda>l. l\<lparr>l_visited := True\<rparr>) (sp_db st)\<rparr>
           in case l_ncost (store (sp_db st) lsa) of
                None \<Rightarrow> st\<lparr>sp_error := True\<rparr>
              | Some cs \<Rightarrow> fold (dijkstra_edge area_id lsa) cs st)"

abbreviation sp_cost :: "spf_state \<Rightarrow> nat \<Rightarrow> u32" where
  "sp_cost st \<equiv> \<lambda>a. l_cost (store (sp_db st) a)"

function dijkstra :: "u32 \<Rightarrow> spf_state \<Rightarrow> spf_state" where
  "dijkstra area_id st =
     (case lsapq_get (sp_cost st) (sp_queue st) of
        None \<Rightarrow> st
      | Some (lsa, queue) \<Rightarrow> dijkstra area_id (dijkstra_visit area_id lsa (st\<lparr>sp_queue := queue\<rparr>)))"
  by auto

definition reset_lsa :: "OspfLsa \<Rightarrow> OspfLsa" where
  "reset_lsa l = l\<lparr>l_cost := OSPF_MAX_COST, l_visited := False, l_from := replicate RCP_OSPF_ECMP_LIMIT None,
                   l_nexthop := 0, l_outhop := 0\<rparr>"

definition init_costs :: "u32 \<Rightarrow> lsdb \<Rightarrow> lsdb" where
  "init_costs area_id db =
     fold (\<lambda>type. fold (\<lambda>a. upd_lsa a reset_lsa) (lsadbGetList area_id type db)) [0, 1, 2, 3, 4, 5] db"

text \<open>What \<open>dijkstra_visit\<close> and the loop change.\<close>

subsection \<open>Frame of a visit\<close>

lemma store_upd_lsa: "store (upd_lsa a f db) b = (if b = a then f (store db a) else store db b)"
  by (simp add: upd_lsa_def)

lemma upd_lsa_fields [simp]:
  "bucket (upd_lsa a f db) = bucket db" "lsa_lists (upd_lsa a f db) = lsa_lists db" "areas (upd_lsa a f db) = areas db"
  by (simp_all add: upd_lsa_def)

text \<open>The keys and lists that the lookups read do not change.\<close>

definition same_graph :: "lsdb \<Rightarrow> lsdb \<Rightarrow> bool" where
  "same_graph db db' \<longleftrightarrow>
     bucket db' = bucket db \<and> lsa_lists db' = lsa_lists db \<and> areas db' = areas db \<and>
     (\<forall>a. l_header (store db' a) = l_header (store db a) \<and> l_head (store db' a) = l_head (store db a) \<and>
          l_ncost (store db' a) = l_ncost (store db a) \<and> l_body (store db' a) = l_body (store db a) \<and>
          l_originator (store db' a) = l_originator (store db a))"

lemma same_graph_refl [simp]: "same_graph db db"
  by (simp add: same_graph_def)

lemma same_graph_trans: "same_graph db db' \<Longrightarrow> same_graph db' db'' \<Longrightarrow> same_graph db db''"
  by (simp add: same_graph_def)

lemma lsadbGetListHead_same: "same_graph db db' \<Longrightarrow> lsadbGetListHead ar t db' = lsadbGetListHead ar t db"
  by (simp add: lsadbGetListHead_def same_graph_def)

lemma lsaListFind2_same: "same_graph db db' \<Longrightarrow> lsaListFind2 h t k db' = lsaListFind2 h t k db"
  by (cases "lsa_lists db h = []") (simp_all add: lsaListFind2_def same_graph_def)

lemma lsadbFind2_same: "same_graph db db' \<Longrightarrow> lsadbFind2 ar t k db' = lsadbFind2 ar t k db"
  by (simp add: lsadbFind2_def lsadbGetListHead_same lsaListFind2_same)

lemma lsa_hash_less: "lsa_hash k < 4096"
proof -
  have "unat (h AND 0xfff) < 4096" for h :: u32
  proof -
    have "h AND 0xfff = take_bit 12 h" by (simp add: take_bit_eq_mask mask_eq_exp_minus_1)
    then show ?thesis by (simp add: take_bit_eq_mod unat_mod_distrib)
  qed
  then show ?thesis by (simp add: lsa_hash_def Let_def)
qed

definition hashed :: "lsdb \<Rightarrow> nat set" where
  "hashed db = (\<Union>i < 4096. set (bucket db i))"

lemma finite_hashed [simp]: "finite (hashed db)"
  by (simp add: hashed_def)

lemma lsadbFind2_hashed: "lsadbFind2 ar t k db = Some a \<Longrightarrow> a \<in> hashed db"
  using lsa_hash_less [of k]
  by (auto simp: lsadbFind2_def lsaListFind2_def hashed_def find_Some_iff bind_eq_Some_conv
      intro!: bexI [of _ "lsa_hash k"] split: if_splits)

definition sp_visited :: "spf_state \<Rightarrow> nat set" where
  "sp_visited st = {a. l_visited (store (sp_db st) a)}"

lemma same_graph_upd:
  "(\<And>l. l_header (f l) = l_header l \<and> l_head (f l) = l_head l \<and> l_ncost (f l) = l_ncost l \<and>
        l_body (f l) = l_body l \<and> l_originator (f l) = l_originator l) \<Longrightarrow> same_graph db (upd_lsa a f db)"
  by (simp add: same_graph_def store_upd_lsa)

lemma from_upd_keep [simp]:
  "l_header (set_from a l) = l_header l" "l_head (set_from a l) = l_head l" "l_ncost (set_from a l) = l_ncost l"
  "l_body (set_from a l) = l_body l" "l_originator (set_from a l) = l_originator l" "l_visited (set_from a l) = l_visited l"
  "l_cost (set_from a l) = l_cost l"
  "l_header (add_from a l) = l_header l" "l_head (add_from a l) = l_head l" "l_ncost (add_from a l) = l_ncost l"
  "l_body (add_from a l) = l_body l" "l_originator (add_from a l) = l_originator l" "l_visited (add_from a l) = l_visited l"
  "l_cost (add_from a l) = l_cost l"
  by (simp_all add: set_from_def add_from_def)

lemma edge_graph: "same_graph (sp_db st) (sp_db (dijkstra_edge ar lsa c st))"
  by (auto simp: dijkstra_edge_def Let_def same_graph_upd split: option.split)

lemma edge_visited: "sp_visited (dijkstra_edge ar lsa c st) = sp_visited st"
  by (auto simp: dijkstra_edge_def Let_def sp_visited_def store_upd_lsa split: option.split)

lemma edge_queue: "set (sp_queue (dijkstra_edge ar lsa c st)) \<subseteq> set (sp_queue st) \<union> (hashed (sp_db st) - sp_visited st)"
  by (auto simp: dijkstra_edge_def Let_def sp_visited_def lsapq_push_def dest: lsadbFind2_hashed split: option.split)

lemma hashed_same: "same_graph db db' \<Longrightarrow> hashed db' = hashed db"
  by (simp add: hashed_def same_graph_def)

lemma edges_frame:
  "same_graph (sp_db st) (sp_db (fold (dijkstra_edge ar lsa) cs st)) \<and>
   sp_visited (fold (dijkstra_edge ar lsa) cs st) = sp_visited st \<and>
   set (sp_queue (fold (dijkstra_edge ar lsa) cs st)) \<subseteq> set (sp_queue st) \<union> (hashed (sp_db st) - sp_visited st)"
proof (induction cs arbitrary: st)
  case (Cons c cs)
  have "hashed (sp_db (dijkstra_edge ar lsa c st)) = hashed (sp_db st)"
    by (rule hashed_same [OF edge_graph])
  then show ?case
    using Cons [of "dijkstra_edge ar lsa c st"] edge_graph [of st ar lsa c] edge_queue [of ar lsa c st]
    by (auto simp: edge_visited intro: same_graph_trans)
qed simp

lemma visit_frame:
  assumes "lsa \<notin> sp_visited st"
  shows "same_graph (sp_db st) (sp_db (dijkstra_visit ar lsa st))"
    "sp_visited (dijkstra_visit ar lsa st) = insert lsa (sp_visited st)"
    "set (sp_queue (dijkstra_visit ar lsa st)) \<subseteq> set (sp_queue st) \<union> hashed (sp_db st)"
proof -
  define st1 where "st1 = st\<lparr>sp_db := upd_lsa lsa (\<lambda>l. l\<lparr>l_visited := True\<rparr>) (sp_db st)\<rparr>"
  have g: "same_graph (sp_db st) (sp_db st1)" by (simp add: st1_def same_graph_upd)
  have v: "sp_visited st1 = insert lsa (sp_visited st)" by (auto simp: st1_def sp_visited_def store_upd_lsa)
  have nv: "\<not> l_visited (store (sp_db st) lsa)" using assms by (simp add: sp_visited_def)
  have eq: "dijkstra_visit ar lsa st = (case l_ncost (store (sp_db st1) lsa) of None \<Rightarrow> st1\<lparr>sp_error := True\<rparr>
       | Some cs \<Rightarrow> fold (dijkstra_edge ar lsa) cs st1)"
    by (simp only: dijkstra_visit_def Let_def st1_def nv if_False)
  show "same_graph (sp_db st) (sp_db (dijkstra_visit ar lsa st))"
    using g edges_frame [of st1 ar lsa] by (auto simp: eq intro: same_graph_trans split: option.split)
  show "sp_visited (dijkstra_visit ar lsa st) = insert lsa (sp_visited st)"
    using v edges_frame [of st1 ar lsa] by (auto simp: eq sp_visited_def split: option.split)
  show "set (sp_queue (dijkstra_visit ar lsa st)) \<subseteq> set (sp_queue st) \<union> hashed (sp_db st)"
    using edges_frame [of st1 ar lsa] hashed_same [OF g]
    by (auto simp: eq st1_def split: option.split)
qed

subsection \<open>Termination\<close>

definition todo :: "spf_state \<Rightarrow> nat set" where
  "todo st = (set (sp_queue st) \<union> hashed (sp_db st)) - sp_visited st"

lemma finite_todo [simp]: "finite (todo st)"
  by (simp add: todo_def)

lemma dijkstra_measure:
  fixes ar :: u32
  assumes "lsapq_get (sp_cost st) (sp_queue st) = Some (lsa, queue)"
  defines "st' \<equiv> dijkstra_visit ar lsa (st\<lparr>sp_queue := queue\<rparr>)"
  shows "card (todo st') < card (todo st) \<or>
         card (todo st') \<le> card (todo st) \<and> length (sp_queue st') < length (sp_queue st)"
proof -
  obtain first rest where q: "sp_queue st = first # rest" "lsa = pq_walk (sp_cost st) first (sp_queue st)"
     "queue = remove1 lsa (sp_queue st)"
    using assms(1) by (auto simp: lsapq_get_def Let_def split: list.splits)
  then have lsa: "lsa \<in> set (sp_queue st)" using pq_walk_min [of "sp_cost st" first "sp_queue st"] by auto
  then have len: "length queue < length (sp_queue st)" "set queue \<subseteq> set (sp_queue st)"
    using q(3) set_remove1_subset [of lsa "sp_queue st"] length_pos_if_in_set [OF lsa]
    by (simp_all add: length_remove1)
  show ?thesis
  proof (cases "lsa \<in> sp_visited st")
    case True
    then have "st' = st\<lparr>sp_queue := queue\<rparr>" by (simp add: st'_def dijkstra_visit_def sp_visited_def)
    moreover from this have "todo st' \<subseteq> todo st" using len(2) by (auto simp: todo_def sp_visited_def)
    ultimately show ?thesis using len(1) by (simp add: card_mono)
  next
    case False
    then have nv: "lsa \<notin> sp_visited (st\<lparr>sp_queue := queue\<rparr>)" by (simp add: sp_visited_def)
    have "todo st' \<subseteq> todo st - {lsa}"
      using visit_frame [OF nv, of ar] hashed_same [OF visit_frame(1) [OF nv, of ar]] len(2)
      by (auto simp: todo_def st'_def sp_visited_def)
    moreover have "lsa \<in> todo st" using lsa False by (simp add: todo_def)
    ultimately have "todo st' \<subset> todo st" by blast
    then show ?thesis by (simp add: psubset_card_mono)
  qed
qed

termination dijkstra
  by (relation "measures [\<lambda>(_, st). card (todo st), \<lambda>(_, st). length (sp_queue st)]")
    (auto dest!: dijkstra_measure simp: le_less)

declare dijkstra.simps [simp del]

section \<open>Shortest paths\<close>

text \<open>The graph of an area: the entries of the cost list of an LSA that the lookup resolves.\<close>

definition spf_edge :: "u32 \<Rightarrow> lsdb \<Rightarrow> nat \<Rightarrow> nat \<Rightarrow> nat \<Rightarrow> bool" where
  "spf_edge ar db u w v \<longleftrightarrow>
     (\<exists>cs c. l_ncost (store db u) = Some cs \<and> c \<in> set cs \<and>
             lsadbFind2 ar (lc_type c) (lc_id c) db = Some v \<and> w = unat (lc_cost c))"

inductive wpath :: "('v \<Rightarrow> nat \<Rightarrow> 'v \<Rightarrow> bool) \<Rightarrow> 'v \<Rightarrow> nat \<Rightarrow> 'v \<Rightarrow> bool" for E r where
  wpath_start: "wpath E r 0 r"
| wpath_step: "wpath E r n u \<Longrightarrow> E u w v \<Longrightarrow> wpath E r (n + w) v"

definition is_dist :: "('v \<Rightarrow> nat \<Rightarrow> 'v \<Rightarrow> bool) \<Rightarrow> 'v \<Rightarrow> 'v \<Rightarrow> nat \<Rightarrow> bool" where
  "is_dist E r v n \<longleftrightarrow> wpath E r n v \<and> (\<forall>m. wpath E r m v \<longrightarrow> n \<le> m)"

text \<open>Labels that are 0 at the root, relaxed over all edges of a closed set and attained by paths are
  the distances.\<close>

lemma relaxed_bound:
  assumes "wpath E r n v" "r \<in> V" "d r = (0 :: nat)"
    and "\<And>u w v. u \<in> V \<Longrightarrow> E u w v \<Longrightarrow> v \<in> V \<and> d v \<le> d u + w"
  shows "v \<in> V \<and> d v \<le> n"
  using assms(1)
proof induction
  case wpath_start
  then show ?case using assms by simp
next
  case (wpath_step n u w v)
  then show ?case using assms(4) [of u w v] by simp
qed

text \<open>The metric of a link has 16 bits: with at most 65536 LSAs no path cost reaches
  \<open>OSPF_MAX_COST\<close>.\<close>

definition costs_ok :: "u32 \<Rightarrow> nat \<Rightarrow> lsdb \<Rightarrow> nat set \<Rightarrow> bool" where
  "costs_ok ar r db S \<longleftrightarrow>
     r \<in> S \<and> finite S \<and> card S \<le> 65536 \<and>
     (\<forall>a \<in> S. \<forall>cs. l_ncost (store db a) = Some cs \<longrightarrow>
        (\<forall>c \<in> set cs. unat (lc_cost c) \<le> 65535 \<and> (\<forall>v. lsadbFind2 ar (lc_type c) (lc_id c) db = Some v \<longrightarrow> v \<in> S)))"

text \<open>\<open>S\<close> is the set of the LSAs of the area; the flags of other LSAs do not matter.\<close>

definition vis :: "nat set \<Rightarrow> spf_state \<Rightarrow> nat set" where
  "vis S st = sp_visited st \<inter> S"

abbreviation ucost :: "spf_state \<Rightarrow> nat \<Rightarrow> nat" where
  "ucost st v \<equiv> unat (l_cost (store (sp_db st) v))"

abbreviation sp_from :: "spf_state \<Rightarrow> nat \<Rightarrow> nat option list" where
  "sp_from st v \<equiv> l_from (store (sp_db st) v)"

abbreviation labelled :: "nat set \<Rightarrow> spf_state \<Rightarrow> nat set" where
  "labelled S st \<equiv> vis S st \<union> set (sp_queue st)"

definition tight :: "u32 \<Rightarrow> lsdb \<Rightarrow> nat set \<Rightarrow> spf_state \<Rightarrow> nat \<Rightarrow> nat \<Rightarrow> bool" where
  "tight ar db0 S st u v \<longleftrightarrow> u \<in> vis S st \<and> (\<exists>w. spf_edge ar db0 u w v \<and> ucost st v = ucost st u + w)"

text \<open>The invariant of the loop, apart from the relaxation of the edges of visited LSAs.\<close>

definition spf_inv :: "u32 \<Rightarrow> nat \<Rightarrow> lsdb \<Rightarrow> nat set \<Rightarrow> spf_state \<Rightarrow> bool" where
  "spf_inv ar r db0 S st \<longleftrightarrow>
     same_graph db0 (sp_db st) \<and>
     distinct (sp_queue st) \<and> set (sp_queue st) \<inter> vis S st = {} \<and>
     labelled S st \<subseteq> S \<and>
     (r \<in> vis S st \<or> (vis S st = {} \<and> set (sp_queue st) = {r})) \<and>
     ucost st r = 0 \<and> sp_from st r ! 0 = None \<and>
     (\<forall>v \<in> labelled S st. wpath (spf_edge ar db0) r (ucost st v) v) \<and>
     (\<forall>v \<in> S. v \<notin> labelled S st \<longrightarrow> sp_cost st v = OSPF_MAX_COST) \<and>
     (\<forall>u \<in> vis S st. \<forall>v \<in> set (sp_queue st). ucost st u \<le> ucost st v) \<and>
     (\<forall>v \<in> labelled S st. ucost st v \<le> 65535 * card (vis S st)) \<and>
     (\<forall>v \<in> S. length (sp_from st v) = 4 \<and> (\<forall>i < 4. \<forall>u. sp_from st v ! i = Some u \<longrightarrow> tight ar db0 S st u v)) \<and>
     (\<forall>v \<in> labelled S st. v \<noteq> r \<longrightarrow> sp_from st v ! 0 \<noteq> None)"

definition relaxed :: "u32 \<Rightarrow> lsdb \<Rightarrow> nat set \<Rightarrow> spf_state \<Rightarrow> nat \<Rightarrow> bool" where
  "relaxed ar db0 S st u \<longleftrightarrow> (\<forall>w v. spf_edge ar db0 u w v \<longrightarrow> v \<in> labelled S st \<and> ucost st v \<le> ucost st u + w)"

lemma error_irrelevant [simp]:
  "vis S (st\<lparr>sp_error := e\<rparr>) = vis S st"
  "spf_inv ar r db0 S (st\<lparr>sp_error := e\<rparr>) = spf_inv ar r db0 S st"
  "relaxed ar db0 S (st\<lparr>sp_error := e\<rparr>) u = relaxed ar db0 S st u"
  by (simp_all add: vis_def sp_visited_def spf_inv_def tight_def relaxed_def)

lemma add_from_entries:
  assumes "length (l_from l) = 4"
  shows "length (l_from (add_from a l)) = 4" "l_from (add_from a l) ! 0 = l_from l ! 0"
    "i < 4 \<Longrightarrow> l_from (add_from a l) ! i = Some u \<Longrightarrow> u = a \<or> l_from l ! i = Some u"
  using assms
  by (auto simp: add_from_def nth_list_update split: option.splits if_splits)

lemma set_from_entries:
  "length (l_from (set_from a l)) = 4" "l_from (set_from a l) ! 0 = Some a"
  "i < 4 \<Longrightarrow> l_from (set_from a l) ! i = Some u \<Longrightarrow> u = a"
  by (auto simp: set_from_def numeral_eq_Suc less_Suc_eq)

lemma spf_invD:
  assumes "spf_inv ar r db0 S st"
  shows "same_graph db0 (sp_db st)" "distinct (sp_queue st)" "set (sp_queue st) \<inter> vis S st = {}"
    "labelled S st \<subseteq> S"
    "r \<in> vis S st \<or> (vis S st = {} \<and> set (sp_queue st) = {r})"
    "ucost st r = 0" "sp_from st r ! 0 = None"
    "v \<in> labelled S st \<Longrightarrow> wpath (spf_edge ar db0) r (ucost st v) v"
    "v \<in> S \<Longrightarrow> v \<notin> labelled S st \<Longrightarrow> sp_cost st v = OSPF_MAX_COST"
    "u \<in> vis S st \<Longrightarrow> v \<in> set (sp_queue st) \<Longrightarrow> ucost st u \<le> ucost st v"
    "v \<in> labelled S st \<Longrightarrow> ucost st v \<le> 65535 * card (vis S st)"
    "v \<in> S \<Longrightarrow> length (sp_from st v) = 4" "v \<in> S \<Longrightarrow> i < 4 \<Longrightarrow> sp_from st v ! i = Some u \<Longrightarrow> tight ar db0 S st u v"
    "v \<in> labelled S st \<Longrightarrow> v \<noteq> r \<Longrightarrow> sp_from st v ! 0 \<noteq> None"
  using assms unfolding spf_inv_def by blast+

lemma spf_invI:
  assumes "same_graph db0 (sp_db st)" "distinct (sp_queue st)" "set (sp_queue st) \<inter> vis S st = {}"
    "labelled S st \<subseteq> S"
    "r \<in> vis S st \<or> (vis S st = {} \<and> set (sp_queue st) = {r})"
    "ucost st r = 0" "sp_from st r ! 0 = None"
    "\<And>v. v \<in> labelled S st \<Longrightarrow> wpath (spf_edge ar db0) r (ucost st v) v"
    "\<And>v. v \<in> S \<Longrightarrow> v \<notin> labelled S st \<Longrightarrow> sp_cost st v = OSPF_MAX_COST"
    "\<And>u v. u \<in> vis S st \<Longrightarrow> v \<in> set (sp_queue st) \<Longrightarrow> ucost st u \<le> ucost st v"
    "\<And>v. v \<in> labelled S st \<Longrightarrow> ucost st v \<le> 65535 * card (vis S st)"
    "\<And>v. v \<in> S \<Longrightarrow> length (sp_from st v) = 4" "\<And>i u v. v \<in> S \<Longrightarrow> i < 4 \<Longrightarrow> sp_from st v ! i = Some u \<Longrightarrow> tight ar db0 S st u v"
    "\<And>v. v \<in> labelled S st \<Longrightarrow> v \<noteq> r \<Longrightarrow> sp_from st v ! 0 \<noteq> None"
  shows "spf_inv ar r db0 S st"
  unfolding spf_inv_def by (intro conjI ballI allI impI; (rule assms)?; assumption?)

lemma spf_inv_finite:
  assumes "spf_inv ar r db0 S st" "costs_ok ar r db0 S"
  shows "finite (vis S st)" "card (vis S st) \<le> 65536"
proof -
  have sub: "vis S st \<subseteq> S" using spf_invD(4) [OF assms(1)] by blast
  then show "finite (vis S st)" by (rule finite_subset) (use assms(2) in \<open>simp add: costs_ok_def\<close>)
  show "card (vis S st) \<le> 65536"
    using card_mono [OF _ sub] assms(2) by (simp add: costs_ok_def)
qed

text \<open>The effect of one edge on costs, parents and queue.\<close>

lemma dijkstra_edge_Some:
  assumes "lsadbFind2 ar (lc_type c) (lc_id c) (sp_db st) = Some v"
    and "unat (l_cost (store (sp_db st) x) + lc_cost c) = n"
  shows "ucost (dijkstra_edge ar x c st) y = (if y = v then min (ucost st v) n else ucost st y)"
    and "sp_from (dijkstra_edge ar x c st) y =
           (if y = v \<and> n < ucost st v then [Some x, None, None, None]
            else if y = v \<and> n = ucost st v then l_from (add_from x (store (sp_db st) v))
            else sp_from st y)"
    and "set (sp_queue (dijkstra_edge ar x c st)) = (if v \<in> sp_visited st then set (sp_queue st) else insert v (set (sp_queue st)))"
    and "distinct (sp_queue st) \<Longrightarrow> distinct (sp_queue (dijkstra_edge ar x c st))"
  using assms
  by (auto simp: dijkstra_edge_def Let_def store_upd_lsa sp_visited_def lsapq_push_def set_from_def
      word_less_nat_alt word_unat_eq_iff)

lemma edge_step:
  assumes inv: "spf_inv ar r db0 S st" and ok: "costs_ok ar r db0 S"
    and x: "x \<in> vis S st" and xmax: "\<And>u. u \<in> vis S st \<Longrightarrow> ucost st u \<le> ucost st x"
    and bx: "ucost st x + 65535 \<le> 65535 * card (vis S st)"
    and c: "l_ncost (store db0 x) = Some cs" "c \<in> set cs"
    and found: "lsadbFind2 ar (lc_type c) (lc_id c) db0 = Some v"
  defines "n \<equiv> ucost st x + unat (lc_cost c)" and "st' \<equiv> dijkstra_edge ar x c st"
  shows "spf_inv ar r db0 S st'"
    and "ucost st' y = (if y = v then min (ucost st v) n else ucost st y)"
    and "labelled S st' = insert v (labelled S st)"
    and "vis S st' = vis S st"
    and "v \<in> vis S st \<Longrightarrow> ucost st v \<le> n"
proof -
  note D = spf_invD [OF inv]
  have f: "lsadbFind2 ar (lc_type c) (lc_id c) (sp_db st) = Some v"
    using lsadbFind2_same [OF D(1)] found by simp
  have w: "unat (lc_cost c) \<le> 65535" using ok c x by (auto simp: costs_ok_def vis_def)
  have vS: "v \<in> S" using ok c x found by (auto simp: costs_ok_def vis_def)
  have n: "n \<le> 65535 * card (vis S st)" using w bx by (simp add: n_def)
  moreover have "65535 * card (vis S st) \<le> 4294901760" using spf_inv_finite(2) [OF inv ok] by simp
  ultimately have n32: "n < 4294967295" by simp
  have un: "unat (l_cost (store (sp_db st) x) + lc_cost c) = n"
    using n32 unfolding n_def by (subst unat_add_lem [THEN iffD1]) simp_all
  have vV: "v \<in> sp_visited st \<longleftrightarrow> v \<in> vis S st" using vS by (simp add: vis_def)
  note S = dijkstra_edge_Some [OF f un, folded st'_def, unfolded vV]
  show V: "vis S st' = vis S st" by (simp add: st'_def edge_visited vis_def)
  show C: "ucost st' y = (if y = v then min (ucost st v) n else ucost st y)" for y by (rule S(1))
  show L: "labelled S st' = insert v (labelled S st)" by (auto simp: V S(3))
  have E: "spf_edge ar db0 x (unat (lc_cost c)) v" using c found by (auto simp: spf_edge_def)
  show vn: "v \<in> vis S st \<Longrightarrow> ucost st v \<le> n" using xmax [of v] by (simp add: n_def)
  have new: "v \<notin> labelled S st \<Longrightarrow> n < ucost st v" using D(9) [OF vS] n32 by (simp add: OSPF_MAX_COST_def)
  have r: "r \<in> vis S st" using D(5) x by auto
  have keep: "u \<in> vis S st \<Longrightarrow> ucost st' u = ucost st u" for u using C [of u] vn by auto
  have T: "tight ar db0 S st u y \<Longrightarrow> ucost st' y = ucost st y \<Longrightarrow> tight ar db0 S st' u y" for u y
    using keep by (auto simp: tight_def V)
  have Tx: "ucost st' v = n \<Longrightarrow> tight ar db0 S st' x v"
    using E keep [OF x] by (auto simp: tight_def V x n_def)
  have "same_graph db0 (sp_db st')" using D(1) edge_graph same_graph_trans unfolding st'_def by blast
  moreover have "distinct (sp_queue st')" using S(4) D(2) by simp
  moreover have "set (sp_queue st') \<inter> vis S st' = {}" using D(3) by (auto simp: S(3) V)
  moreover have "labelled S st' \<subseteq> S"
    using D(4) vS by (auto simp: L)
  moreover have "r \<in> vis S st'" using r V by simp
  moreover have "ucost st' r = 0" using keep [OF r] D(6) by simp
  moreover have "sp_from st' r ! 0 = None"
    using D(7) D(6) add_from_entries(2) [OF D(12) [OF vS]] by (auto simp: S(2))
  moreover have "wpath (spf_edge ar db0) r (ucost st' y) y" if "y \<in> labelled S st'" for y
  proof (cases "y = v \<and> n < ucost st v")
    case True
    have "wpath (spf_edge ar db0) r n v" unfolding n_def using wpath_step [OF D(8) E] x by blast
    then show ?thesis using True by (simp add: C)
  next
    case False
    then show ?thesis using that D(8) [of y] new by (auto simp: C L min_def)
  qed
  moreover have "sp_cost st' y = OSPF_MAX_COST" if "y \<in> S" "y \<notin> labelled S st'" for y
    using that D(9) [of y] C [of y] by (simp add: L word_unat_eq_iff)
  moreover have "ucost st' u \<le> ucost st' y" if "u \<in> vis S st'" "y \<in> set (sp_queue st')" for u y
  proof -
    have u: "u \<in> vis S st" "ucost st' u = ucost st u" "ucost st u \<le> n"
      using that keep [of u] xmax [of u] by (simp_all add: V n_def)
    show ?thesis
    proof (cases "y \<in> set (sp_queue st)")
      case True
      then show ?thesis using u D(10) [of u y] by (auto simp: C)
    next
      case False
      then have "y = v" "v \<notin> labelled S st" using that by (auto simp: S(3) split: if_splits)
      then show ?thesis using u new C [of y] by simp
    qed
  qed
  moreover have "ucost st' y \<le> 65535 * card (vis S st')" if "y \<in> labelled S st'" for y
    using that [unfolded L] D(11) [of y] n by (auto simp: C V min_le_iff_disj)
  moreover have "length (sp_from st' y) = 4" if "y \<in> S" for y
    using D(12) [OF that] add_from_entries(1) [OF D(12) [OF vS]] by (simp add: S(2))
  moreover have "tight ar db0 S st' u y" if "y \<in> S" "i < 4" "sp_from st' y ! i = Some u" for i u y
  proof -
    consider "y = v" "n < ucost st v" | "y = v" "n = ucost st v" | "y \<noteq> v \<or> ucost st v < n" by linarith
    then show ?thesis
    proof cases
      case 1
      then show ?thesis using that set_from_entries(3) [of i x _ u] Tx by (simp add: S(2) C set_from_def)
    next
      case 2
      then have "u = x \<or> sp_from st v ! i = Some u"
        using that add_from_entries(3) [OF D(12) [OF vS], of i x u] by (simp add: S(2))
      then show ?thesis using 2 D(13) [OF vS that(2), of u] Tx T by (auto simp: C)
    next
      case 3
      then show ?thesis using that D(13) [OF that(1,2), of u] T by (auto simp: C S(2))
    qed
  qed
  moreover have "sp_from st' y ! 0 \<noteq> None" if "y \<in> labelled S st'" "y \<noteq> r" for y
    using that D(14) [of y] new add_from_entries(2) [OF D(12) [OF vS]] by (auto simp: S(2) L)
  ultimately show "spf_inv ar r db0 S st'" by (rule spf_invI [OF _ _ _ _ disjI1])
qed

text \<open>All edges of the visited LSA.\<close>

lemma edges_step:
  assumes "spf_inv ar r db0 S st" "costs_ok ar r db0 S" "x \<in> vis S st"
    and "\<And>u. u \<in> vis S st \<Longrightarrow> ucost st u \<le> ucost st x"
    and "ucost st x + 65535 \<le> 65535 * card (vis S st)"
    and "l_ncost (store db0 x) = Some cs" "set ds \<subseteq> set cs"
  defines "st' \<equiv> fold (dijkstra_edge ar x) ds st"
  shows "spf_inv ar r db0 S st' \<and> vis S st' = vis S st \<and> labelled S st \<subseteq> labelled S st' \<and>
         (\<forall>u \<in> vis S st. ucost st' u = ucost st u) \<and> (\<forall>v. ucost st' v \<le> ucost st v) \<and>
         (\<forall>c \<in> set ds. \<forall>v. lsadbFind2 ar (lc_type c) (lc_id c) db0 = Some v \<longrightarrow>
             v \<in> labelled S st' \<and> ucost st' v \<le> ucost st x + unat (lc_cost c))"
  using assms(1,3,4,5,7) unfolding st'_def
proof (induction ds arbitrary: st)
  case Nil
  then show ?case by simp
next
  case (Cons c ds)
  let ?st1 = "dijkstra_edge ar x c st"
  let ?st2 = "fold (dijkstra_edge ar x) ds ?st1"
  have c: "c \<in> set cs" using Cons.prems by simp
  have step: "spf_inv ar r db0 S ?st1 \<and> vis S ?st1 = vis S st \<and> labelled S st \<subseteq> labelled S ?st1 \<and>
      (\<forall>u \<in> vis S st. ucost ?st1 u = ucost st u) \<and> (\<forall>v. ucost ?st1 v \<le> ucost st v) \<and>
      (\<forall>v. lsadbFind2 ar (lc_type c) (lc_id c) db0 = Some v \<longrightarrow>
             v \<in> labelled S ?st1 \<and> ucost ?st1 v \<le> ucost st x + unat (lc_cost c))"
  proof (cases "lsadbFind2 ar (lc_type c) (lc_id c) db0")
    case None
    then have "?st1 = st\<lparr>sp_error := True\<rparr>"
      using lsadbFind2_same [OF spf_invD(1) [OF Cons.prems(1)]] by (simp add: dijkstra_edge_def)
    then show ?thesis using Cons.prems(1) None by simp
  next
    case (Some v)
    note E = edge_step [OF Cons.prems(1) assms(2) Cons.prems(2,3,4) assms(6) c Some]
    show ?thesis using E(1,3,4,5) by (auto simp: E(2) Some min_def)
  qed
  have "x \<in> vis S ?st1" "ucost ?st1 x + 65535 \<le> 65535 * card (vis S ?st1)"
    "\<And>u. u \<in> vis S ?st1 \<Longrightarrow> ucost ?st1 u \<le> ucost ?st1 x"
    using step Cons.prems by simp_all
  then have IH: "spf_inv ar r db0 S ?st2" "vis S ?st2 = vis S ?st1" "labelled S ?st1 \<subseteq> labelled S ?st2"
    "\<And>u. u \<in> vis S ?st1 \<Longrightarrow> ucost ?st2 u = ucost ?st1 u" "\<And>v. ucost ?st2 v \<le> ucost ?st1 v"
    "\<And>d v. d \<in> set ds \<Longrightarrow> lsadbFind2 ar (lc_type d) (lc_id d) db0 = Some v \<Longrightarrow>
       v \<in> labelled S ?st2 \<and> ucost ?st2 v \<le> ucost ?st1 x + unat (lc_cost d)"
    using Cons.IH [of ?st1] step Cons.prems(5) by auto
  have x1: "ucost ?st1 x = ucost st x" using step Cons.prems(2) by simp
  have "v \<in> labelled S ?st2 \<and> ucost ?st2 v \<le> ucost st x + unat (lc_cost d)"
    if "d \<in> set (c # ds)" "lsadbFind2 ar (lc_type d) (lc_id d) db0 = Some v" for d v
    using that IH(6) [of d v] step x1 IH(3) IH(5) [of v] by (auto dest: order_trans)
  moreover have "ucost ?st2 v \<le> ucost st v" for v using IH(5) [of v] step order_trans by blast
  ultimately show ?case
    using IH(1,2,3) step by (auto simp: IH(4))
qed

text \<open>Taking the cheapest LSA from the queue and marking it.\<close>

definition mark_visited :: "nat \<Rightarrow> nat list \<Rightarrow> spf_state \<Rightarrow> spf_state" where
  "mark_visited x queue st =
     st\<lparr>sp_queue := queue, sp_db := upd_lsa x (\<lambda>l. l\<lparr>l_visited := True\<rparr>) (sp_db st)\<rparr>"

lemma mark_fields [simp]:
  "sp_cost (mark_visited x queue st) v = sp_cost st v" "sp_from (mark_visited x queue st) v = sp_from st v"
  "x \<in> S \<Longrightarrow> vis S (mark_visited x queue st) = insert x (vis S st)" "sp_queue (mark_visited x queue st) = queue"
  by (auto simp: mark_visited_def store_upd_lsa vis_def sp_visited_def)

lemma mark_step:
  assumes inv: "spf_inv ar r db0 S st" and ok: "costs_ok ar r db0 S"
    and get: "lsapq_get (sp_cost st) (sp_queue st) = Some (x, queue)"
  defines "st' \<equiv> mark_visited x queue st"
  shows "spf_inv ar r db0 S st'" "x \<notin> vis S st" "labelled S st' = labelled S st"
    "\<And>u. u \<in> vis S st' \<Longrightarrow> ucost st' u \<le> ucost st' x"
    "ucost st' x + 65535 \<le> 65535 * card (vis S st')" "vis S st' = insert x (vis S st)"
proof -
  note D = spf_invD [OF inv]
  note Q = lsapq.get_elems [OF D(2) get] lsapq.get_min [OF D(2) get]
  have xS [simp]: "x \<in> S" using Q(1) D(4) by auto
  show xV: "x \<notin> vis S st" using Q(1) D(3) by auto
  show "vis S st' = insert x (vis S st)" by (simp add: st'_def)
  show L: "labelled S st' = labelled S st" using Q(1) by (auto simp: st'_def)
  have min: "v \<in> set (sp_queue st) \<Longrightarrow> ucost st x \<le> ucost st v" for v
    using Q(2) by (simp add: word_le_nat_alt)
  have card: "card (vis S st') = Suc (card (vis S st))"
    using spf_inv_finite(1) [OF inv ok] xV by (simp add: st'_def)
  show "ucost st' u \<le> ucost st' x" if "u \<in> vis S st'" for u
    using that D(10) Q(1) by (auto simp: st'_def)
  show "ucost st' x + 65535 \<le> 65535 * card (vis S st')"
    using D(11) [of x] Q(1) card by (simp add: st'_def)
  have T: "tight ar db0 S st u v \<Longrightarrow> tight ar db0 S st' u v" for u v
    by (auto simp: tight_def st'_def)
  have "r \<in> vis S st'" using D(5) Q(1) by (auto simp: st'_def)
  moreover have "same_graph db0 (sp_db st')"
    using same_graph_trans [OF D(1)] by (simp add: st'_def mark_visited_def same_graph_upd)
  moreover have "ucost st' v \<le> 65535 * card (vis S st')" if "v \<in> labelled S st'" for v
    using that [unfolded L] D(11) [of v] card by (simp add: st'_def)
  moreover have "set (sp_queue st') \<inter> vis S st' = {}" "distinct (sp_queue st')"
    using D(3) Q(1) by (auto simp: st'_def)
  moreover have "ucost st' u \<le> ucost st' v" if "u \<in> vis S st'" "v \<in> set (sp_queue st')" for u v
    using that Q(1) min [of v] D(10) [of u v] by (auto simp: st'_def)
  ultimately show "spf_inv ar r db0 S st'"
    using D(4) [folded L] D(6-9,12-14) [folded L] T
    by (intro spf_invI) (auto simp: st'_def simp del: Un_iff)
qed

lemma dijkstra_loop:
  assumes "spf_inv ar r db0 S st" "costs_ok ar r db0 S" "\<And>u. u \<in> vis S st \<Longrightarrow> relaxed ar db0 S st u"
  shows "spf_inv ar r db0 S (dijkstra ar st) \<and> sp_queue (dijkstra ar st) = [] \<and>
         (\<forall>u \<in> vis S (dijkstra ar st). relaxed ar db0 S (dijkstra ar st) u)"
  using assms
proof (induction ar st rule: dijkstra.induct)
  case (1 ar st)
  show ?case
  proof (cases "lsapq_get (sp_cost st) (sp_queue st)")
    case None
    then have "sp_queue st = []"
      using lsapq.get_None [OF spf_invD(2) [OF "1.prems"(1)], of "sp_cost st"] by simp
    with None 1 show ?thesis by (subst (1 2 3 4) dijkstra.simps) simp
  next
    case (Some p)
    obtain x queue where p: "p = (x, queue)" by (cases p)
    let ?st1 = "mark_visited x queue st" and ?st' = "dijkstra_visit ar x (st\<lparr>sp_queue := queue\<rparr>)"
    note M = mark_step [OF "1.prems"(1) "1.prems"(2) Some [unfolded p]]
    have visit: "?st' = (case l_ncost (store (sp_db ?st1) x) of None \<Rightarrow> ?st1\<lparr>sp_error := True\<rparr>
                         | Some cs \<Rightarrow> fold (dijkstra_edge ar x) cs ?st1)"
      using M(2) spf_invD(4) [OF M(1)] M(3,6) by (auto simp: dijkstra_visit_def mark_visited_def vis_def sp_visited_def Let_def split: option.split)
    have nc: "l_ncost (store (sp_db ?st1) x) = l_ncost (store db0 x)"
      using spf_invD(1) [OF M(1)] by (simp add: same_graph_def)
    have old: "v \<in> labelled S ?st1 \<and> ucost ?st1 v \<le> ucost ?st1 u + w"
      if "u \<in> vis S st" "spf_edge ar db0 u w v" for u w v
      using "1.prems"(3) [OF that(1)] that(2) unfolding M(3) by (simp add: relaxed_def)
    have "spf_inv ar r db0 S ?st' \<and> (\<forall>u \<in> vis S ?st'. relaxed ar db0 S ?st' u)"
    proof (cases "l_ncost (store db0 x)")
      case None
      then have "?st' = ?st1\<lparr>sp_error := True\<rparr>" using visit nc by simp
      moreover have "\<not> spf_edge ar db0 x w v" for w v using None by (simp add: spf_edge_def)
      moreover have "relaxed ar db0 S ?st1 u" if "u \<in> vis S st" for u
        unfolding relaxed_def using old [OF that] by blast
      ultimately show ?thesis
        using M(1) by (simp add: M(6)) (simp add: relaxed_def)
    next
      case cs: (Some cs)
      then have st': "?st' = fold (dijkstra_edge ar x) cs ?st1" using visit nc by simp
      have xv: "x \<in> vis S ?st1" by (simp add: M(6))
      note E = edges_step [OF M(1) "1.prems"(2) xv M(4,5) cs subset_refl, folded st']
      have E': "spf_inv ar r db0 S ?st'" "vis S ?st' = insert x (vis S st)" "labelled S ?st1 \<subseteq> labelled S ?st'"
        "\<And>u. u \<in> vis S ?st1 \<Longrightarrow> ucost ?st' u = ucost ?st1 u" "\<And>v. ucost ?st' v \<le> ucost ?st1 v"
        "\<And>c v. c \<in> set cs \<Longrightarrow> lsadbFind2 ar (lc_type c) (lc_id c) db0 = Some v \<Longrightarrow>
           v \<in> labelled S ?st' \<and> ucost ?st' v \<le> ucost ?st1 x + unat (lc_cost c)"
        using E [unfolded M(6)] E by blast+
      have "relaxed ar db0 S ?st' u" if u: "u \<in> vis S ?st'" for u
        unfolding relaxed_def
      proof (intro allI impI)
        fix w v assume e: "spf_edge ar db0 u w v"
        have cu: "ucost ?st' u = ucost ?st1 u" using u E'(2) by (intro E'(4)) (simp add: M(6))
        show "v \<in> labelled S ?st' \<and> ucost ?st' v \<le> ucost ?st' u + w"
        proof (cases "u = x")
          case True
          then show ?thesis using e cs E'(6) cu by (auto simp: spf_edge_def)
        next
          case False
          then show ?thesis
            using old [OF _ e] u E'(2,3) E'(5) [of v] cu by (auto intro: order_trans)
        qed
      qed
      then show ?thesis using E'(1) by blast
    qed
    then have "spf_inv ar r db0 S (dijkstra ar ?st') \<and> sp_queue (dijkstra ar ?st') = [] \<and>
         (\<forall>u \<in> vis S (dijkstra ar ?st'). relaxed ar db0 S (dijkstra ar ?st') u)"
      using "1.IH" [OF Some p [symmetric] _ "1.prems"(2)] by blast
    moreover have "dijkstra ar st = dijkstra ar ?st'"
      using Some p by (subst dijkstra.simps) simp
    ultimately show ?thesis by simp
  qed
qed

section \<open>The calculation for an area\<close>

text \<open>The queue is empty before and after each calculation.\<close>

definition spf :: "u32 \<Rightarrow> lsdb \<Rightarrow> lsdb" where
  "spf area_id db =
     (let db = init_costs area_id db
      in case areaFind area_id (areas db) of
           None \<Rightarrow> db
         | Some i \<Rightarrow>
             (case oa_mylsa (areas db ! i) of
                None \<Rightarrow> db
              | Some mylsa \<Rightarrow>
                  sp_db (dijkstra area_id
                    \<lparr>sp_db = upd_lsa mylsa (\<lambda>l. l\<lparr>l_cost := 0\<rparr>) db,
                     sp_queue = lsapq_push mylsa [], sp_error = False\<rparr>)))"

definition area_lsas :: "u32 \<Rightarrow> lsdb \<Rightarrow> nat set" where
  "area_lsas ar db = set (concat (map (\<lambda>t. lsadbGetList ar t db) [0, 1, 2, 3, 4, 5]))"

lemma lsadbGetList_same: "same_graph db db' \<Longrightarrow> lsadbGetList ar t db' = lsadbGetList ar t db"
  by (simp add: lsadbGetList_def lsadbGetListHead_same) (simp add: same_graph_def split: option.split)

lemma reset_graph: "same_graph db (upd_lsa a reset_lsa db)"
  by (simp add: same_graph_upd reset_lsa_def)

lemma resets:
  "store (fold (\<lambda>a. upd_lsa a reset_lsa) as db) b = (if b \<in> set as then reset_lsa (store db b) else store db b) \<and>
   same_graph db (fold (\<lambda>a. upd_lsa a reset_lsa) as db)"
proof (induction as arbitrary: db)
  case (Cons a as)
  have "reset_lsa (reset_lsa l) = reset_lsa l" for l by (simp add: reset_lsa_def)
  then show ?case
    using Cons [of "upd_lsa a reset_lsa db"] same_graph_trans [OF reset_graph [of db a]]
    by (auto simp: store_upd_lsa)
qed simp

lemma init_costs_store:
  "store (init_costs ar db) b = (if b \<in> area_lsas ar db then reset_lsa (store db b) else store db b)"
  "same_graph db (init_costs ar db)"
proof -
  have "init_costs ar db = fold (\<lambda>a. upd_lsa a reset_lsa) (concat (map (\<lambda>t. lsadbGetList ar t db) [0, 1, 2, 3, 4, 5])) db"
    by (simp add: init_costs_def)
  then show "store (init_costs ar db) b = (if b \<in> area_lsas ar db then reset_lsa (store db b) else store db b)"
    "same_graph db (init_costs ar db)"
    using resets by (simp_all only: area_lsas_def)
qed

lemma area_lsas_same: "same_graph db db' \<Longrightarrow> area_lsas ar db' = area_lsas ar db"
  by (simp add: area_lsas_def lsadbGetList_same)

lemma lsadbFind2_list:
  assumes "lsdb_inv db" "lsadbFind2 ar t k db = Some v"
  shows "v \<in> set (lsadbGetList ar t db)"
proof -
  obtain h where h: "lsadbGetListHead ar t db = Some h" "lsaListFind2 h t k db = Some v"
    using assms(2) by (auto simp: lsadbFind2_def bind_eq_Some_conv)
  then have "v \<in> set (lsa_lists db h)"
    using bucket_lookup [OF assms(1) lsaListFind2_def [of h t k db]] by auto
  then show ?thesis using h(1) by (simp add: lsadbGetList_def)
qed

text \<open>Router and network LSAs carry the cost list of their body, as \<open>lsadbAdd\<close> and \<open>lsadbReplace\<close>
  leave them.\<close>

definition ncost_ok :: "OspfLsa \<Rightarrow> bool" where
  "ncost_ok l \<longleftrightarrow> l_ncost l = body_cost (l_body l) \<and>
     (case l_body l of RtrLsa _ _ \<Rightarrow> True | NetLsa _ _ \<Rightarrow> True | _ \<Rightarrow> False)"

lemma body_cost_bound:
  assumes "ncost_ok l" "l_ncost l = Some cs" "c \<in> set cs"
  shows "unat (lc_cost c) \<le> 65535" "lc_type c = 1 \<or> lc_type c = 2"
proof -
  have "unat (ucast (m :: u16) :: u32) \<le> 65535" for m
    using unat_u16_less [of m] by (simp add: unsigned_ucast_eq take_bit_eq_mod)
  then show "unat (lc_cost c) \<le> 65535"
    using assms by (cases "l_body l") (auto simp: ncost_ok_def link_cost_def router_cost_def split: if_splits)
  show "lc_type c = 1 \<or> lc_type c = 2"
    using assms by (cases "l_body l") (auto simp: ncost_ok_def link_cost_def router_cost_def split: if_splits)
qed

definition spf_nodes :: "u32 \<Rightarrow> lsdb \<Rightarrow> nat list" where
  "spf_nodes ar db = lsadbGetList ar LSA_TYPE_ROUTER db @ lsadbGetList ar LSA_TYPE_NETWORK db"

lemma spf_nodes_costs_ok:
  assumes "lsdb_inv db" "list_all (\<lambda>a. ncost_ok (store db a)) (spf_nodes ar db)" "length (spf_nodes ar db) \<le> 65536"
    "r \<in> set (spf_nodes ar db)"
  shows "costs_ok ar r db (set (spf_nodes ar db))"
proof -
  have "card (set (spf_nodes ar db)) \<le> 65536" using card_length [of "spf_nodes ar db"] assms(3) by simp
  moreover have "unat (lc_cost c) \<le> 65535 \<and> (\<forall>v. lsadbFind2 ar (lc_type c) (lc_id c) db = Some v \<longrightarrow> v \<in> set (spf_nodes ar db))"
    if "a \<in> set (spf_nodes ar db)" "l_ncost (store db a) = Some cs" "c \<in> set cs" for a cs c
  proof -
    have "ncost_ok (store db a)" using assms(2) that(1) by (simp add: list_all_iff)
    note B = body_cost_bound [OF this that(2,3)]
    then show ?thesis using lsadbFind2_list [OF assms(1)] by (auto simp: spf_nodes_def)
  qed
  ultimately show ?thesis using assms(4) by (simp add: costs_ok_def)
qed

text \<open>The state in which \<open>spf\<close> starts the loop satisfies the invariant.\<close>

definition spf_start :: "u32 \<Rightarrow> nat \<Rightarrow> lsdb \<Rightarrow> spf_state" where
  "spf_start ar r db =
     \<lparr>sp_db = upd_lsa r (\<lambda>l. l\<lparr>l_cost := 0\<rparr>) (init_costs ar db), sp_queue = lsapq_push r [], sp_error = False\<rparr>"

lemma spf_nodes_area: "set (spf_nodes ar db) \<subseteq> area_lsas ar db"
  by (auto simp: spf_nodes_def area_lsas_def)

lemma spf_start_inv:
  assumes r: "r \<in> set (spf_nodes ar db)"
  shows "spf_inv ar r db (set (spf_nodes ar db)) (spf_start ar r db)" "vis (set (spf_nodes ar db)) (spf_start ar r db) = {}"
proof -
  have st: "store (sp_db (spf_start ar r db)) v =
      (if v = r then (reset_lsa (store db v))\<lparr>l_cost := 0\<rparr> else reset_lsa (store db v))" if "v \<in> set (spf_nodes ar db)" for v
    using that r spf_nodes_area [of ar db] by (auto simp: spf_start_def store_upd_lsa init_costs_store(1))
  then show V: "vis (set (spf_nodes ar db)) (spf_start ar r db) = {}"
    by (auto simp: vis_def sp_visited_def reset_lsa_def split: if_splits)
  have Q: "sp_queue (spf_start ar r db) = [r]" by (simp add: spf_start_def lsapq_push_def)
  have G: "same_graph db (sp_db (spf_start ar r db))"
  proof -
    have "same_graph (init_costs ar db) (upd_lsa r (\<lambda>l. l\<lparr>l_cost := 0\<rparr>) (init_costs ar db))"
      by (rule same_graph_upd) simp
    then show ?thesis
      unfolding spf_start_def spf_state.simps by (rule same_graph_trans [OF init_costs_store(2)])
  qed
  show "spf_inv ar r db (set (spf_nodes ar db)) (spf_start ar r db)"
    unfolding spf_inv_def V Q using r G
    by (auto simp: st reset_lsa_def wpath_start)
qed

text \<open>What holds when the loop ends, collected for the properties.\<close>

lemma spf_result:
  assumes "lsdb_reach db" "areaFind ar (areas db) = Some i" "oa_mylsa (areas db ! i) = Some r"
    and "r \<in> set (spf_nodes ar db)" "list_all (\<lambda>a. ncost_ok (store db a)) (spf_nodes ar db)"
    and "length (spf_nodes ar db) \<le> 65536"
  obtains st where "spf ar db = sp_db st" "spf_inv ar r db (set (spf_nodes ar db)) st" "sp_queue st = []"
    "\<And>u. u \<in> vis (set (spf_nodes ar db)) st \<Longrightarrow> relaxed ar db (set (spf_nodes ar db)) st u"
proof -
  have "areas (init_costs ar db) = areas db" using init_costs_store(2) [of db ar] by (simp add: same_graph_def)
  then have "spf ar db = sp_db (dijkstra ar (spf_start ar r db))"
    using assms(2,3) by (simp add: spf_def spf_start_def Let_def)
  moreover note dijkstra_loop [OF spf_start_inv(1) [OF assms(4)]
      spf_nodes_costs_ok [OF lsdb_reach_inv [OF assms(1)] assms(5,6,4)]] 
  ultimately show thesis
    using that spf_start_inv(2) [OF assms(4)] by auto
qed

section \<open>Properties\<close>

text \<open>C2: the shortest path calculation of an area: it ends, it marks exactly the router and network
  LSAs that can be reached from the LSA of this router, the cost of each is the length of a shortest
  path to it, and the others keep the cost \<open>OSPF_MAX_COST\<close>.\<close>
theorem spf_shortest:
  assumes "lsdb_reach db" "areaFind ar (areas db) = Some i" "oa_mylsa (areas db ! i) = Some r"
    and "r \<in> set (spf_nodes ar db)" "list_all (\<lambda>a. ncost_ok (store db a)) (spf_nodes ar db)"
    and "length (spf_nodes ar db) \<le> 65536" "v \<in> set (spf_nodes ar db)"
  shows "if l_visited (store (spf ar db) v) then is_dist (spf_edge ar db) r v (unat (l_cost (store (spf ar db) v)))
         else l_cost (store (spf ar db) v) = OSPF_MAX_COST \<and> \<not> (\<exists>n. wpath (spf_edge ar db) r n v)"
proof -
  obtain st where st: "spf ar db = sp_db st" "spf_inv ar r db (set (spf_nodes ar db)) st" "sp_queue st = []"
    "\<And>u. u \<in> vis (set (spf_nodes ar db)) st \<Longrightarrow> relaxed ar db (set (spf_nodes ar db)) st u"
    by (rule spf_result [OF assms(1-6)]) (use that in blast)
  let ?V = "vis (set (spf_nodes ar db)) st"
  note D = spf_invD [OF st(2)]
  have r: "r \<in> ?V" using D(5) st(3) by simp
  have bound: "u \<in> ?V \<and> ucost st u \<le> n" if "wpath (spf_edge ar db) r n u" for n u
    by (rule relaxed_bound [where d = "ucost st", OF that r D(6)]) (use st(4) in \<open>auto simp: relaxed_def st(3)\<close>)
  have v: "l_visited (store (sp_db st) v) \<longleftrightarrow> v \<in> ?V" using assms(7) by (simp add: vis_def sp_visited_def)
  show ?thesis
    using D(8) [of v] D(9) [OF assms(7)] bound [of _ v] st(3) by (auto simp: st(1) v is_dist_def)
qed

text \<open>The parents that the calculation records: a reached LSA other than the own one has a parent,
  and every recorded parent is a reached LSA with a link over which the cost of the LSA is attained,
  so that all recorded equal cost paths are shortest paths.\<close>
theorem spf_parents:
  assumes "lsdb_reach db" "areaFind ar (areas db) = Some i" "oa_mylsa (areas db ! i) = Some r"
    and "r \<in> set (spf_nodes ar db)" "list_all (\<lambda>a. ncost_ok (store db a)) (spf_nodes ar db)"
    and "length (spf_nodes ar db) \<le> 65536" "v \<in> set (spf_nodes ar db)" "l_visited (store (spf ar db) v)" "v \<noteq> r"
  shows "length (l_from (store (spf ar db) v)) = 4 \<and> l_from (store (spf ar db) v) ! 0 \<noteq> None \<and>
         list_all (\<lambda>p. case p of None \<Rightarrow> True | Some u \<Rightarrow>
             l_visited (store (spf ar db) u) \<and>
             (\<exists>w. spf_edge ar db u w v \<and>
                  unat (l_cost (store (spf ar db) v)) = unat (l_cost (store (spf ar db) u)) + w))
           (l_from (store (spf ar db) v))"
proof -
  obtain st where st: "spf ar db = sp_db st" "spf_inv ar r db (set (spf_nodes ar db)) st" "sp_queue st = []"
    by (rule spf_result [OF assms(1-6)]) (use that in blast)
  note D = spf_invD [OF st(2)]
  have v: "v \<in> vis (set (spf_nodes ar db)) st" using assms(7,8) by (simp add: vis_def sp_visited_def st(1))
  have len: "length (sp_from st v) = 4" by (rule D(12) [OF assms(7)])
  have "tight ar db (set (spf_nodes ar db)) st u v" if "i < 4" "sp_from st v ! i = Some u" for i u
    using D(13) [OF assms(7) that] .
  then show ?thesis
    using len D(14) [of v] v assms(9)
    by (auto simp: st(1) list_all_length tight_def vis_def sp_visited_def split: option.split)
qed

text \<open>An area with two routers on one network: this router (LSA 11) and another one (LSA 12) that is also
  attached to a second network (LSA 14), with the network between them (LSA 13).\<close>

definition net_link :: "u32 \<Rightarrow> u16 \<Rightarrow> RtrLsaLink" where
  "net_link n m = \<lparr>lnk_id = n, lnk_data = n, lnk_type = 2, lnk_tos = 0, lnk_metric = m\<rparr>"

definition spf_store :: "nat \<Rightarrow> OspfLsa" where
  "spf_store a =
     (if a = 11 then lsa_of 1 1 1 (RtrLsa 0 [net_link 10 3])
      else if a = 12 then lsa_of 1 2 2 (RtrLsa 0 [net_link 10 4, net_link 20 7])
      else if a = 13 then lsa_of 2 10 1 (NetLsa 0xffffff00 [1, 2])
      else lsa_of 2 20 2 (NetLsa 0xffffff00 [2]))"

definition spf_lsdb :: lsdb where
  "spf_lsdb = fold (lsadbAdd 5 0) [11, 12, 13, 14]
     \<lparr>store = spf_store, lsa_lists = (\<lambda>_. []), bucket = (\<lambda>_. []),
      areas = [\<lparr>oa_area_id = 0, oa_router_id = 1, oa_network = [], oa_stub = False, oa_no_summary = False, oa_mylsa = Some 11\<rparr>],
      spf_timeout = 0, spf_timeout_hold = 0\<rparr>"

lemma members_lsadbAdd: "members (lsadbAdd d ar a db) \<subseteq> insert a (members db)"
  by (auto simp: lsadbAdd_def Let_def lsaListAddHash_def lsaHashAdd_def upd_lsa_def lsa_add_cost_def
      spfTrigger_def members_def split: option.splits if_splits)

lemma lsadbAdd_all_reach:
  "lsdb_reach db \<Longrightarrow> distinct as \<Longrightarrow> set as \<inter> members db = {} \<Longrightarrow> lsdb_reach (fold (lsadbAdd d ar) as db)"
proof (induction as arbitrary: db)
  case (Cons a as)
  then have "lsdb_reach (lsadbAdd d ar a db)" by (auto intro: reach_add)
  then show ?case using Cons members_lsadbAdd [of d ar a db] by auto
qed simp

lemma spf_lsdb_reach: "lsdb_reach spf_lsdb"
  unfolding spf_lsdb_def by (rule lsadbAdd_all_reach) (auto intro: reach_init simp: members_def)

lemma not_6_le_1 [simp]: "\<not> (6 :: u8) \<le> 1"
  by (simp add: word_le_nat_alt)

lemma hashes: "lsa_hash 1 = 1181" "lsa_hash 2 = 2363" "lsa_hash 10 = 3543" "lsa_hash 20 = 2991"
  by (simp_all add: lsa_hash_def lsa_mix_def put32_def byte_of_def Let_def)

lemmas lsdb_ops = lsadbAdd_def lsadbGetListHead_def lsaListAddHash_def lsaHashAdd_def upd_lsa_def lsa_add_cost_def
  spfTrigger_def areaFind_def lsa_of_def Let_def

lemma spf_lsdb_fields:
  "areas spf_lsdb = [\<lparr>oa_area_id = 0, oa_router_id = 1, oa_network = [], oa_stub = False, oa_no_summary = False, oa_mylsa = Some 11\<rparr>]"
  "lsa_lists spf_lsdb = (\<lambda>_. [])(AreaHead 0 1 := [12, 11], AreaHead 0 2 := [14, 13])"
  "bucket spf_lsdb = (\<lambda>_. [])(1181 := [11], 2363 := [12], 3543 := [13], 2991 := [14])"
  by (simp_all add: spf_lsdb_def lsdb_ops spf_store_def hashes fun_upd_twist)

lemma spf_lsdb_store:
  "store spf_lsdb 11 = (spf_store 11)\<lparr>l_head := Some (AreaHead 0 1), l_ncost := Some [link_cost (net_link 10 3)]\<rparr>"
  "store spf_lsdb 12 = (spf_store 12)\<lparr>l_head := Some (AreaHead 0 1), l_ncost := Some [link_cost (net_link 10 4), link_cost (net_link 20 7)]\<rparr>"
  "store spf_lsdb 13 = (spf_store 13)\<lparr>l_head := Some (AreaHead 0 2), l_ncost := Some [router_cost 1, router_cost 2]\<rparr>"
  "store spf_lsdb 14 = (spf_store 14)\<lparr>l_head := Some (AreaHead 0 2), l_ncost := Some [router_cost 2]\<rparr>"
  by (simp_all add: spf_lsdb_def lsdb_ops spf_store_def hashes)

lemma spf_nodes_ex: "spf_nodes 0 spf_lsdb = [12, 11, 14, 13]"
  by (simp add: spf_nodes_def lsadbGetList_def lsadbGetListHead_def spf_lsdb_fields areaFind_def)

lemma spf_lsdb_facts:
  "areaFind 0 (areas spf_lsdb) = Some 0" "oa_mylsa (areas spf_lsdb ! 0) = Some 11"
  "11 \<in> set (spf_nodes 0 spf_lsdb)" "list_all (\<lambda>a. ncost_ok (store spf_lsdb a)) (spf_nodes 0 spf_lsdb)"
  "length (spf_nodes 0 spf_lsdb) \<le> 65536" "14 \<in> set (spf_nodes 0 spf_lsdb)"
  by (simp_all add: spf_nodes_ex spf_lsdb_fields areaFind_def spf_lsdb_store spf_store_def lsa_of_def ncost_ok_def)

lemma spf_run: "l_visited (store (spf 0 spf_lsdb) 14) \<and> l_cost (store (spf 0 spf_lsdb) 14) = 10 \<and>
   l_from (store (spf 0 spf_lsdb) 14) = [Some 12, None, None, None]"
  by (simp add: spf_def init_costs_def lsadbGetList_def lsadbGetListHead_def spf_lsdb_fields areaFind_def Let_def
    upd_lsa_def reset_lsa_def lsapq_push_def dijkstra.simps lsapq_get_def dijkstra_visit_def dijkstra_edge_def
    spf_lsdb_store lsadbFind2_def lsaListFind2_def link_cost_def router_cost_def net_link_def hashes spf_store_def lsa_of_def OSPF_MAX_COST_def
    set_from_def add_from_def)

theorem spf_shortest_witness:
  "l_visited (store (spf 0 spf_lsdb) 14) \<and> is_dist (spf_edge 0 spf_lsdb) 11 14 10"
  using spf_shortest [OF spf_lsdb_reach spf_lsdb_facts] spf_run by simp

theorem spf_parents_witness:
  "l_from (store (spf 0 spf_lsdb) 14) = [Some 12, None, None, None] \<and> l_visited (store (spf 0 spf_lsdb) 12)"
  using spf_parents [OF spf_lsdb_reach spf_lsdb_facts] spf_run by simp

end
