(* ===== verification/Ospf_Route.thy ===== *)
theory Ospf_Route
  imports Ip_Util Ospf_Area
begin

text \<open>
  The OSPF routing table (\<open>ospf/exec/route.h\<close>, \<open>route.c\<close>, \<open>route_update.c\<close>): a Patricia tree whose
  nodes hold up to four equal cost routes. The tree is a datatype; a pointer to a node is the path of
  links that leads to it, and the parent pointer of a node is the path without its last link. Calls
  to the kernel and messages to RIP are appended to a trace.
\<close>

section \<open>Data\<close>

record RT =
  r_ip :: u32
  r_mask :: u32
  r_gw :: u32
  r_cost :: u32
  r_e2_cost :: u32
  r_area_id :: u32
  r_ifip :: u32
  r_type :: u8
  r_del_flag :: bool

definition RT_NONE :: u8 where [simp]: "RT_NONE = 0"
definition RT_CONNECTED :: u8 where [simp]: "RT_CONNECTED = 1"
definition RT_STATIC :: u8 where [simp]: "RT_STATIC = 2"
definition RT_OSPF :: u8 where [simp]: "RT_OSPF = 5"
definition RT_OSPF_IA :: u8 where [simp]: "RT_OSPF_IA = 6"
definition RT_OSPF_E1 :: u8 where [simp]: "RT_OSPF_E1 = 7"
definition RT_OSPF_E2 :: u8 where [simp]: "RT_OSPF_E2 = 8"
definition RT_OSPF_BLACKHOLE :: u8 where [simp]: "RT_OSPF_BLACKHOLE = 9"
definition RT_TYPE_MAX :: u8 where [simp]: "RT_TYPE_MAX = 11"
definition RT_ECMP :: nat where [simp]: "RT_ECMP = 4"

definition rt_zero :: RT where
  "rt_zero = \<lparr>r_ip = 0, r_mask = 0, r_gw = 0, r_cost = 0, r_e2_cost = 0, r_area_id = 0, r_ifip = 0,
              r_type = RT_NONE, r_del_flag = False\<rparr>"

record ptn_data =
  p_key :: u32
  p_mask :: u32
  p_len :: nat
  p_rt :: "RT list"
  p_retry_ecmp :: bool

datatype PTN = PNull | PNode PTN ptn_data PTN

datatype ospf_call =
    OAddRoute u8 u32 u32 u32 u32
  | ODelRoute u32 u32 u32
  | OAddECMP u8 u32 u32 u32 "u32 list"
  | ODelECMP u8 u32 u32 "u32 list"
  | OBlackhole bool u32 u32
  | ORedist bool u32 u32 u32

text \<open>The table, the static \<open>e2_cost\<close>, the counters, the connection to the multiplexer and the trace.
  \<open>rip_redist\<close> and \<open>send_ok\<close> stand for \<open>rcpRipRedistOspf\<close> and the result of \<open>send\<close>.\<close>

record ospf_rt =
  ptree_root :: PTN
  e2_cost :: u32
  o_muxsock :: bool
  o_out :: "ospf_call list"
  route_add_cnt :: u32
  route_del_cnt :: u32
  route_replaced_cnt :: u32
  spf_again :: bool

record ospf_renv =
  rip_redist :: bool
  send_ok :: "ospf_call \<Rightarrow> bool"

section \<open>Kernel and redistribution\<close>

definition o_emit :: "ospf_call \<Rightarrow> ospf_rt \<Rightarrow> ospf_rt" where
  "o_emit c s = s\<lparr>o_out := o_out s @ [c]\<rparr>"

definition redistribute_route :: "ospf_renv \<Rightarrow> bool \<Rightarrow> u32 \<Rightarrow> u32 \<Rightarrow> u32 \<Rightarrow> ospf_rt \<Rightarrow> ospf_rt" where
  "redistribute_route env add ip msk gw s =
     (if o_muxsock s \<and> rip_redist env
      then if send_ok env (ORedist add ip msk gw) then o_emit (ORedist add ip msk gw) s else s\<lparr>o_muxsock := False\<rparr>
      else s)"

text \<open>The configured entries: those before the first one with type \<open>RT_NONE\<close>.\<close>

definition rts :: "ptn_data \<Rightarrow> RT list" where
  "rts d = takeWhile (\<lambda>rt. r_type rt \<noteq> RT_NONE) (take RT_ECMP (p_rt d))"

definition smallest_type :: "RT list \<Rightarrow> u8" where
  "smallest_type rs = foldl (\<lambda>m rt. if r_type rt < m then r_type rt else m) RT_TYPE_MAX rs"

definition ospf_ecmp_del :: "ospf_renv \<Rightarrow> ptn_data \<Rightarrow> ospf_rt \<Rightarrow> ospf_rt" where
  "ospf_ecmp_del env d s =
     (let first = p_rt d ! 0; rs = rts d
      in if r_type first = RT_CONNECTED \<or> r_type first = RT_STATIC then s
         else if r_type first = RT_OSPF_BLACKHOLE then o_emit (OBlackhole False (r_ip first) (r_mask first)) s
         else if rs = [] then s
         else let found = last rs
              in if length rs = 1
                 then redistribute_route env False (r_ip found) (r_mask found) (r_gw found)
                        (o_emit (ODelRoute (r_ip found) (r_mask found) (r_gw found)) s)
                 else if smallest_type rs = RT_TYPE_MAX then s
                 else let best = filter (\<lambda>rt. r_type rt = smallest_type rs) rs;
                          s = fold (\<lambda>rt. redistribute_route env False (r_ip found) (r_mask found) (r_gw rt)) best s
                      in o_emit (ODelECMP (smallest_type rs) (r_ip found) (r_mask found) (map r_gw best)) s)"

definition ospf_ecmp_add :: "ospf_renv \<Rightarrow> ptn_data \<Rightarrow> ospf_rt \<Rightarrow> ospf_rt" where
  "ospf_ecmp_add env d s =
     (let first = p_rt d ! 0; rs = rts d
      in if r_type first = RT_CONNECTED \<or> r_type first = RT_STATIC then s
         else if r_type first = RT_OSPF_BLACKHOLE then o_emit (OBlackhole True (r_ip first) (r_mask first)) s
         else if rs = [] then s
         else let found = last rs
              in if length rs = 1
                 then redistribute_route env True (r_ip found) (r_mask found) (r_gw found)
                        (o_emit (OAddRoute (r_type found) (r_ip found) (r_mask found) (r_gw found)
                                   (if r_type found = RT_OSPF_E2 then r_e2_cost found else r_cost found)) s)
                 else if smallest_type rs = RT_TYPE_MAX then s
                 else let best = filter (\<lambda>rt. r_type rt = smallest_type rs) rs;
                          s = fold (\<lambda>rt. redistribute_route env True (r_ip found) (r_mask found) (r_gw rt)) best s
                      in o_emit (OAddECMP (smallest_type rs) (r_ip found) (r_mask found)
                                   (if smallest_type rs = RT_OSPF_E2 then r_e2_cost found else r_cost found)
                                   (map r_gw best)) s)"

section \<open>The Patricia tree\<close>

definition CHECK_BIT :: "u32 \<Rightarrow> nat \<Rightarrow> bool" where
  "CHECK_BIT key len \<longleftrightarrow> key AND drop_bit (len - 1) 0x80000000 \<noteq> 0"

definition MATCH_KEY :: "u32 \<Rightarrow> u32 \<Rightarrow> u32 \<Rightarrow> bool" where
  "MATCH_KEY k1 k2 msk \<longleftrightarrow> k1 AND msk = k2 AND msk"

definition root_init :: PTN where
  "root_init = PNode PNull \<lparr>p_key = 0, p_mask = 0, p_len = 0, p_rt = replicate RT_ECMP rt_zero, p_retry_ecmp = False\<rparr> PNull"

definition bitmask :: "u8 list" where
  "bitmask = [0x00, 0x80, 0xc0, 0xe0, 0xf0, 0xf8, 0xfc, 0xfe, 0xff]"

fun masklen_loop :: "nat \<Rightarrow> u32 \<Rightarrow> u32" where
  "masklen_loop 0 msk = msk"
| "masklen_loop (Suc div1) msk = masklen_loop div1 (drop_bit 8 msk OR 0xff000000)"

text \<open>The test \<open>len != 0\<close> of the source compares the pointer, so the last branch is never taken.\<close>

definition update_masklen :: "u32 \<Rightarrow> nat \<Rightarrow> u32 \<times> nat" where
  "update_masklen msk len =
     (if msk \<noteq> 0 then (msk, unat (mask2bits msk))
      else (masklen_loop (len div 8) (push_bit 24 (ucast (bitmask ! (len mod 8)))), len))"

primrec ptn_find :: "PTN \<Rightarrow> u32 \<Rightarrow> nat \<Rightarrow> bool list option" where
  "ptn_find PNull key len = None"
| "ptn_find (PNode l d r) key len =
     (if p_key d = key \<and> p_len d = len then Some []
      else let b = CHECK_BIT key (p_len d + 1)
           in case (if b then r else l) of
                PNull \<Rightarrow> None
              | PNode _ d' _ \<Rightarrow>
                  if p_len d' > len then None
                  else map_option (Cons b) (if b then ptn_find r key len else ptn_find l key len))"

text \<open>\<open>None\<close> stands for the parent of the node.\<close>

primrec ptn_find_lpm :: "PTN \<Rightarrow> u32 \<Rightarrow> nat \<Rightarrow> bool list option" where
  "ptn_find_lpm PNull key len = None"
| "ptn_find_lpm (PNode l d r) key len =
     (if p_key d = key \<and> p_len d = len then Some []
      else if p_len d > len then None
      else if \<not> MATCH_KEY key (p_key d) (p_mask d) then None
      else let b = CHECK_BIT key (p_len d + 1)
           in if (if b then r else l) = PNull then Some []
              else case (if b then ptn_find_lpm r key len else ptn_find_lpm l key len) of
                     None \<Rightarrow> Some []
                   | Some p \<Rightarrow> Some (b # p))"

text \<open>The loop of \<open>split\<close> over the common bits; \<open>fuel\<close> counts the remaining iterations.\<close>

fun split_loop :: "nat \<Rightarrow> nat \<Rightarrow> u32 \<Rightarrow> u32 \<Rightarrow> u32 \<Rightarrow> nat \<times> u32" where
  "split_loop 0 len msk k1 k2 = (len, msk)"
| "split_loop (Suc n) len msk k1 k2 =
     (if msk AND k1 \<noteq> msk AND k2 then (len, msk)
      else split_loop n (len + 1) (drop_bit 1 msk OR 0x80000000) k1 k2)"

definition split_node :: "u32 \<Rightarrow> u32 \<Rightarrow> ptn_data" where
  "split_node k1 k2 =
     (let (len, msk) = split_loop 31 1 0x80000000 k1 k2; msk = push_bit 1 msk
      in \<lparr>p_key = k1 AND msk, p_mask = msk, p_len = len - 1, p_rt = replicate RT_ECMP rt_zero, p_retry_ecmp = False\<rparr>)"

definition set_link :: "bool \<Rightarrow> PTN \<Rightarrow> PTN \<Rightarrow> PTN" where
  "set_link b c t = (case t of PNull \<Rightarrow> PNull | PNode l d r \<Rightarrow> if b then PNode l d c else PNode c d r)"

definition ptn_set_child :: "ptn_data \<Rightarrow> PTN \<Rightarrow> PTN" where
  "ptn_set_child child ptn =
     (case ptn of
        PNull \<Rightarrow> PNull
      | PNode l d r \<Rightarrow>
          let b = CHECK_BIT (p_key child) (p_len d + 1); c = PNode PNull child PNull
          in case (if b then r else l) of
               PNull \<Rightarrow> set_link b c ptn
             | PNode el ed er \<Rightarrow>
                 if MATCH_KEY (p_key child) (p_key ed) (p_mask child)
                 then set_link b (set_link b (PNode el ed er) c) ptn
                 else let n = split_node (p_key child) (p_key ed); b' = CHECK_BIT (p_key ed) (p_len n + 1);
                          sn = (if b' then PNode c n (PNode el ed er) else PNode (PNode el ed er) n c)
                      in set_link b sn ptn)"

text \<open>Access through a pointer into the tree.\<close>

fun ptn_at :: "bool list \<Rightarrow> PTN \<Rightarrow> PTN" where
  "ptn_at [] t = t"
| "ptn_at (b # p) PNull = PNull"
| "ptn_at (b # p) (PNode l d r) = ptn_at p (if b then r else l)"

fun ptn_upd :: "bool list \<Rightarrow> (PTN \<Rightarrow> PTN) \<Rightarrow> PTN \<Rightarrow> PTN" where
  "ptn_upd [] f t = f t"
| "ptn_upd (b # p) f PNull = PNull"
| "ptn_upd (b # p) f (PNode l d r) = (if b then PNode l d (ptn_upd p f r) else PNode (ptn_upd p f l) d r)"

definition node_data :: "PTN \<Rightarrow> ptn_data option" where
  "node_data t = (case t of PNull \<Rightarrow> None | PNode _ d _ \<Rightarrow> Some d)"

definition upd_data :: "(ptn_data \<Rightarrow> ptn_data) \<Rightarrow> PTN \<Rightarrow> PTN" where
  "upd_data f t = (case t of PNull \<Rightarrow> PNull | PNode l d r \<Rightarrow> PNode l (f d) r)"

section \<open>Routes\<close>

definition set_rt :: "nat \<Rightarrow> RT \<Rightarrow> ptn_data \<Rightarrow> ptn_data" where
  "set_rt i rt d = d\<lparr>p_rt := (p_rt d)[i := rt]\<rparr>"

definition single_rt :: "RT \<Rightarrow> ptn_data \<Rightarrow> ptn_data" where
  "single_rt rt d = d\<lparr>p_rt := rt # replicate (RT_ECMP - 1) rt_zero\<rparr>"

definition same_route :: "RT \<Rightarrow> RT \<Rightarrow> bool" where
  "same_route new rt \<longleftrightarrow> r_cost rt = r_cost new \<and> r_type rt = r_type new \<and> r_gw rt = r_gw new"

text \<open>\<open>route_replace\<close> on the data of the node: the new data and the new state.\<close>

definition route_replace :: "ospf_renv \<Rightarrow> RT \<Rightarrow> ptn_data \<Rightarrow> ospf_rt \<Rightarrow> ptn_data \<times> ospf_rt" where
  "route_replace env new d s =
     (if r_type (p_rt d ! 0) = RT_NONE
      then let d = set_rt 0 new d; s = ospf_ecmp_add env d s in (d, s\<lparr>route_add_cnt := route_add_cnt s + 1\<rparr>)
      else case find_pos (same_route new) (rts d) of
             Some i \<Rightarrow> (set_rt i ((p_rt d ! i)\<lparr>r_del_flag := False\<rparr>) d, s)
           | None \<Rightarrow>
               if list_all r_del_flag (rts d)
               then let s = ospf_ecmp_del env d s; d = single_rt new d; s = ospf_ecmp_add env d s
                    in (d, s\<lparr>route_replaced_cnt := route_replaced_cnt s + 1\<rparr>)
               else if r_cost (p_rt d ! 0) = r_cost new
               then if length (rts d) \<ge> RT_ECMP then (d\<lparr>p_retry_ecmp := True\<rparr>, s)
                    else let s = ospf_ecmp_del env d s; d = set_rt (length (rts d)) new d; s = ospf_ecmp_add env d s
                         in (d, s\<lparr>route_add_cnt := route_add_cnt s + 1\<rparr>)
               else if r_cost (p_rt d ! 0) > r_cost new
               then let s = ospf_ecmp_del env d s; d = single_rt new d; s = ospf_ecmp_add env d s
                    in (d, s\<lparr>route_replaced_cnt := route_replaced_cnt s + 1\<rparr>)
               else (d, s))"

definition new_rt :: "u32 \<Rightarrow> u32 \<Rightarrow> u32 \<Rightarrow> u32 \<Rightarrow> u8 \<Rightarrow> u32 \<Rightarrow> u32 \<Rightarrow> ospf_rt \<Rightarrow> RT" where
  "new_rt ip msk gw cost type area_id ifip s =
     \<lparr>r_ip = ip, r_mask = msk, r_gw = gw, r_cost = cost, r_e2_cost = e2_cost s, r_area_id = area_id,
      r_ifip = ifip, r_type = type, r_del_flag = False\<rparr>"

definition tree_or_root :: "ospf_rt \<Rightarrow> PTN" where
  "tree_or_root s = (if ptree_root s = PNull then root_init else ptree_root s)"

definition route_add ::
    "ospf_renv \<Rightarrow> u32 \<Rightarrow> u32 \<Rightarrow> nat \<Rightarrow> u32 \<Rightarrow> u32 \<Rightarrow> u8 \<Rightarrow> u32 \<Rightarrow> u32 \<Rightarrow> ospf_rt \<Rightarrow> ospf_rt" where
  "route_add env ip msk len gw cost type area_id ifip s =
     (let t = tree_or_root s; (msk, len) = update_masklen msk len; new = new_rt ip msk gw cost type area_id ifip s
      in case ptn_find t ip len of
           Some p \<Rightarrow>
             (case ptn_at p t of
                PNull \<Rightarrow> s
              | PNode l d r \<Rightarrow>
                  (case route_replace env new d s of
                     (d', s') \<Rightarrow> s'\<lparr>ptree_root := ptn_upd p (upd_data (\<lambda>_. d')) t\<rparr>))
         | None \<Rightarrow>
             let n = \<lparr>p_key = ip, p_mask = msk, p_len = len, p_rt = new # replicate (RT_ECMP - 1) rt_zero,
                      p_retry_ecmp = False\<rparr>;
                 p = (case ptn_find_lpm t ip len of None \<Rightarrow> [] | Some p \<Rightarrow> p);
                 s' = ospf_ecmp_add env n (s\<lparr>ptree_root := ptn_upd p (ptn_set_child n) t\<rparr>)
             in s'\<lparr>route_add_cnt := route_add_cnt s' + 1\<rparr>)"

definition route_add_e2 ::
    "ospf_renv \<Rightarrow> u32 \<Rightarrow> u32 \<Rightarrow> nat \<Rightarrow> u32 \<Rightarrow> u32 \<Rightarrow> u8 \<Rightarrow> u32 \<Rightarrow> u32 \<Rightarrow> u32 \<Rightarrow> ospf_rt \<Rightarrow> ospf_rt" where
  "route_add_e2 env ip msk len gw cost type e2 area_id ifip s =
     route_add env ip msk len gw cost type area_id ifip (s\<lparr>e2_cost := e2\<rparr>)"

definition first_rt :: "PTN \<Rightarrow> RT option" where
  "first_rt t = (case t of PNull \<Rightarrow> None
     | PNode _ d _ \<Rightarrow> if r_type (p_rt d ! 0) = RT_NONE then None else Some (p_rt d ! 0))"

definition route_find :: "u32 \<Rightarrow> u32 \<Rightarrow> nat \<Rightarrow> ospf_rt \<Rightarrow> RT option" where
  "route_find ip msk len s =
     (let (msk, len) = update_masklen msk len
      in case ptn_find (ptree_root s) ip len of
           None \<Rightarrow> None
         | Some p \<Rightarrow> first_rt (ptn_at p (ptree_root s)))"

definition route_find_lpm :: "u32 \<Rightarrow> u32 \<Rightarrow> nat \<Rightarrow> ospf_rt \<Rightarrow> RT option" where
  "route_find_lpm ip msk len s =
     (let (msk, len) = update_masklen msk len
      in case ptn_find_lpm (ptree_root s) ip len of
           None \<Rightarrow> None
         | Some p \<Rightarrow> first_rt (ptn_at p (ptree_root s)))"

section \<open>Walks over the table\<close>

primrec ptn_walk :: "(ptn_data \<Rightarrow> ospf_rt \<Rightarrow> ptn_data \<times> ospf_rt) \<Rightarrow> PTN \<Rightarrow> ospf_rt \<Rightarrow> PTN \<times> ospf_rt" where
  "ptn_walk f PNull s = (PNull, s)"
| "ptn_walk f (PNode l d r) s =
     (let (d, s) = (if r_type (p_rt d ! 0) \<noteq> RT_NONE then f d s else (d, s));
          (l, s) = ptn_walk f l s;
          (r, s) = ptn_walk f r s
      in (PNode l d r, s))"

definition route_walk :: "(ptn_data \<Rightarrow> ospf_rt \<Rightarrow> ptn_data \<times> ospf_rt) \<Rightarrow> ospf_rt \<Rightarrow> ospf_rt" where
  "route_walk f s = (case ptn_walk f (ptree_root s) s of (t, s') \<Rightarrow> s'\<lparr>ptree_root := t\<rparr>)"

definition callback_init :: "ptn_data \<Rightarrow> ospf_rt \<Rightarrow> ptn_data \<times> ospf_rt" where
  "callback_init d s =
     (d\<lparr>p_rt := map (\<lambda>rt. rt\<lparr>r_del_flag := True\<rparr>) (rts d) @ drop (length (rts d)) (p_rt d)\<rparr>, s)"

text \<open>The loop of \<open>callback_clear\<close>: after the removal of entry \<open>i\<close> the rest moves down and the loop goes
  on with \<open>i + 1\<close>; \<open>n\<close> counts the remaining iterations.\<close>

primrec clear_loop :: "nat \<Rightarrow> ospf_renv \<Rightarrow> nat \<Rightarrow> bool \<Rightarrow> ptn_data \<Rightarrow> ospf_rt \<Rightarrow> bool \<times> ptn_data \<times> ospf_rt" where
  "clear_loop 0 env i deleted d s = (deleted, d, s)"
| "clear_loop (Suc n) env i deleted d s =
     (if r_type (p_rt d ! i) = RT_NONE then (deleted, d, s)
      else if \<not> r_del_flag (p_rt d ! i) then clear_loop n env (i + 1) deleted d s
      else let s = ospf_ecmp_del env d s
           in clear_loop n env (i + 1) True (d\<lparr>p_rt := take i (p_rt d) @ drop (i + 1) (p_rt d) @ [rt_zero]\<rparr>)
                (s\<lparr>route_del_cnt := route_del_cnt s + 1\<rparr>))"

definition callback_clear :: "ospf_renv \<Rightarrow> ptn_data \<Rightarrow> ospf_rt \<Rightarrow> ptn_data \<times> ospf_rt" where
  "callback_clear env d s =
     (let (deleted, d, s) = clear_loop RT_ECMP env 0 False d s;
          s = (if deleted then ospf_ecmp_add env d s else s)
      in if p_retry_ecmp d
         then (d\<lparr>p_retry_ecmp := False\<rparr>, if length (rts d) < RT_ECMP then s\<lparr>spf_again := True\<rparr> else s)
         else (d, s))"

definition update_rt_start :: "ospf_rt \<Rightarrow> ospf_rt" where
  "update_rt_start = route_walk callback_init"

definition update_rt_finish :: "ospf_renv \<Rightarrow> ospf_rt \<Rightarrow> ospf_rt" where
  "update_rt_finish env = route_walk (callback_clear env)"

text \<open>\<open>ptn_purge\<close>: the children first; the root is never removed.\<close>

primrec ptn_purge :: "PTN \<Rightarrow> PTN" where
  "ptn_purge PNull = PNull"
| "ptn_purge (PNode l d r) =
     (let l = ptn_purge l; r = ptn_purge r
      in if l = PNull \<and> r = PNull \<and> r_type (p_rt d ! 0) = RT_NONE then PNull else PNode l d r)"

definition route_purge :: "ospf_rt \<Rightarrow> ospf_rt" where
  "route_purge s =
     (case ptree_root s of
        PNull \<Rightarrow> s
      | PNode l d r \<Rightarrow> s\<lparr>ptree_root := PNode (ptn_purge l) d (ptn_purge r)\<rparr>)"

text \<open>The connected routes of an area.\<close>

definition connected_route :: "ospf_renv \<Rightarrow> u32 \<Rightarrow> OspfNetwork \<Rightarrow> ospf_rt \<Rightarrow> ospf_rt" where
  "connected_route env area_id net =
     route_add env (net_ip net AND net_mask net) (net_mask net) 0 (net_ip net) (net_cost net) RT_CONNECTED area_id (net_ip net)"

definition update_rt_connected :: "ospf_renv \<Rightarrow> u32 \<Rightarrow> area_list \<Rightarrow> ospf_rt \<Rightarrow> ospf_rt" where
  "update_rt_connected env area_id al s =
     (case areaFind area_id al of
        None \<Rightarrow> s
      | Some i \<Rightarrow> fold (connected_route env area_id) (oa_network (al ! i)) s)"

section \<open>Bits of prefixes\<close>

lemma bit_msb: "bit (0x80000000 :: int) i \<longleftrightarrow> i = 31"
proof -
  have "(0x80000000 :: int) = 2 ^ 31" by simp
  then show ?thesis by (simp only: bit_exp_iff) simp
qed

lemma CHECK_BIT_bit: "1 \<le> j \<Longrightarrow> j \<le> 32 \<Longrightarrow> CHECK_BIT k j \<longleftrightarrow> bit k (32 - j)"
proof -
  assume j: "1 \<le> j" "j \<le> 32"
  have "drop_bit (j - 1) (0x80000000 :: u32) = 2 ^ (32 - j)"
    by (rule bit_eqI) (use j in \<open>auto simp: bit_drop_bit_eq bit_msb bit_exp_iff\<close>)
  then show ?thesis by (simp add: CHECK_BIT_def and_exp_eq_0_iff_not_bit)
qed

lemma MATCH_KEY_bits:
  "n \<le> 32 \<Longrightarrow> MATCH_KEY k1 k2 (cidr_mask n) \<longleftrightarrow> (\<forall>i < 32. 32 - n \<le> i \<longrightarrow> bit k1 i = bit k2 i)"
  by (auto simp: MATCH_KEY_def bit_eq_iff bit_and_iff bit_cidr_mask)

lemma cidr_mask_Suc: "n < 32 \<Longrightarrow> drop_bit 1 (cidr_mask n) OR 0x80000000 = cidr_mask (Suc n)"
  by (rule bit_eqI) (auto simp: bit_or_iff bit_drop_bit_eq bit_msb bit_cidr_mask)

lemma update_masklen_cidr: "0 < n \<Longrightarrow> n \<le> 32 \<Longrightarrow> update_masklen (cidr_mask n) k = (cidr_mask n, n)"
proof -
  assume n: "0 < n" "n \<le> 32"
  have "bit (cidr_mask n) 31" using n by (simp add: bit_cidr_mask)
  then have "cidr_mask n \<noteq> 0" by auto
  then show ?thesis using n by (simp add: update_masklen_def mask2bits_cidr_mask unat_of_nat)
qed

text \<open>\<open>split\<close> finds the first bit in which the keys differ.\<close>

lemma split_loop_spec:
  assumes "split_loop n len (cidr_mask len) k1 k2 = (j, m)" "1 \<le> len" "len + n = 32" "k1 \<noteq> k2"
    and "\<forall>i < 32. 32 - len < i \<longrightarrow> bit k1 i = bit k2 i"
  shows "1 \<le> j \<and> j \<le> 32 \<and> bit k1 (32 - j) \<noteq> bit k2 (32 - j) \<and> (\<forall>i < 32. 32 - j < i \<longrightarrow> bit k1 i = bit k2 i)"
  using assms
proof (induction n arbitrary: len)
  case 0
  have "bit k1 0 \<noteq> bit k2 0"
  proof
    assume "bit k1 0 = bit k2 0"
    then have "bit k1 i = bit k2 i" if "i < 32" for i using that 0 by (cases i) simp_all
    then have "k1 = k2" by (intro bit_word_eqI) simp
    then show False using 0 by simp
  qed
  with 0 show ?case by simp
next
  case (Suc n)
  have eq: "cidr_mask len AND k1 = cidr_mask len AND k2 \<longleftrightarrow> (\<forall>i < 32. 32 - len \<le> i \<longrightarrow> bit k1 i = bit k2 i)"
    using MATCH_KEY_bits [of len k1 k2] Suc.prems by (simp add: MATCH_KEY_def and.commute)
  show ?case
  proof (cases "cidr_mask len AND k1 = cidr_mask len AND k2")
    case True
    then have "split_loop n (Suc len) (cidr_mask (Suc len)) k1 k2 = (j, m)"
      using Suc.prems cidr_mask_Suc [of len] by simp
    moreover have "\<forall>i < 32. 32 - Suc len < i \<longrightarrow> bit k1 i = bit k2 i"
      using True [unfolded eq] Suc.prems by auto
    ultimately show ?thesis using Suc.IH [of "Suc len"] Suc.prems by simp
  next
    case False
    then have j: "j = len" using Suc.prems by simp
    from False [unfolded eq] obtain i where i: "i < 32" "32 - len \<le> i" "bit k1 i \<noteq> bit k2 i" by blast
    then have "i = 32 - len" using Suc.prems(5) by (metis le_neq_implies_less)
    then show ?thesis using j i Suc.prems by simp
  qed
qed

lemma split_node_spec:
  assumes "n \<le> 32" "\<not> MATCH_KEY k1 k2 (cidr_mask n)"
  shows "p_len (split_node k1 k2) < n"
    "CHECK_BIT k1 (Suc (p_len (split_node k1 k2))) \<longleftrightarrow> \<not> CHECK_BIT k2 (Suc (p_len (split_node k1 k2)))"
proof -
  obtain j m where jm: "split_loop 31 1 0x80000000 k1 k2 = (j, m)" by (cases "split_loop 31 1 0x80000000 k1 k2")
  have "k1 \<noteq> k2" using assms(2) by (auto simp: MATCH_KEY_def)
  moreover have "(0x80000000 :: u32) = cidr_mask 1" using cidr_mask_Suc [of 0] by (simp add: cidr_mask_def)
  ultimately have j: "1 \<le> j" "j \<le> 32" "bit k1 (32 - j) \<noteq> bit k2 (32 - j)" "\<forall>i < 32. 32 - j < i \<longrightarrow> bit k1 i = bit k2 i"
    using split_loop_spec [of 31 1 k1 k2 j m] jm by auto
  have len: "p_len (split_node k1 k2) = j - 1" by (simp add: split_node_def jm [simplified] Let_def)
  obtain i where i: "i < 32" "32 - n \<le> i" "bit k1 i \<noteq> bit k2 i" using assms MATCH_KEY_bits by blast
  then have "i \<le> 32 - j" using j(4) by (meson not_le)
  then show "p_len (split_node k1 k2) < n" using i j len by linarith
  show "CHECK_BIT k1 (Suc (p_len (split_node k1 k2))) \<longleftrightarrow> \<not> CHECK_BIT k2 (Suc (p_len (split_node k1 k2)))"
    using j by (simp add: len CHECK_BIT_bit)
qed

section \<open>Lookup after insertion\<close>

lemma set_link_data [simp]: "node_data (set_link b c t) = node_data t"
  by (cases t) (simp_all add: set_link_def node_data_def)

lemma set_child_data [simp]: "node_data (ptn_set_child c t) = node_data t"
  by (cases t) (simp_all add: ptn_set_child_def Let_def node_data_def set_link_def split: PTN.split)

lemma ptn_upd_data: "(\<And>t. node_data (f t) = node_data t) \<Longrightarrow> node_data (ptn_upd p f t) = node_data t"
  by (induction p f t rule: ptn_upd.induct) (auto simp: node_data_def)

lemma node_data_Some: "node_data t = Some d \<Longrightarrow> \<exists>l r. t = PNode l d r"
  by (cases t) (simp_all add: node_data_def)

text \<open>A child that is hung below a node that the search reaches is found by the search.\<close>

definition found_at :: "PTN \<Rightarrow> ptn_data \<Rightarrow> bool list \<Rightarrow> bool" where
  "found_at t c q \<longleftrightarrow> ptn_find t (p_key c) (p_len c) = Some q \<and> node_data (ptn_at q t) = Some c"

lemma found_at_child:
  assumes "\<not> (p_key d = p_key c \<and> p_len d = p_len c)" "b = CHECK_BIT (p_key c) (Suc (p_len d))"
    and "(if b then r else l) = n" "node_data n = Some d'" "p_len d' \<le> p_len c" "found_at n c q"
  shows "found_at (PNode l d r) c (b # q)"
  using assms node_data_Some [OF assms(4)] by (auto simp: found_at_def)

lemma found_at_here: "found_at (PNode l c r) c []"
  by (simp add: found_at_def node_data_def)

lemma found_set_child:
  assumes "p_len c \<le> 32" "p_mask c = cidr_mask (p_len c)" "\<not> (p_key d = p_key c \<and> p_len d = p_len c)"
  shows "\<exists>q. found_at (ptn_set_child c (PNode l d r)) c q"
proof -
  define b where "b = CHECK_BIT (p_key c) (Suc (p_len d))"
  let ?c = "PNode PNull c PNull"
  have above: "\<exists>q. found_at (set_link b n (PNode l d r)) c q"
    if "node_data n = Some d'" "p_len d' \<le> p_len c" "found_at n c q" for n d' q
    using found_at_child [OF assms(3) b_def _ that, of "if b then n else r" "if b then l else n"]
    by (cases b) (auto simp: set_link_def)
  show ?thesis
  proof (cases "if b then r else l")
    case PNull
    have "\<exists>q. found_at (set_link b ?c (PNode l d r)) c q"
      by (rule above [of _ c "[]"]) (simp_all add: node_data_def found_at_here)
    then show ?thesis using PNull by (simp add: ptn_set_child_def Let_def b_def)
  next
    case (PNode el ed er)
    show ?thesis
    proof (cases "MATCH_KEY (p_key c) (p_key ed) (p_mask c)")
      case True
      have "\<exists>q. found_at (set_link b (set_link b (PNode el ed er) ?c) (PNode l d r)) c q"
        by (rule above [of _ c "[]"]) (cases b; simp add: node_data_def found_at_here set_link_def)+
      then show ?thesis using PNode True by (simp add: ptn_set_child_def Let_def b_def)
    next
      case False
      define n where "n = split_node (p_key c) (p_key ed)"
      define b' where "b' = CHECK_BIT (p_key ed) (Suc (p_len n))"
      have n: "p_len n < p_len c" "CHECK_BIT (p_key c) (Suc (p_len n)) \<longleftrightarrow> \<not> b'"
        using split_node_spec [OF assms(1) False [unfolded assms(2)]] by (simp_all add: n_def b'_def)
      let ?sn = "if b' then PNode ?c n (PNode el ed er) else PNode (PNode el ed er) n ?c"
      have "found_at ?sn c [\<not> b']"
        using found_at_child [of n c "\<not> b'" "if b' then PNode el ed er else ?c" "if b' then ?c else PNode el ed er" ?c c "[]"] n
        by (cases b') (simp_all add: node_data_def found_at_here)
      then have "\<exists>q. found_at (set_link b ?sn (PNode l d r)) c q"
        using n(1) by (intro above [of _ n "[\<not> b']"]) (simp_all add: node_data_def)
      moreover have "ptn_set_child c (PNode l d r) = set_link b ?sn (PNode l d r)"
        using PNode False by (simp add: ptn_set_child_def Let_def b_def [symmetric] n_def [symmetric] b'_def [symmetric])
      ultimately show ?thesis by metis
    qed
  qed
qed

lemma found_after_insert:
  assumes c: "p_len c \<le> 32" "p_mask c = cidr_mask (p_len c)"
  shows "ptn_find t (p_key c) (p_len c) = None \<Longrightarrow> ptn_find_lpm t (p_key c) (p_len c) = Some p \<Longrightarrow>
    \<exists>q. found_at (ptn_upd p (ptn_set_child c) t) c q"
proof (induction t arbitrary: p)
  case (PNode l d r)
  define b where "b = CHECK_BIT (p_key c) (Suc (p_len d))"
  let ?n = "if b then r else l"
  have ne: "\<not> (p_key d = p_key c \<and> p_len d = p_len c)" using PNode.prems(1) by (auto split: if_splits)
  show ?case
  proof (cases "p = []")
    case True
    then show ?thesis using found_set_child [OF c ne] by simp
  next
    case False
    then obtain q where q: "p = b # q" "ptn_find_lpm ?n (p_key c) (p_len c) = Some q"
      using PNode.prems(2) ne by (auto simp: b_def Let_def split: if_splits option.splits)
    then obtain el ed er where n: "?n = PNode el ed er" by (cases ?n) auto
    have len: "p_len ed \<le> p_len c" using q(2) n by (auto split: if_splits)
    have "ptn_find ?n (p_key c) (p_len c) = None"
      using PNode.prems(1) ne n len by (cases b) (auto simp: b_def [symmetric] Let_def)
    then obtain q' where q': "found_at (ptn_upd q (ptn_set_child c) ?n) c q'"
      using PNode.IH [of q] q(2) by (cases b) auto
    have "node_data (ptn_upd q (ptn_set_child c) ?n) = Some ed"
      by (simp add: ptn_upd_data n) (simp add: node_data_def)
    from found_at_child [OF ne b_def _ this len q', of "if b then ptn_upd q (ptn_set_child c) r else r"
        "if b then l else ptn_upd q (ptn_set_child c) l"]
    show ?thesis using q(1) by (cases b) auto
  qed
qed simp

end
