(* ===== verification/Ospf_RouteProps.thy ===== *)
theory Ospf_RouteProps
  imports Ospf_RouteInv
begin

text \<open>
  Properties of the OSPF routing table: the invariant over all sequences of operations, lookups after
  an insertion, and the cases in which the tree, the longest prefix match and the end of an SPF cycle
  do not do what they are meant to do.
\<close>

section \<open>Lookup after route_add\<close>

lemma lpm_from_root: "table_ok t \<Longrightarrow> t \<noteq> PNull \<Longrightarrow> \<exists>p. ptn_find_lpm t k n = Some p"
  by (cases t) (auto simp: table_ok_def MATCH_KEY_def Let_def split: option.split)

lemma first_rt_at: "node_data (ptn_at q t) = Some d \<Longrightarrow>
  first_rt (ptn_at q t) = (if r_type (p_rt d ! 0) = 0 then None else Some (p_rt d ! 0))"
  using node_data_Some [of "ptn_at q t" d] by (auto simp: first_rt_def)

lemma route_find_root:
  "0 < n \<Longrightarrow> n \<le> 32 \<Longrightarrow> route_find ip (cidr_mask n) k s =
     (case ptn_find (tree_or_root s) ip n of None \<Rightarrow> None | Some p \<Rightarrow> first_rt (ptn_at p (tree_or_root s)))"
  by (auto simp: route_find_def update_masklen_cidr tree_or_root_def root_init_def split: option.split)

definition added_route :: "RT option \<Rightarrow> RT \<Rightarrow> RT \<Rightarrow> bool" where
  "added_route before new rt \<longleftrightarrow>
     (case before of
        None \<Rightarrow> rt = new
      | Some old \<Rightarrow> r_cost rt \<le> r_cost new \<and> (rt = new \<or> (\<exists>f. rt = old\<lparr>r_del_flag := f\<rparr>)))"

lemma replace_lookup:
  assumes "node_ok d" "r_type new \<noteq> 0" "d' = fst (route_replace env new d s)"
  shows "r_type (p_rt d' ! 0) \<noteq> 0 \<and>
    added_route (if r_type (p_rt d ! 0) = 0 then None else Some (p_rt d ! 0)) new (p_rt d' ! 0)"
proof (cases "r_type (p_rt d ! 0) = 0")
  case True
  then show ?thesis using route_replace_fresh [OF assms(1)] assms(2,3) by (simp add: added_route_def)
next
  case False
  then show ?thesis using route_replace_head [OF assms(1) False, of env new s] assms(2,3)
    by (auto simp: added_route_def)
qed

text \<open>After \<open>route_add\<close> of a prefix, \<open>route_find\<close> returns a route for it: the new route if the
  prefix had none, and otherwise the new route or the one that was there, never one that costs more
  than the new route.\<close>

theorem route_add_find:
  assumes "table_ok (ptree_root s)" "0 < n" "n \<le> 32" "type \<noteq> RT_NONE"
  shows "\<exists>rt. route_find ip (cidr_mask n) 0 (route_add env ip (cidr_mask n) 0 gw cost type area_id ifip s) = Some rt \<and>
    added_route (route_find ip (cidr_mask n) 0 s) (new_rt ip (cidr_mask n) gw cost type area_id ifip s) rt"
proof -
  let ?t = "tree_or_root s" and ?new = "new_rt ip (cidr_mask n) gw cost type area_id ifip s"
  have t: "table_ok ?t" "?t \<noteq> PNull" "all_nodes node_ok ?t"
    using tree_or_root_ok [OF assms(1)] by (simp_all add: table_ok_def)
  have new: "r_type ?new \<noteq> 0" "r_ip ?new = ip" using assms(4) by (simp_all add: new_rt_def)
  note mn = update_masklen_cidr [OF assms(2,3), of 0]
  show ?thesis
  proof (cases "ptn_find ?t ip n")
    case None
    let ?n = "\<lparr>p_key = ip, p_mask = cidr_mask n, p_len = n, p_rt = ?new # replicate (RT_ECMP - 1) rt_zero, p_retry_ecmp = False\<rparr>"
    obtain p where p: "ptn_find_lpm ?t ip n = Some p" using lpm_from_root [OF t(1,2)] by blast
    obtain q where "found_at (ptn_upd p (ptn_set_child ?n) ?t) ?n q"
      using found_after_insert [of ?n ?t p] None p assms(3) by auto
    then show ?thesis
      using None mn p new first_rt_at [of q "ptn_upd p (ptn_set_child ?n) ?t" ?n] route_find_root [OF assms(2,3), of ip 0 s]
      by (auto simp: route_add_def route_find_def Let_def found_at_def added_route_def)
  next
    case (Some p)
    then obtain l d r where d: "ptn_at p ?t = PNode l d r" "p_key d = ip" using ptn_find_at by blast
    obtain d' s' where rep: "route_replace env ?new d s = (d', s')" by (cases "route_replace env ?new d s")
    have ok: "node_ok d" using ptn_at_nodes [OF t(3), of p] d by simp
    have "same_prefix d d'" using route_replace_node [of ?new d env s] new d rep by (simp add: node_upd_def)
    from ptn_find_upd [OF Some d(1) this] replace_lookup [OF ok new(1), of d' env s] show ?thesis
      using Some mn d rep route_find_root [OF assms(2,3), of ip 0 s]
      by (simp add: route_add_def route_find_def Let_def first_rt_def)
  qed
qed

section \<open>Example states\<close>

definition rt_state0 :: ospf_rt where
  "rt_state0 = \<lparr>ptree_root = PNull, e2_cost = 0, o_muxsock = True, o_out = [], route_add_cnt = 0, route_del_cnt = 0,
                route_replaced_cnt = 0, spf_again = False\<rparr>"

definition rt_env0 :: ospf_renv where
  "rt_env0 = \<lparr>rip_redist = False, send_ok = \<lambda>_. True\<rparr>"

lemma table_ok0: "table_ok (ptree_root rt_state0)"
  by (simp add: rt_state0_def table_ok_def)

theorem route_add_find_witness:
  "\<exists>rt. route_find 0x0A000000 (cidr_mask 8) 0 (route_add rt_env0 0x0A000000 (cidr_mask 8) 0 5 10 RT_OSPF 0 7 rt_state0) = Some rt \<and>
    added_route (route_find 0x0A000000 (cidr_mask 8) 0 rt_state0) (new_rt 0x0A000000 (cidr_mask 8) 5 10 RT_OSPF 0 7 rt_state0) rt"
  using table_ok0 by (intro route_add_find) simp_all




section \<open>Routes that are lost\<close>

text \<open>Adding a route from 10.0.0.0/8 as an OSPF route with cost 10.\<close>

definition add0 :: "u32 \<Rightarrow> u32 \<Rightarrow> ospf_rt \<Rightarrow> ospf_rt" where
  "add0 ip msk = route_add rt_env0 ip msk 0 5 10 RT_OSPF 0 7"

text \<open>Adding 10.0.0.0/8 makes the route to 10.128.0.0/16 unreachable for \<open>route_find\<close>: \<open>ptn_set_child\<close> hangs
  the node that is already there below the link of the new node that was computed for its parent.\<close>

theorem route_add_hides:
  "route_find 0x0A800000 0xFFFF0000 0 (add0 0x0A800000 0xFFFF0000 rt_state0) \<noteq> None \<and>
   route_find 0x0A800000 0xFFFF0000 0 (add0 0x0A000000 0xFF000000 (add0 0x0A800000 0xFFFF0000 rt_state0)) = None"
  by code_simp

text \<open>With routes to 10.0.0.0/8, 10.1.0.0/16 and 10.2.0.0/16 the longest prefix match for 10.3.0.1 finds
  nothing, although 10.0.0.0/8 contains the address: the search stops at the inner node that joins
  the two longer prefixes and has no route. For 10.128.0.1 it finds the route.\<close>

theorem lpm_misses_covering:
  "let s = add0 0x0A020000 0xFFFF0000 (add0 0x0A010000 0xFFFF0000 (add0 0x0A000000 0xFF000000 rt_state0))
   in route_find 0x0A000000 0xFF000000 0 s \<noteq> None \<and> route_find_lpm 0x0A030001 0xFFFFFFFF 0 s = None \<and>
      route_find_lpm 0x0A800001 0xFFFFFFFF 0 s = route_find 0x0A000000 0xFF000000 0 s"
  by code_simp

section \<open>The end of an SPF cycle\<close>

text \<open>What the loop of \<open>callback_clear\<close> leaves: the entry after a removed one is not looked at.\<close>

fun clear_spec :: "RT list \<Rightarrow> RT list" where
  "clear_spec [] = []"
| "clear_spec [x] = (if r_del_flag x then [] else [x])"
| "clear_spec (x # y # ys) = (if r_del_flag x then y # clear_spec ys else x # clear_spec (y # ys))"

lemma clear_spec_set: "set (clear_spec xs) \<subseteq> set xs"
  by (induction xs rule: clear_spec.induct) auto

lemma clear_spec_length: "length (clear_spec xs) \<le> length xs"
  by (induction xs rule: clear_spec.induct) auto

lemma clear_spec_keep: "\<not> r_del_flag x \<Longrightarrow> clear_spec (x # xs) = x # clear_spec xs"
  by (cases xs) simp_all

lemma shift_entry:
  assumes "length xs = i" "p = xs @ (y # zs) @ replicate (4 - i - length (y # zs)) rt_zero" "i + length (y # zs) \<le> 4"
  shows "take i p @ drop (Suc i) p @ [rt_zero] = xs @ zs @ replicate (4 - i - length zs) rt_zero"
proof -
  have "4 - i - length zs = Suc (4 - i - length (y # zs))" using assms(3) by simp
  then show ?thesis using assms(1,2) by (simp add: replicate_append_same)
qed

lemma clear_loop_spec:
  assumes "clear_loop n env i del d s = (del', d', s')" "length xs = i" "i + n = 4"
    and "p_rt d = xs @ ys @ replicate (4 - i - length ys) rt_zero" "i + length ys \<le> 4"
    and "\<forall>rt \<in> set ys. r_type rt \<noteq> 0"
  shows "p_rt d' = xs @ clear_spec ys @ replicate (4 - i - length (clear_spec ys)) rt_zero \<and>
    p_retry_ecmp d' = p_retry_ecmp d \<and> del' = (del \<or> length (clear_spec ys) < length ys)"
  using assms
proof (induction n arbitrary: i del d s xs ys)
  case 0
  then show ?case by simp
next
  case (Suc n)
  show ?case
  proof (cases ys)
    case Nil
    then have "p_rt d ! i = rt_zero" using Suc.prems by (simp add: nth_append)
    then show ?thesis using Suc.prems Nil by (simp add: rt_zero_def)
  next
    case (Cons y zs)
    then have y: "p_rt d ! i = y" "r_type y \<noteq> 0" using Suc.prems by (simp_all add: nth_append)
    show ?thesis
    proof (cases "r_del_flag y")
      case False
      then have "clear_loop n env (Suc i) del d s = (del', d', s')" using Suc.prems(1) y by simp
      from Suc.IH [OF this, of "xs @ [y]" zs] show ?thesis
        using Suc.prems Cons False by (simp add: clear_spec_keep)
    next
      case True
      let ?d = "d\<lparr>p_rt := take i (p_rt d) @ drop (Suc i) (p_rt d) @ [rt_zero]\<rparr>"
      obtain s1 where loop: "clear_loop n env (Suc i) True ?d s1 = (del', d', s')"
        using Suc.prems(1) y True by (simp add: Let_def)
      have p: "p_rt ?d = xs @ zs @ replicate (4 - i - length zs) rt_zero"
        using shift_entry [OF Suc.prems(2), of "p_rt d" y zs] Suc.prems(4,5) Cons by simp
      show ?thesis
      proof (cases zs)
        case Nil
        have "4 - i = Suc (3 - i)" using Suc.prems(3) by simp
        then show ?thesis using Suc.IH [OF loop, of "xs @ [rt_zero]" "[]"] p Suc.prems Cons Nil True by simp
      next
        case (Cons z ws)
        then show ?thesis
          using Suc.IH [OF loop, of "xs @ [z]" ws] p Suc.prems \<open>ys = y # zs\<close> True clear_spec_length [of ws]
          by simp
      qed
    qed
  qed
qed

lemma callback_clear_rts:
  assumes "node_ok d"
  shows "rts (fst (callback_clear env d s)) = clear_spec (rts d)"
proof -
  obtain del' d' s' where loop: "clear_loop 4 env 0 False d s = (del', d', s')" by (cases "clear_loop 4 env 0 False d s")
  have "p_rt d' = clear_spec (rts d) @ replicate (4 - length (clear_spec (rts d))) rt_zero"
    using clear_loop_spec [OF loop, of "[]" "rts d"] assms rts_type rts_length by (simp add: node_ok_def)
  then have "rts d' = clear_spec (rts d)"
    using rts_type clear_spec_set clear_spec_length [of "rts d"] rts_length [of d] by (intro rts_eq) fastforce+
  then show ?thesis using loop by (simp add: callback_clear_def Let_def rts_def)
qed

text \<open>No two neighbouring entries are marked.\<close>

fun marks_apart :: "RT list \<Rightarrow> bool" where
  "marks_apart (x # y # ys) \<longleftrightarrow> \<not> (r_del_flag x \<and> r_del_flag y) \<and> marks_apart (y # ys)"
| "marks_apart xs \<longleftrightarrow> True"

lemma clear_spec_filter: "marks_apart xs \<Longrightarrow> clear_spec xs = filter (Not \<circ> r_del_flag) xs"
proof (induction xs rule: clear_spec.induct)
  case (3 x y ys)
  then have "marks_apart ys" by (cases ys) simp_all
  then show ?case using 3 by auto
qed simp_all

text \<open>At the end of an SPF cycle \<open>callback_clear\<close> removes exactly the routes of a node that were not found
  again in the cycle, if no two neighbouring entries are to be removed.\<close>

theorem callback_clear_filter:
  "node_ok d \<Longrightarrow> marks_apart (rts d) \<Longrightarrow> rts (fst (callback_clear env d s)) = filter (Not \<circ> r_del_flag) (rts d)"
  by (simp add: callback_clear_rts clear_spec_filter)

definition ecmp_node :: "bool \<Rightarrow> bool \<Rightarrow> ptn_data" where
  "ecmp_node f g = \<lparr>p_key = 0x0A000000, p_mask = 0xFF000000, p_len = 8,
     p_rt = [\<lparr>r_ip = 0x0A000000, r_mask = 0xFF000000, r_gw = 5, r_cost = 10, r_e2_cost = 0, r_area_id = 0, r_ifip = 7,
              r_type = RT_OSPF, r_del_flag = f\<rparr>,
             \<lparr>r_ip = 0x0A000000, r_mask = 0xFF000000, r_gw = 6, r_cost = 10, r_e2_cost = 0, r_area_id = 0, r_ifip = 7,
              r_type = RT_OSPF, r_del_flag = g\<rparr>, rt_zero, rt_zero], p_retry_ecmp = False\<rparr>"

lemma ecmp_node_rts: "rts (ecmp_node f g) = take 2 (p_rt (ecmp_node f g))"
  by (simp add: rts_def ecmp_node_def rt_zero_def)

lemma ecmp_node_ok: "node_ok (ecmp_node f g)"
  unfolding node_ok_def ecmp_node_rts by (simp add: ecmp_node_def hop_def numeral_nat)

theorem callback_clear_filter_witness:
  "rts (fst (callback_clear rt_env0 (ecmp_node True False) rt_state0)) = filter (Not \<circ> r_del_flag) (rts (ecmp_node True False))"
  by (rule callback_clear_filter [OF ecmp_node_ok]) (simp add: ecmp_node_rts, simp add: ecmp_node_def)

text \<open>If both routes of a node are to be removed, the loop skips the second one: it stays in the table,
  still marked, and is installed in the kernel again.\<close>

theorem callback_clear_stale:
  assumes "node_ok d" "rts d = [a, b]" "r_del_flag a" "r_del_flag b" "r_type b = RT_OSPF" "\<not> rip_redist env"
  shows "rts (fst (callback_clear env d s)) = [b] \<and>
    last (o_out (snd (callback_clear env d s))) = OAddRoute (r_type b) (r_ip b) (r_mask b) (r_gw b) (r_cost b)"
proof -
  obtain del' d' s' where loop: "clear_loop 4 env 0 False d s = (del', d', s')" by (cases "clear_loop 4 env 0 False d s")
  have p: "p_rt d' = [b, rt_zero, rt_zero, rt_zero]" and del': "del'"
    using clear_loop_spec [OF loop, of "[]" "rts d"] assms rts_type [of _ d] by (simp_all add: node_ok_def numeral_nat)
  then have "rts d' = [b]" using assms(5) by (simp add: rts_def rt_zero_def)
  then have "o_out (ospf_ecmp_add env d' s') = o_out s' @ [OAddRoute (r_type b) (r_ip b) (r_mask b) (r_gw b) (r_cost b)]"
    using p assms(5,6) by (simp add: ospf_ecmp_add_def redistribute_route_def o_emit_def)
  then have "last (o_out (snd (callback_clear env d s))) = OAddRoute (r_type b) (r_ip b) (r_mask b) (r_gw b) (r_cost b)"
    using loop del' by (simp add: callback_clear_def Let_def)
  then show ?thesis using callback_clear_rts [OF assms(1), of env s] assms(2-4) by simp
qed

theorem callback_clear_stale_witness:
  "rts (fst (callback_clear rt_env0 (ecmp_node True True) rt_state0)) = [p_rt (ecmp_node True True) ! 1] \<and>
   last (o_out (snd (callback_clear rt_env0 (ecmp_node True True) rt_state0))) = OAddRoute RT_OSPF 0x0A000000 0xFF000000 6 10"
  using callback_clear_stale [OF ecmp_node_ok, of True True "p_rt (ecmp_node True True) ! 0" "p_rt (ecmp_node True True) ! 1" rt_env0 rt_state0]
  unfolding ecmp_node_rts by (simp add: ecmp_node_def rt_env0_def numeral_nat)

end
