(* ===== verification/Ospf_Nfsm.thy ===== *)
theory Ospf_Nfsm
  imports Ospf_Lsdb
begin

text \<open>
  Header lists (\<open>ospf/exec/lsa_header_list.c\<close>), the construction of database description and request
  packets (\<open>dbdesc.c\<close>, \<open>lsrequest.c\<close>) and the neighbour state machine (\<open>neighbor_fsm.c\<close>). The functions
  work on a network and the position of the neighbour in its list. What they ask of other parts of
  the process (packets to send, changes of the link state database, SNMP traps) is appended to a list
  of calls in program order.
\<close>

section \<open>Header lists\<close>

definition lsahListAdd :: "OspfLsaHeader \<Rightarrow> OspfLsaHeaderList list \<Rightarrow> OspfLsaHeaderList list" where
  "lsahListAdd lsah head = \<lparr>hl_ack = False, hl_sent = False, hl_header = lsah\<rparr> # head"

definition lsahListIsAck :: "OspfLsaHeaderList list \<Rightarrow> bool" where
  "lsahListIsAck head \<longleftrightarrow> head \<noteq> [] \<and> list_all hl_ack head"

definition lsahListPurge :: "OspfLsaHeaderList list \<Rightarrow> OspfLsaHeaderList list" where
  "lsahListPurge head = dropWhile hl_ack head"

fun lsahListRemove :: "u8 \<Rightarrow> u32 \<Rightarrow> u32 \<Rightarrow> OspfLsaHeaderList list \<Rightarrow> OspfLsaHeaderList list" where
  "lsahListRemove type lsid adv [] = []"
| "lsahListRemove type lsid adv (x # xs) =
     (if lh_type (hl_header x) = type \<and> lh_link_state_id (hl_header x) = lsid \<and> lh_adv_router (hl_header x) = adv
      then xs else x # lsahListRemove type lsid adv xs)"

section \<open>Calls and environment\<close>

datatype adj_call =
    CTrapNbr u32 nat
  | CTrapIf u32 nat
  | COriginateNet u32 u32 u32 "u32 list"
  | COriginateRtr u32
  | CNetUpdate
  | CAgeNeighbor u32 u32
  | CAgeNeighborNetwork u32 u32 u32
  | CClearRxmt u32
  | CRxmtTick u32
  | CSend u32 u32 OspfPacket
  | CMulticast u32 OspfPacket
  | CTrapConfigError u32 nat
  | CRtrUpdate
  | CMultiJoin u32
  | CMultiDrop u32
  | CAgeArea u32
  | CRemoveArea u32
  | CRedistStatic
  | CSpfTrigger
  | CSpfTriggerNow
  | CClearRoutes
  | CRequestRip nat
  | CSumDefault u32 u32
  | CRemoveSumDefault u32
  | CClearExternal

type_synonym net_out = "OspfNetwork \<times> adj_call list"

text \<open>What the functions read from outside: whether the area is a stub, the time, the MTU of the
  interface with its ignore flag, the headers of the link state database by type, and the lookup
  of a header in it.\<close>

record nb_env =
  ne_stub :: bool
  ne_time :: u32
  ne_intf :: "(u32 \<times> bool) option"
  ne_lsas :: "nat \<Rightarrow> OspfLsaHeader list"
  ne_find :: "OspfLsaHeader \<Rightarrow> OspfLsaHeader option"

definition nb_of :: "nat \<Rightarrow> net_out \<Rightarrow> OspfNeighbor" where
  "nb_of k s = net_neighbor (fst s) ! k"

definition upd_nb :: "nat \<Rightarrow> (OspfNeighbor \<Rightarrow> OspfNeighbor) \<Rightarrow> net_out \<Rightarrow> net_out" where
  "upd_nb k f s = ((fst s)\<lparr>net_neighbor := upd_pos k f (net_neighbor (fst s))\<rparr>, snd s)"

definition call :: "adj_call \<Rightarrow> net_out \<Rightarrow> net_out" where
  "call c s = (fst s, snd s @ [c])"

definition set_state :: "nat \<Rightarrow> nat \<Rightarrow> net_out \<Rightarrow> net_out" where
  "set_state k st = upd_nb k (\<lambda>nb. nb\<lparr>on_state := st\<rparr>)"

section \<open>Packets\<close>

text \<open>The loop over \<open>ddsum\<close>: the headers that are not acknowledged, at most \<open>OSPF_DD_MAX\<close>, are copied to
  the packet and marked as sent.\<close>

fun dd_fill :: "nat \<Rightarrow> OspfLsaHeaderList list \<Rightarrow> OspfLsaHeader list \<times> OspfLsaHeaderList list" where
  "dd_fill 0 xs = ([], xs)"
| "dd_fill (Suc n) [] = ([], [])"
| "dd_fill (Suc n) (x # xs) =
     (if hl_ack x then (case dd_fill (Suc n) xs of (hs, ys) \<Rightarrow> (hs, x # ys))
      else (case dd_fill n xs of (hs, ys) \<Rightarrow> (hl_header x # hs, x\<lparr>hl_sent := True\<rparr> # ys)))"

definition dbdescBuildPkt :: "nb_env \<Rightarrow> nat \<Rightarrow> u8 \<Rightarrow> net_out \<Rightarrow> OspfPacket \<times> net_out" where
  "dbdescBuildPkt env k flds s =
     (let nb = nb_of k s;
          (hs, dds) = (if on_state nb = NSTATE_EXCHANGE then dd_fill OSPF_DD_MAX (on_ddsum nb) else ([], on_ddsum nb));
          pkt = DdPkt \<lparr>dd_mtu = (case ne_intf env of None \<Rightarrow> 1500 | Some (mtu, _) \<Rightarrow> ucast mtu),
                       dd_options = (if ne_stub env then on_options nb AND 2 else on_options nb OR 2),
                       dd_fields = (if on_state nb = NSTATE_EXSTART then 7 else flds),
                       dd_seq = on_dd_seq_number nb\<rparr> hs
      in (pkt, upd_nb k (\<lambda>nb. nb\<lparr>on_ddsum := dds, on_last_dd_pkt := Some pkt,
                                on_dd_rxmt_timer := sint (net_rxtm_interval (fst s))\<rparr>) s))"

definition header_request :: "OspfLsaHeaderList \<Rightarrow> OspfLsRequest" where
  "header_request x = \<lparr>rq_type = ucast (lh_type (hl_header x)), rq_id = lh_link_state_id (hl_header x),
                       rq_adv_router = lh_adv_router (hl_header x)\<rparr>"

text \<open>With an empty request list the function returns without building a packet.\<close>

definition lsrequestBuildPkt :: "nat \<Rightarrow> net_out \<Rightarrow> OspfPacket option \<times> net_out" where
  "lsrequestBuildPkt k s =
     (let lsreq = on_lsreq (nb_of k s);
          pkt = LsReqPkt (map header_request (take OSPF_LS_REQ_MAX (filter (\<lambda>x. \<not> hl_ack x) lsreq)))
      in if lsreq = [] then (None, s)
         else (Some pkt, upd_nb k (\<lambda>nb. nb\<lparr>on_last_lsreq_pkt := Some pkt,
                                         on_lsreq_rxmt_timer := sint (net_rxtm_interval (fst s))\<rparr>) s))"

definition txpacket_unicast :: "nat \<Rightarrow> OspfPacket \<Rightarrow> net_out \<Rightarrow> net_out" where
  "txpacket_unicast k pkt s = call (CSend (net_ip (fst s)) (on_ip (nb_of k s)) pkt) s"

section \<open>The neighbour state machine\<close>

text \<open>\<open>TRACE_NSTATE\<close>: an SNMP trap when the state regresses or is 2-Way or Full.\<close>

definition trace_nstate :: "nat \<Rightarrow> nat \<Rightarrow> net_out \<Rightarrow> net_out" where
  "trace_nstate last_state k s =
     (let st = on_state (nb_of k s)
      in if st \<noteq> last_state \<and> (st < last_state \<or> st = NSTATE_2WAY \<or> st = NSTATE_FULL)
         then call (CTrapNbr (on_ip (nb_of k s)) st) s else s)"

text \<open>\<open>lsa_originate_net\<close> with \<open>lsadbAdd\<close>: nothing is originated without a full neighbour.\<close>

definition lsa_originate_net :: "net_out \<Rightarrow> net_out" where
  "lsa_originate_net s =
     (let net = fst s; full = filter (\<lambda>nb. on_state nb = NSTATE_FULL) (net_neighbor net)
      in if full = [] then s
         else call (COriginateNet (net_area_id net) (net_ip net) (net_mask net)
                      (map on_router_id full @ [net_router_id net])) s)"

definition lsa_originate_rtr :: "net_out \<Rightarrow> net_out" where
  "lsa_originate_rtr s = call (COriginateRtr (net_area_id (fst s))) s"

definition update_lsadb :: "net_out \<Rightarrow> net_out" where
  "update_lsadb s = lsa_originate_rtr (if net_state (fst s) = NETSTATE_DR then lsa_originate_net s else s)"

definition restart_inactivity_timer :: "nat \<Rightarrow> net_out \<Rightarrow> net_out" where
  "restart_inactivity_timer k s = upd_nb k (\<lambda>nb. nb\<lparr>on_inactivity_timer := sint (net_dead_interval (fst s))\<rparr>) s"

definition clear_lsa :: "nat \<Rightarrow> net_out \<Rightarrow> net_out" where
  "clear_lsa k s =
     (let nb = nb_of k s; net = fst s;
          s = upd_nb k (\<lambda>nb. nb\<lparr>on_ddsum := [], on_lsreq := []\<rparr>) s;
          s = call (CClearRxmt (on_ip nb)) s;
          s = call (CAgeNeighbor (on_router_id nb) (net_area_id net)) s
      in call (CAgeNeighborNetwork (on_router_id nb) (net_area_id net) (net_ip net)) s)"

definition clean_neighbor :: "nat \<Rightarrow> net_out \<Rightarrow> net_out" where
  "clean_neighbor k s =
     clear_lsa k (upd_nb k (\<lambda>nb. nb\<lparr>on_state := NSTATE_DOWN, on_inactivity_timer := 0, on_master := False,
       on_dd_seq_number := 0, on_priority := 0, on_designated_router := 0, on_backup_router := 0,
       on_adj_posponed := False, on_last_dd_pkt := None, on_last_lsreq_pkt := None\<rparr>) s)"

definition become_adjacent :: "OspfNetwork \<Rightarrow> OspfNeighbor \<Rightarrow> bool" where
  "become_adjacent net nb \<longleftrightarrow>
     net_type net = N_TYPE_VLINK \<or>
     on_ip nb = net_designated_router net \<or> on_ip nb = net_backup_router net \<or>
     net_ip net = net_designated_router net \<or> net_ip net = net_backup_router net"

definition start_adj :: "nb_env \<Rightarrow> nat \<Rightarrow> net_out \<Rightarrow> net_out" where
  "start_adj env k s =
     (let s = upd_nb k (\<lambda>nb. nb\<lparr>on_dd_seq_number := (if on_dd_seq_number nb = 0 then ne_time env else on_dd_seq_number nb) + 1,
                              on_master := True, on_options := if ne_stub env then 0x40 else 0x42\<rparr>) s;
          (pkt, s) = dbdescBuildPkt env k 7 s
      in txpacket_unicast k pkt s)"

definition nfsmHelloReceived :: "nat \<Rightarrow> net_out \<Rightarrow> net_out" where
  "nfsmHelloReceived k s =
     (let last_state = on_state (nb_of k s);
          s = (if last_state = NSTATE_ATTEMPT \<or> last_state = NSTATE_DOWN then set_state k NSTATE_INIT s else s)
      in trace_nstate last_state k (restart_inactivity_timer k s))"

definition nfsm2WayReceived :: "nb_env \<Rightarrow> nat \<Rightarrow> net_out \<Rightarrow> net_out" where
  "nfsm2WayReceived env k s =
     (let last_state = on_state (nb_of k s); doadj = become_adjacent (fst s) (nb_of k s);
          s = (if last_state = NSTATE_INIT \<and> \<not> doadj then set_state k NSTATE_2WAY s
               else if last_state = NSTATE_INIT \<and> doadj then start_adj env k (set_state k NSTATE_EXSTART s)
               else s)
      in trace_nstate last_state k s)"

text \<open>The summary list holds the headers of all types in turn, each added in front; the external
  advertisements are left out in a stub area.\<close>

definition ddsum_of :: "nb_env \<Rightarrow> OspfLsaHeaderList list \<Rightarrow> OspfLsaHeaderList list" where
  "ddsum_of env dds =
     fold (\<lambda>i dds. if i = unat LSA_TYPE_EXTERNAL \<and> ne_stub env then dds else fold lsahListAdd (ne_lsas env i) dds)
       [0..<unat LSA_TYPE_MAX] dds"

definition nfsmNegotiationDone :: "nb_env \<Rightarrow> nat \<Rightarrow> net_out \<Rightarrow> net_out" where
  "nfsmNegotiationDone env k s =
     (let last_state = on_state (nb_of k s);
          s = (if last_state = NSTATE_EXSTART
               then upd_nb k (\<lambda>nb. nb\<lparr>on_more0sent := False, on_dd_rxmt_timer := 0, on_last_dd_pkt := None,
                                     on_ddsum := ddsum_of env (on_ddsum nb), on_state := NSTATE_EXCHANGE\<rparr>) s
               else s)
      in trace_nstate last_state k s)"

definition originate_if_dr :: "net_out \<Rightarrow> net_out" where
  "originate_if_dr s = (if net_designated_router (fst s) = net_ip (fst s) then lsa_originate_net s else s)"

definition nfsmExchangeDone :: "nat \<Rightarrow> net_out \<Rightarrow> net_out" where
  "nfsmExchangeDone k s =
     (let last_state = on_state (nb_of k s); lsreq = on_lsreq (nb_of k s);
          s = (if last_state = NSTATE_EXCHANGE
               then let s = upd_nb k (\<lambda>nb. nb\<lparr>on_last_dd_pkt := None\<rparr>) s
                    in if lsreq = [] \<or> lsahListIsAck lsreq then originate_if_dr (set_state k NSTATE_FULL s)
                       else (case lsrequestBuildPkt k (set_state k NSTATE_LOADING s) of
                               (None, s) \<Rightarrow> s
                             | (Some pkt, s) \<Rightarrow> txpacket_unicast k pkt s)
               else s)
      in trace_nstate last_state k s)"

definition nfsmLoadingDone :: "nat \<Rightarrow> net_out \<Rightarrow> net_out" where
  "nfsmLoadingDone k s =
     (let last_state = on_state (nb_of k s);
          s = (if last_state = NSTATE_LOADING then originate_if_dr (set_state k NSTATE_FULL s) else s)
      in trace_nstate last_state k s)"

definition loading :: "OspfNeighbor \<Rightarrow> bool" where
  "loading nb \<longleftrightarrow> on_state nb = NSTATE_EXSTART \<or> on_state nb = NSTATE_EXCHANGE \<or> on_state nb = NSTATE_LOADING"

definition nfsmAdjOK :: "nb_env \<Rightarrow> nat \<Rightarrow> net_out \<Rightarrow> net_out" where
  "nfsmAdjOK env k s =
     (let last_state = on_state (nb_of k s); doadj = become_adjacent (fst s) (nb_of k s)
      in if last_state = NSTATE_2WAY \<and> doadj
         then if length (filter loading (net_neighbor (fst s))) \<ge> OSPF_NB_ADJ_MAX
              then upd_nb k (\<lambda>nb. nb\<lparr>on_adj_posponed := True\<rparr>) s
              else trace_nstate last_state k
                     (start_adj env k (upd_nb k (\<lambda>nb. nb\<lparr>on_adj_posponed := False, on_state := NSTATE_EXSTART\<rparr>) s))
         else if last_state \<ge> NSTATE_EXSTART \<and> \<not> doadj
         then trace_nstate last_state k (set_state k NSTATE_2WAY (clear_lsa k s))
         else trace_nstate last_state k s)"

definition nfsmSeqNumberMismatch :: "nb_env \<Rightarrow> nat \<Rightarrow> net_out \<Rightarrow> net_out" where
  "nfsmSeqNumberMismatch env k s =
     (let last_state = on_state (nb_of k s);
          s = (if last_state \<ge> NSTATE_EXCHANGE
               then start_adj env k (call (CClearRxmt (on_ip (nb_of k s)))
                      (upd_nb k (\<lambda>nb. nb\<lparr>on_state := NSTATE_EXSTART, on_dd_seq_number := on_dd_seq_number nb + 1,
                         on_last_dd_pkt := None, on_last_lsreq_pkt := None, on_ddsum := [], on_lsreq := []\<rparr>) s))
               else s)
      in trace_nstate last_state k s)"

definition nfsmBadLSReq :: "nb_env \<Rightarrow> nat \<Rightarrow> net_out \<Rightarrow> net_out" where
  "nfsmBadLSReq = nfsmSeqNumberMismatch"

definition nfsm1Way :: "nat \<Rightarrow> net_out \<Rightarrow> net_out" where
  "nfsm1Way k s =
     (let last_state = on_state (nb_of k s);
          s = (if last_state \<ge> NSTATE_2WAY then clear_lsa k (set_state k NSTATE_INIT s) else s)
      in trace_nstate last_state k s)"

definition nfsmLLDown :: "nat \<Rightarrow> net_out \<Rightarrow> net_out" where
  "nfsmLLDown k s = (let last_state = on_state (nb_of k s) in trace_nstate last_state k (clean_neighbor k s))"

end
