(* ===== verification/Ospf_Adj.thy ===== *)
theory Ospf_Adj
  imports Ospf_Nfsm
begin

text \<open>
  Designated router election (\<open>ospf/exec/drbdr.c\<close>), the network state machine with the timers
  (\<open>network_fsm.c\<close>), the removal of neighbours (\<open>neighbor_fsm.c\<close>) and the handlers of hello and
  database description packets (\<open>hello.c\<close>, \<open>dbdesc.c\<close>). These functions walk the global list of areas:
  the state holds that list, the calls to other parts of the process, the static \<open>last_state\<close> of
  \<open>network_fsm.c\<close> and the flag \<open>network_lsa_update\<close>.
\<close>

record adj_state =
  adj_areas :: area_list
  adj_out :: "adj_call list"
  adj_last :: nat
  network_lsa_update :: bool

text \<open>The time, the configured router id, the interfaces with MTU and ignore flag by address, and the
  link state database.\<close>

record adj_env =
  ae_time :: u32
  ae_router_id :: u32
  ae_intf :: "u32 \<Rightarrow> (u32 \<times> bool) option"
  ae_db :: lsdb

definition area_stub :: "u32 \<Rightarrow> area_list \<Rightarrow> bool" where
  "area_stub area_id al = (case areaFind area_id al of None \<Rightarrow> False | Some i \<Rightarrow> oa_stub (al ! i))"

definition nb_env_of :: "adj_env \<Rightarrow> net_ptr \<Rightarrow> area_list \<Rightarrow> nb_env" where
  "nb_env_of env p al =
     (let net = the_net p al; db = ae_db env\<lparr>areas := al\<rparr>
      in \<lparr>ne_stub = area_stub (net_area_id net) al, ne_time = ae_time env, ne_intf = ae_intf env (net_ip net),
          ne_lsas = (\<lambda>i. map (\<lambda>a. l_header (store db a)) (lsadbGetList (net_area_id net) (word_of_nat i) db)),
          ne_find = (\<lambda>h. map_option (\<lambda>a. l_header (store db a)) (lsadbFindHeader (net_area_id net) h db))\<rparr>)"

definition at_net :: "net_ptr \<Rightarrow> (net_out \<Rightarrow> net_out) \<Rightarrow> adj_state \<Rightarrow> adj_state" where
  "at_net p f st =
     (let (net, out) = f (the_net p (adj_areas st), [])
      in st\<lparr>adj_areas := upd_net p (\<lambda>_. net) (adj_areas st), adj_out := adj_out st @ out\<rparr>)"

abbreviation net_at :: "net_ptr \<Rightarrow> adj_state \<Rightarrow> OspfNetwork" where
  "net_at p st \<equiv> the_net p (adj_areas st)"

definition set_net :: "net_ptr \<Rightarrow> (OspfNetwork \<Rightarrow> OspfNetwork) \<Rightarrow> adj_state \<Rightarrow> adj_state" where
  "set_net p f st = st\<lparr>adj_areas := upd_net p f (adj_areas st)\<rparr>"

section \<open>Election\<close>

definition election_sum :: "OspfNeighbor \<Rightarrow> u64" where
  "election_sum nb = (if on_state nb \<ge> NSTATE_2WAY \<and> on_priority nb > 0
                      then push_bit 32 (ucast (on_priority nb)) OR ucast (on_router_id nb) else 0)"

definition init_sums :: "OspfNetwork \<Rightarrow> OspfNetwork" where
  "init_sums net = net\<lparr>net_neighbor :=
     map (\<lambda>nb. nb\<lparr>on_dr_election_sum := election_sum nb, on_bdr_election_sum := election_sum nb\<rparr>) (net_neighbor net)\<rparr>"

text \<open>The walk that keeps the candidate with the highest sum; a later one replaces it only if its sum
  is higher.\<close>

fun elect_loop :: "(OspfNeighbor \<Rightarrow> bool) \<Rightarrow> (OspfNeighbor \<Rightarrow> u64) \<Rightarrow> OspfNeighbor option \<Rightarrow> OspfNeighbor list \<Rightarrow> OspfNeighbor option" where
  "elect_loop P w best [] = best"
| "elect_loop P w best (nb # nbs) =
     elect_loop P w
       (if P nb then (case best of None \<Rightarrow> Some nb | Some b \<Rightarrow> if w nb > w b then Some nb else best) else best) nbs"

definition declares_dr :: "OspfNeighbor \<Rightarrow> bool" where
  "declares_dr nb \<longleftrightarrow> on_designated_router nb = on_ip nb"

definition declares_bdr :: "OspfNeighbor \<Rightarrow> bool" where
  "declares_bdr nb \<longleftrightarrow> on_backup_router nb = on_ip nb"

definition step2and3 :: "OspfNetwork \<Rightarrow> OspfNetwork" where
  "step2and3 net =
     (let nbs = map (\<lambda>nb. if on_bdr_election_sum nb \<noteq> 0 \<and> declares_dr nb then nb\<lparr>on_bdr_election_sum := 0\<rparr> else nb)
                  (net_neighbor net);
          bdr1 = elect_loop (\<lambda>nb. on_bdr_election_sum nb \<noteq> 0 \<and> declares_bdr nb) on_bdr_election_sum None nbs;
          bdr = (if bdr1 = None then elect_loop (\<lambda>nb. on_bdr_election_sum nb \<noteq> 0) on_bdr_election_sum None nbs else bdr1);
          dr1 = elect_loop (\<lambda>nb. on_dr_election_sum nb \<noteq> 0 \<and> declares_dr nb) on_dr_election_sum None nbs;
          dr = (if dr1 = None then bdr else dr1)
      in net\<lparr>net_neighbor := nbs, net_dr_nb := map_option on_ip dr, net_bdr_nb := map_option on_ip bdr\<rparr>)"

text \<open>The router itself as a temporary neighbour.\<close>

definition this_nb :: "u32 \<Rightarrow> OspfNetwork \<Rightarrow> OspfNeighbor" where
  "this_nb rid net =
     \<lparr>on_ip = net_ip net, on_router_id = rid, on_state = NSTATE_2WAY, on_inactivity_timer = 0, on_master = False,
      on_dd_seq_number = 0, on_lastdbd_seq = 0, on_lastdbd_options = 0, on_lastdbd_fields = 0,
      on_priority = net_router_priority net, on_options = 0, on_designated_router = net_designated_router net,
      on_backup_router = net_backup_router net, on_more0sent = False, on_ddsum = [], on_lsreq = [],
      on_last_lsreq_pkt = None, on_lsreq_rxmt_timer = 0, on_dr_election_sum = 0, on_bdr_election_sum = 0,
      on_last_dd_pkt = None, on_dd_rxmt_timer = 0, on_adj_posponed = False, on_md5_seq = 0\<rparr>"

text \<open>The condition of step 4: the router became or ceased to be (backup) designated router.\<close>

definition role_changed :: "OspfNetwork \<Rightarrow> bool" where
  "role_changed net \<longleftrightarrow>
     (net_dr_nb net = Some (net_ip net)) \<noteq> (net_designated_router net = net_ip net) \<or>
     (net_bdr_nb net = Some (net_ip net)) \<noteq> (net_backup_router net = net_ip net)"

text \<open>Steps 0 to 4 on the list of areas. \<open>neighborAdd\<close> puts the temporary neighbour in front of the list
  of the first network of the area that contains its address.\<close>

definition drbdr_steps :: "u32 \<Rightarrow> net_ptr \<Rightarrow> area_list \<Rightarrow> area_list" where
  "drbdr_steps rid p al =
     (let net0 = the_net p al; self = net_router_priority net0 > 0;
          (failed, al) = (if self then neighborAdd (net_area_id net0) (this_nb rid net0) al else (True, al));
          q = the (networkFindIp (net_area_id net0) (net_ip net0) al);
          al = upd_net p (\<lambda>net. step2and3 (init_sums net)) al;
          net = the_net p al;
          al = (case (net_dr_nb net, net_bdr_nb net) of
                  (Some dr, Some bdr) \<Rightarrow>
                    if self
                    then let al = (if failed then al
                                   else upd_net q (\<lambda>n. n\<lparr>net_neighbor := upd_pos 0
                                          (\<lambda>nb. nb\<lparr>on_designated_router := dr, on_backup_router := bdr\<rparr>) (net_neighbor n)\<rparr>) al)
                         in if role_changed net then upd_net p step2and3 al else al
                    else al
                | _ \<Rightarrow> al)
      in if failed then al else snd (neighborUnlink (net_area_id net0) (q, 0) al))"

text \<open>The elected addresses are taken over; the flag tells whether one of them changed.\<close>

definition take_result :: "OspfNetwork \<Rightarrow> bool \<times> OspfNetwork" where
  "take_result net =
     (let ch1 = (net_dr_nb net \<noteq> None \<and> net_dr_nb net \<noteq> Some (net_designated_router net));
          dr = (case net_dr_nb net of Some ip \<Rightarrow> ip | None \<Rightarrow> net_designated_router net);
          bdr = (case net_bdr_nb net of Some ip \<Rightarrow> ip | None \<Rightarrow> 0)
      in (ch1 \<or> bdr \<noteq> net_backup_router net, net\<lparr>net_designated_router := dr, net_backup_router := bdr\<rparr>))"

definition adjok_all :: "nb_env \<Rightarrow> net_out \<Rightarrow> net_out" where
  "adjok_all env s =
     fold (\<lambda>k s. if on_state (nb_of k s) \<ge> NSTATE_2WAY then nfsmAdjOK env k s else s)
       [0..<length (net_neighbor (fst s))] s"

definition finish_election :: "nb_env \<Rightarrow> net_out \<Rightarrow> net_out" where
  "finish_election env s =
     (case take_result (fst s) of
        (changed, net) \<Rightarrow> (let s = originate_if_dr (net, snd s) in if changed then adjok_all env s else s))"

definition drbdrElection :: "adj_env \<Rightarrow> net_ptr \<Rightarrow> adj_state \<Rightarrow> adj_state" where
  "drbdrElection env p st =
     (let st = st\<lparr>adj_areas := drbdr_steps (ae_router_id env) p (adj_areas st)\<rparr>
      in at_net p (finish_election (nb_env_of env p (adj_areas st))) st)"

section \<open>The network state machine\<close>

text \<open>\<open>TRACE_NSTATE\<close> of \<open>network_fsm.c\<close>.\<close>

definition trace_netstate :: "net_ptr \<Rightarrow> adj_state \<Rightarrow> adj_state" where
  "trace_netstate p st =
     (if net_state (net_at p st) \<noteq> adj_last st
      then st\<lparr>adj_out := adj_out st @ [CTrapIf (net_ip (net_at p st)) (net_state (net_at p st)), CNetUpdate]\<rparr>
      else st)"

definition save_last :: "net_ptr \<Rightarrow> adj_state \<Rightarrow> adj_state" where
  "save_last p st = st\<lparr>adj_last := net_state (net_at p st)\<rparr>"

text \<open>The \<open>else\<close> of the source governs only the assignment that follows it.\<close>

definition netfsmInterfaceUp :: "net_ptr \<Rightarrow> adj_state \<Rightarrow> adj_state" where
  "netfsmInterfaceUp p st =
     (let st = (if net_state (net_at p st) = NETSTATE_DOWN
                then let st = (if net_type (net_at p st) = N_TYPE_VLINK
                               then set_net p (\<lambda>n. n\<lparr>net_state := NETSTATE_P2P\<rparr>) (save_last p st)
                               else save_last p st)
                     in set_net p (\<lambda>n. n\<lparr>net_state := NETSTATE_WAITING, net_wait_timer := sint (net_dead_interval n)\<rparr>) st
                else st)
      in trace_netstate p st)"

definition set_role :: "net_ptr \<Rightarrow> adj_state \<Rightarrow> adj_state" where
  "set_role p st =
     (let net = net_at p st
      in if net_ip net = net_designated_router net
         then (set_net p (\<lambda>n. n\<lparr>net_state := NETSTATE_DR\<rparr>) st)\<lparr>network_lsa_update := True\<rparr>
         else if net_ip net = net_backup_router net then set_net p (\<lambda>n. n\<lparr>net_state := NETSTATE_BACKUP\<rparr>) st
         else set_net p (\<lambda>n. n\<lparr>net_state := NETSTATE_DROTHER\<rparr>) st)"

definition elect_and_originate :: "adj_env \<Rightarrow> net_ptr \<Rightarrow> adj_state \<Rightarrow> adj_state" where
  "elect_and_originate env p st = at_net p lsa_originate_rtr (drbdrElection env p st)"

definition netfsmWaitTimer :: "adj_env \<Rightarrow> net_ptr \<Rightarrow> adj_state \<Rightarrow> adj_state" where
  "netfsmWaitTimer env p st =
     trace_netstate p
       (if net_state (net_at p st) = NETSTATE_WAITING
        then set_role p (save_last p (elect_and_originate env p st)) else st)"

definition netfsmBackupSeen :: "adj_env \<Rightarrow> net_ptr \<Rightarrow> adj_state \<Rightarrow> adj_state" where
  "netfsmBackupSeen env p st =
     (let st = save_last p st
      in trace_netstate p
           (if net_state (net_at p st) = NETSTATE_WAITING then set_role p (elect_and_originate env p st) else st))"

definition has_role :: "OspfNetwork \<Rightarrow> bool" where
  "has_role net \<longleftrightarrow> net_state net = NETSTATE_DR \<or> net_state net = NETSTATE_BACKUP \<or> net_state net = NETSTATE_DROTHER"

definition netfsmNeighborChange :: "adj_env \<Rightarrow> net_ptr \<Rightarrow> adj_state \<Rightarrow> adj_state" where
  "netfsmNeighborChange env p st =
     (let st = save_last p st
      in trace_netstate p (if has_role (net_at p st) then set_role p (elect_and_originate env p st) else st))"

definition remove_neighbor :: "adj_env \<Rightarrow> net_ptr \<Rightarrow> nat \<Rightarrow> adj_state \<Rightarrow> adj_state" where
  "remove_neighbor env p k st =
     (let st = st\<lparr>adj_areas := snd (neighborRemove (net_area_id (net_at p st)) (p, k) (adj_areas st))\<rparr>
      in netfsmNeighborChange env p (at_net p update_lsadb st))"

definition nfsmKillNbr :: "adj_env \<Rightarrow> net_ptr \<Rightarrow> nat \<Rightarrow> adj_state \<Rightarrow> adj_state" where
  "nfsmKillNbr env p k st = remove_neighbor env p k (at_net p (nfsmLLDown k) st)"

definition nfsmInactivityTimer :: "adj_env \<Rightarrow> net_ptr \<Rightarrow> nat \<Rightarrow> adj_state \<Rightarrow> adj_state" where
  "nfsmInactivityTimer env p k st =
     (let st = at_net p (nfsmLLDown k) st
      in if net_type (net_at p st) = N_TYPE_BROADCAST then remove_neighbor env p k st else st)"

text \<open>The loop over the neighbours: \<open>k\<close> is the position of the next one, which does not move on when
  the neighbour before it was unlinked; \<open>n\<close> counts the neighbours that are left.\<close>

primrec kill_loop :: "nat \<Rightarrow> adj_env \<Rightarrow> net_ptr \<Rightarrow> nat \<Rightarrow> adj_state \<Rightarrow> adj_state" where
  "kill_loop 0 env p k st = st"
| "kill_loop (Suc n) env p k st =
     (let len = length (net_neighbor (net_at p st)); st = nfsmKillNbr env p k st
      in kill_loop n env p (if length (net_neighbor (net_at p st)) < len then k else k + 1) st)"

definition netfsmInterfaceDown :: "adj_env \<Rightarrow> net_ptr \<Rightarrow> adj_state \<Rightarrow> adj_state" where
  "netfsmInterfaceDown env p st =
     (let st = save_last p st;
          st = set_net p (\<lambda>n. n\<lparr>net_state := NETSTATE_DOWN, net_hello_timer := 0, net_wait_timer := 0,
                               net_designated_router := 0, net_backup_router := 0\<rparr>) st
      in trace_netstate p (kill_loop (length (net_neighbor (net_at p st))) env p 0 st))"

end
