(* ===== verification/Ospf_Hello.thy ===== *)
theory Ospf_Hello
  imports Ospf_Adj
begin

text \<open>
  The handlers that drive the state machines: the hello protocol (\<open>ospf/exec/hello.c\<close>), the database
  description packets (\<open>dbdesc.c\<close>) and the timers of the networks and neighbours (\<open>networkTimeout\<close> of
  \<open>network_fsm.c\<close>). A handler returns 1 for a packet that is refused and 0 otherwise, like the source.
  The packets arrive as their fields; the checks of the length are made when the fields are read.
\<close>

record OspfPacketDesc =
  pd_ip_source :: u32
  pd_router_id :: u32
  pd_area_id :: u32

definition config_error :: "OspfPacketDesc \<Rightarrow> nat \<Rightarrow> adj_state \<Rightarrow> nat \<times> adj_state" where
  "config_error desc err st = (1, st\<lparr>adj_out := adj_out st @ [CTrapConfigError (pd_ip_source desc) err]\<rparr>)"

section \<open>Hello packets\<close>

definition helloBuildPkt :: "OspfNetwork \<Rightarrow> bool \<Rightarrow> OspfPacket" where
  "helloBuildPkt net stub =
     HelloPkt \<lparr>he_mask = net_mask net, he_hello_interval = net_hello_interval net, he_options = (if stub then 0 else 2),
               he_router_priority = net_router_priority net, he_dead_interval = net_dead_interval net,
               he_designated_router = net_designated_router net, he_backup_router = net_backup_router net\<rparr>
       (map on_router_id (filter (\<lambda>nb. on_state nb \<noteq> NSTATE_DOWN) (net_neighbor net)))"

definition new_neighbor_of :: "OspfPacketDesc \<Rightarrow> OspfNeighbor" where
  "new_neighbor_of desc =
     \<lparr>on_ip = pd_ip_source desc, on_router_id = pd_router_id desc, on_state = NSTATE_DOWN, on_inactivity_timer = 0, on_master = False,
      on_dd_seq_number = 0, on_lastdbd_seq = 0, on_lastdbd_options = 0, on_lastdbd_fields = 0,
      on_priority = 0, on_options = 0, on_designated_router = 0,
      on_backup_router = 0, on_more0sent = False, on_ddsum = [], on_lsreq = [],
      on_last_lsreq_pkt = None, on_lsreq_rxmt_timer = 0, on_dr_election_sum = 0, on_bdr_election_sum = 0,
      on_last_dd_pkt = None, on_dd_rxmt_timer = 0, on_adj_posponed = False, on_md5_seq = 0\<rparr>"

text \<open>The checks against the configuration of the network: the code of the trap for the first that fails.\<close>

definition hello_mismatch :: "OspfHello \<Rightarrow> OspfNetwork \<Rightarrow> bool \<Rightarrow> nat option" where
  "hello_mismatch h net stub =
     (if net_type net = N_TYPE_BROADCAST \<and> net_mask net \<noteq> he_mask h then Some 7
      else if he_hello_interval h \<noteq> net_hello_interval net then Some 8
      else if he_dead_interval h \<noteq> net_dead_interval net then Some 9
      else if (he_options h AND 2 \<noteq> 0) = stub then Some 10
      else None)"

text \<open>The event for the network state machine that the hello schedules; a later assignment wins.\<close>

datatype net_event = NeighborChange | BackupSeen

definition hello_event :: "u32 \<Rightarrow> OspfHello \<Rightarrow> OspfNeighbor \<Rightarrow> nat \<Rightarrow> net_event option" where
  "hello_event src h old state =
     (let prev_dr = (on_designated_router old = src); prev_bdr = (on_backup_router old = src);
          dr_changed = (on_designated_router old \<noteq> he_designated_router h);
          bdr_changed = (on_backup_router old \<noteq> he_backup_router h);
          e = (if on_priority old \<noteq> he_router_priority h then Some NeighborChange else None);
          e = (if he_backup_router h = 0 \<and> state = NETSTATE_WAITING \<and> he_designated_router h = src then Some BackupSeen
               else if he_designated_router h = src \<and> dr_changed then Some NeighborChange
               else if he_designated_router h \<noteq> src \<and> prev_dr then Some NeighborChange
               else e)
      in if state = NETSTATE_WAITING \<and> he_backup_router h = src then Some BackupSeen
         else if he_backup_router h = src \<and> bdr_changed then Some NeighborChange
         else if he_backup_router h \<noteq> src \<and> prev_bdr then Some NeighborChange
         else e)"

definition run_event :: "adj_env \<Rightarrow> net_ptr \<Rightarrow> net_event option \<Rightarrow> adj_state \<Rightarrow> adj_state" where
  "run_event env p e st =
     (case e of None \<Rightarrow> st
      | Some NeighborChange \<Rightarrow> netfsmNeighborChange env p st
      | Some BackupSeen \<Rightarrow> netfsmBackupSeen env p st)"

definition hello_neighbor :: "adj_env \<Rightarrow> OspfPacketDesc \<Rightarrow> OspfHello \<Rightarrow> u32 list \<Rightarrow> net_ptr \<Rightarrow> nat \<Rightarrow> adj_state \<Rightarrow> adj_state" where
  "hello_neighbor env desc h ids p k st =
     (let src = pd_ip_source desc; old = net_neighbor (net_at p st) ! k; nenv = nb_env_of env p (adj_areas st);
          st = at_net p (\<lambda>s. nfsmHelloReceived k (upd_nb k (\<lambda>nb. nb\<lparr>on_priority := he_router_priority h,
                  on_designated_router := he_designated_router h, on_backup_router := he_backup_router h\<rparr>) s)) st;
          found = (net_router_id (net_at p st) \<in> set ids);
          st = at_net p (if found then nfsm2WayReceived nenv k else nfsm1Way k) st
      in if \<not> found \<and> on_designated_router old \<noteq> src \<and> on_backup_router old \<noteq> src then st
         else run_event env p (hello_event src h old (net_state (net_at p st))) st)"

definition helloRx :: "adj_env \<Rightarrow> OspfPacketDesc \<Rightarrow> OspfHello \<Rightarrow> u32 list \<Rightarrow> adj_state \<Rightarrow> nat \<times> adj_state" where
  "helloRx env desc h ids st =
     (let al = adj_areas st
      in if areaFind (pd_area_id desc) al = None then config_error desc 2 st
         else case networkFindIp (pd_area_id desc) (pd_ip_source desc) al of
                None \<Rightarrow> config_error desc 2 st
              | Some p \<Rightarrow>
                  (case hello_mismatch h (the_net p al) (area_stub (pd_area_id desc) al) of
                     Some err \<Rightarrow> config_error desc err st
                   | None \<Rightarrow>
                       (case neighborFind (pd_area_id desc) (pd_ip_source desc) al of
                          Some (q, k) \<Rightarrow> (0, hello_neighbor env desc h ids p k st)
                        | None \<Rightarrow>
                            (case neighborAdd (pd_area_id desc) (new_neighbor_of desc) al of
                               (True, _) \<Rightarrow> (1, st)
                             | (False, al) \<Rightarrow> (0, hello_neighbor env desc h ids p 0 (st\<lparr>adj_areas := al\<rparr>))))))"

section \<open>Database description packets\<close>

text \<open>The state dependent part before the headers are read; \<open>False\<close> when the packet is done with.\<close>

definition dd_exstart :: "nb_env \<Rightarrow> nat \<Rightarrow> bool \<Rightarrow> net_out \<Rightarrow> bool \<times> net_out" where
  "dd_exstart env k no_lsa s =
     (let nb = nb_of k s
      in if on_lastdbd_fields nb AND 7 = 7 \<and> no_lsa \<and> on_router_id nb > net_router_id (fst s)
         then (True, nfsmNegotiationDone env k (upd_nb k (\<lambda>nb. nb\<lparr>on_master := False, on_options := on_lastdbd_options nb,
                                                                on_dd_seq_number := on_lastdbd_seq nb\<rparr>) s))
         else if on_lastdbd_fields nb AND 5 = 0 \<and> on_lastdbd_seq nb = on_dd_seq_number nb \<and> on_router_id nb < net_router_id (fst s)
         then (True, nfsmNegotiationDone env k (upd_nb k (\<lambda>nb. nb\<lparr>on_master := True, on_options := on_lastdbd_options nb\<rparr>) s))
         else (False, s))"

definition dd_duplicate :: "OspfNeighbor \<Rightarrow> bool" where
  "dd_duplicate nb \<longleftrightarrow> (if on_master nb then on_dd_seq_number nb > on_lastdbd_seq nb
                        else on_dd_seq_number nb + 1 > on_lastdbd_seq nb)"

definition dd_inseq :: "OspfNeighbor \<Rightarrow> bool" where
  "dd_inseq nb \<longleftrightarrow> (if on_master nb then on_dd_seq_number nb = on_lastdbd_seq nb
                    else on_dd_seq_number nb + 1 = on_lastdbd_seq nb)"

definition dd_exchange :: "nb_env \<Rightarrow> nat \<Rightarrow> net_out \<Rightarrow> bool \<times> net_out" where
  "dd_exchange env k s =
     (let nb = nb_of k s
      in if dd_duplicate nb then (False, s)
         else if (on_lastdbd_fields nb AND 1 \<noteq> 0) = on_master nb then (False, nfsmSeqNumberMismatch env k s)
         else if on_lastdbd_fields nb AND 4 \<noteq> 0 then (False, nfsmSeqNumberMismatch env k s)
         else if on_lastdbd_options nb \<noteq> on_options nb then (False, nfsmSeqNumberMismatch env k s)
         else if \<not> dd_inseq nb then (False, nfsmSeqNumberMismatch env k s)
         else (True, upd_nb k (\<lambda>nb. nb\<lparr>on_ddsum := lsahListPurge
                 (map (\<lambda>x. if hl_sent x \<and> \<not> hl_ack x then x\<lparr>hl_ack := True\<rparr> else x) (on_ddsum nb))\<rparr>) s))"

definition dd_loaded :: "nb_env \<Rightarrow> nat \<Rightarrow> net_out \<Rightarrow> bool \<times> net_out" where
  "dd_loaded env k s =
     (let nb = nb_of k s
      in if on_lastdbd_fields nb AND 4 \<noteq> 0 \<or> on_lastdbd_options nb \<noteq> on_options nb then (False, nfsmSeqNumberMismatch env k s)
         else if dd_duplicate nb then (False, s)
         else (False, nfsmSeqNumberMismatch env k s))"

text \<open>The headers are compared with the database; those that are missing or differ are requested. The
  second test of the type, for stub areas, repeats the first one and is never true.\<close>

definition header_wanted :: "nb_env \<Rightarrow> OspfLsaHeader \<Rightarrow> bool" where
  "header_wanted env lsah =
     (case ne_find env lsah of
        None \<Rightarrow> True
      | Some h \<Rightarrow> lh_seq h \<noteq> lh_seq lsah \<or> lh_checksum h \<noteq> lh_checksum lsah \<or>
                  \<bar>uint (lh_age h) - uint (lh_age lsah)\<bar> > MaxAgeDiff)"

fun dd_headers :: "nb_env \<Rightarrow> nat \<Rightarrow> OspfLsaHeader list \<Rightarrow> net_out \<Rightarrow> bool \<times> net_out" where
  "dd_headers env k [] s = (True, s)"
| "dd_headers env k (lsah # hs) s =
     (if lh_type lsah > LSA_TYPE_EXTERNAL then (False, nfsmSeqNumberMismatch env k s)
      else dd_headers env k hs
             (if header_wanted env lsah then upd_nb k (\<lambda>nb. nb\<lparr>on_lsreq := lsahListAdd lsah (on_lsreq nb)\<rparr>) s else s))"

definition dd_answer :: "nb_env \<Rightarrow> nat \<Rightarrow> net_out \<Rightarrow> net_out" where
  "dd_answer env k s =
     (let nb = nb_of k s; more = on_lastdbd_fields nb AND 2
      in if on_master nb
         then if on_more0sent nb \<and> more = 0
              then nfsmExchangeDone k (upd_nb k (\<lambda>nb. nb\<lparr>on_more0sent := False\<rparr>) s)
              else let s = upd_nb k (\<lambda>nb. nb\<lparr>on_dd_seq_number := on_dd_seq_number nb + 1\<rparr>) s;
                       (pkt, s) = dbdescBuildPkt env k (if on_ddsum nb = [] then 1 else 3) s;
                       s = txpacket_unicast k pkt s
                   in if on_ddsum nb = [] then upd_nb k (\<lambda>nb. nb\<lparr>on_more0sent := True\<rparr>) s else s
         else let s = upd_nb k (\<lambda>nb. nb\<lparr>on_dd_seq_number := on_lastdbd_seq nb\<rparr>) s;
                  (pkt, s) = dbdescBuildPkt env k (if on_ddsum nb = [] then more else 2) s;
                  s = txpacket_unicast k pkt s
              in if more = 0 \<and> on_ddsum nb = [] then nfsmExchangeDone k s else s)"

definition dd_neighbor :: "nb_env \<Rightarrow> nat \<Rightarrow> OspfLsaHeader list \<Rightarrow> net_out \<Rightarrow> net_out" where
  "dd_neighbor env k hs s =
     (let s = (if on_state (nb_of k s) = NSTATE_INIT then nfsm2WayReceived env k s else s);
          state = on_state (nb_of k s);
          (go, s) = (if state = NSTATE_2WAY then (False, s)
                     else if state = NSTATE_EXSTART then dd_exstart env k (hs = []) s
                     else if state = NSTATE_EXCHANGE then dd_exchange env k s
                     else dd_loaded env k s);
          (go, s) = (if go then dd_headers env k hs s else (False, s))
      in if go then dd_answer env k s else s)"

definition dbdescRx :: "adj_env \<Rightarrow> OspfPacketDesc \<Rightarrow> OspfDbd \<Rightarrow> OspfLsaHeader list \<Rightarrow> adj_state \<Rightarrow> nat \<times> adj_state" where
  "dbdescRx env desc dbd hs st =
     (case networkFindIp (pd_area_id desc) (pd_ip_source desc) (adj_areas st) of
        None \<Rightarrow> config_error desc 2 st
      | Some p \<Rightarrow>
          (case neighborFind (pd_area_id desc) (pd_ip_source desc) (adj_areas st) of
             None \<Rightarrow> (1, st)
           | Some (q, k) \<Rightarrow>
               let st = at_net p (upd_nb k (\<lambda>nb. nb\<lparr>on_lastdbd_options := dd_options dbd, on_lastdbd_fields := dd_fields dbd,
                                                   on_lastdbd_seq := dd_seq dbd\<rparr>)) st;
                   nenv = nb_env_of env p (adj_areas st); state = on_state (net_neighbor (net_at p st) ! k)
               in case ne_intf nenv of
                    None \<Rightarrow> config_error desc 2 st
                  | Some (mtu, ignore) \<Rightarrow>
                      if \<not> ignore \<and> uint (dd_mtu dbd) > uint mtu then (0, snd (config_error desc 11 st))
                      else if state = NSTATE_DOWN \<or> state = NSTATE_ATTEMPT then (0, st)
                      else (0, at_net p (dd_neighbor nenv k hs) st)))"

section \<open>Timers\<close>

text \<open>The retransmission timers of a neighbour, and the tick of the list of advertisements that wait for
  an acknowledgement, which belongs to flooding.\<close>

definition dd_timer :: "nat \<Rightarrow> net_out \<Rightarrow> net_out" where
  "dd_timer k s =
     (let nb = nb_of k s
      in case on_last_dd_pkt nb of
           None \<Rightarrow> s
         | Some pkt \<Rightarrow>
             if on_state nb = NSTATE_EXCHANGE \<or> on_state nb = NSTATE_EXSTART
             then if on_dd_rxmt_timer nb - 1 \<le> 0
                  then upd_nb k (\<lambda>nb. nb\<lparr>on_dd_rxmt_timer := sint (net_rxtm_interval (fst s))\<rparr>) (txpacket_unicast k pkt s)
                  else upd_nb k (\<lambda>nb. nb\<lparr>on_dd_rxmt_timer := on_dd_rxmt_timer nb - 1\<rparr>) s
             else if on_state nb = NSTATE_FULL then upd_nb k (\<lambda>nb. nb\<lparr>on_last_dd_pkt := None\<rparr>) s
             else s)"

definition lsreq_timer :: "nat \<Rightarrow> net_out \<Rightarrow> net_out" where
  "lsreq_timer k s =
     (let nb = nb_of k s
      in case on_last_lsreq_pkt nb of
           None \<Rightarrow> s
         | Some pkt \<Rightarrow>
             if on_state nb = NSTATE_LOADING
             then if on_lsreq_rxmt_timer nb - 1 \<le> 0
                  then upd_nb k (\<lambda>nb. nb\<lparr>on_lsreq_rxmt_timer := sint (net_rxtm_interval (fst s))\<rparr>) (txpacket_unicast k pkt s)
                  else upd_nb k (\<lambda>nb. nb\<lparr>on_lsreq_rxmt_timer := on_lsreq_rxmt_timer nb - 1\<rparr>) s
             else if on_state nb = NSTATE_FULL then upd_nb k (\<lambda>nb. nb\<lparr>on_last_lsreq_pkt := None\<rparr>) s
             else s)"

definition rxmt_timer :: "nat \<Rightarrow> net_out \<Rightarrow> net_out" where
  "rxmt_timer k s = (if on_state (nb_of k s) = NSTATE_FULL then call (CRxmtTick (on_ip (nb_of k s))) s else s)"

definition neighbor_tick :: "nb_env \<Rightarrow> nat \<Rightarrow> nat \<Rightarrow> net_out \<Rightarrow> nat \<times> net_out" where
  "neighbor_tick env load_cnt k s =
     (let s = rxmt_timer k (lsreq_timer k (dd_timer k s))
      in if load_cnt < OSPF_NB_ADJ_MAX \<and> on_adj_posponed (nb_of k s)
         then (load_cnt + 1, nfsmAdjOK env k (upd_nb k (\<lambda>nb. nb\<lparr>on_adj_posponed := False\<rparr>) s))
         else (load_cnt, s))"

text \<open>The loop over the neighbours of a network; \<open>k\<close> and \<open>n\<close> as in \<open>kill_loop\<close>.\<close>

primrec neighbor_loop :: "nat \<Rightarrow> adj_env \<Rightarrow> bool \<Rightarrow> net_ptr \<Rightarrow> nat \<Rightarrow> nat \<Rightarrow> adj_state \<Rightarrow> adj_state" where
  "neighbor_loop 0 env no_inactivity p load_cnt k st = st"
| "neighbor_loop (Suc n) env no_inactivity p load_cnt k st =
     (let nb = net_neighbor (net_at p st) ! k; len = length (net_neighbor (net_at p st));
          ticking = (\<not> no_inactivity \<and> on_state nb \<noteq> NSTATE_DOWN);
          st = (if ticking then at_net p (upd_nb k (\<lambda>nb. nb\<lparr>on_inactivity_timer := on_inactivity_timer nb - 1\<rparr>)) st else st)
      in if ticking \<and> on_inactivity_timer nb - 1 \<le> 0
         then let st = nfsmInactivityTimer env p k st
              in neighbor_loop n env no_inactivity p load_cnt (if length (net_neighbor (net_at p st)) < len then k else k + 1) st
         else let nenv = nb_env_of env p (adj_areas st);
                  cnt = fst (neighbor_tick nenv load_cnt k (net_at p st, []))
              in neighbor_loop n env no_inactivity p cnt (k + 1) (at_net p (\<lambda>s. snd (neighbor_tick nenv load_cnt k s)) st))"

definition wait_tick :: "adj_env \<Rightarrow> net_ptr \<Rightarrow> adj_state \<Rightarrow> adj_state" where
  "wait_tick env p st =
     (if net_state (net_at p st) = NETSTATE_WAITING
      then let st = set_net p (\<lambda>n. n\<lparr>net_wait_timer := net_wait_timer n - 1\<rparr>) st
           in if net_wait_timer (net_at p st) \<le> 0
              then set_net p (\<lambda>n. n\<lparr>net_wait_timer := 0\<rparr>) (netfsmWaitTimer env p st) else st
      else st)"

definition hello_tick :: "bool \<Rightarrow> net_out \<Rightarrow> net_out" where
  "hello_tick stub s =
     (let net = fst s
      in if net_hello_timer net - 1 \<le> 0
         then call (CMulticast (net_ip net) (helloBuildPkt net stub)) (net\<lparr>net_hello_timer := uint (net_hello_interval net)\<rparr>, snd s)
         else (net\<lparr>net_hello_timer := net_hello_timer net - 1\<rparr>, snd s))"

definition network_tick :: "adj_env \<Rightarrow> bool \<Rightarrow> net_ptr \<Rightarrow> adj_state \<Rightarrow> adj_state" where
  "network_tick env no_inactivity p st =
     (if net_state (net_at p st) = NETSTATE_DOWN then st
      else let st = wait_tick env p st;
               nbs = net_neighbor (net_at p st);
               st = neighbor_loop (length nbs) env no_inactivity p (length (filter loading nbs)) 0 st
           in at_net p (hello_tick (area_stub (net_area_id (net_at p st)) (adj_areas st))) st)"

definition networkTimeout :: "adj_env \<Rightarrow> bool \<Rightarrow> adj_state \<Rightarrow> adj_state" where
  "networkTimeout env no_inactivity st =
     fold (network_tick env no_inactivity)
       [(i, j). i \<leftarrow> [0..<length (adj_areas st)], j \<leftarrow> [0..<length (oa_network (adj_areas st ! i))]] st"

end
