(* ===== verification/Ospf_AdjInv.thy ===== *)
theory Ospf_AdjInv
  imports Ospf_Hello
begin

text \<open>
  Invariants of the adjacency state machines: a neighbour whose database is exchanged is one the
  router has to be adjacent with, and the state of a network is the role that the elected routers
  give it. Every handler keeps both. The election works on scratch fields of the neighbours, which
  the function \<open>erase\<close> forgets.
\<close>

section \<open>One network\<close>

definition nb_good :: "OspfNetwork \<Rightarrow> OspfNeighbor \<Rightarrow> bool" where
  "nb_good net nb \<longleftrightarrow> on_state nb \<le> 7 \<and> (on_state nb \<ge> NSTATE_EXSTART \<longrightarrow> become_adjacent net nb)"

definition adj_ok :: "OspfNetwork \<Rightarrow> bool" where
  "adj_ok net \<longleftrightarrow> list_all (nb_good net) (net_neighbor net)"

text \<open>Only the neighbours change, and they keep their addresses.\<close>

definition net_frame :: "OspfNetwork \<Rightarrow> OspfNetwork \<Rightarrow> bool" where
  "net_frame n n' \<longleftrightarrow> n'\<lparr>net_neighbor := net_neighbor n\<rparr> = n \<and> map on_ip (net_neighbor n') = map on_ip (net_neighbor n)"

definition nb_step :: "OspfNetwork \<Rightarrow> OspfNetwork \<Rightarrow> bool" where
  "nb_step n n' \<longleftrightarrow> net_frame n n' \<and> (adj_ok n \<longrightarrow> adj_ok n')"

named_theorems nb_steps \<open>steps of the neighbour state machine\<close>

lemma net_frame_refl [simp]: "net_frame n n"
  by (simp add: net_frame_def)

lemma net_frame_trans: "net_frame a b \<Longrightarrow> net_frame b c \<Longrightarrow> net_frame a c"
  unfolding net_frame_def by (metis OspfNetwork.surjective OspfNetwork.update_convs(1))

lemma nb_step_refl [simp]: "nb_step n n"
  by (simp add: nb_step_def)

lemma nb_step_trans [trans]: "nb_step a b \<Longrightarrow> nb_step b c \<Longrightarrow> nb_step a c"
  unfolding nb_step_def using net_frame_trans by blast

lemma net_frame_upd [simp]: "map on_ip xs = map on_ip (net_neighbor n) \<Longrightarrow> net_frame n (n\<lparr>net_neighbor := xs\<rparr>)"
  by (simp add: net_frame_def)

lemma become_adjacent_frame: "net_frame n n' \<Longrightarrow> on_ip nb' = on_ip nb \<Longrightarrow> become_adjacent n' nb' = become_adjacent n nb"
  unfolding net_frame_def become_adjacent_def by (metis OspfNetwork.ext_inject OspfNetwork.surjective OspfNetwork.update_convs(1))

lemma nb_good_frame: "net_frame n n' \<Longrightarrow> nb_good n' nb = nb_good n nb"
  using become_adjacent_frame [of n n' nb nb] by (simp add: nb_good_def)

lemma map_upd_pos_id: "(\<And>x. f (g x) = f x) \<Longrightarrow> map f (upd_pos k g xs) = map f xs"
  by (rule nth_equalityI) (auto simp: nth_upd_pos)

lemma nb_step_upd:
  assumes "\<And>nb. on_ip (g nb) = on_ip nb"
    and "k < length (net_neighbor (fst s)) \<Longrightarrow> nb_good (fst s) (nb_of k s) \<Longrightarrow> nb_good (fst s) (g (nb_of k s))"
  shows "nb_step (fst s) (fst (upd_nb k g s))"
proof -
  have frame: "net_frame (fst s) (fst (upd_nb k g s))"
    by (simp add: upd_nb_def map_upd_pos_id assms(1))
  moreover have "adj_ok (fst (upd_nb k g s))" if "adj_ok (fst s)"
  proof -
    have "list_all (nb_good (fst s)) (upd_pos k g (net_neighbor (fst s)))"
      using that assms(2) unfolding adj_ok_def
      by (intro list_all_upd_pos) (auto simp: nb_of_def list_all_length)
    then show ?thesis using nb_good_frame [OF frame] by (simp add: adj_ok_def upd_nb_def list_all_iff)
  qed
  ultimately show ?thesis by (simp add: nb_step_def)
qed

lemma nb_step_upd_quiet:
  assumes "\<And>nb. on_ip (g nb) = on_ip nb" "\<And>nb. on_state (g nb) = on_state nb"
  shows "nb_step (fst s) (fst (upd_nb k g s))"
  using assms by (intro nb_step_upd) (auto simp: nb_good_def become_adjacent_def)

lemma fst_call [simp]: "fst (call c s) = fst s"
  by (simp add: call_def)

lemma nb_of_call [simp]: "nb_of k (call c s) = nb_of k s"
  by (simp add: nb_of_def)

lemma fst_trace_nstate [simp]: "fst (trace_nstate l k s) = fst s"
  by (simp add: trace_nstate_def Let_def)

lemma fst_txpacket [simp]: "fst (txpacket_unicast k pkt s) = fst s"
  by (simp add: txpacket_unicast_def)

lemma fst_originate [simp]:
  "fst (lsa_originate_net s) = fst s" "fst (originate_if_dr s) = fst s" "fst (lsa_originate_rtr s) = fst s"
  "fst (update_lsadb s) = fst s"
  by (simp_all add: lsa_originate_net_def originate_if_dr_def lsa_originate_rtr_def update_lsadb_def Let_def)

text \<open>A function of the state machine is proved by composing steps.\<close>

lemma nb_step_set_state:
  assumes "v \<le> 7" "v \<ge> NSTATE_EXSTART \<Longrightarrow> k < length (net_neighbor (fst s)) \<Longrightarrow> become_adjacent (fst s) (nb_of k s)"
  shows "nb_step (fst s) (fst (set_state k v s))"
  unfolding set_state_def using assms by (intro nb_step_upd) (auto simp: nb_good_def become_adjacent_def)

lemma clear_lsa_step [nb_steps]: "nb_step (fst s) (fst (clear_lsa k s))"
  unfolding clear_lsa_def Let_def fst_call by (rule nb_step_upd_quiet) simp_all

lemma dbdescBuildPkt_step [nb_steps]: "nb_step (fst s) (fst (snd (dbdescBuildPkt env k flds s)))"
  by (auto simp: dbdescBuildPkt_def Let_def split_beta intro: nb_step_upd_quiet)

lemma lsrequestBuildPkt_step [nb_steps]: "nb_step (fst s) (fst (snd (lsrequestBuildPkt k s)))"
  by (auto simp: lsrequestBuildPkt_def Let_def intro: nb_step_upd_quiet)

lemma start_adj_step [nb_steps]: "nb_step (fst s) (fst (start_adj env k s))"
proof -
  let ?s = "upd_nb k (\<lambda>nb. nb\<lparr>on_dd_seq_number := (if on_dd_seq_number nb = 0 then ne_time env else on_dd_seq_number nb) + 1,
    on_master := True, on_options := if ne_stub env then 0x40 else 0x42\<rparr>) s"
  have "nb_step (fst s) (fst ?s)" by (rule nb_step_upd_quiet) simp_all
  also have "nb_step (fst ?s) (fst (start_adj env k s))"
    unfolding start_adj_def Let_def split_beta fst_txpacket by (rule dbdescBuildPkt_step)
  finally show ?thesis .
qed


lemma nb_of_upd_nb: "k < length (net_neighbor (fst s)) \<Longrightarrow> nb_of k (upd_nb k f s) = f (nb_of k s)"
  by (simp add: nb_of_def upd_nb_def nth_upd_pos)

lemma set_state_adj:
  assumes "become_adjacent (fst s) (nb_of k s)"
  shows "nb_step (fst s) (fst (set_state k NSTATE_EXSTART s))"
  using assms by (intro nb_step_set_state) simp_all

lemma nfsmHelloReceived_step [nb_steps]: "nb_step (fst s) (fst (nfsmHelloReceived k s))"
proof -
  let ?s = "if on_state (nb_of k s) = NSTATE_ATTEMPT \<or> on_state (nb_of k s) = NSTATE_DOWN then set_state k NSTATE_INIT s else s"
  have "nb_step (fst s) (fst ?s)" by (auto intro: nb_step_set_state)
  also have "nb_step (fst ?s) (fst (restart_inactivity_timer k ?s))"
    unfolding restart_inactivity_timer_def by (rule nb_step_upd_quiet) simp_all
  finally show ?thesis unfolding nfsmHelloReceived_def Let_def fst_trace_nstate .
qed

lemma nfsm2WayReceived_step [nb_steps]: "nb_step (fst s) (fst (nfsm2WayReceived env k s))"
proof (cases "on_state (nb_of k s) = NSTATE_INIT")
  case init: True
  show ?thesis
  proof (cases "become_adjacent (fst s) (nb_of k s)")
    case True
    from nb_step_trans [OF set_state_adj [OF True] start_adj_step] show ?thesis
      using True init by (simp add: nfsm2WayReceived_def Let_def)
  next
    case False
    then show ?thesis using init nb_step_set_state [of 3 k s] by (simp add: nfsm2WayReceived_def Let_def)
  qed
qed (simp add: nfsm2WayReceived_def Let_def)

lemma good_exstart: "nb_good net nb \<Longrightarrow> NSTATE_EXSTART \<le> on_state nb \<Longrightarrow> become_adjacent net nb"
  by (simp add: nb_good_def)

lemma nfsmNegotiationDone_step [nb_steps]: "nb_step (fst s) (fst (nfsmNegotiationDone env k s))"
  unfolding nfsmNegotiationDone_def Let_def fst_trace_nstate
  by (auto intro!: nb_step_upd simp: nb_good_def become_adjacent_def)

lemma nb_step_advance:
  assumes "on_state (nb_of k s) \<ge> NSTATE_EXSTART" "v \<le> 7"
  shows "nb_step (fst s) (fst (set_state k v s))"
  unfolding set_state_def using assms by (intro nb_step_upd) (auto simp: nb_good_def become_adjacent_def)

lemma nfsmExchangeDone_step [nb_steps]: "nb_step (fst s) (fst (nfsmExchangeDone k s))"
proof (cases "on_state (nb_of k s) = NSTATE_EXCHANGE")
  case True
  let ?s = "upd_nb k (\<lambda>nb. nb\<lparr>on_last_dd_pkt := None\<rparr>) s"
  have s: "nb_step (fst s) (fst (set_state k v ?s))" if "v \<le> 7" for v
  proof -
    have "set_state k v ?s = upd_nb k (\<lambda>nb. nb\<lparr>on_last_dd_pkt := None, on_state := v\<rparr>) s"
      by (simp add: set_state_def upd_nb_def)
    then show ?thesis using True that
      by (auto intro!: nb_step_upd simp: nb_good_def become_adjacent_def)
  qed
  have "nb_step (fst s) (fst (snd (lsrequestBuildPkt k (set_state k NSTATE_LOADING ?s))))"
    using nb_step_trans [OF s lsrequestBuildPkt_step] by simp
  with s [of NSTATE_FULL] True show ?thesis
    by (auto simp: nfsmExchangeDone_def Let_def split: prod.split option.split)
qed (simp add: nfsmExchangeDone_def Let_def)

lemma nfsmLoadingDone_step [nb_steps]: "nb_step (fst s) (fst (nfsmLoadingDone k s))"
  using nb_step_advance [of k s NSTATE_FULL] by (simp add: nfsmLoadingDone_def Let_def)

lemma nfsmAdjOK_step [nb_steps]: "nb_step (fst s) (fst (nfsmAdjOK env k s))"
proof -
  let ?s = "upd_nb k (\<lambda>nb. nb\<lparr>on_adj_posponed := False, on_state := NSTATE_EXSTART\<rparr>) s"
  have "nb_step (fst s) (fst ?s)" if "become_adjacent (fst s) (nb_of k s)"
    using that by (intro nb_step_upd) (auto simp: nb_good_def become_adjacent_def)
  then have 1: "nb_step (fst s) (fst (start_adj env k ?s))" if "become_adjacent (fst s) (nb_of k s)"
    using that nb_step_trans start_adj_step by blast
  have 2: "nb_step (fst s) (fst (set_state k NSTATE_2WAY (clear_lsa k s)))"
    by (rule nb_step_trans [OF clear_lsa_step]) (rule nb_step_set_state, simp_all)
  have 3: "nb_step (fst s) (fst (upd_nb k (\<lambda>nb. nb\<lparr>on_adj_posponed := True\<rparr>) s))" by (rule nb_step_upd_quiet) simp_all
  show ?thesis using 1 2 3 unfolding nfsmAdjOK_def Let_def by simp
qed

lemma nfsmSeqNumberMismatch_step [nb_steps]: "nb_step (fst s) (fst (nfsmSeqNumberMismatch env k s))"
proof (cases "on_state (nb_of k s) \<ge> NSTATE_EXCHANGE")
  case True
  let ?s = "upd_nb k (\<lambda>nb. nb\<lparr>on_state := NSTATE_EXSTART, on_dd_seq_number := on_dd_seq_number nb + 1,
    on_last_dd_pkt := None, on_last_lsreq_pkt := None, on_ddsum := [], on_lsreq := []\<rparr>) s"
  have "nb_step (fst s) (fst ?s)"
    using True by (intro nb_step_upd) (auto simp: nb_good_def become_adjacent_def)
  then have "nb_step (fst s) (fst (start_adj env k (call c ?s)))" for c
    using start_adj_step [of "call c ?s" env k] nb_step_trans by auto
  then show ?thesis using True by (simp add: nfsmSeqNumberMismatch_def Let_def)
qed (simp add: nfsmSeqNumberMismatch_def Let_def)

lemma nfsm1Way_step [nb_steps]: "nb_step (fst s) (fst (nfsm1Way k s))"
  using nb_step_trans [OF nb_step_set_state [of NSTATE_INIT k s] clear_lsa_step]
  by (simp add: nfsm1Way_def Let_def)

lemma nfsmLLDown_step [nb_steps]: "nb_step (fst s) (fst (nfsmLLDown k s))"
  unfolding nfsmLLDown_def Let_def fst_trace_nstate clean_neighbor_def
  by (rule nb_step_trans [OF _ clear_lsa_step]) (rule nb_step_upd, auto simp: nb_good_def)

section \<open>Database description packets and timers\<close>

lemma nb_step_comp: "nb_step a (fst s) \<Longrightarrow> (\<And>s. nb_step (fst s) (fst (f s))) \<Longrightarrow> nb_step a (fst (f s))"
  using nb_step_trans by blast

lemma dd_exstart_step: "nb_step (fst s) (fst (snd (dd_exstart env k e s)))"
  unfolding dd_exstart_def Let_def
  by (auto intro!: nb_step_comp [OF nb_step_upd_quiet nfsmNegotiationDone_step])

lemma dd_exchange_step: "nb_step (fst s) (fst (snd (dd_exchange env k s)))"
  unfolding dd_exchange_def Let_def by (auto intro!: nb_step_upd_quiet nfsmSeqNumberMismatch_step)

lemma dd_loaded_step: "nb_step (fst s) (fst (snd (dd_loaded env k s)))"
  unfolding dd_loaded_def Let_def by (auto intro!: nfsmSeqNumberMismatch_step)

lemma dd_headers_step: "nb_step (fst s) (fst (snd (dd_headers env k hs s)))"
proof (induction hs arbitrary: s)
  case (Cons h hs)
  show ?case
    using nfsmSeqNumberMismatch_step [of s env k] Cons [of s]
      nb_step_trans [OF nb_step_upd_quiet Cons, of "\<lambda>nb. nb\<lparr>on_lsreq := lsahListAdd h (on_lsreq nb)\<rparr>" s k] by simp
qed simp


lemma dd_send_step:
  "nb_step (fst s) (fst (case dbdescBuildPkt env k flds s of (pkt, s) \<Rightarrow> txpacket_unicast k pkt s))"
  using dbdescBuildPkt_step [of s env k flds] by (simp add: split_beta)

lemma dd_answer_step: "nb_step (fst s) (fst (dd_answer env k s))"
proof -
  have send: "nb_step (fst s) (fst (case dbdescBuildPkt env k flds (upd_nb k g s) of (pkt, s) \<Rightarrow> txpacket_unicast k pkt s))"
    if "\<And>nb. on_ip (g nb) = on_ip nb" "\<And>nb. on_state (g nb) = on_state nb" for g flds
    using nb_step_trans [OF nb_step_upd_quiet dd_send_step] that by blast
  show ?thesis
    unfolding dd_answer_def Let_def
    by (auto simp: split_beta simp del: fst_txpacket
        intro!: send [unfolded split_beta] nb_step_comp [OF _ nfsmExchangeDone_step] nb_step_upd_quiet
          nb_step_trans [OF send [unfolded split_beta] nb_step_upd_quiet])
qed

lemma dd_neighbor_step: "nb_step (fst s) (fst (dd_neighbor env k hs s))"
proof -
  define s1 where "s1 = (if on_state (nb_of k s) = NSTATE_INIT then nfsm2WayReceived env k s else s)"
  define r where "r = (let state = on_state (nb_of k s1) in
    if state = NSTATE_2WAY then (False, s1) else if state = NSTATE_EXSTART then dd_exstart env k (hs = []) s1
    else if state = NSTATE_EXCHANGE then dd_exchange env k s1 else dd_loaded env k s1)"
  define h where "h = (if fst r then dd_headers env k hs (snd r) else (False, snd r))"
  have "nb_step (fst s) (fst s1)" by (simp add: s1_def nfsm2WayReceived_step)
  also have "nb_step (fst s1) (fst (snd r))"
    by (simp add: r_def Let_def dd_exstart_step dd_exchange_step dd_loaded_step)
  also have "nb_step (fst (snd r)) (fst (snd h))" by (simp add: h_def dd_headers_step)
  also have "nb_step (fst (snd h)) (fst (if fst h then dd_answer env k (snd h) else snd h))" by (simp add: dd_answer_step)
  also have "(if fst h then dd_answer env k (snd h) else snd h) = dd_neighbor env k hs s"
    by (simp add: dd_neighbor_def s1_def r_def h_def Let_def split_beta)
  finally show ?thesis .
qed

lemma dd_timer_step: "nb_step (fst s) (fst (dd_timer k s))"
  unfolding dd_timer_def Let_def
  by (auto split: option.split intro: nb_step_upd_quiet intro!: nb_step_trans [OF _ nb_step_upd_quiet [of _ "txpacket_unicast k p s" for p]])

lemma lsreq_timer_step: "nb_step (fst s) (fst (lsreq_timer k s))"
  unfolding lsreq_timer_def Let_def
  by (auto split: option.split intro: nb_step_upd_quiet intro!: nb_step_trans [OF _ nb_step_upd_quiet [of _ "txpacket_unicast k p s" for p]])

lemma neighbor_tick_step: "nb_step (fst s) (fst (snd (neighbor_tick env n k s)))"
proof -
  let ?s = "rxmt_timer k (lsreq_timer k (dd_timer k s))"
  have "fst ?s = fst (lsreq_timer k (dd_timer k s))" by (simp add: rxmt_timer_def)
  then have 1: "nb_step (fst s) (fst ?s)" using nb_step_trans [OF dd_timer_step lsreq_timer_step] by simp
  have "nb_step (fst ?s) (fst (nfsmAdjOK env k (upd_nb k (\<lambda>nb. nb\<lparr>on_adj_posponed := False\<rparr>) ?s)))"
    by (rule nb_step_comp [OF nb_step_upd_quiet nfsmAdjOK_step]) simp_all
  then show ?thesis using 1 nb_step_trans [OF 1] by (simp add: neighbor_tick_def Let_def)
qed


section \<open>AdjOK? for all neighbours\<close>

text \<open>Only the neighbour at position \<open>k\<close> changes; its state stays a state.\<close>

definition only_nb :: "nat \<Rightarrow> net_out \<Rightarrow> net_out \<Rightarrow> bool" where
  "only_nb k s s' \<longleftrightarrow> net_frame (fst s) (fst s') \<and> (\<forall>j. j \<noteq> k \<longrightarrow> nb_of j s' = nb_of j s)"

lemma only_nb_refl [simp]: "fst s' = fst s \<Longrightarrow> only_nb k s s'"
  by (simp add: only_nb_def nb_of_def)

lemma only_nb_trans [trans]: "only_nb k a b \<Longrightarrow> only_nb k b c \<Longrightarrow> only_nb k a c"
  unfolding only_nb_def using net_frame_trans by metis

lemma net_frame_length: "net_frame n n' \<Longrightarrow> length (net_neighbor n') = length (net_neighbor n)"
  unfolding net_frame_def by (metis length_map)

lemma nth_upd_pos_other: "j \<noteq> k \<Longrightarrow> upd_pos k f xs ! j = xs ! j"
  by (simp add: upd_pos_def)

lemma only_nb_upd: "(\<And>nb. on_ip (g nb) = on_ip nb) \<Longrightarrow> only_nb k s (upd_nb k g s)"
  by (simp add: only_nb_def upd_nb_def nb_of_def map_upd_pos_id nth_upd_pos_other)

lemma nb_of_fst: "fst s' = fst s \<Longrightarrow> nb_of k s' = nb_of k s"
  by (simp add: nb_of_def)

lemma start_adj_only:
  assumes "k < length (net_neighbor (fst s))"
  shows "only_nb k s (start_adj env k s) \<and> on_state (nb_of k (start_adj env k s)) = on_state (nb_of k s)"
proof -
  let ?s = "upd_nb k (\<lambda>nb. nb\<lparr>on_dd_seq_number := (if on_dd_seq_number nb = 0 then ne_time env else on_dd_seq_number nb) + 1,
    on_master := True, on_options := if ne_stub env then 0x40 else 0x42\<rparr>) s"
  obtain hs dds pkt where b: "snd (dbdescBuildPkt env k 7 ?s) =
      upd_nb k (\<lambda>nb. nb\<lparr>on_ddsum := dds, on_last_dd_pkt := Some pkt, on_dd_rxmt_timer := sint (net_rxtm_interval (fst ?s))\<rparr>) ?s"
    unfolding dbdescBuildPkt_def Let_def split_beta by auto
  have eq: "fst (start_adj env k s) = fst (snd (dbdescBuildPkt env k 7 ?s))"
    unfolding start_adj_def Let_def split_beta by simp
  have "only_nb k s ?s" by (rule only_nb_upd) simp
  also have "only_nb k ?s (snd (dbdescBuildPkt env k 7 ?s))" unfolding b by (rule only_nb_upd) simp
  also have "only_nb k \<dots> (start_adj env k s)" using eq by simp
  finally have "only_nb k s (start_adj env k s)" .
  moreover have "k < length (net_neighbor (fst ?s))" using assms by (simp add: upd_nb_def)
  then have "on_state (nb_of k (snd (dbdescBuildPkt env k 7 ?s))) = on_state (nb_of k s)"
    unfolding b using assms by (simp add: nb_of_upd_nb)
  ultimately show ?thesis using nb_of_fst [OF eq] by simp
qed

lemma clear_lsa_only: "only_nb k s (clear_lsa k s)"
proof -
  let ?s = "upd_nb k (\<lambda>nb. nb\<lparr>on_ddsum := [], on_lsreq := []\<rparr>) s"
  have "only_nb k s ?s" by (rule only_nb_upd) simp
  also have "only_nb k ?s (clear_lsa k s)" by (rule only_nb_refl) (simp add: clear_lsa_def Let_def)
  finally show ?thesis .
qed

lemma nfsmAdjOK_only:
  assumes k: "k < length (net_neighbor (fst s))"
  shows "only_nb k s (nfsmAdjOK env k s)"
proof -
  let ?s = "upd_nb k (\<lambda>nb. nb\<lparr>on_adj_posponed := False, on_state := NSTATE_EXSTART\<rparr>) s"
  have "only_nb k s ?s" by (rule only_nb_upd) simp
  moreover have "only_nb k ?s (start_adj env k ?s)" using k start_adj_only [of k ?s env] by (simp add: upd_nb_def)
  ultimately have 1: "only_nb k s (start_adj env k ?s)" by (rule only_nb_trans)
  have 2: "only_nb k s (set_state k NSTATE_2WAY (clear_lsa k s))"
    unfolding set_state_def by (rule only_nb_trans [OF clear_lsa_only only_nb_upd]) simp
  have 3: "only_nb k s (upd_nb k (\<lambda>nb. nb\<lparr>on_adj_posponed := True\<rparr>) s)" by (rule only_nb_upd) simp
  have tr: "only_nb k s (trace_nstate l k s')" if "only_nb k s s'" for s' l
    using that only_nb_refl only_nb_trans fst_trace_nstate by metis
  show ?thesis using 1 2 3 tr unfolding nfsmAdjOK_def Let_def by simp
qed

lemma become_adjacent_ip: "on_ip nb' = on_ip nb \<Longrightarrow> become_adjacent n nb' = become_adjacent n nb"
  by (simp add: become_adjacent_def)

lemma only_nb_ip: "only_nb k s s' \<Longrightarrow> k < length (net_neighbor (fst s)) \<Longrightarrow> on_ip (nb_of k s') = on_ip (nb_of k s)"
  unfolding only_nb_def nb_of_def net_frame_def by (metis length_map nth_map)

lemma nfsmAdjOK_good:
  assumes k: "k < length (net_neighbor (fst s))" and st: "on_state (nb_of k s) \<le> 7"
  shows "nb_good (fst s) (nb_of k (nfsmAdjOK env k s))"
proof -
  let ?r = "nfsmAdjOK env k s"
  let ?s = "upd_nb k (\<lambda>nb. nb\<lparr>on_adj_posponed := False, on_state := NSTATE_EXSTART\<rparr>) s"
  have k': "k < length (net_neighbor (fst ?s))" "k < length (net_neighbor (fst (clear_lsa k s)))"
    using k net_frame_length [of "fst s" "fst (clear_lsa k s)"] clear_lsa_only [of k s] by (simp_all add: upd_nb_def only_nb_def)
  have adj: "become_adjacent (fst s) (nb_of k ?r) = become_adjacent (fst s) (nb_of k s)"
    using become_adjacent_ip only_nb_ip [OF nfsmAdjOK_only k] k by blast
  have tr: "on_state (nb_of k (trace_nstate l k s')) = on_state (nb_of k s')" for l s'
    using nb_of_fst [OF fst_trace_nstate] by simp
  have 1: "on_state (nb_of k (start_adj env k ?s)) = NSTATE_EXSTART"
    using start_adj_only [OF k'(1), of env] k by (simp add: nb_of_upd_nb)
  have 2: "on_state (nb_of k (set_state k NSTATE_2WAY (clear_lsa k s))) = NSTATE_2WAY"
    unfolding set_state_def using k'(2) by (simp add: nb_of_upd_nb)
  have 3: "on_state (nb_of k (upd_nb k (\<lambda>nb. nb\<lparr>on_adj_posponed := True\<rparr>) s)) = on_state (nb_of k s)"
    using k by (simp add: nb_of_upd_nb)
  have "on_state (nb_of k ?r) \<le> 7 \<and> (NSTATE_EXSTART \<le> on_state (nb_of k ?r) \<longrightarrow> become_adjacent (fst s) (nb_of k s))"
    using st unfolding nfsmAdjOK_def Let_def by (auto simp: tr 1 [simplified] 2 [simplified] 3)
  then show ?thesis by (simp add: nb_good_def adj)
qed

lemma adjok_fold:
  fixes env :: nb_env and s s' :: net_out and i :: nat
  assumes "i \<le> length (net_neighbor (fst s))" "\<forall>nb \<in> set (net_neighbor (fst s)). on_state nb \<le> 7"
  defines "s' \<equiv> fold (\<lambda>k s. if on_state (nb_of k s) \<ge> NSTATE_2WAY then nfsmAdjOK env k s else s) [0..<i] s"
  shows "net_frame (fst s) (fst s') \<and> (\<forall>j \<ge> i. nb_of j s' = nb_of j s) \<and> (\<forall>j < i. nb_good (fst s) (nb_of j s'))"
  using assms(1) unfolding s'_def
proof (induction i)
  case (Suc i)
  define f where "f = (\<lambda>k s. if on_state (nb_of k s) \<ge> NSTATE_2WAY then nfsmAdjOK env k s else s)"
  define t where "t = fold f [0..<i] s"
  have IH: "net_frame (fst s) (fst t)" "\<forall>j \<ge> i. nb_of j t = nb_of j s" "\<forall>j < i. nb_good (fst s) (nb_of j t)"
    using Suc by (auto simp: t_def f_def)
  have i: "i < length (net_neighbor (fst t))" using Suc.prems net_frame_length [OF IH(1)] by simp
  have st: "on_state (nb_of i t) \<le> 7" using IH(2) Suc.prems assms(2) by (simp add: nb_of_def)
  have only: "net_frame (fst t) (fst (f i t))" "\<And>j. j \<noteq> i \<Longrightarrow> nb_of j (f i t) = nb_of j t"
    using nfsmAdjOK_only [OF i, of env] by (simp_all add: f_def only_nb_def)
  have good: "nb_good (fst s) (nb_of i (f i t))"
    using nfsmAdjOK_good [OF i st, of env] nb_good_frame [OF IH(1)] st by (auto simp: f_def nb_good_def)
  have "nb_good (fst s) (nb_of j (f i t))" if "j < Suc i" for j
    using that good only(2) [of j] IH(3) by (cases "j = i") auto
  moreover have "nb_of j (f i t) = nb_of j s" if "Suc i \<le> j" for j
    using that only(2) [of j] IH(2) by simp
  ultimately have "net_frame (fst s) (fst (f i t)) \<and> (\<forall>j \<ge> Suc i. nb_of j (f i t) = nb_of j s) \<and>
      (\<forall>j < Suc i. nb_good (fst s) (nb_of j (f i t)))"
    using net_frame_trans [OF IH(1) only(1)] by blast
  moreover have "fold f [0..<Suc i] s = f i t" by (simp add: t_def)
  ultimately show ?case unfolding f_def by simp
qed simp

text \<open>Whatever the elected routers are, afterwards every neighbour in the exchange is one to be adjacent with.\<close>

lemma adjok_all_ok:
  assumes "\<forall>nb \<in> set (net_neighbor (fst s)). on_state nb \<le> 7"
  shows "net_frame (fst s) (fst (adjok_all env s)) \<and> adj_ok (fst (adjok_all env s))"
proof -
  let ?s' = "adjok_all env s"
  have f: "net_frame (fst s) (fst ?s')" "\<forall>j < length (net_neighbor (fst s)). nb_good (fst s) (nb_of j ?s')"
    using adjok_fold [OF order_refl assms, of env] by (simp_all add: adjok_all_def)
  then show ?thesis using net_frame_length [OF f(1)] nb_good_frame [OF f(1)]
    by (simp add: adj_ok_def list_all_length nb_of_def)
qed

end
