(* ===== verification/Ospf_AdjSys.thy ===== *)
theory Ospf_AdjSys
  imports Ospf_AdjInv
begin

text \<open>
  The adjacency invariants over the whole list of areas, for every handler and every sequence of
  events.
\<close>

section \<open>The scratch fields of the election\<close>

definition erase_nb :: "OspfNeighbor \<Rightarrow> OspfNeighbor" where
  "erase_nb nb = nb\<lparr>on_dr_election_sum := 0, on_bdr_election_sum := 0\<rparr>"

definition erase_net :: "OspfNetwork \<Rightarrow> OspfNetwork" where
  "erase_net n = n\<lparr>net_neighbor := map erase_nb (net_neighbor n), net_dr_nb := None, net_bdr_nb := None\<rparr>"

definition erase :: "area_list \<Rightarrow> area_list" where
  "erase = map (\<lambda>a. a\<lparr>oa_network := map erase_net (oa_network a)\<rparr>)"

lemma erase_nb_sel [simp]:
  "on_ip (erase_nb nb) = on_ip nb" "on_state (erase_nb nb) = on_state nb" "become_adjacent n (erase_nb nb) = become_adjacent n nb"
  by (simp_all add: erase_nb_def become_adjacent_def)

lemma erase_net_sel [simp]:
  "net_ip (erase_net n) = net_ip n" "net_mask (erase_net n) = net_mask n" "net_state (erase_net n) = net_state n"
  "net_designated_router (erase_net n) = net_designated_router n" "net_backup_router (erase_net n) = net_backup_router n"
  "net_neighbor (erase_net n) = map erase_nb (net_neighbor n)" "become_adjacent (erase_net n) nb = become_adjacent n nb"
  "net_type (erase_net n) = net_type n" "net_area_id (erase_net n) = net_area_id n"
  by (simp_all add: erase_net_def become_adjacent_def)

lemma upd_net_id: "upd_net p (\<lambda>n. n) al = al"
  by (rule nth_equalityI) (auto simp: upd_net_def nth_upd_pos upd_pos_def)

lemma upd_net_comp: "upd_net p f (upd_net p g al) = upd_net p (\<lambda>n. f (g n)) al"
  by (simp add: upd_net_def)

lemma map_upd_pos_comm: "(\<And>x. h (f x) = g (h x)) \<Longrightarrow> map h (upd_pos k f xs) = upd_pos k g (map h xs)"
  by (rule nth_equalityI) (auto simp: nth_upd_pos)

lemma erase_upd: "(\<And>n. erase_net (f n) = g (erase_net n)) \<Longrightarrow> erase (upd_net p f al) = upd_net p g (erase al)"
  unfolding erase_def upd_net_def by (rule map_upd_pos_comm) (simp add: map_upd_pos_comm)

lemma erase_upd_same: "(\<And>n. erase_net (f n) = erase_net n) \<Longrightarrow> erase (upd_net p f al) = erase al"
  using erase_upd [of f "\<lambda>n. n" p al] by (simp add: upd_net_id)

lemma the_net_erase: "net_valid p al \<Longrightarrow> the_net p (erase al) = erase_net (the_net p al)"
  by (simp add: net_valid_def the_net_def erase_def)

lemma net_valid_erase: "net_valid p (erase al) = net_valid p al"
  by (auto simp: net_valid_def erase_def)

lemma find_pos_map_comp: "find_pos P (map f xs) = find_pos (P \<circ> f) xs"
  by (induction xs) simp_all

text \<open>The lookups of a network see only the area ids and the addresses and masks of the networks.\<close>

definition shape :: "area_list \<Rightarrow> (u32 \<times> (u32 \<times> u32) list) list" where
  "shape = map (\<lambda>a. (oa_area_id a, map (\<lambda>n. (net_ip n, net_mask n)) (oa_network a)))"

lemma shape_upd: "(\<And>n. net_ip (f n) = net_ip n \<and> net_mask (f n) = net_mask n) \<Longrightarrow> shape (upd_net p f al) = shape al"
  by (rule nth_equalityI) (auto simp: shape_def upd_net_def nth_upd_pos map_upd_pos_id)

lemma shape_erase: "shape (erase al) = shape al"
  by (simp add: shape_def erase_def comp_def)

lemma networkFindIp_shape: "networkFindIp aid ip al =
  (case find_pos (\<lambda>x. fst x = aid) (shape al) of None \<Rightarrow> None
   | Some i \<Rightarrow> map_option (Pair i) (find_pos (\<lambda>(a, m). ip AND m = a AND m) (snd (shape al ! i))))"
proof -
  have "areaFind aid al = find_pos (\<lambda>x. fst x = aid) (shape al)"
    by (simp add: areaFind_def shape_def find_pos_map_comp comp_def)
  moreover have "find_pos (\<lambda>(a, m). ip AND m = a AND m) (snd (shape al ! i)) = find_pos (net_contains ip) (oa_network (al ! i))"
    if "i < length al" for i
    using that by (simp add: shape_def find_pos_map_comp comp_def net_contains_def [abs_def])
  moreover have "i < length al" if "areaFind aid al = Some i" for i
    using find_pos_lengthD [of _ al i] that by (simp add: areaFind_def)
  ultimately show ?thesis by (auto simp: networkFindIp_def split: option.split)
qed

lemma networkFindIp_cong:
  assumes "shape al = shape al'"
  shows "networkFindIp aid ip al = networkFindIp aid ip al'"
  unfolding networkFindIp_shape assms by (rule refl)

lemma erase_nb_idem [simp]: "erase_nb (erase_nb nb) = erase_nb nb" "erase_nb (nb\<lparr>on_bdr_election_sum := x\<rparr>) = erase_nb nb"
  by (simp_all add: erase_nb_def)

lemma erase_init_sums: "erase_net (init_sums n) = erase_net n"
  by (simp add: erase_net_def init_sums_def erase_nb_def)

lemma erase_step2and3: "erase_net (step2and3 n) = erase_net n"
  by (simp add: erase_net_def step2and3_def Let_def comp_def)

lemma neighborUnlink_first:
  assumes "networkFindIp aid (on_ip nb) al = Some q" "net_neighbor (the_net q al) = nb # nbs"
  shows "snd (neighborUnlink aid (q, 0) al) = upd_net q (\<lambda>n. n\<lparr>net_neighbor := drop_at 0 (net_neighbor n)\<rparr>) al"
  using assms by (simp add: neighborUnlink_def Let_def neighborFind_def)


lemma shape_of_erase: "erase al = erase al' \<Longrightarrow> shape al = shape al'"
  using shape_erase by metis

lemma drop_at_0 [simp]: "drop_at 0 (x # xs) = xs"
  by (simp add: drop_at_def)

text \<open>The election with the router itself in the list: the temporary neighbour is gone at the end.\<close>

lemma unlink_self:
  assumes find: "networkFindIp aid ip al = Some q" and this: "on_ip this = ip"
    and "erase al' = upd_net q (\<lambda>n. n\<lparr>net_neighbor := g (net_neighbor n)\<rparr>) (erase al)"
    and g: "\<And>nbs. \<exists>nb. g nbs = nb # nbs \<and> on_ip nb = ip"
  shows "erase (snd (neighborUnlink aid (q, 0) al')) = erase al"
proof -
  have shape: "shape al' = shape al"
    using assms(3) shape_erase [of al'] shape_erase [of al] shape_upd [of "\<lambda>n. n\<lparr>net_neighbor := g (net_neighbor n)\<rparr>" q "erase al"] by simp
  have find': "networkFindIp aid ip al' = Some q" using find networkFindIp_cong [OF shape] by simp
  have valid: "net_valid q al" "net_valid q al'"
    using networkFindIp_valid [OF find] networkFindIp_valid [OF find'] by simp_all
  have "erase_net (the_net q al') = (erase_net (the_net q al))\<lparr>net_neighbor := g (net_neighbor (erase_net (the_net q al)))\<rparr>"
    using assms(3) valid by (simp add: the_net_erase [symmetric] the_net_upd_net net_valid_erase)
  then have "map erase_nb (net_neighbor (the_net q al')) = g (map erase_nb (net_neighbor (the_net q al)))"
    using erase_net_sel(6) [of "the_net q al'"] erase_net_sel(6) [of "the_net q al"] by simp
  then obtain nb nbs where nb: "net_neighbor (the_net q al') = nb # nbs" "on_ip nb = ip"
    using g [of "map erase_nb (net_neighbor (the_net q al))"] by (metis erase_nb_sel(1) map_eq_Cons_D)
  have "erase (snd (neighborUnlink aid (q, 0) al')) =
      upd_net q (\<lambda>n. n\<lparr>net_neighbor := drop_at 0 (net_neighbor n)\<rparr>) (erase al')"
    unfolding neighborUnlink_first [OF find' [folded nb(2)] nb(1)]
    by (rule erase_upd) (simp add: erase_net_def map_drop_at)
  also have "\<dots> = upd_net q (\<lambda>n. n\<lparr>net_neighbor := drop_at 0 (g (net_neighbor n))\<rparr>) (erase al)"
    unfolding assms(3) by (simp add: upd_net_comp)
  also have "\<dots> = upd_net q (\<lambda>n. n) (erase al)"
  proof -
    have "drop_at 0 (g nbs) = nbs" for nbs using g [of nbs] by auto
    then show ?thesis by simp
  qed
  finally show ?thesis by (simp add: upd_net_id)
qed

lemma drbdr_steps_erase: "erase (drbdr_steps rid p al) = erase al"
proof -
  let ?n0 = "the_net p al"
  let ?tmp = "this_nb rid ?n0"
  define self where "self \<longleftrightarrow> net_router_priority ?n0 > 0"
  define r where "r = (if self then neighborAdd (net_area_id ?n0) ?tmp al else (True, al))"
  define q where "q = the (networkFindIp (net_area_id ?n0) (net_ip ?n0) (snd r))"
  define al2 where "al2 = upd_net p (\<lambda>n. step2and3 (init_sums n)) (snd r)"
  define net where "net = the_net p al2"
  define mark where "mark dr bdr = upd_net q (\<lambda>n. n\<lparr>net_neighbor := upd_pos 0
    (\<lambda>nb. nb\<lparr>on_designated_router := dr, on_backup_router := bdr\<rparr>) (net_neighbor n)\<rparr>)" for dr bdr
  define al3 where "al3 = (case (net_dr_nb net, net_bdr_nb net) of
      (Some dr, Some bdr) \<Rightarrow>
        if self then let al = (if fst r then al2 else mark dr bdr al2) in if role_changed net then upd_net p step2and3 al else al
        else al2
    | _ \<Rightarrow> al2)"
  have steps: "drbdr_steps rid p al = (if fst r then al3 else snd (neighborUnlink (net_area_id ?n0) (q, 0) al3))"
    unfolding drbdr_steps_def self_def [symmetric] r_def [symmetric] Let_def split_beta
      q_def [symmetric] al2_def [symmetric] net_def [symmetric] mark_def [symmetric]
    by (simp only: al3_def Let_def split_beta)
  have al2: "erase al2 = erase (snd r)"
    unfolding al2_def by (rule erase_upd_same) (simp add: erase_step2and3 erase_init_sums)
  have again: "erase (if role_changed net then upd_net p step2and3 a else a) = erase a" for a
    using erase_upd_same [of step2and3 p a] by (simp add: erase_step2and3)
  have al3: "erase al3 = erase al2 \<or> (\<not> fst r \<and> (\<exists>dr bdr. erase al3 = erase (mark dr bdr al2)))"
    unfolding al3_def Let_def using again by (auto split: option.split)
  show ?thesis
  proof (cases "fst r")
    case True
    then have "snd r = al" by (auto simp: r_def neighborAdd_def split: if_splits option.splits)
    then show ?thesis using steps True al3 al2 by simp
  next
    case False
    then have find: "networkFindIp (net_area_id ?n0) (net_ip ?n0) al \<noteq> None"
      "snd r = upd_net (the (networkFindIp (net_area_id ?n0) (net_ip ?n0) al)) (\<lambda>n. n\<lparr>net_neighbor := ?tmp # net_neighbor n\<rparr>) al"
      by (auto simp: r_def neighborAdd_def this_nb_def split: if_splits option.splits)
    have "shape (snd r) = shape al" unfolding find(2) by (rule shape_upd) simp
    then have q: "networkFindIp (net_area_id ?n0) (net_ip ?n0) al = Some q"
      using networkFindIp_cong [of "snd r" al] find(1) unfolding q_def by simp
    have add: "erase (snd r) = upd_net q (\<lambda>n. n\<lparr>net_neighbor := erase_nb ?tmp # net_neighbor n\<rparr>) (erase al)"
      unfolding find(2) q option.sel by (rule erase_upd) (simp add: erase_net_def)
    have marked: "erase (mark dr bdr al2) = upd_net q (\<lambda>n. n\<lparr>net_neighbor :=
        (erase_nb ?tmp)\<lparr>on_designated_router := dr, on_backup_router := bdr\<rparr> # net_neighbor n\<rparr>) (erase al)" for dr bdr
    proof -
      let ?m = "\<lambda>nb. nb\<lparr>on_designated_router := dr, on_backup_router := bdr\<rparr>"
      have "erase (mark dr bdr al2) = upd_net q (\<lambda>n. n\<lparr>net_neighbor := upd_pos 0 ?m (net_neighbor n)\<rparr>) (erase al2)"
        unfolding mark_def by (rule erase_upd) (simp add: erase_net_def map_upd_pos_comm [where g = ?m] erase_nb_def)
      then show ?thesis using al2 add by (simp add: upd_net_comp)
    qed
    have "\<exists>nb. on_ip nb = net_ip ?n0 \<and> erase al3 = upd_net q (\<lambda>n. n\<lparr>net_neighbor := nb # net_neighbor n\<rparr>) (erase al)"
    proof (cases "erase al3 = erase al2")
      case True
      then show ?thesis using al2 add by (intro exI [of _ "erase_nb ?tmp"]) (simp add: this_nb_def)
    next
      case False
      then obtain dr bdr where "erase al3 = erase (mark dr bdr al2)" using al3 by blast
      then show ?thesis using marked
        by (intro exI [of _ "(erase_nb ?tmp)\<lparr>on_designated_router := dr, on_backup_router := bdr\<rparr>"])
          (simp add: this_nb_def erase_nb_def)
    qed
    then show ?thesis using unlink_self [OF q, of ?tmp al3] steps False by (auto simp: this_nb_def)
  qed
qed


section \<open>The invariant\<close>

definition role_ok :: "OspfNetwork \<Rightarrow> bool" where
  "role_ok net \<longleftrightarrow> net_state net \<le> 5 \<and>
     (net_state net = NETSTATE_DR \<longrightarrow> net_ip net = net_designated_router net) \<and>
     (net_state net = NETSTATE_BACKUP \<longrightarrow> net_ip net \<noteq> net_designated_router net \<and> net_ip net = net_backup_router net) \<and>
     (net_state net = NETSTATE_DROTHER \<longrightarrow> net_ip net \<noteq> net_designated_router net \<and> net_ip net \<noteq> net_backup_router net)"

definition net_inv :: "OspfNetwork \<Rightarrow> bool" where
  "net_inv net \<longleftrightarrow> adj_ok net \<and> role_ok net"

definition nets :: "(net_ptr \<Rightarrow> OspfNetwork \<Rightarrow> bool) \<Rightarrow> area_list \<Rightarrow> bool" where
  "nets P al \<longleftrightarrow> (\<forall>q. net_valid q al \<longrightarrow> P q (the_net q al))"

definition sys_inv :: "adj_state \<Rightarrow> bool" where
  "sys_inv st \<longleftrightarrow> nets (\<lambda>_. net_inv) (adj_areas st)"

text \<open>During an election the state of the network does not yet agree with the elected routers.\<close>

definition electing :: "net_ptr \<Rightarrow> adj_state \<Rightarrow> bool" where
  "electing p st \<longleftrightarrow> nets (\<lambda>q n. if q = p then adj_ok n else net_inv n) (adj_areas st)"

lemma nets_upd:
  assumes "nets P al" "net_valid p al \<Longrightarrow> P p (the_net p al) \<Longrightarrow> P' p (f (the_net p al))" "\<And>q n. q \<noteq> p \<Longrightarrow> P q n \<Longrightarrow> P' q n"
  shows "nets P' (upd_net p f al)"
  unfolding nets_def
proof (intro allI impI)
  fix q
  assume "net_valid q (upd_net p f al)"
  then have q: "net_valid q al" by simp
  then have P: "P q (the_net q al)" using assms(1) by (simp only: nets_def)
  show "P' q (the_net q (upd_net p f al))"
  proof (cases "q = p")
    case True
    then show ?thesis using assms(2) P q by (simp add: the_net_upd_net)
  next
    case False
    then show ?thesis using assms(3) P q by (simp add: the_net_upd_other)
  qed
qed

lemma nets_erase: "(\<And>q n. P q (erase_net n) = P q n) \<Longrightarrow> nets P (erase al) = nets P al"
  by (simp add: nets_def net_valid_erase the_net_erase)

lemma adj_ok_erase: "adj_ok (erase_net n) = adj_ok n"
  by (simp add: adj_ok_def list_all_iff nb_good_def)

lemma net_inv_erase: "net_inv (erase_net n) = net_inv n"
  by (simp add: net_inv_def adj_ok_erase role_ok_def)

lemma adj_ok_fields [simp]:
  "adj_ok (n\<lparr>net_state := x\<rparr>) = adj_ok n" "adj_ok (n\<lparr>net_wait_timer := t\<rparr>) = adj_ok n" "adj_ok (n\<lparr>net_hello_timer := t\<rparr>) = adj_ok n"
  by (simp_all add: adj_ok_def list_all_iff nb_good_def become_adjacent_def)

lemma net_inv_timers [simp]:
  "net_inv (n\<lparr>net_wait_timer := t\<rparr>) = net_inv n" "net_inv (n\<lparr>net_hello_timer := t\<rparr>) = net_inv n"
  by (simp_all add: net_inv_def role_ok_def)

lemma role_ok_frame: "net_frame n n' \<Longrightarrow> role_ok n' = role_ok n"
  unfolding net_frame_def role_ok_def by (metis OspfNetwork.ext_inject OspfNetwork.surjective OspfNetwork.update_convs(1))

lemma net_inv_step: "nb_step n n' \<Longrightarrow> net_inv n \<Longrightarrow> net_inv n'"
  unfolding nb_step_def net_inv_def using role_ok_frame by blast

lemma at_net_areas: "adj_areas (at_net p f st) = upd_net p (\<lambda>_. fst (f (net_at p st, []))) (adj_areas st)"
  by (simp add: at_net_def split_beta Let_def)

lemma set_net_areas [simp]: "adj_areas (set_net p f st) = upd_net p f (adj_areas st)"
  by (simp add: set_net_def)

lemma save_last_areas [simp]: "adj_areas (save_last p st) = adj_areas st" "adj_areas (trace_netstate p st) = adj_areas st"
  by (simp_all add: save_last_def trace_netstate_def)

lemma at_net_inv:
  assumes "\<And>s. nb_step (fst s) (fst (f s))" "sys_inv st"
  shows "sys_inv (at_net p f st)"
  using assms(2) unfolding sys_inv_def at_net_areas
  by (rule nets_upd) (use assms(1) [of "(net_at p st, [])"] net_inv_step in \<open>auto simp: Let_def\<close>)

lemma at_net_electing:
  assumes "\<And>s. fst (f s) = fst s" "electing p st"
  shows "electing p (at_net p f st)"
  using assms(2) unfolding electing_def at_net_areas by (rule nets_upd) (simp_all add: assms(1))

lemma trace_inv [simp]: "sys_inv (trace_netstate p st) = sys_inv st" "sys_inv (save_last p st) = sys_inv st"
  "electing p (save_last p st) = electing p st"
  by (simp_all add: sys_inv_def electing_def trace_netstate_def save_last_def)

lemma finish_election_ok: "adj_ok (fst s) \<Longrightarrow> adj_ok (fst (finish_election env s))"
proof -
  assume ok: "adj_ok (fst s)"
  obtain ch net where r: "take_result (fst s) = (ch, net)" by (cases "take_result (fst s)")
  have nbs: "net_neighbor net = net_neighbor (fst s)" using r by (auto simp: take_result_def Let_def)
  show ?thesis
  proof (cases ch)
    case True
    have "\<forall>nb \<in> set (net_neighbor (fst (originate_if_dr (net, snd s)))). on_state nb \<le> 7"
      using ok nbs by (auto simp: adj_ok_def list_all_iff nb_good_def)
    then show ?thesis using adjok_all_ok True r by (simp add: finish_election_def Let_def)
  next
    case False
    then have "net_designated_router net = net_designated_router (fst s)" "net_backup_router net = net_backup_router (fst s)"
      "net_type net = net_type (fst s)" "net_ip net = net_ip (fst s)"
      using r by (auto simp: take_result_def Let_def split: option.splits)
    then have "adj_ok net" using ok nbs by (simp add: adj_ok_def list_all_iff nb_good_def become_adjacent_def)
    then show ?thesis using False r by (simp add: finish_election_def Let_def)
  qed
qed

lemma drbdrElection_inv: "sys_inv st \<Longrightarrow> electing p (drbdrElection env p st)"
proof -
  assume "sys_inv st"
  then have "nets (\<lambda>_. net_inv) (erase (adj_areas st))" by (simp add: sys_inv_def nets_erase net_inv_erase)
  then have *: "nets (\<lambda>_. net_inv) (drbdr_steps (ae_router_id env) p (adj_areas st))"
    using drbdr_steps_erase nets_erase [of "\<lambda>_. net_inv", OF net_inv_erase] by metis
  show ?thesis
    unfolding electing_def drbdrElection_def Let_def at_net_areas
    using nets_upd [OF *, of p "\<lambda>q n. if q = p then adj_ok n else net_inv n"]
    by (simp add: net_inv_def finish_election_ok)
qed

lemma elect_inv: "sys_inv st \<Longrightarrow> electing p (elect_and_originate env p st)"
  unfolding elect_and_originate_def by (rule at_net_electing [OF _ drbdrElection_inv]) simp

lemma set_role_inv: "electing p st \<Longrightarrow> sys_inv (set_role p st)"
  unfolding electing_def sys_inv_def set_role_def Let_def
  by (auto intro!: nets_upd [where P = "\<lambda>q n. if q = p then adj_ok n else net_inv n"] simp: net_inv_def role_ok_def)

lemma netfsmWaitTimer_inv: "sys_inv st \<Longrightarrow> sys_inv (netfsmWaitTimer env p st)"
  by (simp add: netfsmWaitTimer_def set_role_inv elect_inv)

lemma netfsmBackupSeen_inv: "sys_inv st \<Longrightarrow> sys_inv (netfsmBackupSeen env p st)"
  by (simp add: netfsmBackupSeen_def Let_def set_role_inv elect_inv)

lemma netfsmNeighborChange_inv: "sys_inv st \<Longrightarrow> sys_inv (netfsmNeighborChange env p st)"
  by (simp add: netfsmNeighborChange_def Let_def set_role_inv elect_inv)

lemma netfsmInterfaceUp_inv: "sys_inv st \<Longrightarrow> sys_inv (netfsmInterfaceUp p st)"
proof -
  assume inv: "sys_inv st"
  have up: "sys_inv (set_net p (\<lambda>n. n\<lparr>net_state := NETSTATE_WAITING, net_wait_timer := sint (net_dead_interval n)\<rparr>) st')" if "sys_inv st'" for st'
    using that unfolding sys_inv_def set_net_areas
    by (rule nets_upd) (auto simp: net_inv_def role_ok_def)
  have "sys_inv (set_net p (\<lambda>n. n\<lparr>net_state := NETSTATE_P2P\<rparr>) (save_last p st))"
    using inv unfolding sys_inv_def set_net_areas save_last_areas
    by (rule nets_upd) (auto simp: net_inv_def role_ok_def)
  with inv up show ?thesis by (simp add: netfsmInterfaceUp_def Let_def)
qed


section \<open>Removal of neighbours\<close>

lemma set_drop_at: "set (drop_at k xs) \<subseteq> set xs"
  unfolding drop_at_def by (auto dest: in_set_takeD in_set_dropD)

lemma net_inv_drop: "net_inv n \<Longrightarrow> net_inv (n\<lparr>net_neighbor := drop_at k (net_neighbor n)\<rparr>)"
  using set_drop_at [of k "net_neighbor n"]
  by (auto simp: net_inv_def adj_ok_def list_all_iff nb_good_def become_adjacent_def role_ok_def)

lemma neighborRemove_cases:
  "snd (neighborRemove aid (p, k) al) = al \<or>
   snd (neighborRemove aid (p, k) al) = upd_net p (\<lambda>n. n\<lparr>net_neighbor := drop_at k (net_neighbor n)\<rparr>) al"
  by (auto simp: neighborRemove_def neighborUnlink_def Let_def split: option.split)

lemma remove_neighbor_inv: "sys_inv st \<Longrightarrow> sys_inv (remove_neighbor env p k st)"
proof -
  assume inv: "sys_inv st"
  let ?st = "st\<lparr>adj_areas := snd (neighborRemove (net_area_id (net_at p st)) (p, k) (adj_areas st))\<rparr>"
  have "nets (\<lambda>_. net_inv) (upd_net p (\<lambda>n. n\<lparr>net_neighbor := drop_at k (net_neighbor n)\<rparr>) (adj_areas st))"
    using inv unfolding sys_inv_def by (rule nets_upd) (simp_all add: net_inv_drop)
  then have "sys_inv ?st"
    using inv neighborRemove_cases [of "net_area_id (net_at p st)" p k "adj_areas st"] by (auto simp: sys_inv_def)
  then show ?thesis by (simp add: remove_neighbor_def netfsmNeighborChange_inv at_net_inv)
qed

lemma nfsmInactivityTimer_inv: "sys_inv st \<Longrightarrow> sys_inv (nfsmInactivityTimer env p k st)"
  by (simp add: nfsmInactivityTimer_def Let_def remove_neighbor_inv at_net_inv nfsmLLDown_step)

text \<open>When the interface goes down the elected routers are forgotten first; the loop then has to take down
  every neighbour.\<close>

definition downing :: "nat \<Rightarrow> OspfNetwork \<Rightarrow> bool" where
  "downing k n \<longleftrightarrow> net_state n = NETSTATE_DOWN \<and> (\<forall>j < length (net_neighbor n). on_state (net_neighbor n ! j) \<le> 7) \<and>
     (\<forall>j < k. on_state (net_neighbor n ! j) = NSTATE_DOWN) \<and> k \<le> length (net_neighbor n)"

definition sys_downing :: "net_ptr \<Rightarrow> nat \<Rightarrow> adj_state \<Rightarrow> bool" where
  "sys_downing p k st \<longleftrightarrow> net_valid p (adj_areas st) \<and> nets (\<lambda>q n. if q = p then downing k n else net_inv n) (adj_areas st)"

lemma sys_downing_at: "sys_downing p k st \<Longrightarrow> downing k (net_at p st)"
  unfolding sys_downing_def nets_def by presburger

lemma nfsmLLDown_nb:
  assumes k: "k < length (net_neighbor (fst s))"
  shows "only_nb k s (nfsmLLDown k s) \<and> on_state (nb_of k (nfsmLLDown k s)) = NSTATE_DOWN"
proof -
  define g :: "OspfNeighbor \<Rightarrow> OspfNeighbor" where "g = (\<lambda>nb. nb\<lparr>on_state := NSTATE_DOWN, on_inactivity_timer := 0, on_master := False,
       on_dd_seq_number := 0, on_priority := 0, on_designated_router := 0, on_backup_router := 0,
       on_adj_posponed := False, on_last_dd_pkt := None, on_last_lsreq_pkt := None\<rparr>)"
  define h :: "OspfNeighbor \<Rightarrow> OspfNeighbor" where "h = (\<lambda>nb. nb\<lparr>on_ddsum := [], on_lsreq := []\<rparr>)"
  have eq: "fst (nfsmLLDown k s) = fst (upd_nb k (\<lambda>nb. h (g nb)) s)"
    by (simp add: nfsmLLDown_def Let_def clean_neighbor_def clear_lsa_def upd_nb_def g_def h_def)
  have "only_nb k s (upd_nb k (\<lambda>nb. h (g nb)) s)" by (rule only_nb_upd) (simp add: g_def h_def)
  then have "only_nb k s (nfsmLLDown k s)" using only_nb_refl [OF eq] only_nb_trans by blast
  moreover have "on_state (nb_of k (upd_nb k (\<lambda>nb. h (g nb)) s)) = NSTATE_DOWN"
    using k by (simp add: nb_of_upd_nb g_def h_def)
  ultimately show ?thesis using nb_of_fst [OF eq] by simp
qed

lemma net_frame_state: "net_frame n n' \<Longrightarrow> net_state n' = net_state n"
  unfolding net_frame_def by (metis OspfNetwork.ext_inject OspfNetwork.surjective OspfNetwork.update_convs(1))

lemma downing_LLDown:
  assumes "downing k n" "k < length (net_neighbor n)"
  shows "downing (Suc k) (fst (nfsmLLDown k (n, out))) \<and> length (net_neighbor (fst (nfsmLLDown k (n, out)))) = length (net_neighbor n)"
proof -
  let ?s = "nfsmLLDown k (n, out)"
  have only: "net_frame n (fst ?s)" "\<And>j. j \<noteq> k \<Longrightarrow> net_neighbor (fst ?s) ! j = net_neighbor n ! j"
    "on_state (net_neighbor (fst ?s) ! k) = 0"
    using nfsmLLDown_nb [of k "(n, out)"] assms(2) by (simp_all add: only_nb_def nb_of_def)
  have len: "length (net_neighbor (fst ?s)) = length (net_neighbor n)" using net_frame_length [OF only(1)] .
  have "on_state (net_neighbor (fst ?s) ! j) \<le> 7" if "j < length (net_neighbor n)" for j
    using that assms only(2,3) by (cases "j = k") (simp_all add: downing_def)
  moreover have "on_state (net_neighbor (fst ?s) ! j) = 0" if "j < Suc k" for j
    using that assms only(2,3) by (cases "j = k") (simp_all add: downing_def)
  ultimately show ?thesis using assms net_frame_state [OF only(1)] len by (simp add: downing_def)
qed

lemma downing_drop:
  assumes "downing (Suc k) n" "k < length (net_neighbor n)"
  shows "downing k (n\<lparr>net_neighbor := drop_at k (net_neighbor n)\<rparr>)"
proof -
  let ?xs = "net_neighbor n"
  have len: "length (drop_at k ?xs) = length ?xs - 1" using assms(2) by (simp add: drop_at_def)
  have "drop_at k ?xs ! j \<in> set ?xs" if "j < length (drop_at k ?xs)" for j
    using that set_drop_at nth_mem by fastforce
  then have "on_state (drop_at k ?xs ! j) \<le> 7" if "j < length (drop_at k ?xs)" for j
    using that assms(1) by (metis downing_def in_set_conv_nth)
  moreover have "drop_at k ?xs ! j = ?xs ! j" if "j < k" for j
    using that assms(2) by (simp add: drop_at_def nth_append)
  ultimately show ?thesis using assms len by (simp add: downing_def)
qed


lemma netfsmNeighborChange_down:
  "net_state (net_at p st) = NETSTATE_DOWN \<Longrightarrow> adj_areas (netfsmNeighborChange env p st) = adj_areas st"
  by (simp add: netfsmNeighborChange_def Let_def has_role_def)

lemma kill_step:
  fixes env :: adj_env and st st' :: adj_state and p :: net_ptr and k :: nat
  assumes d: "sys_downing p k st" and k: "k < length (net_neighbor (net_at p st))"
  defines "st' \<equiv> nfsmKillNbr env p k st"
  shows "(length (net_neighbor (net_at p st')) = length (net_neighbor (net_at p st)) - 1 \<and> sys_downing p k st') \<or>
    (length (net_neighbor (net_at p st')) = length (net_neighbor (net_at p st)) \<and> sys_downing p (Suc k) st')"
proof -
  let ?n = "fst (nfsmLLDown k (net_at p st, []))"
  let ?al = "upd_net p (\<lambda>_. ?n) (adj_areas st)"
  let ?drop = "\<lambda>n. n\<lparr>net_neighbor := drop_at k (net_neighbor n)\<rparr>"
  define al where "al = snd (neighborRemove (net_area_id ?n) (p, k) ?al)"
  have valid: "net_valid p (adj_areas st)" using d by (simp add: sys_downing_def)
  have n: "downing (Suc k) ?n" "length (net_neighbor ?n) = length (net_neighbor (net_at p st))"
    using downing_LLDown [OF sys_downing_at [OF d] k, of "[]"] by simp_all
  have 1: "nets (\<lambda>q n. if q = p then downing (Suc k) n else net_inv n) ?al"
    using d unfolding sys_downing_def by (intro nets_upd [where P = "\<lambda>q n. if q = p then downing k n else net_inv n"]) (auto simp: n(1))
  have 2: "nets (\<lambda>q n. if q = p then downing k n else net_inv n) (upd_net p ?drop ?al)"
    by (rule nets_upd [OF 1]) (use valid n k in \<open>auto simp: the_net_upd_net downing_drop\<close>)
  have al: "al = ?al \<or> al = upd_net p ?drop ?al" unfolding al_def by (rule neighborRemove_cases)
  then have state: "net_state (the_net p al) = NETSTATE_DOWN" "net_valid p al"
    using valid n(1) by (auto simp: the_net_upd_net downing_def)
  have lld: "adj_areas (at_net p (nfsmLLDown k) st) = ?al" "net_at p (at_net p (nfsmLLDown k) st) = ?n"
    using valid by (simp_all add: at_net_areas the_net_upd_net)
  have upd: "adj_areas (at_net p update_lsadb (at_net p (nfsmLLDown k) st\<lparr>adj_areas := al\<rparr>)) = upd_net p (\<lambda>_. the_net p al) al"
    by (simp add: at_net_areas)
  moreover have same: "upd_net p (\<lambda>_. the_net p al) al = al" by (simp add: upd_net_def the_net_def upd_pos_def)
  moreover have "snd (neighborRemove (net_area_id (net_at p (at_net p (nfsmLLDown k) st))) (p, k)
      (adj_areas (at_net p (nfsmLLDown k) st))) = al"
    by (metis al_def lld)
  ultimately have "adj_areas st' = al"
    using state unfolding st'_def nfsmKillNbr_def remove_neighbor_def Let_def
    by (simp add: netfsmNeighborChange_down)
  then consider "adj_areas st' = ?al" | "adj_areas st' = upd_net p ?drop ?al" using al by (elim disjE) simp_all
  then show ?thesis
  proof cases
    case 1
    then have "net_at p st' = ?n" using valid by (simp add: the_net_upd_net)
    then show ?thesis using 1 \<open>nets _ ?al\<close> valid n(2) by (simp add: sys_downing_def)
  next
    case 2
    then have "net_at p st' = ?drop ?n" using valid by (simp add: the_net_upd_net)
    moreover have "length (drop_at k (net_neighbor ?n)) = length (net_neighbor (net_at p st)) - 1"
      using n(2) k by (simp add: drop_at_def)
    ultimately show ?thesis using 2 \<open>nets _ (upd_net p ?drop ?al)\<close> valid by (simp add: sys_downing_def)
  qed
qed


lemma kill_loop_inv:
  "sys_downing p k st \<Longrightarrow> n = length (net_neighbor (net_at p st)) - k \<Longrightarrow> sys_inv (kill_loop n env p k st)"
proof (induction n arbitrary: k st)
  case 0
  then have "downing (length (net_neighbor (net_at p st))) (net_at p st)"
    using sys_downing_at [OF 0(1)] by (simp add: downing_def)
  then have "net_inv (net_at p st)"
    by (auto simp: net_inv_def adj_ok_def role_ok_def nb_good_def downing_def list_all_length)
  then have "nets (\<lambda>_. net_inv) (adj_areas st)"
    using 0(1) unfolding sys_downing_def nets_def by metis
  then show ?case by (simp add: sys_inv_def)
next
  case (Suc n)
  have k: "k < length (net_neighbor (net_at p st))" using Suc.prems(2) by simp
  define st' where "st' = nfsmKillNbr env p k st"
  have "kill_loop (Suc n) env p k st =
      kill_loop n env p (if length (net_neighbor (net_at p st')) < length (net_neighbor (net_at p st)) then k else Suc k) st'"
    by (simp add: st'_def Let_def)
  moreover from kill_step [OF Suc.prems(1) k, of env, folded st'_def]
  have "sys_inv (kill_loop n env p (if length (net_neighbor (net_at p st')) < length (net_neighbor (net_at p st)) then k else Suc k) st')"
  proof (elim disjE conjE)
    assume l: "length (net_neighbor (net_at p st')) = length (net_neighbor (net_at p st)) - 1" and d: "sys_downing p k st'"
    then have "n = length (net_neighbor (net_at p st')) - k" using Suc.prems(2) by linarith
    note Suc.IH [OF d this]
    moreover have "length (net_neighbor (net_at p st')) < length (net_neighbor (net_at p st))" using l k by linarith
    ultimately show ?thesis by simp
  next
    assume l: "length (net_neighbor (net_at p st')) = length (net_neighbor (net_at p st))" and d: "sys_downing p (Suc k) st'"
    then have "n = length (net_neighbor (net_at p st')) - Suc k" using Suc.prems(2) by linarith
    from Suc.IH [OF d this] show ?thesis using l by simp
  qed
  ultimately show ?case by simp
qed

lemma upd_net_invalid: "\<not> net_valid p al \<Longrightarrow> upd_net p f al = al"
  by (rule nth_equalityI) (auto simp: upd_net_def nth_upd_pos upd_pos_def net_valid_def)

lemma netfsmInterfaceDown_inv:
  assumes "sys_inv st" "net_valid p (adj_areas st)"
  shows "sys_inv (netfsmInterfaceDown env p st)"
proof -
  let ?st = "set_net p (\<lambda>n. n\<lparr>net_state := NETSTATE_DOWN, net_hello_timer := 0, net_wait_timer := 0,
                               net_designated_router := 0, net_backup_router := 0\<rparr>) (save_last p st)"
  have "nets (\<lambda>q n. if q = p then downing 0 n else net_inv n) (adj_areas ?st)"
    using assms(1) unfolding sys_inv_def set_net_areas save_last_areas
    by (rule nets_upd) (auto simp: downing_def net_inv_def adj_ok_def nb_good_def list_all_length)
  then have "sys_downing p 0 ?st" using assms(2) by (simp add: sys_downing_def)
  then show ?thesis unfolding netfsmInterfaceDown_def Let_def trace_inv by (rule kill_loop_inv) simp
qed

section \<open>Packets and timers\<close>

lemma sys_inv_if: "sys_inv a \<Longrightarrow> sys_inv b \<Longrightarrow> sys_inv (if c then a else b)"
  by simp

lemma run_event_inv: "sys_inv st \<Longrightarrow> sys_inv (run_event env p e st)"
  by (simp add: run_event_def netfsmNeighborChange_inv netfsmBackupSeen_inv split: option.split net_event.split)

lemma hello_neighbor_inv:
  assumes "sys_inv st"
  shows "sys_inv (hello_neighbor env desc h ids p k st)"
proof -
  let ?f = "\<lambda>s. nfsmHelloReceived k (upd_nb k (\<lambda>nb. nb\<lparr>on_priority := he_router_priority h,
                  on_designated_router := he_designated_router h, on_backup_router := he_backup_router h\<rparr>) s)"
  have "nb_step (fst s) (fst (?f s))" for s by (rule nb_step_comp [OF nb_step_upd_quiet nfsmHelloReceived_step]) simp_all
  then have 1: "sys_inv (at_net p ?f st)" using assms by (rule at_net_inv)
  have 2: "sys_inv (at_net p (if found then nfsm2WayReceived nenv k else nfsm1Way k) (at_net p ?f st))" for found nenv
    by (rule at_net_inv [OF _ 1]) (simp add: nfsm2WayReceived_step nfsm1Way_step)
  show ?thesis unfolding hello_neighbor_def Let_def by (intro sys_inv_if run_event_inv 2)
qed

lemma config_error_inv [simp]: "sys_inv (snd (config_error desc err st)) = sys_inv st"
  by (simp add: config_error_def sys_inv_def)

lemma neighborAdd_inv:
  "nets (\<lambda>_. net_inv) al \<Longrightarrow> on_state nb = NSTATE_DOWN \<Longrightarrow> nets (\<lambda>_. net_inv) (snd (neighborAdd aid nb al))"
  unfolding neighborAdd_def
  by (auto split: option.split intro!: nets_upd [where P = "\<lambda>_. net_inv"]
      simp: net_inv_def adj_ok_def role_ok_def list_all_iff nb_good_def become_adjacent_def)

lemma helloRx_inv:
  assumes "sys_inv st"
  shows "sys_inv (snd (helloRx env desc h ids st))"
proof -
  have "sys_inv (st\<lparr>adj_areas := snd (neighborAdd (pd_area_id desc) (new_neighbor_of desc) (adj_areas st))\<rparr>)"
    using assms neighborAdd_inv [of "adj_areas st" "new_neighbor_of desc"] by (simp add: sys_inv_def new_neighbor_of_def)
  then show ?thesis using assms
    by (auto simp: helloRx_def Let_def hello_neighbor_inv split: option.split prod.split bool.split)
qed

lemma dbdescRx_inv:
  assumes "sys_inv st"
  shows "sys_inv (snd (dbdescRx env desc dbd hs st))"
proof -
  have 1: "sys_inv (at_net p (upd_nb k (\<lambda>nb. nb\<lparr>on_lastdbd_options := dd_options dbd, on_lastdbd_fields := dd_fields dbd,
      on_lastdbd_seq := dd_seq dbd\<rparr>)) st)" for p k
    by (rule at_net_inv [OF _ assms]) (rule nb_step_upd_quiet, simp_all)
  have 2: "sys_inv (at_net p (dd_neighbor nenv k hs) st')" if "sys_inv st'" for p nenv k st'
    by (rule at_net_inv [OF dd_neighbor_step that])
  show ?thesis using assms 1 2 by (auto simp: dbdescRx_def Let_def split: option.split prod.split)
qed

lemma neighbor_loop_inv: "sys_inv st \<Longrightarrow> sys_inv (neighbor_loop n env no_inact p cnt k st)"
proof (induction n arbitrary: cnt k st)
  case (Suc n)
  have 1: "sys_inv (at_net p (upd_nb k (\<lambda>nb. nb\<lparr>on_inactivity_timer := on_inactivity_timer nb - 1\<rparr>)) st)"
    by (rule at_net_inv [OF _ Suc.prems]) (rule nb_step_upd_quiet, simp_all)
  have 2: "sys_inv (at_net p (\<lambda>s. snd (neighbor_tick nenv m k s)) st')" if "sys_inv st'" for nenv m st'
    by (rule at_net_inv [OF neighbor_tick_step that])
  show ?case unfolding neighbor_loop.simps Let_def
    by (intro sys_inv_if Suc.IH 2 nfsmInactivityTimer_inv 1 Suc.prems)
qed simp

lemma set_timer_inv: "sys_inv st \<Longrightarrow> sys_inv (set_net p (\<lambda>n. n\<lparr>net_wait_timer := f n\<rparr>) st)"
  unfolding sys_inv_def set_net_areas by (rule nets_upd) simp_all

lemma wait_tick_inv: "sys_inv st \<Longrightarrow> sys_inv (wait_tick env p st)"
  by (simp add: wait_tick_def Let_def set_timer_inv netfsmWaitTimer_inv)

lemma hello_tick_inv: "sys_inv st \<Longrightarrow> sys_inv (at_net p (hello_tick stub) st)"
  unfolding sys_inv_def at_net_areas by (rule nets_upd) (auto simp: hello_tick_def Let_def)

lemma network_tick_inv: "sys_inv st \<Longrightarrow> sys_inv (network_tick env no_inact p st)"
  by (simp add: network_tick_def Let_def hello_tick_inv neighbor_loop_inv wait_tick_inv)

lemma networkTimeout_inv: "sys_inv st \<Longrightarrow> sys_inv (networkTimeout env no_inact st)"
proof -
  have "sys_inv (fold (network_tick env no_inact) ps st')" if "sys_inv st'" for ps st'
    using that by (induction ps arbitrary: st') (simp_all add: network_tick_inv)
  then show "sys_inv st \<Longrightarrow> ?thesis" by (simp add: networkTimeout_def)
qed

end
