(* ===== verification/Ospf_Election.thy ===== *)
theory Ospf_Election
  imports Ospf_AdjSys "HOL-Library.Multiset"
begin

text \<open>
  Correctness of the designated router election (\<open>ospf/exec/drbdr.c\<close>) against the description in
  section 9.4 of RFC 2328, which the comments of the source quote, and the invariants of the
  adjacencies over every sequence of events.
\<close>

section \<open>The walk over the candidates\<close>

text \<open>A result is best among the candidates when no candidate beats it.\<close>

definition is_best :: "('a \<Rightarrow> 'a \<Rightarrow> bool) \<Rightarrow> ('a \<Rightarrow> bool) \<Rightarrow> 'a list \<Rightarrow> 'a option \<Rightarrow> bool" where
  "is_best beats P xs r \<longleftrightarrow>
     (case r of None \<Rightarrow> \<forall>x \<in> set xs. \<not> P x
      | Some b \<Rightarrow> b \<in> set xs \<and> P b \<and> (\<forall>x \<in> set xs. P x \<longrightarrow> \<not> beats x b))"

lemma elect_loop_Some:
  "P b \<Longrightarrow> \<exists>r. elect_loop P w (Some b) nbs = Some r \<and> P r \<and> r \<in> insert b (set nbs) \<and> (r = b \<or> w b < w r) \<and>
     (\<forall>x \<in> set nbs. P x \<longrightarrow> w x \<le> w r)"
proof (induction nbs arbitrary: b)
  case (Cons nb nbs)
  define c where "c = (if P nb \<and> w nb > w b then nb else b)"
  have "P c" using Cons.prems by (simp add: c_def)
  from Cons.IH [OF this] obtain r where r: "elect_loop P w (Some c) nbs = Some r" "P r" "r \<in> insert c (set nbs)"
      "r = c \<or> w c < w r" "\<forall>x \<in> set nbs. P x \<longrightarrow> w x \<le> w r" by blast
  have "elect_loop P w (Some b) (nb # nbs) = elect_loop P w (Some c) nbs" by (simp add: c_def)
  moreover have "r = b \<or> w b < w r" "P nb \<longrightarrow> w nb \<le> w r" using r(4) by (auto simp: c_def split: if_splits)
  moreover have "r \<in> insert b (set (nb # nbs))" using r(3) by (auto simp: c_def split: if_splits)
  ultimately show ?case using r by auto
qed simp

lemma elect_loop_best: "is_best (\<lambda>x y. w y < w x) P nbs (elect_loop P w None nbs)"
proof (induction nbs)
  case (Cons nb nbs)
  show ?case
  proof (cases "P nb")
    case True
    with elect_loop_Some [of P nb w nbs] show ?thesis by (auto simp: is_best_def not_less)
  next
    case False
    with Cons.IH show ?thesis by (auto simp: is_best_def split: option.splits)
  qed
qed (simp add: is_best_def)

lemma elect_loop_map:
  "elect_loop P w (map_option f b) (map f nbs) = map_option f (elect_loop (P \<circ> f) (w \<circ> f) b nbs)"
proof (induction nbs arbitrary: b)
  case (Cons nb nbs)
  show ?case using Cons.IH [of "Some nb"] Cons.IH [of b] by (cases b) auto
qed simp

lemma is_best_unique:
  assumes "is_best beats P xs r" "is_best beats P ys r'" "set xs = set ys"
    and "\<And>x y. x \<in> set xs \<Longrightarrow> y \<in> set xs \<Longrightarrow> x \<noteq> y \<Longrightarrow> beats x y \<or> beats y x"
  shows "r = r'"
  using assms by (auto simp: is_best_def split: option.splits) blast+

lemma is_best_cong:
  assumes "\<And>x. x \<in> set xs \<Longrightarrow> P x = Q x"
    and "\<And>x y. x \<in> set xs \<Longrightarrow> y \<in> set xs \<Longrightarrow> P x \<Longrightarrow> P y \<Longrightarrow> beats x y = beats' x y"
  shows "is_best beats P xs r = is_best beats' Q xs r"
  using assms by (auto simp: is_best_def split: option.split)

section \<open>Section 9.4 of RFC 2328\<close>

definition dr_eligible :: "OspfNeighbor \<Rightarrow> bool" where
  "dr_eligible nb \<longleftrightarrow> on_state nb \<ge> NSTATE_2WAY \<and> on_priority nb > 0"

text \<open>Highest router priority; the highest router id breaks a tie.\<close>

definition outranks :: "OspfNeighbor \<Rightarrow> OspfNeighbor \<Rightarrow> bool" where
  "outranks a b \<longleftrightarrow> on_priority b < on_priority a \<or> on_priority a = on_priority b \<and> on_router_id b < on_router_id a"

text \<open>Steps 2 and 3 for a list of routers.\<close>

definition rfc_election :: "OspfNeighbor list \<Rightarrow> OspfNeighbor option \<Rightarrow> OspfNeighbor option \<Rightarrow> bool" where
  "rfc_election nbs dr bdr \<longleftrightarrow>
     (\<exists>b d. is_best outranks (\<lambda>nb. dr_eligible nb \<and> \<not> declares_dr nb \<and> declares_bdr nb) nbs b \<and>
            (if b = None then is_best outranks (\<lambda>nb. dr_eligible nb \<and> \<not> declares_dr nb) nbs bdr else bdr = b) \<and>
            is_best outranks (\<lambda>nb. dr_eligible nb \<and> declares_dr nb) nbs d \<and>
            dr = (if d = None then bdr else d))"

lemma sum_uint:
  "uint (push_bit 32 (ucast (p :: u8)) OR ucast (r :: u32) :: u64) = uint p * 2 ^ 32 + uint r"
proof -
  have "uint (push_bit 32 (ucast p :: u64)) = push_bit 32 (uint p)"
    by (rule bit_eqI) (auto simp: bit_simps dest: bit_imp_le_length)
  moreover have "uint (ucast r :: u64) = uint r"
    by (rule bit_eqI) (auto simp: bit_simps dest: bit_imp_le_length)
  ultimately have "uint (push_bit 32 (ucast p) OR ucast r :: u64) = push_bit 32 (uint p) OR uint r"
    by (simp add: unsigned_or_eq)
  also have "\<dots> = push_bit 32 (uint p) + uint r"
    by (rule disjunctive_add [symmetric]) (auto simp: bit_push_bit_iff bit_uint_iff)
  finally show ?thesis by (simp add: push_bit_eq_mult)
qed

lemma lex_sum:
  fixes p q r s :: int
  assumes "0 \<le> r" "r < 2 ^ 32" "0 \<le> s" "s < 2 ^ 32"
  shows "p * 2 ^ 32 + r < q * 2 ^ 32 + s \<longleftrightarrow> p < q \<or> p = q \<and> r < s"
  using assms by simp arith

lemma election_sum_order:
  assumes "dr_eligible a" "dr_eligible b"
  shows "election_sum b < election_sum a \<longleftrightarrow> outranks a b"
proof -
  have "uint (on_router_id nb) < 2 ^ 32" for nb using uint_lt2p [of "on_router_id nb"] by simp
  then show ?thesis using assms lex_sum [of "uint (on_router_id b)" "uint (on_router_id a)" "uint (on_priority b)" "uint (on_priority a)"]
    unfolding dr_eligible_def election_sum_def outranks_def word_less_def word_uint_eq_iff [of "on_priority a"]
    by (simp only: if_True simp_thms sum_uint uint_ge_0 eq_commute) blast
qed

lemma election_sum_0: "election_sum nb = 0 \<longleftrightarrow> \<not> dr_eligible nb"
proof (cases "dr_eligible nb")
  case True
  have "uint (election_sum nb) \<noteq> 0"
    using True uint_ge_0 [of "on_router_id nb"] unfolding dr_eligible_def election_sum_def word_less_def
    by (simp only: if_True simp_thms sum_uint) (smt (verit) uint_0_eq zero_less_power mult_pos_pos)
  with True show ?thesis by auto
qed (auto simp: dr_eligible_def election_sum_def)

section \<open>Steps 2 and 3 of the source\<close>

lemma elect_loop_cong:
  assumes "\<And>x. x \<in> set nbs \<Longrightarrow> P x = Q x" "\<And>x. Q x \<Longrightarrow> w x = v x" "\<And>y. b = Some y \<Longrightarrow> Q y"
  shows "elect_loop P w b nbs = elect_loop Q v b nbs"
  using assms by (induction nbs arbitrary: b) (auto split: option.split)

definition bdr_cand :: "OspfNeighbor \<Rightarrow> bool" where
  "bdr_cand nb \<longleftrightarrow> on_bdr_election_sum nb \<noteq> 0 \<and> \<not> declares_dr nb"

definition bdr_of :: "OspfNeighbor list \<Rightarrow> OspfNeighbor option" where
  "bdr_of nbs =
     (let b = elect_loop (\<lambda>nb. bdr_cand nb \<and> declares_bdr nb) on_bdr_election_sum None nbs
      in if b = None then elect_loop bdr_cand on_bdr_election_sum None nbs else b)"

definition dr_of :: "OspfNeighbor list \<Rightarrow> OspfNeighbor option" where
  "dr_of nbs =
     (let d = elect_loop (\<lambda>nb. on_dr_election_sum nb \<noteq> 0 \<and> declares_dr nb) on_dr_election_sum None nbs
      in if d = None then bdr_of nbs else d)"

definition drop_bdr :: "OspfNeighbor \<Rightarrow> OspfNeighbor" where
  "drop_bdr nb = (if on_bdr_election_sum nb \<noteq> 0 \<and> declares_dr nb then nb\<lparr>on_bdr_election_sum := 0\<rparr> else nb)"

lemma drop_bdr_sel [simp]:
  "on_ip (drop_bdr nb) = on_ip nb" "on_dr_election_sum (drop_bdr nb) = on_dr_election_sum nb"
  "declares_dr (drop_bdr nb) = declares_dr nb" "declares_bdr (drop_bdr nb) = declares_bdr nb"
  "bdr_cand (drop_bdr nb) = bdr_cand nb"
  "on_bdr_election_sum (drop_bdr nb) = (if bdr_cand nb then on_bdr_election_sum nb else 0)"
  by (simp_all add: drop_bdr_def declares_dr_def declares_bdr_def bdr_cand_def)

lemma elect_drop_bdr:
  assumes "\<And>x. P (drop_bdr x) = P x" "\<And>x. P x \<Longrightarrow> w (drop_bdr x) = w x"
  shows "elect_loop P w None (map drop_bdr nbs) = map_option drop_bdr (elect_loop P w None nbs)"
  using elect_loop_map [of P w drop_bdr None nbs] elect_loop_cong [of nbs "P \<circ> drop_bdr" P "w \<circ> drop_bdr" w None] assms
  by simp

lemma bdr_sum_cand: "x \<in> drop_bdr ` A \<Longrightarrow> on_bdr_election_sum x \<noteq> 0 \<longleftrightarrow> bdr_cand x"
  by (auto simp: bdr_cand_def)

lemma step2and3_result:
  "net_dr_nb (step2and3 net) = map_option on_ip (dr_of (net_neighbor net))"
  "net_bdr_nb (step2and3 net) = map_option on_ip (bdr_of (net_neighbor net))"
  "net_neighbor (step2and3 net) = map drop_bdr (net_neighbor net)"
proof -
  let ?nbs = "map drop_bdr (net_neighbor net)"
  have nbs: "map (\<lambda>nb. if on_bdr_election_sum nb \<noteq> 0 \<and> declares_dr nb then nb\<lparr>on_bdr_election_sum := 0\<rparr> else nb)
      (net_neighbor net) = ?nbs" by (simp add: drop_bdr_def [abs_def])
  have ip: "map_option on_ip (map_option drop_bdr r) = map_option on_ip r" for r by (cases r) simp_all
  have "elect_loop (\<lambda>nb. on_bdr_election_sum nb \<noteq> 0 \<and> declares_bdr nb) on_bdr_election_sum None ?nbs =
      elect_loop (\<lambda>nb. bdr_cand nb \<and> declares_bdr nb) on_bdr_election_sum None ?nbs"
    by (rule elect_loop_cong) (auto simp: bdr_sum_cand)
  also have "\<dots> = map_option drop_bdr (elect_loop (\<lambda>nb. bdr_cand nb \<and> declares_bdr nb) on_bdr_election_sum None (net_neighbor net))"
    by (rule elect_drop_bdr) simp_all
  finally have b1: "elect_loop (\<lambda>nb. on_bdr_election_sum nb \<noteq> 0 \<and> declares_bdr nb) on_bdr_election_sum None ?nbs = \<dots>" .
  have "elect_loop (\<lambda>nb. on_bdr_election_sum nb \<noteq> 0) on_bdr_election_sum None ?nbs = elect_loop bdr_cand on_bdr_election_sum None ?nbs"
    by (rule elect_loop_cong) (auto simp: bdr_sum_cand)
  also have "\<dots> = map_option drop_bdr (elect_loop bdr_cand on_bdr_election_sum None (net_neighbor net))"
    by (rule elect_drop_bdr) simp_all
  finally have b2: "elect_loop (\<lambda>nb. on_bdr_election_sum nb \<noteq> 0) on_bdr_election_sum None ?nbs = \<dots>" .
  have d: "elect_loop (\<lambda>nb. on_dr_election_sum nb \<noteq> 0 \<and> declares_dr nb) on_dr_election_sum None ?nbs =
      map_option drop_bdr (elect_loop (\<lambda>nb. on_dr_election_sum nb \<noteq> 0 \<and> declares_dr nb) on_dr_election_sum None (net_neighbor net))"
    by (rule elect_drop_bdr) simp_all
  show "net_dr_nb (step2and3 net) = map_option on_ip (dr_of (net_neighbor net))"
    "net_bdr_nb (step2and3 net) = map_option on_ip (bdr_of (net_neighbor net))"
    "net_neighbor (step2and3 net) = map drop_bdr (net_neighbor net)"
    unfolding step2and3_def nbs Let_def b1 b2 d dr_of_def bdr_of_def by (simp_all add: ip)
qed

text \<open>The sums as the initialisation sets them.\<close>

definition sums_set :: "OspfNeighbor \<Rightarrow> OspfNeighbor" where
  "sums_set nb = nb\<lparr>on_dr_election_sum := election_sum nb, on_bdr_election_sum := election_sum nb\<rparr>"

lemma sums_set_sel [simp]:
  "on_ip (sums_set nb) = on_ip nb" "on_dr_election_sum (sums_set nb) = election_sum nb"
  "on_bdr_election_sum (sums_set nb) = election_sum nb" "declares_dr (sums_set nb) = declares_dr nb"
  "declares_bdr (sums_set nb) = declares_bdr nb" "bdr_cand (sums_set nb) \<longleftrightarrow> dr_eligible nb \<and> \<not> declares_dr nb"
  by (simp_all add: sums_set_def declares_dr_def declares_bdr_def bdr_cand_def election_sum_0)

lemma init_sums_neighbor: "net_neighbor (init_sums net) = map sums_set (net_neighbor net)"
  by (simp add: init_sums_def sums_set_def [abs_def])

lemma elect_sums_best:
  assumes "\<And>x. P (sums_set x) = Q x" "\<And>x. w (sums_set x) = election_sum x" "\<And>x. Q x \<Longrightarrow> dr_eligible x"
  shows "\<exists>r. elect_loop P w None (map sums_set nbs) = map_option sums_set r \<and> is_best outranks Q nbs r"
proof (intro exI conjI)
  have [simp]: "P \<circ> sums_set = Q" "w \<circ> sums_set = election_sum" using assms by auto
  show "elect_loop P w None (map sums_set nbs) = map_option sums_set (elect_loop Q election_sum None nbs)"
    using elect_loop_map [of P w sums_set None nbs] by simp
  have "is_best outranks Q nbs r = is_best (\<lambda>x y. election_sum y < election_sum x) Q nbs r" for r
    by (rule is_best_cong) (simp_all add: election_sum_order assms(3))
  with elect_loop_best show "is_best outranks Q nbs (elect_loop Q election_sum None nbs)" by blast
qed

lemma step2and3_rfc:
  "\<exists>dr bdr. rfc_election (net_neighbor net) dr bdr \<and>
     net_dr_nb (step2and3 (init_sums net)) = map_option on_ip dr \<and>
     net_bdr_nb (step2and3 (init_sums net)) = map_option on_ip bdr"
proof -
  let ?nbs = "net_neighbor net"
  obtain b where b: "elect_loop (\<lambda>nb. bdr_cand nb \<and> declares_bdr nb) on_bdr_election_sum None (map sums_set ?nbs) = map_option sums_set b"
      "is_best outranks (\<lambda>nb. dr_eligible nb \<and> \<not> declares_dr nb \<and> declares_bdr nb) ?nbs b"
    using elect_sums_best [of "\<lambda>nb. bdr_cand nb \<and> declares_bdr nb" "\<lambda>nb. dr_eligible nb \<and> \<not> declares_dr nb \<and> declares_bdr nb"
        on_bdr_election_sum ?nbs] by auto
  obtain c where c: "elect_loop bdr_cand on_bdr_election_sum None (map sums_set ?nbs) = map_option sums_set c"
      "is_best outranks (\<lambda>nb. dr_eligible nb \<and> \<not> declares_dr nb) ?nbs c"
    using elect_sums_best [of bdr_cand "\<lambda>nb. dr_eligible nb \<and> \<not> declares_dr nb" on_bdr_election_sum ?nbs] by auto
  obtain d where d: "elect_loop (\<lambda>nb. on_dr_election_sum nb \<noteq> 0 \<and> declares_dr nb) on_dr_election_sum None (map sums_set ?nbs) =
        map_option sums_set d" "is_best outranks (\<lambda>nb. dr_eligible nb \<and> declares_dr nb) ?nbs d"
    using elect_sums_best [of "\<lambda>nb. on_dr_election_sum nb \<noteq> 0 \<and> declares_dr nb" "\<lambda>nb. dr_eligible nb \<and> declares_dr nb"
        on_dr_election_sum ?nbs] by (auto simp: election_sum_0)
  let ?bdr = "if b = None then c else b" and ?dr = "if d = None then (if b = None then c else b) else d"
  have "rfc_election ?nbs ?dr ?bdr" unfolding rfc_election_def using b(2) c(2) d(2) by auto
  moreover have "map_option on_ip (map_option sums_set r) = map_option on_ip r" for r by (cases r) simp_all
  ultimately show ?thesis
    unfolding step2and3_result init_sums_neighbor dr_of_def bdr_of_def Let_def b(1) c(1) d(1)
    by (intro exI [of _ ?dr] exI [of _ ?bdr]) simp
qed

text \<open>C4: The first pass of the election implements steps 2 and 3 of section 9.4 of RFC 2328: only
  neighbours in state 2-Way or higher with a priority above 0 take part; the backup is the best of
  those that declare themselves backup but not designated router, or else the best that does not
  declare itself designated router; the designated router is the best of those that declare
  themselves, or else the new backup. Best means highest priority, then highest router id: the
  64-bit sums of the source order the routers that way.
\<close>

theorem dr_election_rfc:
  "\<exists>dr bdr. rfc_election (net_neighbor net) dr bdr \<and>
     net_dr_nb (step2and3 (init_sums net)) = map_option on_ip dr \<and>
     net_bdr_nb (step2and3 (init_sums net)) = map_option on_ip bdr"
  by (rule step2and3_rfc)

lemma outranks_total:
  "inj_on on_router_id A \<Longrightarrow> x \<in> A \<Longrightarrow> y \<in> A \<Longrightarrow> x \<noteq> y \<Longrightarrow> outranks x y \<or> outranks y x"
  unfolding outranks_def by (metis inj_onD linorder_less_linear)

lemma rfc_election_unique:
  assumes "rfc_election nbs dr bdr" "rfc_election nbs' dr' bdr'" "set nbs = set nbs'" "inj_on on_router_id (set nbs)"
  shows "dr = dr' \<and> bdr = bdr'"
proof -
  have u: "r = r'" if "is_best outranks P nbs r" "is_best outranks P nbs' r'" for P r r'
    using that assms(3) outranks_total [OF assms(4)] by (rule is_best_unique)
  from assms(1) obtain b d where 1: "is_best outranks (\<lambda>nb. dr_eligible nb \<and> \<not> declares_dr nb \<and> declares_bdr nb) nbs b"
      "if b = None then is_best outranks (\<lambda>nb. dr_eligible nb \<and> \<not> declares_dr nb) nbs bdr else bdr = b"
      "is_best outranks (\<lambda>nb. dr_eligible nb \<and> declares_dr nb) nbs d" "dr = (if d = None then bdr else d)"
    unfolding rfc_election_def by blast
  from assms(2) obtain b' d' where 2: "is_best outranks (\<lambda>nb. dr_eligible nb \<and> \<not> declares_dr nb \<and> declares_bdr nb) nbs' b'"
      "if b' = None then is_best outranks (\<lambda>nb. dr_eligible nb \<and> \<not> declares_dr nb) nbs' bdr' else bdr' = b'"
      "is_best outranks (\<lambda>nb. dr_eligible nb \<and> declares_dr nb) nbs' d'" "dr' = (if d' = None then bdr' else d')"
    unfolding rfc_election_def by blast
  have "b = b'" "d = d'" using u 1(1,3) 2(1,3) by blast+
  with 1 2 u show ?thesis by (auto split: if_splits)
qed

text \<open>The outcome of steps 2 and 3 does not depend on the order of the neighbour list: two networks
  whose lists are permutations of each other elect the same designated and backup router, when the
  router ids are distinct.
\<close>

theorem election_order_independent:
  assumes "mset (net_neighbor a) = mset (net_neighbor b)" "distinct (map on_router_id (net_neighbor a))"
  shows "net_dr_nb (step2and3 (init_sums a)) = net_dr_nb (step2and3 (init_sums b)) \<and>
    net_bdr_nb (step2and3 (init_sums a)) = net_bdr_nb (step2and3 (init_sums b))"
proof -
  have "set (net_neighbor a) = set (net_neighbor b)" using assms(1) by (rule mset_eq_setD)
  moreover have "inj_on on_router_id (set (net_neighbor a))" using assms(2) by (simp add: distinct_map)
  ultimately show ?thesis using step2and3_rfc [of a] step2and3_rfc [of b] rfc_election_unique by (metis (no_types, lifting))
qed

text \<open>An interface 10.0.0.1/24 with two neighbours in state 2-Way: one of priority 1 that declares itself
  designated router, one of priority 2 that declares nothing.\<close>

definition example_nb :: "u32 \<Rightarrow> u8 \<Rightarrow> u32 \<Rightarrow> OspfNeighbor" where
  "example_nb ip prio dr =
     \<lparr>on_ip = ip, on_router_id = ip, on_state = NSTATE_2WAY, on_inactivity_timer = 40, on_master = False,
      on_dd_seq_number = 0, on_lastdbd_seq = 0, on_lastdbd_options = 0, on_lastdbd_fields = 0,
      on_priority = prio, on_options = 0, on_designated_router = dr, on_backup_router = 0, on_more0sent = False, on_ddsum = [],
      on_lsreq = [], on_last_lsreq_pkt = None, on_lsreq_rxmt_timer = 0, on_dr_election_sum = 0, on_bdr_election_sum = 0,
      on_last_dd_pkt = None, on_dd_rxmt_timer = 0, on_adj_posponed = False, on_md5_seq = 0\<rparr>"

definition example_net :: "u32 \<Rightarrow> OspfNeighbor list \<Rightarrow> OspfNetwork" where
  "example_net dr nbs =
     \<lparr>net_neighbor = nbs, net_type = N_TYPE_BROADCAST, net_state = NETSTATE_WAITING, net_hello_interval = 10,
      net_hello_timer = 0, net_ip = 0x0a000001, net_mask = 0xffffff00, net_area_id = 0, net_router_id = 0x0a000001,
      net_dead_interval = 40, net_router_priority = 1, net_wait_timer = 40, net_designated_router = dr, net_backup_router = 0,
      net_cost = 1, net_rxtm_interval = 5, net_auth_type = 0, ospf_passwd = [], ospf_md5_passwd = [], ospf_md5_key = 0,
      net_dr_nb = None, net_bdr_nb = None\<rparr>"

definition example_nbs :: "OspfNeighbor list" where
  "example_nbs = [example_nb 0x0a000002 1 0x0a000002, example_nb 0x0a000003 2 0]"

theorem election_order_independent_witness:
  "net_dr_nb (step2and3 (init_sums (example_net 0 example_nbs))) = net_dr_nb (step2and3 (init_sums (example_net 0 (rev example_nbs)))) \<and>
   net_dr_nb (step2and3 (init_sums (example_net 0 example_nbs))) = Some 0x0a000002"
proof -
  have "net_dr_nb (step2and3 (init_sums (example_net 0 example_nbs))) = net_dr_nb (step2and3 (init_sums (example_net 0 (rev example_nbs))))"
    using election_order_independent [of "example_net 0 example_nbs" "example_net 0 (rev example_nbs)"]
    by (simp add: example_net_def example_nbs_def example_nb_def)
  moreover have "net_dr_nb (step2and3 (init_sums (example_net 0 example_nbs))) = Some 0x0a000002" by code_simp
  ultimately show ?thesis by blast
qed

section \<open>The whole election\<close>

text \<open>The election on the network alone, when its own address leads to it and no neighbour has that
  address.\<close>

definition mark_self :: "u32 \<Rightarrow> u32 \<Rightarrow> OspfNetwork \<Rightarrow> OspfNetwork" where
  "mark_self dr bdr n = n\<lparr>net_neighbor := upd_pos 0 (\<lambda>nb. nb\<lparr>on_designated_router := dr, on_backup_router := bdr\<rparr>) (net_neighbor n)\<rparr>"

definition elect_net :: "u32 \<Rightarrow> OspfNetwork \<Rightarrow> OspfNetwork" where
  "elect_net rid net =
     (let n2 = step2and3 (init_sums (net\<lparr>net_neighbor := this_nb rid net # net_neighbor net\<rparr>))
      in case (net_dr_nb n2, net_bdr_nb n2) of
           (Some dr, Some bdr) \<Rightarrow> (let n = mark_self dr bdr n2 in if role_changed n2 then step2and3 n else n)
         | _ \<Rightarrow> n2)"

lemma networkFindIp_upd:
  "(\<And>n. net_ip (f n) = net_ip n \<and> net_mask (f n) = net_mask n) \<Longrightarrow> networkFindIp aid ip (upd_net p f al) = networkFindIp aid ip al"
  by (rule networkFindIp_cong) (rule shape_upd)

lemma step_frame [simp]:
  "net_ip (step2and3 n) = net_ip n" "net_mask (step2and3 n) = net_mask n"
  "net_ip (init_sums n) = net_ip n" "net_mask (init_sums n) = net_mask n"
  "net_designated_router (step2and3 n) = net_designated_router n" "net_backup_router (step2and3 n) = net_backup_router n"
  "net_designated_router (init_sums n) = net_designated_router n" "net_backup_router (init_sums n) = net_backup_router n"
  "net_ip (mark_self dr bdr n) = net_ip n" "net_mask (mark_self dr bdr n) = net_mask n"
  "net_designated_router (mark_self dr bdr n) = net_designated_router n" "net_backup_router (mark_self dr bdr n) = net_backup_router n"
  "net_dr_nb (mark_self dr bdr n) = net_dr_nb n" "net_bdr_nb (mark_self dr bdr n) = net_bdr_nb n"
  by (simp_all add: step2and3_def init_sums_def mark_self_def Let_def)

lemma elect_net_frame [simp]: "net_ip (elect_net rid n) = net_ip n" "net_mask (elect_net rid n) = net_mask n"
  "net_designated_router (elect_net rid n) = net_designated_router n" "net_backup_router (elect_net rid n) = net_backup_router n"
  by (simp_all add: elect_net_def Let_def split: option.split)

lemma elect_net_head: "\<exists>nb nbs. net_neighbor (elect_net rid n) = nb # nbs \<and> on_ip nb = net_ip n"
proof -
  have "\<exists>nb nbs. net_neighbor m = nb # nbs \<and> on_ip nb = net_ip n \<Longrightarrow> \<exists>nb nbs. net_neighbor (step2and3 m) = nb # nbs \<and> on_ip nb = net_ip n"
    "\<exists>nb nbs. net_neighbor m = nb # nbs \<and> on_ip nb = net_ip n \<Longrightarrow> \<exists>nb nbs. net_neighbor (mark_self dr bdr m) = nb # nbs \<and> on_ip nb = net_ip n"
    for m dr bdr by (auto simp: step2and3_result mark_self_def)
  moreover have "\<exists>nb nbs. net_neighbor (init_sums (n\<lparr>net_neighbor := this_nb rid n # net_neighbor n\<rparr>)) = nb # nbs \<and> on_ip nb = net_ip n"
    by (simp add: init_sums_neighbor this_nb_def)
  ultimately show ?thesis unfolding elect_net_def Let_def by (simp split: option.split)
qed

lemma drbdr_steps_net:
  assumes find: "networkFindIp (net_area_id (the_net p al)) (net_ip (the_net p al)) al = Some p"
    and fresh: "\<forall>nb \<in> set (net_neighbor (the_net p al)). on_ip nb \<noteq> net_ip (the_net p al)"
    and prio: "net_router_priority (the_net p al) > 0"
  shows "the_net p (drbdr_steps rid p al) =
     (elect_net rid (the_net p al))\<lparr>net_neighbor := tl (net_neighbor (elect_net rid (the_net p al)))\<rparr>"
proof -
  let ?n = "the_net p al"
  have valid: "net_valid p al" using networkFindIp_valid [OF find] by simp
  let ?add = "\<lambda>net. net\<lparr>net_neighbor := this_nb rid ?n # net_neighbor net\<rparr>"
  have "neighborFind (net_area_id ?n) (net_ip ?n) al = None"
    using find fresh by (simp add: neighborFind_def find_pos_None)
  then have add: "neighborAdd (net_area_id ?n) (this_nb rid ?n) al = (False, upd_net p ?add al)"
    using find by (simp add: neighborAdd_def this_nb_def)
  have q: "networkFindIp (net_area_id ?n) (net_ip ?n) (upd_net p ?add al) = Some p"
    using find networkFindIp_upd [of ?add] by simp
  let ?n2 = "step2and3 (init_sums (?add ?n))"
  have net: "the_net p (upd_net p (\<lambda>net. step2and3 (init_sums net)) (upd_net p ?add al)) = ?n2"
    using valid by (simp add: the_net_upd_net)
  have mark: "upd_net p (\<lambda>n. n\<lparr>net_neighbor := upd_pos 0 (\<lambda>nb. nb\<lparr>on_designated_router := dr, on_backup_router := bdr\<rparr>)
      (net_neighbor n)\<rparr>) = upd_net p (mark_self dr bdr)" for dr bdr
    by (simp add: mark_self_def [abs_def])
  define al3 where "al3 = (case (net_dr_nb ?n2, net_bdr_nb ?n2) of
      (Some dr, Some bdr) \<Rightarrow>
        (let al = upd_net p (mark_self dr bdr) (upd_net p (\<lambda>net. step2and3 (init_sums net)) (upd_net p ?add al))
         in if role_changed ?n2 then upd_net p step2and3 al else al)
    | _ \<Rightarrow> upd_net p (\<lambda>net. step2and3 (init_sums net)) (upd_net p ?add al))"
  have steps: "drbdr_steps rid p al = snd (neighborUnlink (net_area_id ?n) (p, 0) al3)"
    using prio unfolding drbdr_steps_def Let_def by (simp add: add q net mark al3_def Let_def split: option.split)
  have al3: "the_net p al3 = elect_net rid ?n" "net_valid p al3"
    unfolding al3_def elect_net_def Let_def using valid by (simp_all add: the_net_upd_net split: option.split)
  have find3: "networkFindIp (net_area_id ?n) (net_ip ?n) al3 = Some p"
    unfolding al3_def Let_def using find by (simp add: networkFindIp_upd split: option.split)
  obtain nb nbs where nb: "net_neighbor (elect_net rid ?n) = nb # nbs" "on_ip nb = net_ip ?n" using elect_net_head by blast
  have "snd (neighborUnlink (net_area_id ?n) (p, 0) al3) = upd_net p (\<lambda>n. n\<lparr>net_neighbor := drop_at 0 (net_neighbor n)\<rparr>) al3"
    by (rule neighborUnlink_first) (simp_all add: find3 al3(1) nb)
  then show ?thesis using steps al3 nb by (simp add: the_net_upd_net)
qed

lemma elect_loop_first:
  assumes "P x" "elect_loop P w None (x # xs) = Some r"
  shows "r = x \<or> w x < w r"
  using elect_loop_Some [of P x w xs] assms by auto

lemma elect_loop_in: "elect_loop P w None nbs = Some r \<Longrightarrow> r \<in> set nbs \<and> P r"
  using elect_loop_best [of w P nbs] by (simp add: is_best_def)

lemma elect_loop_none: "elect_loop P w None nbs = None \<longleftrightarrow> (\<forall>x \<in> set nbs. \<not> P x)"
  using elect_loop_best [of w P nbs] by (auto simp: is_best_def split: option.splits)

lemma bdr_of_in: "bdr_of nbs = Some r \<Longrightarrow> r \<in> set nbs \<and> bdr_cand r"
  unfolding bdr_of_def Let_def using elect_loop_in by (fastforce split: if_splits)

lemma bdr_of_declared:
  "bdr_of nbs = Some r \<Longrightarrow> \<not> declares_bdr r \<Longrightarrow> \<forall>x \<in> set nbs. \<not> (bdr_cand x \<and> declares_bdr x)"
  unfolding bdr_of_def Let_def using elect_loop_in elect_loop_none by (fastforce split: if_splits)

lemma bdr_of_max:
  assumes "bdr_of nbs = Some r" "\<not> declares_bdr r" "x \<in> set nbs" "bdr_cand x"
  shows "on_bdr_election_sum x \<le> on_bdr_election_sum r"
proof -
  have "elect_loop (\<lambda>nb. bdr_cand nb \<and> declares_bdr nb) on_bdr_election_sum None nbs = None"
    using bdr_of_declared [OF assms(1,2)] by (simp add: elect_loop_none)
  then have "elect_loop bdr_cand on_bdr_election_sum None nbs = Some r" using assms(1) by (simp add: bdr_of_def)
  then show ?thesis using elect_loop_best [of on_bdr_election_sum bdr_cand nbs] assms(3,4) by (auto simp: is_best_def not_less)
qed

lemma bdr_of_first:
  assumes "bdr_of (x # nbs) = Some r" "\<not> declares_bdr r" "bdr_cand x"
  shows "r = x \<or> on_bdr_election_sum x < on_bdr_election_sum r"
proof -
  have "elect_loop (\<lambda>nb. bdr_cand nb \<and> declares_bdr nb) on_bdr_election_sum None (x # nbs) = None"
    using bdr_of_declared [OF assms(1,2)] unfolding elect_loop_none .
  then have "elect_loop bdr_cand on_bdr_election_sum None (x # nbs) = Some r" using assms(1) by (simp add: bdr_of_def)
  with assms(3) show ?thesis by (rule elect_loop_first)
qed

lemma dr_of_undeclared:
  assumes "\<forall>y \<in> set nbs. \<not> (on_dr_election_sum y \<noteq> 0 \<and> declares_dr y)"
  shows "dr_of nbs = bdr_of nbs"
  using assms unfolding elect_loop_none [symmetric, where w = on_dr_election_sum] by (simp add: dr_of_def)

text \<open>What it means that the router at the head of the list gets both roles.\<close>

lemma both_roles:
  assumes "\<forall>y \<in> set ys. on_ip y \<noteq> on_ip x"
    and "map_option on_ip (dr_of (x # ys)) = Some (on_ip x)" "map_option on_ip (bdr_of (x # ys)) = Some (on_ip x)"
  shows "bdr_of (x # ys) = Some x" "bdr_cand x" "\<forall>y \<in> set (x # ys). \<not> (on_dr_election_sum y \<noteq> 0 \<and> declares_dr y)"
proof -
  show b: "bdr_of (x # ys) = Some x" using assms(1,3) bdr_of_in by (fastforce simp: set_ConsD)
  then show c: "bdr_cand x" using bdr_of_in by blast
  let ?d = "elect_loop (\<lambda>nb. on_dr_election_sum nb \<noteq> 0 \<and> declares_dr nb) on_dr_election_sum None (x # ys)"
  have "?d = None"
  proof (rule ccontr)
    assume "?d \<noteq> None"
    then obtain r where r: "?d = Some r" by blast
    then have "dr_of (x # ys) = Some r" by (simp only: dr_of_def Let_def r) simp
    then have "r = x" using elect_loop_in [OF r] assms(1,2) by auto
    then show False using elect_loop_in [OF r] c by (simp add: bdr_cand_def)
  qed
  then show "\<forall>y \<in> set (x # ys). \<not> (on_dr_election_sum y \<noteq> 0 \<and> declares_dr y)" unfolding elect_loop_none .
qed

lemma elect_net_not_both:
  assumes fresh: "\<forall>nb \<in> set (net_neighbor net). on_ip nb \<noteq> net_ip net"
  shows "\<not> (net_dr_nb (elect_net rid net) = Some (net_ip net) \<and> net_bdr_nb (elect_net rid net) = Some (net_ip net))"
proof
  assume both: "net_dr_nb (elect_net rid net) = Some (net_ip net) \<and> net_bdr_nb (elect_net rid net) = Some (net_ip net)"
  let ?ip = "net_ip net"
  define x where "x = sums_set (this_nb rid net)"
  define ys where "ys = map sums_set (net_neighbor net)"
  define n2 where "n2 = step2and3 (init_sums (net\<lparr>net_neighbor := this_nb rid net # net_neighbor net\<rparr>))"
  have ip: "on_ip x = ?ip" "\<forall>y \<in> set ys. on_ip y \<noteq> ?ip" using fresh by (simp_all add: x_def ys_def this_nb_def)
  have n2: "net_dr_nb n2 = map_option on_ip (dr_of (x # ys))" "net_bdr_nb n2 = map_option on_ip (bdr_of (x # ys))"
      "net_neighbor n2 = map drop_bdr (x # ys)" "net_ip n2 = ?ip"
      "net_designated_router n2 = net_designated_router net"
    unfolding n2_def step2and3_result by (simp_all add: init_sums_neighbor x_def ys_def)
  have dx: "declares_dr x \<longleftrightarrow> net_designated_router net = ?ip" by (simp add: x_def) (simp add: declares_dr_def this_nb_def)
  have first: "role_changed n2 \<and> (\<exists>dr bdr. net_dr_nb n2 = Some dr \<and> net_bdr_nb n2 = Some bdr)"
  proof (rule ccontr)
    assume nr: "\<not> ?thesis"
    then have "net_dr_nb (elect_net rid net) = net_dr_nb n2" "net_bdr_nb (elect_net rid net) = net_bdr_nb n2"
      by (auto simp: elect_net_def Let_def n2_def [symmetric] split: option.split)
    with both have b: "net_dr_nb n2 = Some ?ip" "net_bdr_nb n2 = Some ?ip" by simp_all
    have "bdr_cand x" by (rule both_roles(2) [of ys x, folded n2(1,2), unfolded ip(1), OF ip(2) b])
    then have "net_designated_router net \<noteq> ?ip" using dx by (simp add: bdr_cand_def)
    then show False using nr b n2 by (simp add: role_changed_def)
  qed
  then obtain dr bdr where r: "net_dr_nb n2 = Some dr" "net_bdr_nb n2 = Some bdr" by blast
  define x' where "x' = (drop_bdr x)\<lparr>on_designated_router := dr, on_backup_router := bdr\<rparr>"
  have x': "on_ip x' = ?ip" "declares_dr x' \<longleftrightarrow> dr = ?ip" "declares_bdr x' \<longleftrightarrow> bdr = ?ip"
    "on_bdr_election_sum x' = (if bdr_cand x then on_bdr_election_sum x else 0)"
    using ip by (simp_all add: x'_def declares_dr_def declares_bdr_def)
  have "elect_net rid net = step2and3 (mark_self dr bdr n2)"
    using first r by (simp add: elect_net_def Let_def n2_def [symmetric])
  moreover have "net_neighbor (mark_self dr bdr n2) = x' # map drop_bdr ys" using n2(3) by (simp add: mark_self_def x'_def)
  ultimately have res: "net_dr_nb (elect_net rid net) = map_option on_ip (dr_of (x' # map drop_bdr ys))"
      "net_bdr_nb (elect_net rid net) = map_option on_ip (bdr_of (x' # map drop_bdr ys))"
    by (simp_all add: step2and3_result)
  have "\<forall>y \<in> set (map drop_bdr ys). on_ip y \<noteq> on_ip x'" using ip x' by simp
  note second = both_roles [OF this, folded res, unfolded x'(1), OF both [THEN conjunct1] both [THEN conjunct2]]
  then have b': "bdr_of (x' # map drop_bdr ys) = Some x'" "bdr_cand x'"
    and nodecl: "\<forall>y \<in> set ys. \<not> (on_dr_election_sum y \<noteq> 0 \<and> declares_dr y)"
    by auto
  have cx: "bdr_cand x" and dr: "dr \<noteq> ?ip" using b'(2) x' by (auto simp: bdr_cand_def split: if_splits)
  then have "\<forall>y \<in> set (x # ys). \<not> (on_dr_election_sum y \<noteq> 0 \<and> declares_dr y)" using nodecl by (simp add: bdr_cand_def)
  then have "dr_of (x # ys) = bdr_of (x # ys)"
    by (rule dr_of_undeclared)
  with r n2 obtain y where y: "bdr_of (x # ys) = Some y" "on_ip y = dr" "bdr = dr" by auto
  then have y': "y \<in> set ys" "bdr_cand y" using bdr_of_in [OF y(1)] dr ip(1) by auto
  have "\<not> declares_bdr x'" using x'(3) y dr by simp
  from bdr_of_declared [OF b'(1) this] bdr_of_max [OF b'(1) this]
  have "\<not> declares_bdr y" "on_bdr_election_sum y \<le> on_bdr_election_sum x'" using y' by force+
  moreover from bdr_of_first [OF y(1) this(1) cx] have "on_bdr_election_sum x < on_bdr_election_sum y" using y(2) dr ip(1) by blast
  ultimately show False using x'(4) cx by simp
qed

lemma adjok_all_frame: "net_frame (fst s) (fst (adjok_all env s))"
proof -
  have "net_frame (fst s) (fst (fold (\<lambda>k s. if on_state (nb_of k s) \<ge> NSTATE_2WAY then nfsmAdjOK env k s else s) ks s))" for ks
  proof (induction ks arbitrary: s)
    case (Cons k ks)
    have "net_frame (fst s) (fst (if on_state (nb_of k s) \<ge> NSTATE_2WAY then nfsmAdjOK env k s else s))"
      using nfsmAdjOK_step [of s env k] by (simp add: nb_step_def)
    from net_frame_trans [OF this Cons.IH] show ?case by simp
  qed simp
  then show ?thesis unfolding adjok_all_def .
qed

lemma fst_originate_net: "fst (lsa_originate_net s) = fst s" "fst (originate_if_dr s) = fst s"
  by (simp_all add: lsa_originate_net_def originate_if_dr_def Let_def)

lemma net_frame_roles:
  "net_frame n n' \<Longrightarrow> net_ip n' = net_ip n \<and> net_designated_router n' = net_designated_router n \<and> net_backup_router n' = net_backup_router n"
  unfolding net_frame_def by (metis OspfNetwork.ext_inject OspfNetwork.surjective OspfNetwork.update_convs(1))

lemma finish_election_roles:
  "net_ip (fst (finish_election env s)) = net_ip (fst s)"
  "net_designated_router (fst (finish_election env s)) = (case net_dr_nb (fst s) of Some ip \<Rightarrow> ip | None \<Rightarrow> net_designated_router (fst s))"
  "net_backup_router (fst (finish_election env s)) = (case net_bdr_nb (fst s) of Some ip \<Rightarrow> ip | None \<Rightarrow> 0)"
proof -
  obtain ch net where r: "take_result (fst s) = (ch, net)" by (cases "take_result (fst s)")
  have "net_frame net (fst (finish_election env s))"
    using adjok_all_frame [of "originate_if_dr (net, snd s)" env] by (simp add: finish_election_def r Let_def fst_originate_net)
  note net_frame_roles [OF this]
  moreover have "net_ip net = net_ip (fst s)"
    "net_designated_router net = (case net_dr_nb (fst s) of Some ip \<Rightarrow> ip | None \<Rightarrow> net_designated_router (fst s))"
    "net_backup_router net = (case net_bdr_nb (fst s) of Some ip \<Rightarrow> ip | None \<Rightarrow> 0)"
    using r by (auto simp: take_result_def Let_def)
  ultimately show "net_ip (fst (finish_election env s)) = net_ip (fst s)"
    "net_designated_router (fst (finish_election env s)) = (case net_dr_nb (fst s) of Some ip \<Rightarrow> ip | None \<Rightarrow> net_designated_router (fst s))"
    "net_backup_router (fst (finish_election env s)) = (case net_bdr_nb (fst s) of Some ip \<Rightarrow> ip | None \<Rightarrow> 0)" by simp_all
qed

lemma dr_of_in: "dr_of nbs = Some r \<Longrightarrow> r \<in> set nbs"
  unfolding dr_of_def Let_def using elect_loop_in bdr_of_in by (fastforce split: if_splits)

lemma step2and3_no_dr: "net_dr_nb (step2and3 n) = None \<Longrightarrow> net_bdr_nb (step2and3 n) = None"
  by (simp add: step2and3_result dr_of_def Let_def split: if_splits)

lemma elect_net_no_dr: "net_dr_nb (elect_net rid n) = None \<Longrightarrow> net_bdr_nb (elect_net rid n) = None"
  unfolding elect_net_def Let_def using step2and3_no_dr by (auto split: option.splits if_splits)

lemma drbdr_steps_not_both:
  fixes al p rid
  defines "n \<equiv> the_net p al"
  assumes "networkFindIp (net_area_id n) (net_ip n) al = Some p" and fresh: "\<forall>nb \<in> set (net_neighbor n). on_ip nb \<noteq> net_ip n"
  defines "n' \<equiv> the_net p (drbdr_steps rid p al)"
  shows "net_ip n' = net_ip n \<and> \<not> (net_dr_nb n' = Some (net_ip n) \<and> net_bdr_nb n' = Some (net_ip n)) \<and>
    (net_dr_nb n' = None \<longrightarrow> net_bdr_nb n' = None)"
proof (cases "net_router_priority n > 0")
  case True
  show ?thesis
    unfolding n'_def n_def drbdr_steps_net [OF assms(2,3) [unfolded n_def] True [unfolded n_def]]
    using elect_net_not_both [OF fresh] elect_net_no_dr by (simp add: n_def)
next
  case False
  have "net_valid p al" using networkFindIp_valid [OF assms(2)] by simp
  then have n': "n' = step2and3 (init_sums n)"
    using False by (simp add: n'_def drbdr_steps_def Let_def n_def the_net_upd_net split: option.split)
  have "dr_of (map sums_set (net_neighbor n)) = Some r \<Longrightarrow> on_ip r \<noteq> net_ip n" for r
    using dr_of_in fresh by fastforce
  then have "net_dr_nb n' \<noteq> Some (net_ip n)" unfolding n' step2and3_result by (auto simp: init_sums_neighbor)
  then show ?thesis using step2and3_no_dr by (simp add: n')
qed

text \<open>C26: The router never makes itself both designated and backup designated router of a network: after
  an election on a network that its own address leads to, with an address that is not 0 and that no
  neighbour has, not both roles hold that address. The second pass of the source is what ensures it.
\<close>

theorem never_dr_and_bdr:
  assumes "networkFindIp (net_area_id (net_at p st)) (net_ip (net_at p st)) (adj_areas st) = Some p"
    and "\<forall>nb \<in> set (net_neighbor (net_at p st)). on_ip nb \<noteq> net_ip (net_at p st)" and "net_ip (net_at p st) \<noteq> 0"
  shows "let n = net_at p (drbdrElection env p st)
         in \<not> (net_designated_router n = net_ip n \<and> net_backup_router n = net_ip n)"
proof -
  have v: "net_valid p (drbdr_steps (ae_router_id env) p (adj_areas st))"
    using networkFindIp_valid [OF assms(1)] drbdr_steps_erase net_valid_erase by metis
  show ?thesis
    using drbdr_steps_not_both [OF assms(1,2), of "ae_router_id env"] assms(3)
    unfolding drbdrElection_def Let_def at_net_areas adj_state.select_convs
    by (auto simp: the_net_upd_net v finish_election_roles split: option.splits)
qed

definition example_state :: adj_state where
  "example_state =
     \<lparr>adj_areas = [\<lparr>oa_area_id = 0, oa_router_id = 0x0a000001, oa_network = [example_net 0 example_nbs], oa_stub = False,
                    oa_no_summary = False, oa_mylsa = None\<rparr>],
      adj_out = [], adj_last = 0, network_lsa_update = False\<rparr>"

theorem never_dr_and_bdr_witness:
  "\<forall>env. let n = net_at (0, 0) (drbdrElection env (0, 0) example_state)
         in \<not> (net_designated_router n = net_ip n \<and> net_backup_router n = net_ip n)"
  by (intro allI never_dr_and_bdr)
     (simp_all add: example_state_def the_net_def example_net_def example_nbs_def example_nb_def networkFindIp_def areaFind_def net_contains_def)

section \<open>Where the source departs from the RFC\<close>

text \<open>Two routers that both declare themselves designated router, as after the repair of a partitioned
  network: the router itself, with priority 1, and a neighbour with priority 2. The neighbour wins.
  Step 4 then has to be repeated, which would make the router backup; the source skips the step because
  no backup was found in the first pass, and the network stays without a backup.\<close>

definition example_healed :: OspfNetwork where
  "example_healed = example_net 0x0a000001 [example_nb 0x0a000002 2 0x0a000002]"

theorem step4_skipped_without_backup:
  "net_dr_nb (elect_net 0x0a000001 example_healed) = Some 0x0a000002 \<and> net_bdr_nb (elect_net 0x0a000001 example_healed) = None \<and>
   (let x = (this_nb 0x0a000001 example_healed)\<lparr>on_designated_router := 0x0a000002\<rparr>; y = example_nb 0x0a000002 2 0x0a000002
    in rfc_election [x, y] (Some y) (Some x))"
proof (intro conjI)
  show "net_dr_nb (elect_net 0x0a000001 example_healed) = Some 0x0a000002" by code_simp
  show "net_bdr_nb (elect_net 0x0a000001 example_healed) = None" by code_simp
  show "let x = (this_nb 0x0a000001 example_healed)\<lparr>on_designated_router := 0x0a000002\<rparr>; y = example_nb 0x0a000002 2 0x0a000002
    in rfc_election [x, y] (Some y) (Some x)"
    unfolding rfc_election_def Let_def
    by (rule exI [of _ None], rule exI [of _ "Some (example_nb 0x0a000002 2 0x0a000002)"])
      (simp add: is_best_def dr_eligible_def declares_dr_def declares_bdr_def outranks_def this_nb_def example_healed_def example_net_def
        example_nb_def)
qed

text \<open>The sum of a router that gave up the role of designated router stays 0 in the second pass, so that it
  cannot become backup there: with a third router of priority 1 and a lower router id, that one becomes
  backup although the router itself outranks it.\<close>

definition example_three :: OspfNetwork where
  "example_three = (example_net 0x0a000001 [example_nb 0x0a000002 3 0x0a000002, example_nb 0x0a000003 1 0])\<lparr>net_router_priority := 2\<rparr>"

theorem backup_sum_not_restored:
  "net_bdr_nb (elect_net 0x0a000001 example_three) = Some 0x0a000003 \<and>
   (let x = (this_nb 0x0a000001 example_three)\<lparr>on_designated_router := 0x0a000002, on_backup_router := 0x0a000003\<rparr>;
        y = example_nb 0x0a000002 3 0x0a000002; z = example_nb 0x0a000003 1 0
    in rfc_election [x, y, z] (Some y) (Some x))"
proof (intro conjI)
  show "net_bdr_nb (elect_net 0x0a000001 example_three) = Some 0x0a000003" by code_simp
  show "let x = (this_nb 0x0a000001 example_three)\<lparr>on_designated_router := 0x0a000002, on_backup_router := 0x0a000003\<rparr>;
        y = example_nb 0x0a000002 3 0x0a000002; z = example_nb 0x0a000003 1 0
    in rfc_election [x, y, z] (Some y) (Some x)"
    unfolding rfc_election_def Let_def
    by (rule exI [of _ None], rule exI [of _ "Some (example_nb 0x0a000002 3 0x0a000002)"])
      (simp add: is_best_def dr_eligible_def declares_dr_def declares_bdr_def outranks_def this_nb_def example_three_def example_net_def
        example_nb_def)
qed

end
