(* ===== verification/Ospf_Config.thy ===== *)
theory Ospf_Config
  imports Ospf_Hello Ip_Util
begin

text \<open>
  Configuration of the OSPF process: the areas and networks in shared memory (\<open>ospf/exec/shm.c\<close>), the
  commands that change them (\<open>callbacks.c\<close>, \<open>interface.c\<close>), the task that starts and stops OSPF on the
  interfaces (\<open>ospf_update_interfaces\<close> of \<open>interface.c\<close>), and the commands that clear the process
  (\<open>cleanup.c\<close>, \<open>restart.c\<close>). Commands receive their arguments parsed, except for addresses, and
  return \<open>True\<close> for \<open>RCPERR\<close>; the texts of the answers are left out. Calls to other parts of the
  process are appended to the same list as those of the state machines.
\<close>

section \<open>Shared memory\<close>

record RcpOspfNetwork =
  cn_valid :: bool
  cn_ip :: u32
  cn_mask :: u32
  cn_area_id :: u32

record RcpOspfArea =
  ca_valid :: bool
  ca_stub :: bool
  ca_no_summary :: bool
  ca_area_id :: u32
  ca_default_cost :: u32
  ca_network :: "RcpOspfNetwork list"

definition RCP_OSPF_AREA_LIMIT :: nat where "RCP_OSPF_AREA_LIMIT = 8"
definition RCP_OSPF_NETWORK_LIMIT :: nat where "RCP_OSPF_NETWORK_LIMIT = 8"
definition RCP_OSPF_DEFAULT_COST :: u32 where "RCP_OSPF_DEFAULT_COST = 1"

text \<open>The OSPF fields of \<open>RcpInterface\<close>, and the fields its OSPF code reads.\<close>

record OspfInterface = RcpInterface +
  if_admin_up :: bool
  if_mtu :: u32
  ospf_multicast_ip :: u32
  ospf_multicast_mask :: u32
  ospf_cost :: u16
  ospf_priority :: u16
  ospf_hello :: u16
  ospf_dead :: u16
  ospf_rxmt :: u16
  ospf_auth_type :: u8
  intf_passwd :: "u8 list"
  intf_md5_passwd :: "u8 list"
  intf_md5_key :: u8
  ospf_mtu_ignore :: bool
  ospf_passive_interface :: bool

definition zero_network :: RcpOspfNetwork where
  "zero_network = \<lparr>cn_valid = False, cn_ip = 0, cn_mask = 0, cn_area_id = 0\<rparr>"

definition new_shm_area :: "u32 \<Rightarrow> RcpOspfArea" where
  "new_shm_area area_id =
     \<lparr>ca_valid = True, ca_stub = False, ca_no_summary = False, ca_area_id = area_id,
      ca_default_cost = RCP_OSPF_DEFAULT_COST, ca_network = replicate RCP_OSPF_NETWORK_LIMIT zero_network\<rparr>"

definition get_shm_area :: "u32 \<Rightarrow> RcpOspfArea list \<Rightarrow> nat option" where
  "get_shm_area area_id = find_pos (\<lambda>a. ca_valid a \<and> ca_area_id a = area_id)"

definition get_shm_area_empty :: "RcpOspfArea list \<Rightarrow> nat option" where
  "get_shm_area_empty = find_pos (\<lambda>a. \<not> ca_valid a)"

definition get_shm_network :: "u32 \<Rightarrow> u32 \<Rightarrow> u32 \<Rightarrow> RcpOspfArea list \<Rightarrow> (nat \<times> nat) option" where
  "get_shm_network area_id ip msk cfg =
     (case get_shm_area area_id cfg of
        None \<Rightarrow> None
      | Some i \<Rightarrow> map_option (Pair i) (find_pos (\<lambda>n. cn_valid n \<and> cn_ip n = ip \<and> cn_mask n = msk) (ca_network (cfg ! i))))"

text \<open>The walk over the networks of all valid areas.\<close>

fun find_shm_network :: "(RcpOspfNetwork \<Rightarrow> bool) \<Rightarrow> RcpOspfArea list \<Rightarrow> (nat \<times> nat) option" where
  "find_shm_network P [] = None"
| "find_shm_network P (a # as) =
     (case (if ca_valid a then find_pos P (ca_network a) else None) of
        Some j \<Rightarrow> Some (0, j)
      | None \<Rightarrow> map_option (\<lambda>(i, j). (Suc i, j)) (find_shm_network P as))"

definition get_shm_any_network :: "u32 \<Rightarrow> u32 \<Rightarrow> RcpOspfArea list \<Rightarrow> (nat \<times> nat) option" where
  "get_shm_any_network ip msk = find_shm_network (\<lambda>n. cn_valid n \<and> cn_ip n = ip \<and> cn_mask n = msk)"

definition shm_match_network :: "u32 \<Rightarrow> u32 \<Rightarrow> RcpOspfArea list \<Rightarrow> (nat \<times> nat) option" where
  "shm_match_network ip msk =
     find_shm_network (\<lambda>n. cn_valid n \<and> \<not> cn_mask n > msk \<and> cn_ip n AND cn_mask n = ip AND cn_mask n)"

definition get_shm_network_empty :: "u32 \<Rightarrow> RcpOspfArea list \<Rightarrow> (nat \<times> nat) option" where
  "get_shm_network_empty area_id cfg =
     (case get_shm_area area_id cfg of
        None \<Rightarrow> None
      | Some i \<Rightarrow> map_option (Pair i) (find_pos (\<lambda>n. \<not> cn_valid n) (ca_network (cfg ! i))))"

definition upd_shm_network :: "nat \<times> nat \<Rightarrow> RcpOspfNetwork \<Rightarrow> RcpOspfArea list \<Rightarrow> RcpOspfArea list" where
  "upd_shm_network p n = upd_pos (fst p) (\<lambda>a. a\<lparr>ca_network := upd_pos (snd p) (\<lambda>_. n) (ca_network a)\<rparr>)"

definition ospf_if_skip :: "OspfInterface \<Rightarrow> bool" where
  "ospf_if_skip intf \<longleftrightarrow> if_name intf = [] \<or> if_typ intf = IF_LOOPBACK"

definition generate_router_id :: "OspfInterface list \<Rightarrow> u32" where
  "generate_router_id intfs = fold (\<lambda>intf rid. if ospf_if_skip intf then rid else if if_ip intf > rid then if_ip intf else rid) intfs 0"

section \<open>State of the process\<close>

record ospf_sys =
  sy_adj :: adj_state
  sy_cfg :: "RcpOspfArea list"
  sy_router_id :: u32
  sy_intf :: "OspfInterface list"
  is_abr :: bool

abbreviation sy_areas :: "ospf_sys \<Rightarrow> area_list" where
  "sy_areas s \<equiv> adj_areas (sy_adj s)"

definition with_adj :: "(adj_state \<Rightarrow> adj_state) \<Rightarrow> ospf_sys \<Rightarrow> ospf_sys" where
  "with_adj f s = s\<lparr>sy_adj := f (sy_adj s)\<rparr>"

definition set_areas :: "area_list \<Rightarrow> ospf_sys \<Rightarrow> ospf_sys" where
  "set_areas al = with_adj (\<lambda>st. st\<lparr>adj_areas := al\<rparr>)"

definition sys_calls :: "adj_call list \<Rightarrow> ospf_sys \<Rightarrow> ospf_sys" where
  "sys_calls cs = with_adj (\<lambda>st. st\<lparr>adj_out := adj_out st @ cs\<rparr>)"

definition upd_oif :: "nat \<Rightarrow> (OspfInterface \<Rightarrow> OspfInterface) \<Rightarrow> ospf_sys \<Rightarrow> ospf_sys" where
  "upd_oif i f s = s\<lparr>sy_intf := upd_pos i f (sy_intf s)\<rparr>"

definition find_intf :: "u32 \<Rightarrow> ospf_sys \<Rightarrow> nat option" where
  "find_intf ip s = rcpFindInterface (map RcpInterface.truncate (sy_intf s)) ip"

text \<open>What the state machines read: the time and the link state database come from outside.\<close>

definition sys_env :: "u32 \<Rightarrow> lsdb \<Rightarrow> ospf_sys \<Rightarrow> adj_env" where
  "sys_env time db s =
     \<lparr>ae_time = time, ae_router_id = sy_router_id s,
      ae_intf = (\<lambda>ip. map_option (\<lambda>i. (if_mtu (sy_intf s ! i), ospf_mtu_ignore (sy_intf s ! i))) (find_intf ip s)),
      ae_db = db\<rparr>"

definition update_abr :: "ospf_sys \<Rightarrow> ospf_sys" where
  "update_abr s = s\<lparr>is_abr := length (sy_areas s) > 1\<rparr>"

section \<open>Areas and networks\<close>

definition need_router_id :: "ospf_sys \<Rightarrow> ospf_sys" where
  "need_router_id s = (if sy_router_id s = 0 then s\<lparr>sy_router_id := generate_router_id (sy_intf s)\<rparr> else s)"

definition createOspfArea :: "u32 \<Rightarrow> ospf_sys \<Rightarrow> bool \<times> ospf_sys" where
  "createOspfArea area_id s =
     (let s = need_router_id s
      in if sy_router_id s = 0 then (False, s)
         else case areaAdd \<lparr>oa_area_id = area_id, oa_router_id = sy_router_id s, oa_network = [], oa_stub = False,
                            oa_no_summary = False, oa_mylsa = None\<rparr> (sy_areas s) of
                (True, _) \<Rightarrow> (False, s)
              | (False, al) \<Rightarrow> (True, sys_calls [CRtrUpdate] (update_abr (set_areas al s))))"

definition cliNoNetworkAllCmd :: "ospf_sys \<Rightarrow> bool \<times> ospf_sys" where
  "cliNoNetworkAllCmd s =
     (False, s\<lparr>sy_cfg := map (\<lambda>a. if ca_valid a then a\<lparr>ca_network := map (\<lambda>n. n\<lparr>cn_valid := False\<rparr>) (ca_network a)\<rparr> else a)
                          (sy_cfg s)\<rparr>)"

text \<open>A new entry of the table of areas; when the area cannot be created the entry stays invalid.\<close>

definition new_area_entry :: "RcpOspfArea \<Rightarrow> ospf_sys \<Rightarrow> bool \<times> ospf_sys" where
  "new_area_entry a s =
     (case get_shm_area_empty (sy_cfg s) of
        None \<Rightarrow> (True, s)
      | Some i \<Rightarrow>
          (case createOspfArea (ca_area_id a) (s\<lparr>sy_cfg := (sy_cfg s)[i := a]\<rparr>) of
             (True, s) \<Rightarrow> (False, s)
           | (False, s) \<Rightarrow> (True, s\<lparr>sy_cfg := (sy_cfg s)[i := a\<lparr>ca_valid := False\<rparr>]\<rparr>)))"

definition add_network_entry :: "u32 \<Rightarrow> u32 \<Rightarrow> u32 \<Rightarrow> ospf_sys \<Rightarrow> bool \<times> ospf_sys" where
  "add_network_entry area_id ip msk s =
     (if get_shm_network area_id ip msk (sy_cfg s) \<noteq> None then (False, s)
      else case get_shm_network_empty area_id (sy_cfg s) of
             None \<Rightarrow> (True, s)
           | Some p \<Rightarrow>
               (False, s\<lparr>sy_cfg := upd_shm_network p \<lparr>cn_valid = True, cn_ip = ip, cn_mask = msk, cn_area_id = area_id\<rparr> (sy_cfg s)\<rparr>))"

definition cliNetworkCmd :: "bool \<Rightarrow> string \<Rightarrow> u32 \<Rightarrow> ospf_sys \<Rightarrow> bool \<times> ospf_sys" where
  "cliNetworkCmd noform arg area_id s =
     (case atocidr arg of
        None \<Rightarrow> (True, s)
      | Some (ip, msk) \<Rightarrow>
          if ip AND NOT msk \<noteq> 0 then (True, s)
          else if noform
          then (case get_shm_network area_id ip msk (sy_cfg s) of
                  None \<Rightarrow> (False, s)
                | Some p \<Rightarrow> (False, s\<lparr>sy_cfg := upd_shm_network p zero_network (sy_cfg s)\<rparr>))
          else if get_shm_network area_id ip msk (sy_cfg s) = None \<and> get_shm_any_network ip msk (sy_cfg s) \<noteq> None then (True, s)
          else if get_shm_area area_id (sy_cfg s) = None
          then (case new_area_entry (new_shm_area area_id) s of
                  (True, s) \<Rightarrow> (True, s)
                | (False, s) \<Rightarrow> add_network_entry area_id ip msk s)
          else add_network_entry area_id ip msk s)"

section \<open>Starting and stopping OSPF on an interface\<close>

text \<open>The new network, from the interface and the entry of the configuration; the fields that are not
  assigned are 0 after \<open>memset\<close>.\<close>

definition new_network :: "OspfInterface \<Rightarrow> u32 \<Rightarrow> u32 \<Rightarrow> OspfNetwork" where
  "new_network intf area_id rid =
     \<lparr>net_neighbor = [], net_type = N_TYPE_BROADCAST, net_state = NETSTATE_DOWN, net_hello_interval = ospf_hello intf,
      net_hello_timer = 0, net_ip = if_ip intf, net_mask = if_mask intf, net_area_id = area_id, net_router_id = rid,
      net_dead_interval = ucast (ospf_dead intf), net_router_priority = ucast (ospf_priority intf), net_wait_timer = 0,
      net_designated_router = 0, net_backup_router = 0, net_cost = ucast (ospf_cost intf),
      net_rxtm_interval = ucast (ospf_rxmt intf), net_auth_type = ucast (ospf_auth_type intf),
      ospf_passwd = intf_passwd intf, ospf_md5_passwd = intf_md5_passwd intf, ospf_md5_key = intf_md5_key intf,
      net_dr_nb = None, net_bdr_nb = None\<rparr>"

definition start_network :: "nat \<Rightarrow> u32 \<Rightarrow> ospf_sys \<Rightarrow> ospf_sys" where
  "start_network i area_id s =
     (let intf = sy_intf s ! i
      in case networkAdd area_id (new_network intf area_id (sy_router_id s)) (sy_areas s) of
           (True, _) \<Rightarrow> s
         | (False, al) \<Rightarrow>
             let s = with_adj (netfsmInterfaceUp (the (areaFind area_id al), 0)) (set_areas al s);
                 s = upd_oif i (\<lambda>f. f\<lparr>ospf_multicast_ip := if_ip f, ospf_multicast_mask := if_mask f\<rparr>) s
             in sys_calls [CMultiJoin (if_ip intf), CRedistStatic, CSpfTrigger] s)"

text \<open>The part that all places which delete a network have in common.\<close>

definition delete_network :: "u32 \<Rightarrow> lsdb \<Rightarrow> net_ptr \<Rightarrow> ospf_sys \<Rightarrow> ospf_sys" where
  "delete_network time db p s =
     (let s = with_adj (netfsmInterfaceDown (sys_env time db s) p) s;
          net = the_net p (sy_areas s);
          s = sys_calls [CMultiDrop (net_ip net)] s;
          s = set_areas (snd (networkRemove (net_area_id net) p (sy_areas s))) s
      in sys_calls [CRtrUpdate, CNetUpdate] s)"

definition networkCount :: "u32 \<Rightarrow> area_list \<Rightarrow> nat" where
  "networkCount area_id al = (case areaFind area_id al of None \<Rightarrow> 0 | Some i \<Rightarrow> length (oa_network (al ! i)))"

text \<open>An area without networks is removed, also from the configuration.\<close>

definition delete_empty_area :: "u32 \<Rightarrow> ospf_sys \<Rightarrow> ospf_sys" where
  "delete_empty_area area_id s =
     (if networkCount area_id (sy_areas s) = 0
      then let s = sys_calls [CRemoveArea area_id] s;
               s = (case areaFind area_id (sy_areas s) of None \<Rightarrow> s | Some k \<Rightarrow> set_areas (snd (areaRemove k (sy_areas s))) s)
           in (case get_shm_area area_id (sy_cfg s) of
                 None \<Rightarrow> s | Some i \<Rightarrow> s\<lparr>sy_cfg := upd_pos i (\<lambda>a. a\<lparr>ca_valid := False\<rparr>) (sy_cfg s)\<rparr>)
      else s)"

definition age_last_network :: "u32 \<Rightarrow> ospf_sys \<Rightarrow> ospf_sys" where
  "age_last_network area_id s = (if networkCount area_id (sy_areas s) = 1 then sys_calls [CAgeArea area_id] s else s)"

definition clear_multicast :: "nat \<Rightarrow> ospf_sys \<Rightarrow> ospf_sys" where
  "clear_multicast i = upd_oif i (\<lambda>f. f\<lparr>ospf_multicast_ip := 0, ospf_multicast_mask := 0\<rparr>)"

definition delete_vlan_network :: "u32 \<Rightarrow> lsdb \<Rightarrow> u32 \<Rightarrow> ospf_sys \<Rightarrow> ospf_sys" where
  "delete_vlan_network time db ip s =
     (case networkFindAnyIp ip (sy_areas s) of
        None \<Rightarrow> s
      | Some p \<Rightarrow>
          let area_id = net_area_id (the_net p (sy_areas s))
          in sys_calls [CRedistStatic, CSpfTrigger]
               (delete_empty_area area_id (delete_network time db p (age_last_network area_id s))))"

text \<open>One interface in \<open>ospf_update_interfaces\<close>: OSPF is not running on it, its network was deleted from
  the configuration, its address changed, or it went down.\<close>

definition update_started :: "u32 \<Rightarrow> lsdb \<Rightarrow> nat \<Rightarrow> ospf_sys \<Rightarrow> ospf_sys" where
  "update_started time db i s =
     (let intf = sy_intf s ! i; ip = if_ip intf; msk = if_mask intf; mip = ospf_multicast_ip intf; mmask = ospf_multicast_mask intf
      in case (if ip \<noteq> 0 then shm_match_network ip msk (sy_cfg s) else shm_match_network mip mmask (sy_cfg s)) of
           None \<Rightarrow>
             (case networkFindAnyIp ip (sy_areas s) of
                None \<Rightarrow> s
              | Some p \<Rightarrow>
                  let area_id = net_area_id (the_net p (sy_areas s));
                      s = clear_multicast i (delete_network time db p (age_last_network area_id s))
                  in sys_calls [CRedistStatic, CSpfTrigger] (delete_empty_area area_id s))
         | Some (a, j) \<Rightarrow>
             if ip \<noteq> mip \<or> msk \<noteq> mmask
             then (case networkFind (cn_area_id (ca_network (sy_cfg s ! a) ! j)) mip mmask (sy_areas s) of
                     None \<Rightarrow> s
                   | Some p \<Rightarrow> sys_calls [CRedistStatic, CSpfTrigger] (clear_multicast i (delete_network time db p s)))
             else if \<not> if_link_up intf \<or> \<not> if_admin_up intf
             then (case shm_match_network ip msk (sy_cfg s) of
                     None \<Rightarrow> s
                   | Some _ \<Rightarrow>
                       (case networkFindAnyIp ip (sy_areas s) of
                          None \<Rightarrow> s
                        | Some p \<Rightarrow> sys_calls [CRedistStatic, CSpfTriggerNow] (clear_multicast i (delete_network time db p s))))
             else s)"

definition update_intf :: "u32 \<Rightarrow> lsdb \<Rightarrow> nat \<Rightarrow> ospf_sys \<Rightarrow> ospf_sys" where
  "update_intf time db i s =
     (let intf = sy_intf s ! i
      in if ospf_if_skip intf then s
         else if ospf_multicast_ip intf = 0
         then (case shm_match_network (if_ip intf AND if_mask intf) (if_mask intf) (sy_cfg s) of
                 None \<Rightarrow> s
               | Some (a, j) \<Rightarrow> if if_link_up intf \<and> if_admin_up intf
                               then start_network i (cn_area_id (ca_network (sy_cfg s ! a) ! j)) s else s)
         else update_started time db i s)"

definition ospf_update_interfaces :: "u32 \<Rightarrow> lsdb \<Rightarrow> ospf_sys \<Rightarrow> ospf_sys" where
  "ospf_update_interfaces time db s = fold (update_intf time db) [0..<length (sy_intf s)] s"

section \<open>Clearing the process\<close>

text \<open>The loop over the networks of the area at position \<open>a\<close>; \<open>k\<close> and \<open>n\<close> as in \<open>kill_loop\<close>.\<close>

primrec clear_networks :: "nat \<Rightarrow> u32 \<Rightarrow> lsdb \<Rightarrow> nat \<Rightarrow> nat \<Rightarrow> ospf_sys \<Rightarrow> ospf_sys" where
  "clear_networks 0 time db a k s = s"
| "clear_networks (Suc n) time db a k s =
     (let s = with_adj (netfsmInterfaceDown (sys_env time db s) (a, k)) s;
          net = the_net (a, k) (sy_areas s);
          s = sys_calls [CMultiDrop (net_ip net)] s;
          s = (case find_intf (net_ip net) s of None \<Rightarrow> s | Some i \<Rightarrow> clear_multicast i s);
          len = length (oa_network (sy_areas s ! a));
          s = set_areas (snd (networkRemove (net_area_id net) (a, k) (sy_areas s))) s
      in clear_networks n time db a (if length (oa_network (sy_areas s ! a)) < len then k else k + 1) s)"

definition clear_area :: "u32 \<Rightarrow> lsdb \<Rightarrow> nat \<Rightarrow> ospf_sys \<Rightarrow> ospf_sys" where
  "clear_area time db a s =
     (let area_id = oa_area_id (sy_areas s ! a);
          s = sys_calls [CAgeArea area_id] s;
          s = clear_networks (length (oa_network (sy_areas s ! a))) time db a 0 s;
          s = set_areas (upd_pos a (\<lambda>x. x\<lparr>oa_network := [], oa_mylsa := None\<rparr>) (sy_areas s)) s;
          s = sys_calls [CRemoveArea area_id] s
      in set_areas (upd_pos a (\<lambda>x. x\<lparr>oa_router_id := sy_router_id s\<rparr>) (sy_areas s)) s)"

definition clear_areas :: "u32 \<Rightarrow> lsdb \<Rightarrow> ospf_sys \<Rightarrow> ospf_sys" where
  "clear_areas time db s = fold (clear_area time db) [0..<length (sy_areas s)] s"

definition remove_areas :: "ospf_sys \<Rightarrow> ospf_sys" where
  "remove_areas s = set_areas (((\<lambda>al. snd (areaRemove 0 al)) ^^ length (sy_areas s)) (sy_areas s)) s"

definition cliClearIpOspfCmd :: "u32 \<Rightarrow> lsdb \<Rightarrow> ospf_sys \<Rightarrow> bool \<times> ospf_sys" where
  "cliClearIpOspfCmd time db s = (False, sys_calls [CClearRoutes, CSpfTrigger, CRequestRip 5] (clear_areas time db s))"

text \<open>The parts of the configuration that concern areas; summary addresses and ranges are left out.\<close>

definition cliNoRouterOspfCmd :: "u32 \<Rightarrow> lsdb \<Rightarrow> ospf_sys \<Rightarrow> bool \<times> ospf_sys" where
  "cliNoRouterOspfCmd time db s =
     (let s = s\<lparr>sy_cfg := map (\<lambda>a. \<lparr>ca_valid = False, ca_stub = False, ca_no_summary = False, ca_area_id = 0, ca_default_cost = 0,
                                  ca_network = replicate RCP_OSPF_NETWORK_LIMIT zero_network\<rparr>) (sy_cfg s), sy_router_id := 0\<rparr>
      in (False, sys_calls [CClearRoutes, CClearExternal] (remove_areas (clear_areas time db s))))"

text \<open>A new process: the configuration and the interfaces are in shared memory, the areas are not.\<close>

definition ospf_restart :: "bool \<Rightarrow> ospf_sys \<Rightarrow> ospf_sys" where
  "ospf_restart redist_static s =
     (let s = fold (\<lambda>i s. if ca_valid (sy_cfg s ! i) then snd (createOspfArea (ca_area_id (sy_cfg s ! i)) s) else s)
                [0..<length (sy_cfg s)] s;
          s = s\<lparr>sy_intf := map (\<lambda>f. f\<lparr>ospf_multicast_ip := 0, ospf_multicast_mask := 0\<rparr>) (sy_intf s)\<rparr>
      in sys_calls ((if redist_static then [CRedistStatic] else []) @ [CSpfTrigger]) s)"

section \<open>Stub areas\<close>

definition upd_area :: "u32 \<Rightarrow> (OspfArea \<Rightarrow> OspfArea) \<Rightarrow> ospf_sys \<Rightarrow> ospf_sys" where
  "upd_area area_id f s = (case areaFind area_id (sy_areas s) of None \<Rightarrow> s | Some i \<Rightarrow> set_areas (upd_pos i f (sy_areas s)) s)"

definition set_stub :: "bool \<Rightarrow> bool \<Rightarrow> u32 \<Rightarrow> ospf_sys \<Rightarrow> ospf_sys" where
  "set_stub stub nosum area_id = upd_area area_id (\<lambda>a. a\<lparr>oa_stub := stub, oa_no_summary := nosum\<rparr>)"

text \<open>The common end of \<open>cliAreaStub\<close>; \<open>changed\<close> forces a \<open>clear ip ospf\<close>. The default summary advertisement is
  looked up in the link state database as it is after that.\<close>

definition stub_finish :: "u32 \<Rightarrow> lsdb \<Rightarrow> lsdb \<Rightarrow> bool \<Rightarrow> bool \<Rightarrow> nat \<Rightarrow> ospf_sys \<Rightarrow> ospf_sys" where
  "stub_finish time db db' noform changed i s =
     (let area = sy_cfg s ! i; area_id = ca_area_id area;
          s = (if changed then snd (cliClearIpOspfCmd time db s) else s);
          s = update_abr s;
          own = (case lsadbFind area_id LSA_TYPE_SUM_NET 0 (sy_router_id s) db' of
                   None \<Rightarrow> False | Some a \<Rightarrow> l_self_originated (store db' a));
          s = (if own then (if \<not> is_abr s \<or> noform then sys_calls [CRemoveSumDefault area_id] s else s)
               else if is_abr s \<and> \<not> noform then sys_calls [CSumDefault area_id (ca_default_cost area)] s else s)
      in sys_calls [CSpfTrigger] s)"

definition area_is_stub :: "u32 \<Rightarrow> ospf_sys \<Rightarrow> bool option" where
  "area_is_stub area_id s = map_option (\<lambda>i. oa_stub (sy_areas s ! i)) (areaFind area_id (sy_areas s))"

definition cliAreaStub :: "u32 \<Rightarrow> lsdb \<Rightarrow> lsdb \<Rightarrow> bool \<Rightarrow> u32 \<Rightarrow> bool \<Rightarrow> ospf_sys \<Rightarrow> bool \<times> ospf_sys" where
  "cliAreaStub time db db' noform area_id nosum s =
     (case get_shm_area area_id (sy_cfg s) of
        Some i \<Rightarrow>
          if noform
          then let changed = (area_is_stub area_id s = Some True);
                   s = s\<lparr>sy_cfg := upd_pos i (\<lambda>a. a\<lparr>ca_stub := False, ca_no_summary := False,
                                                ca_default_cost := RCP_OSPF_DEFAULT_COST\<rparr>) (sy_cfg s)\<rparr>
               in (False, stub_finish time db db' noform changed i (set_stub False False area_id s))
          else let changed = (area_is_stub area_id s = Some False);
                   s = s\<lparr>sy_cfg := upd_pos i (\<lambda>a. a\<lparr>ca_stub := True, ca_no_summary := nosum\<rparr>) (sy_cfg s)\<rparr>
               in (False, stub_finish time db db' noform changed i (set_stub True nosum area_id s))
      | None \<Rightarrow>
          if noform then (False, s)
          else (case new_area_entry ((new_shm_area area_id)\<lparr>ca_stub := True, ca_no_summary := nosum\<rparr>) s of
                  (True, s) \<Rightarrow> (True, s)
                | (False, s) \<Rightarrow>
                    (False, stub_finish time db db' noform False (the (get_shm_area area_id (sy_cfg s)))
                              (set_stub True nosum area_id s))))"

text \<open>With \<open>no\<close> the advertisement is originated with the variable \<open>cost\<close>, which is then 0.\<close>

definition cliAreaDefaultCost :: "bool \<Rightarrow> u32 \<Rightarrow> u32 \<Rightarrow> ospf_sys \<Rightarrow> bool \<times> ospf_sys" where
  "cliAreaDefaultCost noform area_id val s =
     (let cost = (if noform then 0 else val)
      in case get_shm_area area_id (sy_cfg s) of
           None \<Rightarrow> (\<not> noform, s)
         | Some i \<Rightarrow>
             if \<not> noform \<and> \<not> ca_stub (sy_cfg s ! i) then (True, s)
             else let s = s\<lparr>sy_cfg := upd_pos i (\<lambda>a. a\<lparr>ca_default_cost := (if noform then RCP_OSPF_DEFAULT_COST else val)\<rparr>) (sy_cfg s)\<rparr>
                  in (False, sys_calls [CSumDefault area_id cost, CSpfTrigger] (update_abr s)))"

section \<open>Interface commands\<close>

text \<open>A command of the interface mode: the interface by its name, then the active network with its address.\<close>

definition intf_cmd :: "string \<Rightarrow> (OspfInterface \<Rightarrow> OspfInterface) \<Rightarrow> (OspfInterface \<Rightarrow> OspfNetwork \<Rightarrow> OspfNetwork) \<Rightarrow>
    adj_call list \<Rightarrow> ospf_sys \<Rightarrow> bool \<times> ospf_sys" where
  "intf_cmd nm f g cs s =
     (case rcpFindInterfaceByName (map RcpInterface.truncate (sy_intf s)) nm of
        None \<Rightarrow> (True, s)
      | Some i \<Rightarrow>
          let s = upd_oif i f s; intf = sy_intf s ! i
          in case networkFindAnyIp (if_ip intf) (sy_areas s) of
               None \<Rightarrow> (False, s)
             | Some p \<Rightarrow> (False, sys_calls cs (set_areas (upd_net p (g intf) (sy_areas s)) s)))"

definition cliIpOspfCost :: "string \<Rightarrow> u32 option \<Rightarrow> ospf_sys \<Rightarrow> bool \<times> ospf_sys" where
  "cliIpOspfCost nm val =
     intf_cmd nm (\<lambda>f. f\<lparr>ospf_cost := (case val of None \<Rightarrow> 1 | Some v \<Rightarrow> ucast v)\<rparr>)
       (\<lambda>intf n. n\<lparr>net_cost := ucast (ospf_cost intf)\<rparr>) [CRtrUpdate, CSpfTrigger]"

definition cliIpOspfPriority :: "string \<Rightarrow> u32 option \<Rightarrow> ospf_sys \<Rightarrow> bool \<times> ospf_sys" where
  "cliIpOspfPriority nm val =
     intf_cmd nm (\<lambda>f. f\<lparr>ospf_priority := (case val of None \<Rightarrow> 1 | Some v \<Rightarrow> ucast v)\<rparr>)
       (\<lambda>intf n. n\<lparr>net_router_priority := ucast (ospf_priority intf)\<rparr>) []"

text \<open>The timers are \<open>int\<close> and the dead interval is unsigned: the comparison is one of unsigned values.\<close>

definition clip_dead :: "u32 \<Rightarrow> int \<Rightarrow> int" where
  "clip_dead dead t = (if (word_of_int t :: u32) > dead then sint dead else t)"

definition set_dead :: "u32 \<Rightarrow> OspfNetwork \<Rightarrow> OspfNetwork" where
  "set_dead dead n = n\<lparr>net_dead_interval := dead, net_wait_timer := clip_dead dead (net_wait_timer n),
     net_neighbor := map (\<lambda>nb. nb\<lparr>on_inactivity_timer := clip_dead dead (on_inactivity_timer nb)\<rparr>) (net_neighbor n)\<rparr>"

definition set_hello :: "u16 \<Rightarrow> OspfNetwork \<Rightarrow> OspfNetwork" where
  "set_hello hello n = n\<lparr>net_hello_interval := hello,
     net_hello_timer := (if net_hello_timer n > uint hello then uint hello else net_hello_timer n)\<rparr>"

definition cliIpOspfHello :: "string \<Rightarrow> u32 option \<Rightarrow> ospf_sys \<Rightarrow> bool \<times> ospf_sys" where
  "cliIpOspfHello nm val =
     intf_cmd nm (\<lambda>f. case val of None \<Rightarrow> f\<lparr>ospf_hello := 10, ospf_dead := 40\<rparr>
                       | Some v \<Rightarrow> f\<lparr>ospf_hello := ucast v, ospf_dead := ucast (v * 4)\<rparr>)
       (\<lambda>intf n. set_dead (ucast (ospf_dead intf)) (set_hello (ospf_hello intf) n)) []"

definition cliIpOspfDead :: "string \<Rightarrow> u32 option \<Rightarrow> ospf_sys \<Rightarrow> bool \<times> ospf_sys" where
  "cliIpOspfDead nm val =
     intf_cmd nm (\<lambda>f. f\<lparr>ospf_dead := (case val of None \<Rightarrow> 40 | Some v \<Rightarrow> ucast v)\<rparr>)
       (\<lambda>intf n. set_dead (ucast (ospf_dead intf)) n) []"

definition cliIpOspfRetransmit :: "string \<Rightarrow> u32 option \<Rightarrow> ospf_sys \<Rightarrow> bool \<times> ospf_sys" where
  "cliIpOspfRetransmit nm val =
     intf_cmd nm (\<lambda>f. f\<lparr>ospf_rxmt := (case val of None \<Rightarrow> 5 | Some v \<Rightarrow> ucast v)\<rparr>)
       (\<lambda>intf n. n\<lparr>net_rxtm_interval := ucast (ospf_rxmt intf)\<rparr>) []"

definition cliIpOsfpAuthenticationKey :: "string \<Rightarrow> u8 list option \<Rightarrow> ospf_sys \<Rightarrow> bool \<times> ospf_sys" where
  "cliIpOsfpAuthenticationKey nm val =
     intf_cmd nm (\<lambda>f. f\<lparr>intf_passwd := (case val of None \<Rightarrow> [] | Some v \<Rightarrow> v)\<rparr>)
       (\<lambda>intf n. n\<lparr>ospf_passwd := intf_passwd intf\<rparr>) []"

definition cliIpOsfpMd5AuthenticationKey :: "string \<Rightarrow> (u32 \<times> u8 list) option \<Rightarrow> ospf_sys \<Rightarrow> bool \<times> ospf_sys" where
  "cliIpOsfpMd5AuthenticationKey nm val =
     intf_cmd nm (\<lambda>f. case val of None \<Rightarrow> f\<lparr>intf_md5_passwd := [], intf_md5_key := 0\<rparr>
                       | Some (key, v) \<Rightarrow> f\<lparr>intf_md5_passwd := v, intf_md5_key := ucast key\<rparr>)
       (\<lambda>intf n. n\<lparr>ospf_md5_passwd := intf_md5_passwd intf, ospf_md5_key := intf_md5_key intf\<rparr>) []"

definition cliIpOspfAuthentication :: "string \<Rightarrow> bool \<Rightarrow> nat \<Rightarrow> ospf_sys \<Rightarrow> bool \<times> ospf_sys" where
  "cliIpOspfAuthentication nm noform argc =
     intf_cmd nm (\<lambda>f. f\<lparr>ospf_auth_type := (if noform then 0 else if argc = 4 then 2 else 1)\<rparr>)
       (\<lambda>intf n. n\<lparr>net_auth_type := ucast (ospf_auth_type intf)\<rparr>) []"

definition cliIpOsfpMtuIgnore :: "string \<Rightarrow> bool \<Rightarrow> ospf_sys \<Rightarrow> bool \<times> ospf_sys" where
  "cliIpOsfpMtuIgnore nm noform s =
     (case rcpFindInterfaceByName (map RcpInterface.truncate (sy_intf s)) nm of
        None \<Rightarrow> (True, s) | Some i \<Rightarrow> (False, upd_oif i (\<lambda>f. f\<lparr>ospf_mtu_ignore := \<not> noform\<rparr>) s))"

definition cliOspfPassiveInterfaceCmd :: "string \<Rightarrow> bool \<Rightarrow> ospf_sys \<Rightarrow> bool \<times> ospf_sys" where
  "cliOspfPassiveInterfaceCmd nm noform s =
     (let s = need_router_id s
      in if sy_router_id s = 0 then (True, s)
         else case rcpFindInterfaceByName (map RcpInterface.truncate (sy_intf s)) nm of
                None \<Rightarrow> (True, s) | Some i \<Rightarrow> (False, upd_oif i (\<lambda>f. f\<lparr>ospf_passive_interface := \<not> noform\<rparr>) s))"

end
