(* ===== verification/Ospf_ConfigInv.thy ===== *)
theory Ospf_ConfigInv
  imports Ospf_Election Ospf_Config
begin

text \<open>
  Invariants of the configuration: packets and timers never change which areas and networks exist;
  the tables in shared memory hold no duplicates; the areas of the process are those of the
  configuration. All commands and the interface task keep them, together with the invariants of the
  adjacencies.
\<close>

section \<open>Areas and networks without their state\<close>

type_synonym skeleton = "(u32 \<times> (u32 \<times> u32 \<times> u32) list) list"

definition skel_net :: "OspfNetwork \<Rightarrow> u32 \<times> u32 \<times> u32" where
  "skel_net n = (net_ip n, net_mask n, net_area_id n)"

definition skel :: "area_list \<Rightarrow> skeleton" where
  "skel = map (\<lambda>a. (oa_area_id a, map skel_net (oa_network a)))"

lemma skel_upd: "(\<And>n. skel_net (f n) = skel_net n) \<Longrightarrow> skel (upd_net p f al) = skel al"
  by (rule nth_equalityI) (auto simp: skel_def upd_net_def nth_upd_pos map_upd_pos_id)

lemma skel_upd_at: "skel_net (f (the_net p al)) = skel_net (the_net p al) \<Longrightarrow> skel (upd_net p f al) = skel al"
  by (rule nth_equalityI, simp add: skel_def upd_net_def)
     (auto simp: skel_def upd_net_def nth_upd_pos the_net_def intro!: nth_equalityI)

lemma skel_erase: "skel (erase al) = skel al"
  by (simp add: skel_def erase_def skel_net_def comp_def)

lemma skel_frame: "net_frame n n' \<Longrightarrow> skel_net n' = skel_net n"
proof -
  assume "net_frame n n'"
  then have "skel_net (n'\<lparr>net_neighbor := net_neighbor n\<rparr>) = skel_net n" by (simp only: net_frame_def)
  then show ?thesis by (simp add: skel_net_def)
qed

lemma skel_if:
  "skel (adj_areas a) = x \<Longrightarrow> skel (adj_areas b) = x \<Longrightarrow> skel (adj_areas (if c then a else b)) = x"
  by simp

named_theorems skels \<open>handlers that keep the areas and networks\<close>

lemma at_net_skel:
  "(\<And>s. nb_step (fst s) (fst (f s))) \<Longrightarrow> skel (adj_areas (at_net p f st)) = skel (adj_areas st)"
  unfolding at_net_areas nb_step_def by (rule skel_upd_at) (metis skel_frame fst_conv)

lemma at_net_skel': "(\<And>s. fst (f s) = fst s) \<Longrightarrow> skel (adj_areas (at_net p f st)) = skel (adj_areas st)"
  by (rule at_net_skel) simp

lemma set_net_skel: "(\<And>n. skel_net (f n) = skel_net n) \<Longrightarrow> skel (adj_areas (set_net p f st)) = skel (adj_areas st)"
  by (simp add: skel_upd)

lemma trace_skel [simp]: "adj_areas (trace_netstate p st) = adj_areas st" "adj_areas (save_last p st) = adj_areas st"
  by (simp_all add: trace_netstate_def save_last_def)

lemma set_role_skel [skels]: "skel (adj_areas (set_role p st)) = skel (adj_areas st)"
  by (simp add: set_role_def Let_def skel_upd skel_net_def)

lemma finish_election_skel: "skel_net (fst (finish_election env s)) = skel_net (fst s)"
proof -
  obtain ch net where r: "take_result (fst s) = (ch, net)" by (cases "take_result (fst s)")
  have "net_frame net (fst (finish_election env s))"
    using adjok_all_frame [of "originate_if_dr (net, snd s)" env] by (simp add: finish_election_def r Let_def fst_originate_net)
  from skel_frame [OF this] show ?thesis using r by (auto simp: take_result_def Let_def skel_net_def)
qed

lemma drbdrElection_skel [skels]: "skel (adj_areas (drbdrElection env p st)) = skel (adj_areas st)"
proof -
  have "skel (drbdr_steps (ae_router_id env) p (adj_areas st)) = skel (adj_areas st)"
    using drbdr_steps_erase skel_erase by metis
  then show ?thesis unfolding drbdrElection_def Let_def at_net_areas by (simp add: skel_upd_at finish_election_skel)
qed

lemma elect_and_originate_skel [skels]: "skel (adj_areas (elect_and_originate env p st)) = skel (adj_areas st)"
  unfolding elect_and_originate_def by (simp add: at_net_skel' drbdrElection_skel lsa_originate_rtr_def)

lemma netfsm_skel [skels]:
  "skel (adj_areas (netfsmWaitTimer env p st)) = skel (adj_areas st)"
  "skel (adj_areas (netfsmBackupSeen env p st)) = skel (adj_areas st)"
  "skel (adj_areas (netfsmNeighborChange env p st)) = skel (adj_areas st)"
  by (simp_all add: netfsmWaitTimer_def netfsmBackupSeen_def netfsmNeighborChange_def Let_def skels)

lemma netfsmInterfaceUp_skel [skels]: "skel (adj_areas (netfsmInterfaceUp p st)) = skel (adj_areas st)"
  by (simp add: netfsmInterfaceUp_def Let_def skel_upd skel_net_def)

lemma neighbor_skel:
  "skel (snd (neighborAdd aid nb al)) = skel al" "skel (snd (neighborRemove aid (p, k) al)) = skel al"
  using neighborRemove_cases [of aid p k al]
  by (auto simp: neighborAdd_def skel_upd skel_net_def split: option.split)

lemma remove_neighbor_skel [skels]: "skel (adj_areas (remove_neighbor env p k st)) = skel (adj_areas st)"
  by (simp add: remove_neighbor_def Let_def skels at_net_skel' update_lsadb_def lsa_originate_rtr_def fst_originate_net neighbor_skel)

lemma kill_skel [skels]:
  "skel (adj_areas (nfsmKillNbr env p k st)) = skel (adj_areas st)"
  "skel (adj_areas (nfsmInactivityTimer env p k st)) = skel (adj_areas st)"
  by (simp_all add: nfsmKillNbr_def nfsmInactivityTimer_def Let_def skels at_net_skel [OF nfsmLLDown_step])

lemma kill_loop_skel [skels]: "skel (adj_areas (kill_loop n env p k st)) = skel (adj_areas st)"
  by (induction n arbitrary: k st) (simp_all add: Let_def skels)

lemma netfsmInterfaceDown_skel [skels]: "skel (adj_areas (netfsmInterfaceDown env p st)) = skel (adj_areas st)"
  by (simp add: netfsmInterfaceDown_def Let_def skels skel_upd skel_net_def)

lemma hello_neighbor_skel [skels]: "skel (adj_areas (hello_neighbor env desc h ids p k st)) = skel (adj_areas st)"
proof -
  let ?f = "\<lambda>s. nfsmHelloReceived k (upd_nb k (\<lambda>nb. nb\<lparr>on_priority := he_router_priority h,
                  on_designated_router := he_designated_router h, on_backup_router := he_backup_router h\<rparr>) s)"
  have "nb_step (fst s) (fst (?f s))" for s by (rule nb_step_comp [OF nb_step_upd_quiet nfsmHelloReceived_step]) simp_all
  then have 1: "skel (adj_areas (at_net p ?f st)) = skel (adj_areas st)" by (rule at_net_skel)
  have 2: "skel (adj_areas (at_net p (if found then nfsm2WayReceived nenv k else nfsm1Way k) st')) = skel (adj_areas st')" for found nenv st'
    by (rule at_net_skel) (simp add: nfsm2WayReceived_step nfsm1Way_step)
  have 3: "skel (adj_areas (run_event env p e st')) = skel (adj_areas st')" for e st'
    by (simp add: run_event_def skels split: option.split net_event.split)
  show ?thesis unfolding hello_neighbor_def Let_def by (intro skel_if) (simp_all only: 1 2 3)
qed

lemma config_error_areas [simp]: "adj_areas (snd (config_error desc err st)) = adj_areas st"
  by (simp add: config_error_def)

lemma helloRx_skel [skels]: "skel (adj_areas (snd (helloRx env desc h ids st))) = skel (adj_areas st)"
  using neighbor_skel(1) [of "pd_area_id desc" "new_neighbor_of desc" "adj_areas st"]
  by (auto simp: helloRx_def Let_def skels split: option.split prod.split bool.split)

lemma dbdescRx_skel [skels]: "skel (adj_areas (snd (dbdescRx env desc dbd hs st))) = skel (adj_areas st)"
proof -
  have 1: "skel (adj_areas (at_net p (upd_nb k (\<lambda>nb. nb\<lparr>on_lastdbd_options := dd_options dbd, on_lastdbd_fields := dd_fields dbd,
      on_lastdbd_seq := dd_seq dbd\<rparr>)) st)) = skel (adj_areas st)" for p k
    by (rule at_net_skel) (rule nb_step_upd_quiet, simp_all)
  show ?thesis by (auto simp: dbdescRx_def Let_def 1 at_net_skel [OF dd_neighbor_step] split: option.split prod.split)
qed

lemma neighbor_loop_skel [skels]: "skel (adj_areas (neighbor_loop n env no_inact p cnt k st)) = skel (adj_areas st)"
proof (induction n arbitrary: cnt k st)
  case (Suc n)
  have 1: "skel (adj_areas (at_net p (upd_nb k (\<lambda>nb. nb\<lparr>on_inactivity_timer := on_inactivity_timer nb - 1\<rparr>)) st)) = skel (adj_areas st)"
    by (rule at_net_skel) (rule nb_step_upd_quiet, simp_all)
  have 2: "skel (adj_areas (if c then at_net p (upd_nb k (\<lambda>nb. nb\<lparr>on_inactivity_timer := on_inactivity_timer nb - 1\<rparr>)) st else st)) =
      skel (adj_areas st)" for c
    by (intro skel_if 1 refl)
  show ?case unfolding neighbor_loop.simps Let_def
    by (intro skel_if) (simp_all only: Suc.IH skels at_net_skel [OF neighbor_tick_step] 2)
qed simp

lemma network_tick_skel [skels]: "skel (adj_areas (network_tick env no_inact p st)) = skel (adj_areas st)"
proof -
  have "skel (adj_areas (at_net p (hello_tick stub) st')) = skel (adj_areas st')" for stub st'
    unfolding at_net_areas by (rule skel_upd_at) (simp add: hello_tick_def Let_def skel_net_def)
  moreover have "skel (adj_areas (wait_tick env p st)) = skel (adj_areas st)"
    by (simp add: wait_tick_def Let_def skels skel_upd skel_net_def)
  ultimately show ?thesis by (simp add: network_tick_def Let_def skels)
qed

lemma networkTimeout_skel [skels]: "skel (adj_areas (networkTimeout env no_inact st)) = skel (adj_areas st)"
proof -
  have "skel (adj_areas (fold (network_tick env no_inact) ps st)) = skel (adj_areas st)" for ps
    by (induction ps arbitrary: st) (simp_all add: skels)
  then show ?thesis by (simp add: networkTimeout_def)
qed

section \<open>The tables in shared memory\<close>

text \<open>The valid networks of the valid areas, by position.\<close>

definition shm_net :: "RcpOspfArea list \<Rightarrow> nat \<times> nat \<Rightarrow> bool" where
  "shm_net cfg p \<longleftrightarrow> fst p < length cfg \<and> ca_valid (cfg ! fst p) \<and> snd p < length (ca_network (cfg ! fst p)) \<and>
     cn_valid (ca_network (cfg ! fst p) ! snd p)"

abbreviation the_shm_net :: "RcpOspfArea list \<Rightarrow> nat \<times> nat \<Rightarrow> RcpOspfNetwork" where
  "the_shm_net cfg p \<equiv> ca_network (cfg ! fst p) ! snd p"

text \<open>Table sizes; an area id belongs to one valid entry; a network is defined once, in the area that
  its entry names.\<close>

definition sizes_ok :: "RcpOspfArea list \<Rightarrow> bool" where
  "sizes_ok cfg \<longleftrightarrow> length cfg = RCP_OSPF_AREA_LIMIT \<and> list_all (\<lambda>a. length (ca_network a) = RCP_OSPF_NETWORK_LIMIT) cfg"

definition areas_distinct :: "RcpOspfArea list \<Rightarrow> bool" where
  "areas_distinct cfg \<longleftrightarrow> (\<forall>i < length cfg. \<forall>j < length cfg. ca_valid (cfg ! i) \<longrightarrow> ca_valid (cfg ! j) \<longrightarrow>
     ca_area_id (cfg ! i) = ca_area_id (cfg ! j) \<longrightarrow> i = j)"

definition nets_distinct :: "RcpOspfArea list \<Rightarrow> bool" where
  "nets_distinct cfg \<longleftrightarrow> (\<forall>p q. shm_net cfg p \<longrightarrow> shm_net cfg q \<longrightarrow> cn_ip (the_shm_net cfg p) = cn_ip (the_shm_net cfg q) \<longrightarrow>
     cn_mask (the_shm_net cfg p) = cn_mask (the_shm_net cfg q) \<longrightarrow> p = q)"

definition nets_in_area :: "RcpOspfArea list \<Rightarrow> bool" where
  "nets_in_area cfg \<longleftrightarrow> (\<forall>p. shm_net cfg p \<longrightarrow> cn_area_id (the_shm_net cfg p) = ca_area_id (cfg ! fst p))"

definition ocfg_ok :: "RcpOspfArea list \<Rightarrow> bool" where
  "ocfg_ok cfg \<longleftrightarrow> sizes_ok cfg \<and> areas_distinct cfg \<and> nets_distinct cfg \<and> nets_in_area cfg"

lemma find_shm_network_Some:
  "find_shm_network P cfg = Some p \<Longrightarrow> fst p < length cfg \<and> ca_valid (cfg ! fst p) \<and>
     snd p < length (ca_network (cfg ! fst p)) \<and> P (the_shm_net cfg p)"
proof (induction cfg arbitrary: p)
  case (Cons a as)
  show ?case
  proof (cases "if ca_valid a then find_pos P (ca_network a) else None")
    case None
    then obtain q where "find_shm_network P as = Some q" "p = (Suc (fst q), snd q)" using Cons.prems by auto
    then show ?thesis using Cons.IH [of q] by simp
  next
    case (Some j)
    then have "p = (0, j)" "ca_valid a" "find_pos P (ca_network a) = Some j" using Cons.prems by (auto split: if_splits)
    then show ?thesis using find_pos_Some [of P "ca_network a" j] by simp
  qed
qed simp

lemma find_shm_network_None:
  "find_shm_network P cfg = None \<longleftrightarrow> (\<forall>a \<in> set cfg. ca_valid a \<longrightarrow> (\<forall>n \<in> set (ca_network a). \<not> P n))"
proof (induction cfg)
  case (Cons a as)
  show ?case
  proof (cases "ca_valid a \<and> find_pos P (ca_network a) \<noteq> None")
    case True
    then obtain j where j: "find_pos P (ca_network a) = Some j" by blast
    then have "\<exists>n \<in> set (ca_network a). P n" using find_pos_None [of P "ca_network a"] by auto
    then show ?thesis using True j by auto
  next
    case False
    then have "find_shm_network P (a # as) = map_option (\<lambda>(i, j). (Suc i, j)) (find_shm_network P as)" by auto
    then show ?thesis using Cons.IH False by (auto simp: find_pos_None)
  qed
qed simp

lemma all_shm_net:
  "(\<forall>a \<in> set cfg. ca_valid a \<longrightarrow> (\<forall>n \<in> set (ca_network a). cn_valid n \<longrightarrow> Q n)) \<longleftrightarrow>
   (\<forall>p. shm_net cfg p \<longrightarrow> Q (the_shm_net cfg p))"
  by (simp add: all_set_conv_all_nth shm_net_def split_paired_All) blast

lemma get_shm_any_network_None:
  "get_shm_any_network ip msk cfg = None \<longleftrightarrow> (\<forall>p. shm_net cfg p \<longrightarrow> \<not> (cn_ip (the_shm_net cfg p) = ip \<and> cn_mask (the_shm_net cfg p) = msk))"
  unfolding get_shm_any_network_def find_shm_network_None
  using all_shm_net [of cfg "\<lambda>n. \<not> (cn_ip n = ip \<and> cn_mask n = msk)"] by blast

lemma get_shm_area_Some:
  "get_shm_area area_id cfg = Some i \<Longrightarrow> i < length cfg \<and> ca_valid (cfg ! i) \<and> ca_area_id (cfg ! i) = area_id"
  unfolding get_shm_area_def using find_pos_Some by fastforce

lemma get_shm_network_Some:
  assumes "get_shm_network area_id ip msk cfg = Some p"
  shows "shm_net cfg p \<and> cn_ip (the_shm_net cfg p) = ip \<and> cn_mask (the_shm_net cfg p) = msk \<and>
    get_shm_area area_id cfg = Some (fst p)"
proof -
  obtain i j where i: "get_shm_area area_id cfg = Some i" "p = (i, j)"
    "find_pos (\<lambda>n. cn_valid n \<and> cn_ip n = ip \<and> cn_mask n = msk) (ca_network (cfg ! i)) = Some j"
    using assms by (auto simp: get_shm_network_def split: option.splits)
  from find_pos_Some [OF i(3)] get_shm_area_Some [OF i(1)] i(1,2) show ?thesis by (simp add: shm_net_def)
qed

lemma get_shm_network_None:
  assumes "get_shm_network area_id ip msk cfg = None" "get_shm_area area_id cfg = Some i" "j < length (ca_network (cfg ! i))"
    "cn_valid (ca_network (cfg ! i) ! j)"
  shows "\<not> (cn_ip (ca_network (cfg ! i) ! j) = ip \<and> cn_mask (ca_network (cfg ! i) ! j) = msk)"
  using assms nth_mem [OF assms(3)] by (auto simp: get_shm_network_def find_pos_None)

lemma upd_shm_nth:
  "upd_shm_network p n cfg ! i =
     (if fst p = i \<and> i < length cfg then (cfg ! i)\<lparr>ca_network := upd_pos (snd p) (\<lambda>_. n) (ca_network (cfg ! i))\<rparr> else cfg ! i)"
  by (simp add: upd_shm_network_def upd_pos_def)

lemma upd_shm_length [simp]: "length (upd_shm_network p n cfg) = length cfg"
  by (simp add: upd_shm_network_def)

lemma upd_shm_sel [simp]:
  "ca_valid (upd_shm_network p n cfg ! i) = ca_valid (cfg ! i)"
  "ca_area_id (upd_shm_network p n cfg ! i) = ca_area_id (cfg ! i)"
  "length (ca_network (upd_shm_network p n cfg ! i)) = length (ca_network (cfg ! i))"
  by (simp_all add: upd_shm_nth)

lemma the_shm_net_upd:
  assumes "fst p < length cfg" "snd p < length (ca_network (cfg ! fst p))"
  shows "the_shm_net (upd_shm_network p n cfg) q = (if q = p then n else the_shm_net cfg q)"
  using assms by (cases p; cases q) (auto simp: upd_shm_nth upd_pos_def nth_list_update)

lemma shm_net_upd:
  assumes "fst p < length cfg" "snd p < length (ca_network (cfg ! fst p))"
  shows "shm_net (upd_shm_network p n cfg) q \<longleftrightarrow> (if q = p then ca_valid (cfg ! fst p) \<and> cn_valid n else shm_net cfg q)"
  unfolding shm_net_def the_shm_net_upd [OF assms] using assms by auto

lemma sizes_ok_upd [simp]: "sizes_ok (upd_shm_network p n cfg) = sizes_ok cfg"
  by (simp add: sizes_ok_def list_all_length)

lemma nets_distinctD:
  "nets_distinct cfg \<Longrightarrow> shm_net cfg p \<Longrightarrow> shm_net cfg q \<Longrightarrow> cn_ip (the_shm_net cfg p) = cn_ip (the_shm_net cfg q) \<Longrightarrow>
     cn_mask (the_shm_net cfg p) = cn_mask (the_shm_net cfg q) \<Longrightarrow> p = q"
  unfolding nets_distinct_def by blast

lemma ocfg_ok_upd:
  assumes ok: "ocfg_ok cfg" and p: "fst p < length cfg" "snd p < length (ca_network (cfg ! fst p))"
    and new: "cn_valid n \<Longrightarrow> cn_area_id n = ca_area_id (cfg ! fst p) \<and>
      (\<forall>q. shm_net cfg q \<longrightarrow> q \<noteq> p \<longrightarrow> \<not> (cn_ip (the_shm_net cfg q) = cn_ip n \<and> cn_mask (the_shm_net cfg q) = cn_mask n))"
  shows "ocfg_ok (upd_shm_network p n cfg)"
proof -
  let ?cfg = "upd_shm_network p n cfg"
  have "areas_distinct ?cfg" using ok by (simp add: ocfg_ok_def areas_distinct_def)
  moreover have "nets_distinct ?cfg"
    unfolding nets_distinct_def shm_net_upd [OF p] the_shm_net_upd [OF p]
  proof (intro allI impI)
    fix a b
    assume *: "if a = p then ca_valid (cfg ! fst p) \<and> cn_valid n else shm_net cfg a"
      "if b = p then ca_valid (cfg ! fst p) \<and> cn_valid n else shm_net cfg b"
      "cn_ip (if a = p then n else the_shm_net cfg a) = cn_ip (if b = p then n else the_shm_net cfg b)"
      "cn_mask (if a = p then n else the_shm_net cfg a) = cn_mask (if b = p then n else the_shm_net cfg b)"
    have "nets_distinct cfg" using ok by (simp add: ocfg_ok_def)
    then have same: "a = b" if "a \<noteq> p" "b \<noteq> p" by (rule nets_distinctD) (use that * in simp_all)
    have n: False if "cn_valid n" "shm_net cfg q" "q \<noteq> p" "cn_ip (the_shm_net cfg q) = cn_ip n" "cn_mask (the_shm_net cfg q) = cn_mask n" for q
      using new that by blast
    moreover have "\<not> (a = p \<and> b \<noteq> p)" using n [of b] * by (intro notI, elim conjE) simp
    moreover have "\<not> (a \<noteq> p \<and> b = p)" using n [of a] * by (intro notI, elim conjE) simp
    ultimately show "a = b" using same by blast
  qed
  moreover have "nets_in_area ?cfg"
    using ok new unfolding ocfg_ok_def nets_in_area_def shm_net_upd [OF p] the_shm_net_upd [OF p] by auto
  ultimately show ?thesis using ok by (simp add: ocfg_ok_def)
qed

lemma ocfg_ok_zero:
  assumes "ocfg_ok cfg"
  shows "ocfg_ok (upd_shm_network p zero_network cfg)"
proof (cases "fst p < length cfg \<and> snd p < length (ca_network (cfg ! fst p))")
  case True
  then show ?thesis using ocfg_ok_upd [OF assms, of p zero_network] by (simp add: zero_network_def)
next
  case False
  then have "upd_shm_network p zero_network cfg = cfg"
    by (auto simp: upd_shm_network_def upd_pos_def list_update_same_conv)
  then show ?thesis using assms by simp
qed

text \<open>Changes of the entries of areas: entries may become invalid, lose networks or change other fields.\<close>

definition area_less :: "RcpOspfArea \<Rightarrow> RcpOspfArea \<Rightarrow> bool" where
  "area_less a b \<longleftrightarrow> length (ca_network a) = length (ca_network b) \<and>
     (ca_valid a \<longrightarrow> ca_valid b \<and> ca_area_id a = ca_area_id b \<and>
       (\<forall>j < length (ca_network a). cn_valid (ca_network a ! j) \<longrightarrow> ca_network a ! j = ca_network b ! j))"

lemma ocfg_ok_less:
  assumes ok: "ocfg_ok cfg" and l: "list_all2 area_less cfg' cfg"
  shows "ocfg_ok cfg'"
proof -
  have len: "length cfg' = length cfg" using l by (rule list_all2_lengthD)
  have at: "area_less (cfg' ! i) (cfg ! i)" if "i < length cfg" for i using list_all2_nthD2 [OF l that] .
  have valid: "ca_valid (cfg ! i) \<and> ca_area_id (cfg' ! i) = ca_area_id (cfg ! i)" if "i < length cfg'" "ca_valid (cfg' ! i)" for i
    using at [of i] that len by (simp add: area_less_def)
  have net: "shm_net cfg p \<and> the_shm_net cfg' p = the_shm_net cfg p \<and> ca_area_id (cfg' ! fst p) = ca_area_id (cfg ! fst p)"
    if "shm_net cfg' p" for p
    using at [of "fst p"] that len unfolding shm_net_def area_less_def by metis
  have "sizes_ok cfg'" using ok at len by (simp add: ocfg_ok_def sizes_ok_def list_all_length area_less_def)
  moreover have "areas_distinct cfg'" using ok valid len unfolding ocfg_ok_def areas_distinct_def by metis
  moreover have "nets_distinct cfg'" using ok net unfolding ocfg_ok_def nets_distinct_def by metis
  moreover have "nets_in_area cfg'" using ok net unfolding ocfg_ok_def nets_in_area_def by metis
  ultimately show ?thesis by (simp add: ocfg_ok_def)
qed

lemma area_less_refl [simp]: "area_less a a"
  by (simp add: area_less_def)

lemma ocfg_ok_upd_area:
  assumes "ocfg_ok cfg" "\<And>a. area_less (f a) a"
  shows "ocfg_ok (upd_pos i f cfg)"
  using assms(1) by (rule ocfg_ok_less) (auto simp: list_all2_conv_all_nth nth_upd_pos assms(2))

lemma ocfg_ok_map: "ocfg_ok cfg \<Longrightarrow> (\<And>a. length (ca_network a) = RCP_OSPF_NETWORK_LIMIT \<Longrightarrow> area_less (f a) a) \<Longrightarrow> ocfg_ok (map f cfg)"
  by (rule ocfg_ok_less) (auto simp: list_all2_conv_all_nth ocfg_ok_def sizes_ok_def list_all_length)

lemma ocfg_ok_new_area:
  assumes ok: "ocfg_ok cfg" and i: "i < length cfg" "\<not> ca_valid (cfg ! i)"
    and a: "length (ca_network a) = RCP_OSPF_NETWORK_LIMIT" "list_all (\<lambda>n. \<not> cn_valid n) (ca_network a)"
    and fresh: "\<And>j. j < length cfg \<Longrightarrow> ca_valid (cfg ! j) \<Longrightarrow> ca_area_id (cfg ! j) \<noteq> ca_area_id a"
  shows "ocfg_ok (cfg[i := a])"
proof -
  have at: "cfg[i := a] ! j = (if j = i then a else cfg ! j)" if "j < length cfg" for j using that i by (simp add: nth_list_update)
  have net: "shm_net (cfg[i := a]) p \<Longrightarrow> shm_net cfg p \<and> fst p \<noteq> i" for p
    using a(2) at [of "fst p"] by (auto simp: shm_net_def list_all_length split: if_splits)
  then have the: "the_shm_net (cfg[i := a]) p = the_shm_net cfg p \<and> ca_area_id (cfg[i := a] ! fst p) = ca_area_id (cfg ! fst p)"
    if "shm_net (cfg[i := a]) p" for p using that by fastforce
  have "sizes_ok (cfg[i := a])" using ok a(1) by (auto simp: ocfg_ok_def sizes_ok_def list_all_length at)
  moreover have "areas_distinct (cfg[i := a])"
    using ok fresh unfolding ocfg_ok_def areas_distinct_def by (simp add: at) (metis (no_types, lifting))
  moreover have "nets_distinct (cfg[i := a])" using ok net the unfolding ocfg_ok_def nets_distinct_def by metis
  moreover have "nets_in_area (cfg[i := a])" using ok net the unfolding ocfg_ok_def nets_in_area_def by metis
  ultimately show ?thesis by (simp add: ocfg_ok_def)
qed

section \<open>The invariant of the process\<close>

definition skel_ok :: "skeleton \<Rightarrow> bool" where
  "skel_ok sk \<longleftrightarrow> distinct (map fst sk) \<and> list_all (\<lambda>(i, ns). list_all (\<lambda>n. snd (snd n) = i) ns) sk"

definition valid_ids :: "RcpOspfArea list \<Rightarrow> u32 set" where
  "valid_ids cfg = ca_area_id ` {a \<in> set cfg. ca_valid a}"

definition sys_ok :: "ospf_sys \<Rightarrow> bool" where
  "sys_ok s \<longleftrightarrow> sys_inv (sy_adj s) \<and> ocfg_ok (sy_cfg s) \<and> skel_ok (skel (sy_areas s)) \<and>
     set (map fst (skel (sy_areas s))) = valid_ids (sy_cfg s)"

lemma nets_set: "nets (\<lambda>_. P) al \<longleftrightarrow> (\<forall>a \<in> set al. \<forall>n \<in> set (oa_network a). P n)"
  unfolding nets_def net_valid_def the_net_def all_set_conv_all_nth by auto

lemma sys_calls_sel [simp]:
  "sy_areas (sys_calls cs s) = sy_areas s" "sy_cfg (sys_calls cs s) = sy_cfg s" "sy_router_id (sys_calls cs s) = sy_router_id s"
  "sy_intf (sys_calls cs s) = sy_intf s"
  by (simp_all add: sys_calls_def with_adj_def)

lemma set_areas_sel [simp]:
  "sy_areas (set_areas al s) = al" "sy_cfg (set_areas al s) = sy_cfg s" "sy_router_id (set_areas al s) = sy_router_id s"
  "sy_intf (set_areas al s) = sy_intf s"
  by (simp_all add: set_areas_def with_adj_def)

lemma with_adj_sel [simp]: "sy_adj (with_adj f s) = f (sy_adj s)" "sy_cfg (with_adj f s) = sy_cfg s" "sy_router_id (with_adj f s) = sy_router_id s"
  "sy_intf (with_adj f s) = sy_intf s"
  by (simp_all add: with_adj_def)

lemma sys_ok_alt: "sys_ok s \<longleftrightarrow> (\<forall>a \<in> set (sy_areas s). \<forall>n \<in> set (oa_network a). net_inv n) \<and> ocfg_ok (sy_cfg s) \<and>
    skel_ok (skel (sy_areas s)) \<and> set (map fst (skel (sy_areas s))) = valid_ids (sy_cfg s)"
  by (simp add: sys_ok_def sys_inv_def nets_set)

lemma sys_ok_cong: "sy_areas s = sy_areas s' \<Longrightarrow> sy_cfg s = sy_cfg s' \<Longrightarrow> sys_ok s = sys_ok s'"
  by (simp add: sys_ok_alt)

lemma sys_ok_simps [simp]: "sys_ok (sys_calls cs s) = sys_ok s" "sys_ok (upd_oif i f s) = sys_ok s"
  "sys_ok (update_abr s) = sys_ok s" "sys_ok (need_router_id s) = sys_ok s" "sys_ok (clear_multicast i s) = sys_ok s"
  by (rule sys_ok_cong; simp add: upd_oif_def update_abr_def need_router_id_def clear_multicast_def)+

lemma sys_ok_adj:
  assumes "sys_ok s" "sys_inv (f (sy_adj s))" "skel (adj_areas (f (sy_adj s))) = skel (sy_areas s)"
  shows "sys_ok (with_adj f s)"
  using assms by (simp add: sys_ok_def)

lemma ids_skel: "map fst (skel al) = map oa_area_id al"
  by (simp add: skel_def comp_def)

lemma areaFind_None: "areaFind aid al = None \<longleftrightarrow> aid \<notin> set (map fst (skel al))"
  by (auto simp: areaFind_def find_pos_None ids_skel)

lemma get_shm_area_None: "get_shm_area aid cfg = None \<longleftrightarrow> aid \<notin> valid_ids cfg"
  by (auto simp: get_shm_area_def find_pos_None valid_ids_def)

lemma valid_ids_nth: "valid_ids cfg = {ca_area_id (cfg ! i) |i. i < length cfg \<and> ca_valid (cfg ! i)}"
  unfolding valid_ids_def by (auto simp: in_set_conv_nth)

lemma sys_ok_new_area:
  assumes ok: "sys_ok s" and i: "i < length (sy_cfg s)" "\<not> ca_valid (sy_cfg s ! i)"
    and a: "ca_valid a" "length (ca_network a) = RCP_OSPF_NETWORK_LIMIT" "list_all (\<lambda>n. \<not> cn_valid n) (ca_network a)"
    and fresh: "ca_area_id a \<notin> valid_ids (sy_cfg s)" and x: "oa_area_id x = ca_area_id a" "oa_network x = []"
    and s': "sy_areas s' = x # sy_areas s" "sy_cfg s' = (sy_cfg s)[i := a]"
  shows "sys_ok s'"
proof -
  have "ocfg_ok (sy_cfg s')"
    unfolding s'(2) by (rule ocfg_ok_new_area) (use ok i a fresh in \<open>auto simp: sys_ok_def valid_ids_nth\<close>)
  moreover have "valid_ids (sy_cfg s') = insert (ca_area_id a) (valid_ids (sy_cfg s))"
  proof -
    have "{b \<in> set ((sy_cfg s)[i := a]). ca_valid b} = insert a {b \<in> set (sy_cfg s). ca_valid b}"
      using i a(1) by (auto simp: in_set_conv_nth nth_list_update)
    then show ?thesis unfolding s'(2) valid_ids_def by simp
  qed
  moreover have "skel (sy_areas s') = (ca_area_id a, []) # skel (sy_areas s)" using x s'(1) by (simp add: skel_def)
  ultimately show ?thesis using ok fresh x s'(1) unfolding sys_ok_alt by (simp add: skel_ok_def)
qed

lemma sys_ok_no_area:
  assumes "sys_ok s" "i < length (sy_cfg s)" "\<not> ca_valid (sy_cfg s ! i)" "\<not> ca_valid a" "length (ca_network a) = RCP_OSPF_NETWORK_LIMIT"
    and "sy_areas s' = sy_areas s" "sy_cfg s' = (sy_cfg s)[i := a]"
  shows "sys_ok s'"
proof -
  have "area_less ((sy_cfg s)[i := a] ! j) (sy_cfg s ! j)" if "j < length (sy_cfg s)" for j
    using assms(1,2,4,5) that
    by (cases "j = i") (simp_all add: area_less_def sys_ok_def ocfg_ok_def sizes_ok_def list_all_length)
  then have "ocfg_ok ((sy_cfg s)[i := a])"
    using assms(1) ocfg_ok_less [of "sy_cfg s" "(sy_cfg s)[i := a]"] by (simp add: sys_ok_def list_all2_conv_all_nth)
  moreover have "{b \<in> set ((sy_cfg s)[i := a]). ca_valid b} = {b \<in> set (sy_cfg s). ca_valid b}"
    using assms(2,3,4) by (auto simp: in_set_conv_nth nth_list_update split: if_splits)
  ultimately show ?thesis using assms(1,6,7) by (simp add: sys_ok_alt valid_ids_def)
qed

lemma createOspfArea_cases:
  assumes "createOspfArea area_id s = (ok, s')"
  obtains "ok" "\<exists>x. sy_areas s' = x # sy_areas s \<and> oa_area_id x = area_id \<and> oa_network x = []" "sy_cfg s' = sy_cfg s"
  | "\<not> ok" "sy_areas s' = sy_areas s" "sy_cfg s' = sy_cfg s"
  using assms by (auto simp: createOspfArea_def Let_def areaAdd_def need_router_id_def update_abr_def split: if_splits)

lemma new_area_entry_ok:
  assumes ok: "sys_ok s" and a: "ca_valid a" "length (ca_network a) = RCP_OSPF_NETWORK_LIMIT" "list_all (\<lambda>n. \<not> cn_valid n) (ca_network a)"
    and fresh: "get_shm_area (ca_area_id a) (sy_cfg s) = None"
  shows "sys_ok (snd (new_area_entry a s))"
proof (cases "get_shm_area_empty (sy_cfg s)")
  case None
  then show ?thesis using ok by (simp add: new_area_entry_def)
next
  case (Some i)
  then have i: "i < length (sy_cfg s)" "\<not> ca_valid (sy_cfg s ! i)"
    using find_pos_Some by (auto simp: get_shm_area_empty_def)
  let ?s = "s\<lparr>sy_cfg := (sy_cfg s)[i := a]\<rparr>"
  obtain r s' where c: "createOspfArea (ca_area_id a) ?s = (r, s')" by (cases "createOspfArea (ca_area_id a) ?s")
  from c show ?thesis
  proof (cases rule: createOspfArea_cases)
    case 1
    then have "sys_ok s'" using sys_ok_new_area [OF ok i a] fresh by (auto simp: get_shm_area_None)
    then show ?thesis using 1 c Some by (simp add: new_area_entry_def)
  next
    case 2
    then have "sys_ok (s'\<lparr>sy_cfg := (sy_cfg s')[i := a\<lparr>ca_valid := False\<rparr>]\<rparr>)"
      using sys_ok_no_area [OF ok i, of "a\<lparr>ca_valid := False\<rparr>"] a(2) by simp
    then show ?thesis using 2 c Some by (simp add: new_area_entry_def)
  qed
qed

lemma sys_ok_upd_network:
  assumes "sys_ok s" "ocfg_ok (upd_shm_network p n (sy_cfg s))"
  shows "sys_ok (s\<lparr>sy_cfg := upd_shm_network p n (sy_cfg s)\<rparr>)"
  using assms by (simp add: sys_ok_alt valid_ids_nth)

lemma add_network_entry_ok:
  assumes ok: "sys_ok s"
    and new: "get_shm_network area_id ip msk (sy_cfg s) = None \<Longrightarrow> get_shm_any_network ip msk (sy_cfg s) = None"
  shows "sys_ok (snd (add_network_entry area_id ip msk s))"
proof (cases "get_shm_network area_id ip msk (sy_cfg s) = None")
  case True
  show ?thesis
  proof (cases "get_shm_network_empty area_id (sy_cfg s)")
    case None
    then show ?thesis using ok by (simp add: add_network_entry_def)
  next
    case (Some p)
    then obtain i j where p: "p = (i, j)" "get_shm_area area_id (sy_cfg s) = Some i"
      "find_pos (\<lambda>n. \<not> cn_valid n) (ca_network (sy_cfg s ! i)) = Some j"
      by (auto simp: get_shm_network_empty_def split: option.splits)
    note find_pos_Some [OF p(3)] get_shm_area_Some [OF p(2)]
    then have "ocfg_ok (upd_shm_network p \<lparr>cn_valid = True, cn_ip = ip, cn_mask = msk, cn_area_id = area_id\<rparr> (sy_cfg s))"
      using new [OF True] ok p(1) by (intro ocfg_ok_upd) (auto simp: sys_ok_def get_shm_any_network_None)
    from sys_ok_upd_network [OF ok this] show ?thesis using True Some by (simp add: add_network_entry_def)
  qed
qed (simp add: add_network_entry_def ok)

lemma new_area_entry_any:
  assumes "new_area_entry a s = (False, s')" "list_all (\<lambda>n. \<not> cn_valid n) (ca_network a)" "get_shm_any_network ip msk (sy_cfg s) = None"
  shows "get_shm_any_network ip msk (sy_cfg s') = None"
proof -
  obtain i where i: "get_shm_area_empty (sy_cfg s) = Some i" using assms(1) by (auto simp: new_area_entry_def split: option.splits)
  let ?s = "s\<lparr>sy_cfg := (sy_cfg s)[i := a]\<rparr>"
  obtain r t where c: "createOspfArea (ca_area_id a) ?s = (r, t)" by (cases "createOspfArea (ca_area_id a) ?s")
  then have "r" "s' = t" using assms(1) i by (auto simp: new_area_entry_def split: bool.splits)
  then have "sy_cfg s' = (sy_cfg s)[i := a]" using c by (auto elim: createOspfArea_cases)
  moreover have "set ((sy_cfg s)[i := a]) \<subseteq> insert a (set (sy_cfg s))" by (rule set_update_subset_insert)
  ultimately show ?thesis using assms(2,3)
    unfolding get_shm_any_network_def find_shm_network_None by (auto simp: list_all_iff)
qed

lemma cliNetworkCmd_ok:
  assumes ok: "sys_ok s"
  shows "sys_ok (snd (cliNetworkCmd noform arg area_id s))"
proof (cases "atocidr arg")
  case None
  then show ?thesis using ok by (simp add: cliNetworkCmd_def)
next
  case (Some x)
  obtain ip msk where x: "x = (ip, msk)" by (cases x)
  let ?get = "get_shm_network area_id ip msk (sy_cfg s)" and ?any = "get_shm_any_network ip msk (sy_cfg s)"
  have del: "sys_ok (s\<lparr>sy_cfg := upd_shm_network p zero_network (sy_cfg s)\<rparr>)" for p
    using ok by (intro sys_ok_upd_network ocfg_ok_zero) (simp_all add: sys_ok_def)
  have add: "sys_ok (snd (add_network_entry area_id ip msk s))" if "\<not> (?get = None \<and> ?any \<noteq> None)"
    using ok by (rule add_network_entry_ok) (use that in blast)
  have new: "sys_ok (snd (add_network_entry area_id ip msk s'))"
    if "get_shm_area area_id (sy_cfg s) = None" "?any = None" "new_area_entry (new_shm_area area_id) s = (False, s')" for s'
  proof (rule add_network_entry_ok)
    have inv: "list_all (\<lambda>n. \<not> cn_valid n) (ca_network (new_shm_area area_id))"
      by (simp add: new_shm_area_def zero_network_def list_all_iff)
    show "sys_ok s'" using new_area_entry_ok [OF ok, of "new_shm_area area_id"] that(1,3) inv by (simp add: new_shm_area_def)
    show "get_shm_any_network ip msk (sy_cfg s') = None" using new_area_entry_any [OF that(3) inv that(2)] .
  qed
  have fail: "sys_ok s'" if "get_shm_area area_id (sy_cfg s) = None" "new_area_entry (new_shm_area area_id) s = (True, s')" for s'
    using new_area_entry_ok [OF ok, of "new_shm_area area_id"] that
    by (simp add: new_shm_area_def zero_network_def list_all_iff)
  have "?get = None" if "get_shm_area area_id (sy_cfg s) = None" using that by (simp add: get_shm_network_def)
  then show ?thesis using ok del add new fail
    unfolding cliNetworkCmd_def Some x by (cases ?any) (auto split: option.split prod.split bool.split)
qed

section \<open>Removal of networks and areas\<close>

definition sub_areas :: "area_list \<Rightarrow> area_list \<Rightarrow> bool" where
  "sub_areas = list_all2 (\<lambda>a b. oa_area_id a = oa_area_id b \<and> set (oa_network a) \<subseteq> set (oa_network b))"

lemma skel_ok_alt: "skel_ok (skel al) \<longleftrightarrow> distinct (map oa_area_id al) \<and> (\<forall>a \<in> set al. \<forall>n \<in> set (oa_network a). net_area_id n = oa_area_id a)"
  unfolding skel_ok_def ids_skel by (auto simp: skel_def list_all_iff skel_net_def)

lemma sub_areas_ids: "sub_areas al' al \<Longrightarrow> map oa_area_id al' = map oa_area_id al"
  unfolding sub_areas_def by (induction rule: list_all2_induct) simp_all

lemma sub_areas_net:
  assumes "sub_areas al' al" "a \<in> set al'" "n \<in> set (oa_network a)"
  shows "\<exists>b \<in> set al. oa_area_id b = oa_area_id a \<and> n \<in> set (oa_network b)"
  using assms unfolding sub_areas_def by (induction rule: list_all2_induct) auto

lemma sys_ok_sub:
  assumes ok: "sys_ok s" and sub: "sub_areas al (sy_areas s)"
  shows "sys_ok (set_areas al s)"
proof -
  have "\<forall>a \<in> set al. \<forall>n \<in> set (oa_network a). net_inv n \<and> net_area_id n = oa_area_id a"
    using ok sub_areas_net [OF sub] unfolding sys_ok_alt skel_ok_alt by metis
  then show ?thesis using ok sub_areas_ids [OF sub] unfolding sys_ok_alt skel_ok_alt ids_skel by simp
qed

lemma sub_areas_upd:
  "(\<And>x. oa_area_id (f x) = oa_area_id x \<and> set (oa_network (f x)) \<subseteq> set (oa_network x)) \<Longrightarrow> sub_areas (upd_pos i f al) al"
  by (simp add: sub_areas_def list_all2_conv_all_nth nth_upd_pos)

lemma sub_areas_refl [simp]: "sub_areas al al"
  by (simp add: sub_areas_def list_all2_same)

lemma networkRemove_sub: "sub_areas (snd (networkRemove aid p al)) al"
  by (auto simp: networkRemove_def intro!: sub_areas_upd dest: set_drop_at [THEN subsetD] split: option.split)

lemma net_valid_skel: "skel al = skel al' \<Longrightarrow> net_valid p al = net_valid p al'"
proof -
  assume eq: "skel al = skel al'"
  have "map (\<lambda>a. length (oa_network a)) al = map (length \<circ> snd) (skel al)" for al by (simp add: skel_def)
  then have m: "map (\<lambda>a. length (oa_network a)) al = map (\<lambda>a. length (oa_network a)) al'" using eq by metis
  moreover have "net_valid p xs \<longleftrightarrow> fst p < length (map (\<lambda>a. length (oa_network a)) xs) \<and> snd p < map (\<lambda>a. length (oa_network a)) xs ! fst p" for xs
    by (auto simp: net_valid_def)
  ultimately show ?thesis by metis
qed

lemma delete_network_ok:
  assumes "sys_ok s" "net_valid p (sy_areas s)"
  shows "sys_ok (delete_network time db p s)"
proof -
  have "sys_ok (with_adj (netfsmInterfaceDown (sys_env time db s) p) s)"
    using assms by (intro sys_ok_adj) (simp_all add: netfsmInterfaceDown_inv skels sys_ok_def)
  then show ?thesis unfolding delete_network_def Let_def by (simp add: sys_ok_sub networkRemove_sub)
qed

end
