(* ===== verification/Ospf_ConfigSys.thy ===== *)
theory Ospf_ConfigSys
  imports Ospf_ConfigInv
begin

text \<open>
  The invariant of the configuration and the adjacencies over every sequence of packets, timeouts,
  commands and runs of the interface task, and the properties of the configuration.
\<close>

section \<open>The interface task\<close>

lemma skel_valid: "net_valid p al \<Longrightarrow> net_area_id (the_net p al) = snd (snd (snd (skel al ! fst p) ! snd p))"
  by (simp add: skel_def skel_net_def net_valid_def the_net_def)

lemma set_drop_at_distinct:
  assumes "distinct xs" "k < length xs"
  shows "set (drop_at k xs) = set xs - {xs ! k}"
proof -
  define ys zs where "ys = take k xs" and "zs = drop (Suc k) xs"
  have xs: "xs = ys @ xs ! k # zs" unfolding ys_def zs_def using assms(2) by (rule id_take_nth_drop)
  then have "distinct (ys @ xs ! k # zs)" using assms(1) by simp
  then have "set (ys @ zs) = set (ys @ xs ! k # zs) - {xs ! k}" by auto
  then show ?thesis by (simp only: drop_at_def ys_def [symmetric] zs_def [symmetric] xs [symmetric])
qed

lemma sys_ok_remove_area:
  assumes ok: "sys_ok s" and k: "k < length (sy_areas s)" "oa_area_id (sy_areas s ! k) = aid"
    and i: "get_shm_area aid (sy_cfg s) = Some i"
    and s': "sy_areas s' = drop_at k (sy_areas s)" "sy_cfg s' = upd_pos i (\<lambda>a. a\<lparr>ca_valid := False\<rparr>) (sy_cfg s)"
  shows "sys_ok s'"
proof -
  let ?al = "sy_areas s" and ?cfg = "sy_cfg s"
  have d: "distinct (map oa_area_id ?al)" using ok by (simp add: sys_ok_alt skel_ok_alt)
  have ids: "set (map oa_area_id (drop_at k ?al)) = set (map oa_area_id ?al) - {aid}"
    using set_drop_at_distinct [OF d, of k] k by (simp add: map_drop_at)
  have "ocfg_ok (sy_cfg s')" unfolding s'(2) using ok by (intro ocfg_ok_upd_area) (simp_all add: sys_ok_def area_less_def)
  moreover have "valid_ids (sy_cfg s') = valid_ids ?cfg - {aid}"
  proof -
    have "areas_distinct ?cfg" using ok by (simp add: sys_ok_def ocfg_ok_def)
    then have other: "ca_area_id (?cfg ! j) \<noteq> aid" if "j < length ?cfg" "ca_valid (?cfg ! j)" "j \<noteq> i" for j
      using that get_shm_area_Some [OF i] unfolding areas_distinct_def by metis
    have "valid_ids (sy_cfg s') = {ca_area_id (?cfg ! j) |j. j < length ?cfg \<and> ca_valid (?cfg ! j) \<and> j \<noteq> i}"
      unfolding s'(2) valid_ids_nth by (intro Collect_cong iff_exI) (auto simp: nth_upd_pos split: if_splits)
    then show ?thesis unfolding valid_ids_nth [of ?cfg] using get_shm_area_Some [OF i] other by auto
  qed
  ultimately show ?thesis using ok ids d unfolding sys_ok_alt skel_ok_alt ids_skel s'(1)
    using set_drop_at [of k ?al] by (auto simp: map_drop_at distinct_drop_at)
qed

lemma delete_empty_area_ok:
  assumes ok: "sys_ok s"
  shows "sys_ok (delete_empty_area aid s)"
proof (cases "networkCount aid (sy_areas s) = 0")
  case True
  let ?s = "sys_calls [CRemoveArea aid] s"
  show ?thesis
  proof (cases "areaFind aid (sy_areas s)")
    case None
    then have "get_shm_area aid (sy_cfg s) = None" using ok areaFind_None get_shm_area_None by (auto simp: sys_ok_def)
    then show ?thesis using None True ok by (simp add: delete_empty_area_def Let_def)
  next
    case (Some k)
    then have k: "k < length (sy_areas s)" "oa_area_id (sy_areas s ! k) = aid" unfolding areaFind_def using find_pos_Some by blast+
    have "get_shm_area aid (sy_cfg s) \<noteq> None" using ok Some areaFind_None [of aid "sy_areas s"] get_shm_area_None by (auto simp: sys_ok_def)
    then obtain i where i: "get_shm_area aid (sy_cfg s) = Some i" by blast
    have "snd (areaRemove k (sy_areas s)) = drop_at k (sy_areas s)" using k Some by (auto simp: areaRemove_def)
    then show ?thesis using sys_ok_remove_area [OF ok k i] True Some i by (simp add: delete_empty_area_def Let_def)
  qed
qed (simp add: delete_empty_area_def ok)

lemma networkFindAnyIp_valid: "networkFindAnyIp ip al = Some p \<Longrightarrow> net_valid p al"
  by (auto simp: networkFindAnyIp_def areaFindAnyIp_def net_valid_def split: option.splits)

lemma networkFind_valid: "networkFind aid ip msk al = Some p \<Longrightarrow> net_valid p al"
  by (auto simp: networkFind_def areaFind_def net_valid_def split: option.splits)

lemma age_last_network_sel [simp]: "sys_ok (age_last_network aid s) = sys_ok s" "sy_areas (age_last_network aid s) = sy_areas s"
  by (simp_all add: age_last_network_def)

lemma delete_vlan_network_ok: "sys_ok s \<Longrightarrow> sys_ok (delete_vlan_network time db ip s)"
  by (auto simp: delete_vlan_network_def Let_def intro!: delete_empty_area_ok delete_network_ok networkFindAnyIp_valid split: option.split)

lemma update_started_ok:
  assumes ok: "sys_ok s"
  shows "sys_ok (update_started time db i s)"
proof -
  have any: "sys_ok (delete_network time db p s)" "sys_ok (delete_network time db p (age_last_network aid s))"
    if "networkFindAnyIp ip (sy_areas s) = Some p" for ip p aid
    using networkFindAnyIp_valid [OF that] ok by (simp_all add: delete_network_ok)
  have find: "sys_ok (delete_network time db p s)" if "networkFind aid ip msk (sy_areas s) = Some p" for ip p aid msk
    using networkFind_valid [OF that] ok by (simp add: delete_network_ok)
  show ?thesis unfolding update_started_def Let_def
    by (simp add: ok any find delete_empty_area_ok split: option.split prod.split)
qed

lemma start_network_ok:
  assumes ok: "sys_ok s"
  shows "sys_ok (start_network i aid s)"
proof (cases "networkAdd aid (new_network (sy_intf s ! i) aid (sy_router_id s)) (sy_areas s)")
  case (Pair failed al)
  let ?net = "new_network (sy_intf s ! i) aid (sy_router_id s)"
  show ?thesis
  proof (cases failed)
    case False
    then obtain k where k: "areaFind aid (sy_areas s) = Some k" "al = upd_pos k (\<lambda>a. a\<lparr>oa_network := ?net # oa_network a\<rparr>) (sy_areas s)"
      using Pair by (auto simp: networkAdd_def split: option.splits if_splits)
    then have aid: "k < length (sy_areas s)" "oa_area_id (sy_areas s ! k) = aid" unfolding areaFind_def using find_pos_Some by blast+
    have new: "net_inv ?net" "net_area_id ?net = aid"
      by (simp_all add: net_inv_def new_network_def adj_ok_def role_ok_def)
    have "sys_ok (set_areas al s)" unfolding sys_ok_alt skel_ok_alt ids_skel
    proof (intro conjI ballI)
      fix a n
      assume "a \<in> set (sy_areas (set_areas al s))" "n \<in> set (oa_network a)"
      then have "(\<exists>b \<in> set (sy_areas s). oa_area_id b = oa_area_id a \<and> n \<in> set (oa_network b)) \<or> n = ?net \<and> oa_area_id a = aid"
        using set_upd_pos [of a k _ "sy_areas s"] aid k(2) by fastforce
      then show "net_inv n" "net_area_id n = oa_area_id a" using ok new unfolding sys_ok_alt skel_ok_alt by metis+
    qed (use ok k(2) in \<open>simp_all add: sys_ok_alt skel_ok_alt ids_skel map_upd_pos_id\<close>)
    then have "sys_ok (with_adj (netfsmInterfaceUp p) (set_areas al s))" for p
      by (rule sys_ok_adj) (use \<open>sys_ok (set_areas al s)\<close> in \<open>simp_all add: netfsmInterfaceUp_inv skels sys_ok_def\<close>)
    then show ?thesis using Pair False by (simp add: start_network_def Let_def)
  qed (use Pair ok in \<open>simp add: start_network_def Let_def\<close>)
qed

lemma update_intf_ok: "sys_ok s \<Longrightarrow> sys_ok (update_intf time db i s)"
  by (auto simp: update_intf_def Let_def start_network_ok update_started_ok split: option.split)

lemma fold_ok: "(\<And>x s. sys_ok s \<Longrightarrow> sys_ok (f x s)) \<Longrightarrow> sys_ok s \<Longrightarrow> sys_ok (fold f xs s)"
  by (induction xs arbitrary: s) simp_all

lemma ospf_update_interfaces_ok: "sys_ok s \<Longrightarrow> sys_ok (ospf_update_interfaces time db s)"
  unfolding ospf_update_interfaces_def by (rule fold_ok) (simp_all add: update_intf_ok)

section \<open>Clearing\<close>

definition lens :: "area_list \<Rightarrow> nat list" where
  "lens = map (\<lambda>a. length (oa_network a))"

lemma lens_skel: "skel al = skel al' \<Longrightarrow> lens al = lens al'"
proof -
  have "lens al = map (length \<circ> snd) (skel al)" for al by (simp add: skel_def lens_def)
  then show "skel al = skel al' \<Longrightarrow> lens al = lens al'" by metis
qed

lemma lens_nth: "a < length al \<Longrightarrow> length (oa_network (al ! a)) = lens al ! a"
  by (simp add: lens_def)

lemma length_lens [simp]: "length (lens al) = length al"
  by (simp add: lens_def)

lemma net_valid_lens: "net_valid p al \<longleftrightarrow> fst p < length al \<and> snd p < lens al ! fst p"
  by (auto simp: net_valid_def lens_def)

lemma lens_networkRemove:
  "lens (snd (networkRemove aid (a, k) al)) = lens al \<or> lens (snd (networkRemove aid (a, k) al)) = (lens al)[a := lens al ! a - 1]"
proof -
  have "lens (upd_pos a (\<lambda>x. x\<lparr>oa_network := drop_at k (oa_network x)\<rparr>) al) = (lens al)[a := lens al ! a - 1]" if "k < length (oa_network (al ! a))" "a < length al"
    by (rule nth_equalityI) (use that in \<open>auto simp: lens_def nth_upd_pos nth_list_update drop_at_def\<close>)
  moreover have "a < length al" if "areaFind aid al = Some a" using find_pos_lengthD [of _ al a] that by (simp add: areaFind_def)
  ultimately show ?thesis by (auto simp: networkRemove_def split: option.split)
qed

lemma sys_ok_down:
  assumes "sys_ok s" "net_valid p (sy_areas s)"
  shows "sys_ok (with_adj (netfsmInterfaceDown env p) s)"
  using assms by (intro sys_ok_adj) (simp_all add: netfsmInterfaceDown_inv skels sys_ok_def)

lemma clear_networks_ok:
  assumes "sys_ok s" "a < length (sy_areas s)" "n = lens (sy_areas s) ! a - k"
  shows "sys_ok (clear_networks n time db a k s) \<and> length (sy_areas (clear_networks n time db a k s)) = length (sy_areas s) \<and>
    (\<forall>j. j \<noteq> a \<longrightarrow> lens (sy_areas (clear_networks n time db a k s)) ! j = lens (sy_areas s) ! j)"
  using assms
proof (induction n arbitrary: k s)
  case (Suc n)
  define s1 where "s1 = with_adj (netfsmInterfaceDown (sys_env time db s) (a, k)) s"
  let ?net = "the_net (a, k) (sy_areas s1)"
  define s2 where "s2 = sys_calls [CMultiDrop (net_ip ?net)] s1"
  define s3 where "s3 = (case find_intf (net_ip ?net) s2 of None \<Rightarrow> s2 | Some i \<Rightarrow> clear_multicast i s2)"
  define s4 where "s4 = set_areas (snd (networkRemove (net_area_id ?net) (a, k) (sy_areas s3))) s3"
  have valid: "net_valid (a, k) (sy_areas s)" using Suc.prems by (simp add: net_valid_lens)
  have areas: "sy_areas s3 = sy_areas s1" by (simp add: s3_def s2_def clear_multicast_def upd_oif_def split: option.split)
  have ok: "sys_ok s1" "sys_ok s3"
    using sys_ok_down [OF Suc.prems(1) valid] by (simp_all add: s1_def s2_def s3_def split: option.split)
  have "skel (sy_areas s1) = skel (sy_areas s)" by (simp add: s1_def skels)
  note l1 = lens_skel [OF this]
  have ok4: "sys_ok s4" unfolding s4_def using ok(2) by (intro sys_ok_sub networkRemove_sub)
  have l4: "lens (sy_areas s4) = lens (sy_areas s) \<or> lens (sy_areas s4) = (lens (sy_areas s))[a := lens (sy_areas s) ! a - 1]"
    using lens_networkRemove [of "net_area_id ?net" a k "sy_areas s1"] l1 by (simp add: s4_def areas)
  then have len: "length (sy_areas s4) = length (sy_areas s)" by (metis length_lens length_list_update)
  define k' where "k' = (if length (oa_network (sy_areas s4 ! a)) < length (oa_network (sy_areas s3 ! a)) then k else k + 1)"
  have "length (oa_network (sy_areas s3 ! a)) = lens (sy_areas s) ! a" "length (oa_network (sy_areas s4 ! a)) = lens (sy_areas s4) ! a"
    using Suc.prems(2) len l1 length_lens [of "sy_areas s1"] length_lens [of "sy_areas s"] by (simp_all add: lens_nth areas)
  then have n: "n = lens (sy_areas s4) ! a - k'" using l4 Suc.prems unfolding k'_def by auto
  have "clear_networks (Suc n) time db a k s = clear_networks n time db a k' s4"
    unfolding clear_networks.simps Let_def s1_def [symmetric] s2_def [symmetric] s3_def [symmetric] s4_def [symmetric] k'_def ..
  moreover have "lens (sy_areas s4) ! j = lens (sy_areas s) ! j" if "j \<noteq> a" for j using l4 that by auto
  ultimately show ?case using Suc.IH [OF ok4 _ n] Suc.prems(2) len by simp
qed simp

lemma clear_area_ok:
  assumes ok: "sys_ok s" and a: "a < length (sy_areas s)"
  shows "sys_ok (clear_area time db a s) \<and> length (sy_areas (clear_area time db a s)) = length (sy_areas s) \<and>
    lens (sy_areas (clear_area time db a s)) ! a = 0 \<and>
    (\<forall>j. j \<noteq> a \<longrightarrow> lens (sy_areas (clear_area time db a s)) ! j = lens (sy_areas s) ! j)"
proof -
  define s1 where "s1 = clear_networks (lens (sy_areas s) ! a) time db a 0 (sys_calls [CAgeArea (oa_area_id (sy_areas s ! a))] s)"
  have s1: "sys_ok s1" "length (sy_areas s1) = length (sy_areas s)" "\<forall>j. j \<noteq> a \<longrightarrow> lens (sy_areas s1) ! j = lens (sy_areas s) ! j"
    using clear_networks_ok [of "sys_calls [CAgeArea (oa_area_id (sy_areas s ! a))] s" a "lens (sy_areas s) ! a" 0 time db] ok a
    by (simp_all add: s1_def)
  let ?f = "\<lambda>x. x\<lparr>oa_network := [], oa_mylsa := None, oa_router_id := sy_router_id s1\<rparr>"
  have res: "sy_areas (clear_area time db a s) = upd_pos a ?f (sy_areas s1)" "sy_cfg (clear_area time db a s) = sy_cfg s1"
    using a by (simp_all add: clear_area_def Let_def lens_nth s1_def)
  have "sys_ok (set_areas (upd_pos a ?f (sy_areas s1)) s1)" by (rule sys_ok_sub [OF s1(1) sub_areas_upd]) simp
  then have "sys_ok (clear_area time db a s)" using sys_ok_cong [of "clear_area time db a s" "set_areas (upd_pos a ?f (sy_areas s1)) s1"] res by simp
  moreover have "lens (upd_pos a ?f (sy_areas s1)) = (lens (sy_areas s1))[a := 0]"
    by (rule nth_equalityI) (auto simp: lens_def nth_upd_pos nth_list_update)
  ultimately show ?thesis using s1 a by (simp add: res(1))
qed

lemma clear_areas_ok:
  assumes "sys_ok s"
  shows "sys_ok (clear_areas time db s) \<and> (\<forall>a \<in> set (sy_areas (clear_areas time db s)). oa_network a = [])"
proof -
  let ?s = "\<lambda>n. fold (clear_area time db) [0..<n] s"
  have "n \<le> length (sy_areas s) \<Longrightarrow> sys_ok (?s n) \<and> length (sy_areas (?s n)) = length (sy_areas s) \<and> (\<forall>j < n. lens (sy_areas (?s n)) ! j = 0)" for n
  proof (induction n)
    case (Suc n)
    then have IH: "sys_ok (?s n)" "length (sy_areas (?s n)) = length (sy_areas s)" "\<forall>j < n. lens (sy_areas (?s n)) ! j = 0" by simp_all
    have "?s (Suc n) = clear_area time db n (?s n)" by simp
    then show ?case using clear_area_ok [OF IH(1), of n time db] IH Suc.prems by (auto simp: less_Suc_eq)
  qed (use assms in simp)
  from this [of "length (sy_areas s)"] show ?thesis
    unfolding clear_areas_def by (auto simp: in_set_conv_nth lens_def)
qed

lemma cliClearIpOspfCmd_ok: "sys_ok s \<Longrightarrow> sys_ok (snd (cliClearIpOspfCmd time db s))"
  using clear_areas_ok by (simp add: cliClearIpOspfCmd_def)

lemma remove_areas_none: "sy_areas (remove_areas s) = []"
proof -
  have "snd (areaRemove 0 al) = drop 1 al" for al
    by (cases al) (simp_all add: areaRemove_def areaFind_def drop_at_def)
  then have "((\<lambda>al. snd (areaRemove 0 al)) ^^ n) al = drop n al" for n and al :: area_list
    by (induction n) (simp_all add: drop_drop)
  then show ?thesis by (simp add: remove_areas_def)
qed

lemma clear_networks_cfg [simp]: "sy_cfg (clear_networks n time db a k s) = sy_cfg s"
  by (induction n arbitrary: k s) (simp_all add: Let_def clear_multicast_def upd_oif_def split: option.split)

lemma clear_areas_cfg [simp]: "sy_cfg (clear_areas time db s) = sy_cfg s"
proof -
  have "sy_cfg (clear_area time db a s) = sy_cfg s" for a s by (simp add: clear_area_def Let_def)
  then have "sy_cfg (fold (clear_area time db) as s) = sy_cfg s" for as s by (induction as arbitrary: s) simp_all
  then show ?thesis by (simp add: clear_areas_def)
qed

lemma cliNoRouterOspfCmd_ok: "sys_ok s \<Longrightarrow> sys_ok (snd (cliNoRouterOspfCmd time db s))"
proof -
  let ?f = "\<lambda>a. \<lparr>ca_valid = False, ca_stub = False, ca_no_summary = False, ca_area_id = 0, ca_default_cost = 0,
    ca_network = replicate RCP_OSPF_NETWORK_LIMIT zero_network\<rparr>"
  assume "sys_ok s"
  then have "ocfg_ok (map ?f (sy_cfg s))"
    by (intro ocfg_ok_map) (simp_all add: sys_ok_def area_less_def)
  moreover have "valid_ids (map ?f (sy_cfg s)) = {}" by (auto simp: valid_ids_def)
  ultimately show ?thesis
    by (simp add: cliNoRouterOspfCmd_def Let_def sys_ok_alt remove_areas_none skel_def skel_ok_def)
       (simp add: remove_areas_def)
qed

section \<open>Commands\<close>

lemma sys_ok_upd_cfg:
  assumes "sys_ok s" "\<And>a. ca_valid (f a) = ca_valid a \<and> ca_area_id (f a) = ca_area_id a \<and> ca_network (f a) = ca_network a"
  shows "sys_ok (s\<lparr>sy_cfg := upd_pos i f (sy_cfg s)\<rparr>)"
proof -
  have "ocfg_ok (upd_pos i f (sy_cfg s))" using assms by (intro ocfg_ok_upd_area) (simp_all add: sys_ok_def area_less_def)
  moreover have "valid_ids (upd_pos i f (sy_cfg s)) = valid_ids (sy_cfg s)"
    unfolding valid_ids_nth by (intro Collect_cong iff_exI) (auto simp: nth_upd_pos assms(2) split: if_splits)
  ultimately show ?thesis using assms(1) by (simp add: sys_ok_alt)
qed

lemma set_stub_ok: "sys_ok s \<Longrightarrow> sys_ok (set_stub stub nosum aid s)"
  unfolding set_stub_def upd_area_def by (auto intro!: sys_ok_sub sub_areas_upd split: option.split)

lemma stub_finish_ok: "sys_ok s \<Longrightarrow> sys_ok (stub_finish time db db' noform changed i s)"
  using cliClearIpOspfCmd_ok by (simp add: stub_finish_def Let_def)

lemma cliAreaStub_ok:
  assumes ok: "sys_ok s"
  shows "sys_ok (snd (cliAreaStub time db db' noform aid nosum s))"
proof -
  let ?a = "(new_shm_area aid)\<lparr>ca_stub := True, ca_no_summary := nosum\<rparr>"
  have "sys_ok (snd (new_area_entry ?a s))" if "get_shm_area aid (sy_cfg s) = None"
    using ok that by (intro new_area_entry_ok) (simp_all add: new_shm_area_def zero_network_def list_all_iff)
  then show ?thesis using ok
    by (auto simp: cliAreaStub_def Let_def stub_finish_ok set_stub_ok sys_ok_upd_cfg split: option.split prod.split bool.split)
qed

lemma cliAreaDefaultCost_ok: "sys_ok s \<Longrightarrow> sys_ok (snd (cliAreaDefaultCost noform aid val s))"
  by (simp add: cliAreaDefaultCost_def Let_def sys_ok_upd_cfg split: option.split)

lemma cliNoNetworkAllCmd_ok:
  assumes ok: "sys_ok s"
  shows "sys_ok (snd (cliNoNetworkAllCmd s))"
proof -
  let ?f = "\<lambda>a. if ca_valid a then a\<lparr>ca_network := map (\<lambda>n. n\<lparr>cn_valid := False\<rparr>) (ca_network a)\<rparr> else a"
  have "ocfg_ok (map ?f (sy_cfg s))" using ok by (intro ocfg_ok_map) (simp_all add: sys_ok_def area_less_def)
  moreover have "valid_ids (map ?f (sy_cfg s)) = valid_ids (sy_cfg s)"
    unfolding valid_ids_nth by (intro Collect_cong iff_exI) (auto split: if_splits)
  ultimately show ?thesis using ok by (simp add: cliNoNetworkAllCmd_def sys_ok_alt)
qed

lemma intf_cmd_ok:
  assumes ok: "sys_ok s" and g: "\<And>i n. net_inv n \<Longrightarrow> net_inv (g i n)" "\<And>i n. skel_net (g i n) = skel_net n"
  shows "sys_ok (snd (intf_cmd nm f g cs s))"
proof -
  have "sys_ok (set_areas (upd_net p (g i) (sy_areas s')) s')" if "sys_ok s'" for p i s'
  proof -
    have "nets (\<lambda>_. net_inv) (upd_net p (g i) (sy_areas s'))"
      using that by (intro nets_upd [where P = "\<lambda>_. net_inv"]) (simp_all add: sys_ok_def sys_inv_def g(1))
    then show ?thesis using that by (simp add: sys_ok_def sys_inv_def skel_upd g(2))
  qed
  then show ?thesis using ok by (simp add: intf_cmd_def Let_def split: option.split)
qed

lemma net_inv_cfg_fields [simp]:
  "net_inv (n\<lparr>net_cost := c\<rparr>) = net_inv n" "net_inv (n\<lparr>net_router_priority := p\<rparr>) = net_inv n"
  "net_inv (n\<lparr>net_rxtm_interval := r\<rparr>) = net_inv n" "net_inv (n\<lparr>ospf_passwd := pw\<rparr>) = net_inv n"
  "net_inv (n\<lparr>ospf_md5_passwd := pw, ospf_md5_key := k\<rparr>) = net_inv n" "net_inv (n\<lparr>net_auth_type := t\<rparr>) = net_inv n"
  "net_inv (set_hello h n) = net_inv n" "net_inv (set_dead d n) = net_inv n"
  by (simp_all add: net_inv_def adj_ok_def role_ok_def nb_good_def become_adjacent_def list_all_iff set_hello_def set_dead_def)

lemma skel_net_cfg_fields [simp]:
  "skel_net (n\<lparr>net_cost := c\<rparr>) = skel_net n" "skel_net (n\<lparr>net_router_priority := p\<rparr>) = skel_net n"
  "skel_net (n\<lparr>net_rxtm_interval := r\<rparr>) = skel_net n" "skel_net (n\<lparr>ospf_passwd := pw\<rparr>) = skel_net n"
  "skel_net (n\<lparr>ospf_md5_passwd := pw, ospf_md5_key := k\<rparr>) = skel_net n" "skel_net (n\<lparr>net_auth_type := t\<rparr>) = skel_net n"
  "skel_net (set_hello h n) = skel_net n" "skel_net (set_dead d n) = skel_net n"
  by (simp_all add: skel_net_def set_hello_def set_dead_def)

lemma intf_cmds_ok:
  assumes "sys_ok s"
  shows "sys_ok (snd (cliIpOspfCost nm val s))" "sys_ok (snd (cliIpOspfPriority nm val s))" "sys_ok (snd (cliIpOspfHello nm val s))"
    "sys_ok (snd (cliIpOspfDead nm val s))" "sys_ok (snd (cliIpOspfRetransmit nm val s))"
    "sys_ok (snd (cliIpOsfpAuthenticationKey nm pw s))" "sys_ok (snd (cliIpOsfpMd5AuthenticationKey nm kpw s))"
    "sys_ok (snd (cliIpOspfAuthentication nm noform argc s))"
  unfolding cliIpOspfCost_def cliIpOspfPriority_def cliIpOspfHello_def cliIpOspfDead_def cliIpOspfRetransmit_def
    cliIpOsfpAuthenticationKey_def cliIpOsfpMd5AuthenticationKey_def cliIpOspfAuthentication_def
  by (rule intf_cmd_ok [OF assms]; simp)+

lemma flag_cmds_ok:
  assumes "sys_ok s"
  shows "sys_ok (snd (cliIpOsfpMtuIgnore nm noform s))" "sys_ok (snd (cliOspfPassiveInterfaceCmd nm noform s))"
  using assms by (simp_all add: cliIpOsfpMtuIgnore_def cliOspfPassiveInterfaceCmd_def Let_def split: option.split)

section \<open>All events\<close>

text \<open>What happens to the process: packets, the tick of every second, the end of a request of link
  state advertisements, commands and the interface task. The time and the link state database at
  that moment are arguments.\<close>

datatype sys_event =
    EvHello u32 lsdb OspfPacketDesc OspfHello "u32 list"
  | EvDbdesc u32 lsdb OspfPacketDesc OspfDbd "OspfLsaHeader list"
  | EvTimeout u32 lsdb bool
  | EvLoadingDone net_ptr nat
  | EvBadLSReq u32 lsdb net_ptr nat
  | EvInterfaces u32 lsdb
  | EvDeleteVlan u32 lsdb u32
  | EvNetwork bool string u32
  | EvNoNetworkAll
  | EvStub u32 lsdb lsdb bool u32 bool
  | EvDefaultCost bool u32 u32
  | EvCost string "u32 option"
  | EvPriority string "u32 option"
  | EvHelloInterval string "u32 option"
  | EvDeadInterval string "u32 option"
  | EvRetransmit string "u32 option"
  | EvPassive string bool
  | EvClear u32 lsdb
  | EvNoRouter u32 lsdb
  | EvLinks "OspfInterface list"

fun sys_step :: "sys_event \<Rightarrow> ospf_sys \<Rightarrow> ospf_sys" where
  "sys_step (EvHello t db desc h ids) s = with_adj (\<lambda>st. snd (helloRx (sys_env t db s) desc h ids st)) s"
| "sys_step (EvDbdesc t db desc dbd hs) s = with_adj (\<lambda>st. snd (dbdescRx (sys_env t db s) desc dbd hs st)) s"
| "sys_step (EvTimeout t db no_inactivity) s = with_adj (networkTimeout (sys_env t db s) no_inactivity) s"
| "sys_step (EvLoadingDone p k) s = with_adj (at_net p (nfsmLoadingDone k)) s"
| "sys_step (EvBadLSReq t db p k) s = with_adj (at_net p (nfsmBadLSReq (nb_env_of (sys_env t db s) p (sy_areas s)) k)) s"
| "sys_step (EvInterfaces t db) s = ospf_update_interfaces t db s"
| "sys_step (EvDeleteVlan t db ip) s = delete_vlan_network t db ip s"
| "sys_step (EvNetwork noform arg aid) s = snd (cliNetworkCmd noform arg aid s)"
| "sys_step EvNoNetworkAll s = snd (cliNoNetworkAllCmd s)"
| "sys_step (EvStub t db db' noform aid nosum) s = snd (cliAreaStub t db db' noform aid nosum s)"
| "sys_step (EvDefaultCost noform aid val) s = snd (cliAreaDefaultCost noform aid val s)"
| "sys_step (EvCost nm val) s = snd (cliIpOspfCost nm val s)"
| "sys_step (EvPriority nm val) s = snd (cliIpOspfPriority nm val s)"
| "sys_step (EvHelloInterval nm val) s = snd (cliIpOspfHello nm val s)"
| "sys_step (EvDeadInterval nm val) s = snd (cliIpOspfDead nm val s)"
| "sys_step (EvRetransmit nm val) s = snd (cliIpOspfRetransmit nm val s)"
| "sys_step (EvPassive nm noform) s = snd (cliOspfPassiveInterfaceCmd nm noform s)"
| "sys_step (EvClear t db) s = snd (cliClearIpOspfCmd t db s)"
| "sys_step (EvNoRouter t db) s = snd (cliNoRouterOspfCmd t db s)"
| "sys_step (EvLinks intfs) s = s\<lparr>sy_intf := intfs\<rparr>"

lemma sys_adj_ok:
  assumes "sys_ok s" "sys_inv (sy_adj s) \<Longrightarrow> sys_inv (f (sy_adj s))" "skel (adj_areas (f (sy_adj s))) = skel (sy_areas s)"
  shows "sys_ok (with_adj f s)"
  using assms by (simp add: sys_ok_adj sys_ok_def)

lemma sys_step_ok: "sys_ok s \<Longrightarrow> sys_ok (sys_step e s)"
proof (cases e)
  case (EvLoadingDone p k)
  then show "sys_ok s \<Longrightarrow> ?thesis"
    by (simp add: sys_adj_ok at_net_inv [OF nfsmLoadingDone_step] at_net_skel [OF nfsmLoadingDone_step])
next
  case (EvBadLSReq t db p k)
  then show "sys_ok s \<Longrightarrow> ?thesis"
    by (simp add: nfsmBadLSReq_def sys_adj_ok at_net_inv [OF nfsmSeqNumberMismatch_step] at_net_skel [OF nfsmSeqNumberMismatch_step])
next
  case (EvLinks intfs)
  then show "sys_ok s \<Longrightarrow> ?thesis" by (simp add: sys_ok_alt)
qed (simp_all add: sys_adj_ok helloRx_inv dbdescRx_inv networkTimeout_inv skels ospf_update_interfaces_ok delete_vlan_network_ok
  cliNetworkCmd_ok cliNoNetworkAllCmd_ok cliAreaStub_ok cliAreaDefaultCost_ok intf_cmds_ok flag_cmds_ok
  cliClearIpOspfCmd_ok cliNoRouterOspfCmd_ok)

interpretation ospfsys: step_system sys_step sys_ok "\<lambda>_. True"
  by unfold_locales (rule sys_step_ok)

text \<open>The process after it was started with an empty configuration.\<close>

definition cold_start :: "OspfInterface list \<Rightarrow> ospf_sys" where
  "cold_start intfs =
     \<lparr>sy_adj = \<lparr>adj_areas = [], adj_out = [], adj_last = 0, network_lsa_update = False\<rparr>,
      sy_cfg = replicate RCP_OSPF_AREA_LIMIT ((new_shm_area 0)\<lparr>ca_valid := False\<rparr>),
      sy_router_id = 0, sy_intf = intfs, is_abr = False\<rparr>"

lemma cold_start_ok: "sys_ok (cold_start intfs)"
proof -
  let ?cfg = "sy_cfg (cold_start intfs)"
  have "\<not> ca_valid (?cfg ! i)" if "i < length ?cfg" for i using that by (simp add: cold_start_def)
  then have "\<not> shm_net ?cfg p" for p by (auto simp: shm_net_def)
  then have "ocfg_ok ?cfg"
    by (simp add: ocfg_ok_def nets_distinct_def nets_in_area_def)
       (simp add: cold_start_def sizes_ok_def areas_distinct_def new_shm_area_def list_all_iff)
  moreover have "valid_ids ?cfg = {}" by (auto simp: valid_ids_def cold_start_def)
  ultimately show ?thesis by (simp add: sys_ok_alt skel_def skel_ok_def) (simp add: cold_start_def)
qed

lemma reach_ok: "sys_ok (fold sys_step es (cold_start intfs))"
  by (rule ospfsys.run_inv) (simp_all add: cold_start_ok list_all_iff)

end
