(* ===== verification/Ospf_ConfigProps.thy ===== *)
theory Ospf_ConfigProps
  imports Ospf_ConfigSys
begin

text \<open>
  Properties of the adjacencies and of the configuration in every state that the process can reach
  from an empty configuration, and of the commands.
\<close>

section \<open>Reachable states\<close>

lemma nb_good_adjacent: "nb_good n nb \<Longrightarrow> on_state nb < NSTATE_EXSTART \<or> become_adjacent n nb"
  by (cases "on_state nb < NSTATE_EXSTART") (simp_all add: nb_good_def)

text \<open>C3: In every state that a sequence of packets, timeouts, commands and interface changes leads to, a
  neighbour in state ExStart or higher is one the router has to be adjacent with (one of the two is
  designated or backup router), and the state of a network is the role that the elected addresses
  give it: a network is in state DR only if its address is the designated one, in state Backup only
  if it is the backup and not the designated one, in state DROther only if it is neither.
\<close>

theorem adjacency_invariant:
  "nets (\<lambda>_ n. list_all (\<lambda>nb. on_state nb < NSTATE_EXSTART \<or> become_adjacent n nb) (net_neighbor n) \<and> role_ok n)
     (sy_areas (fold sys_step es (cold_start intfs)))"
proof -
  have "sys_inv (sy_adj (fold sys_step es (cold_start intfs)))" using reach_ok by (simp add: sys_ok_def)
  then show ?thesis
    unfolding sys_inv_def nets_set net_inv_def adj_ok_def list_all_iff using nb_good_adjacent by blast
qed


text \<open>C6: In every reachable state the tables of the configuration have their fixed sizes, no area id has
  two valid entries, no network is configured twice, in one area or in two, every network entry
  names the area it stands in, and the areas the process runs are exactly the configured ones, each
  once, with only networks of that area in them.
\<close>

theorem config_invariant:
  "let s = fold sys_step es (cold_start intfs)
   in ocfg_ok (sy_cfg s) \<and> distinct (map oa_area_id (sy_areas s)) \<and> set (map oa_area_id (sy_areas s)) = valid_ids (sy_cfg s) \<and>
      nets (\<lambda>p n. net_area_id n = oa_area_id (sy_areas s ! fst p)) (sy_areas s)"
proof -
  define s where "s = fold sys_step es (cold_start intfs)"
  have ok: "sys_ok s" unfolding s_def by (rule reach_ok)
  then have "nets (\<lambda>p n. net_area_id n = oa_area_id (sy_areas s ! fst p)) (sy_areas s)"
    by (auto simp: sys_ok_alt skel_ok_alt nets_def net_valid_def the_net_def)
  with ok show ?thesis unfolding s_def [symmetric] Let_def sys_ok_alt skel_ok_alt ids_skel by simp
qed

section \<open>Commands\<close>

text \<open>After \<open>clear ip ospf\<close> has gone through the areas no area has a network, in every reachable state; the
  interface task then starts them again.
\<close>

theorem clear_leaves_no_networks:
  "list_all (\<lambda>a. oa_network a = []) (sy_areas (snd (cliClearIpOspfCmd time db (fold sys_step es (cold_start intfs)))))"
  using clear_areas_ok [OF reach_ok] by (simp add: cliClearIpOspfCmd_def list_all_iff)

lemma cliNetworkCmd_success:
  assumes "cliNetworkCmd False arg aid s = (False, s')" "atocidr arg = Some (ip, msk)"
  shows "\<exists>s1. add_network_entry aid ip msk s1 = (False, s')"
  using assms by (auto simp: cliNetworkCmd_def split: if_splits prod.splits bool.splits)

lemma find_pos_upd_pos: "(\<And>x. P (f x) = P x) \<Longrightarrow> find_pos P (upd_pos i f xs) = find_pos P xs"
proof (induction xs arbitrary: i)
  case (Cons x xs)
  then show ?case by (cases i) simp_all
qed simp

lemma add_network_entry_find:
  assumes "add_network_entry aid ip msk s = (False, s')"
  shows "get_shm_network aid ip msk (sy_cfg s') \<noteq> None"
proof (cases "get_shm_network aid ip msk (sy_cfg s) = None")
  case True
  then obtain i j where p: "get_shm_area aid (sy_cfg s) = Some i"
      "find_pos (\<lambda>n. \<not> cn_valid n) (ca_network (sy_cfg s ! i)) = Some j"
      "sy_cfg s' = upd_shm_network (i, j) \<lparr>cn_valid = True, cn_ip = ip, cn_mask = msk, cn_area_id = aid\<rparr> (sy_cfg s)"
    using assms by (auto simp: add_network_entry_def get_shm_network_empty_def split: option.splits)
  let ?n = "\<lparr>cn_valid = True, cn_ip = ip, cn_mask = msk, cn_area_id = aid\<rparr>"
  note ij = get_shm_area_Some [OF p(1)] find_pos_lengthD [OF p(2)]
  have "get_shm_area aid (sy_cfg s') = Some i"
    using p(1) unfolding p(3) get_shm_area_def upd_shm_network_def by (simp add: find_pos_upd_pos)
  moreover have "ca_network (sy_cfg s' ! i) = upd_pos j (\<lambda>_. ?n) (ca_network (sy_cfg s ! i))"
    using ij by (simp add: p(3) upd_shm_nth)
  moreover have "?n \<in> set (upd_pos j (\<lambda>_. ?n) (ca_network (sy_cfg s ! i)))"
    using ij nth_mem [of j "upd_pos j (\<lambda>_. ?n) (ca_network (sy_cfg s ! i))"] by (simp add: nth_upd_pos)
  ultimately show ?thesis by (simp add: get_shm_network_def find_pos_None) (metis RcpOspfNetwork.select_convs(1-3))
qed (use assms in \<open>auto simp: add_network_entry_def split: option.splits\<close>)

lemma cliNetworkCmd_removed:
  assumes ok: "sys_ok s" and p: "get_shm_network aid ip msk (sy_cfg s) = Some p" and arg: "atocidr arg = Some (ip, msk)" "ip AND NOT msk = 0"
  shows "get_shm_any_network ip msk (sy_cfg (snd (cliNetworkCmd True arg aid s))) = None"
proof -
  note g = get_shm_network_Some [OF p]
  have r: "fst p < length (sy_cfg s)" "snd p < length (ca_network (sy_cfg s ! fst p))" using g by (simp_all add: shm_net_def)
  have d: "nets_distinct (sy_cfg s)" using ok by (simp add: sys_ok_def ocfg_ok_def)
  have "sy_cfg (snd (cliNetworkCmd True arg aid s)) = upd_shm_network p zero_network (sy_cfg s)"
    using arg p by (simp add: cliNetworkCmd_def)
  moreover have "q = p" if "shm_net (sy_cfg s) q" "cn_ip (the_shm_net (sy_cfg s) q) = ip" "cn_mask (the_shm_net (sy_cfg s) q) = msk" for q
    by (rule nets_distinctD [OF d that(1)]) (simp_all only: g that)
  moreover have "shm_net (upd_shm_network p zero_network (sy_cfg s)) q \<Longrightarrow> shm_net (sy_cfg s) q \<and> q \<noteq> p \<and>
      the_shm_net (upd_shm_network p zero_network (sy_cfg s)) q = the_shm_net (sy_cfg s) q" for q
    unfolding shm_net_upd [OF r] the_shm_net_upd [OF r] by (simp add: zero_network_def split: if_splits)
  ultimately show ?thesis unfolding get_shm_any_network_None by metis
qed

text \<open>A \<open>network\<close> command that succeeds in a reachable state leaves exactly one entry for the network in
  the configuration, in the area of the command, whether or not it was there before; the \<open>no network\<close>
  command then leaves none, in any area.
\<close>

theorem network_cmd_roundtrip:
  assumes "atocidr arg = Some (ip, msk)" "cliNetworkCmd False arg aid (fold sys_step es (cold_start intfs)) = (False, s')"
  shows "(\<exists>p. get_shm_network aid ip msk (sy_cfg s') = Some p \<and> get_shm_any_network ip msk (sy_cfg s') = Some p) \<and>
    get_shm_any_network ip msk (sy_cfg (snd (cliNetworkCmd True arg aid s'))) = None"
proof -
  have ok: "sys_ok s'" using cliNetworkCmd_ok [OF reach_ok, of False arg aid es intfs] assms(2) by simp
  obtain p where p: "get_shm_network aid ip msk (sy_cfg s') = Some p"
    using cliNetworkCmd_success [OF assms(2,1)] add_network_entry_find by blast
  note g = get_shm_network_Some [OF p]
  have "get_shm_any_network ip msk (sy_cfg s') \<noteq> None" using g unfolding get_shm_any_network_None by blast
  then obtain q where q: "get_shm_any_network ip msk (sy_cfg s') = Some q" by blast
  then have "shm_net (sy_cfg s') q \<and> cn_ip (the_shm_net (sy_cfg s') q) = ip \<and> cn_mask (the_shm_net (sy_cfg s') q) = msk"
    unfolding get_shm_any_network_def shm_net_def using find_shm_network_Some by fastforce
  then have "q = p" using nets_distinctD [of "sy_cfg s'" q p] g ok by (simp add: sys_ok_def ocfg_ok_def)
  moreover have "ip AND NOT msk = 0" using assms by (auto simp: cliNetworkCmd_def split: if_splits)
  ultimately show ?thesis using p q cliNetworkCmd_removed [OF ok p assms(1)] by simp
qed

text \<open>An interface with address 10.0.0.1/24 that is up.\<close>

definition example_intf :: OspfInterface where
  "example_intf =
     \<lparr>if_name = ''eth0'', if_link_up = True, if_kindex = 2, if_ip = 0x0a000001, if_mask = 0xffffff00, if_typ = IF_ETHERNET,
      rip_passive_interface = False, rip_multicast_ip = 0, rip_multicast_mask = 0, rip_timeout = 0, rip_passwd = [],
      if_admin_up = True, if_mtu = 1500, ospf_multicast_ip = 0, ospf_multicast_mask = 0, ospf_cost = 1, ospf_priority = 1,
      ospf_hello = 10, ospf_dead = 40, ospf_rxmt = 5, ospf_auth_type = 0, intf_passwd = [], intf_md5_passwd = [],
      intf_md5_key = 0, ospf_mtu_ignore = False, ospf_passive_interface = False\<rparr>"

definition example_cfg :: ospf_sys where
  "example_cfg = snd (cliNetworkCmd False ''10.0.0.0/24'' 0 (cold_start [example_intf]))"

lemma example_scans:
  "scan_u ''10.0.0.0/24'' = Some (10, ''.0.0.0/24'')" "scan_u ''0.0.0/24'' = Some (0, ''.0.0/24'')"
  "scan_u ''0.0/24'' = Some (0, ''.0/24'')" "scan_u ''0/24'' = Some (0, ''/24'')" "scan_u ''24'' = Some (24, [])"
  by (simp_all add: scan_u_def is_space_def is_digit_def digit_val_def strtoul_val_def of_char_def)

lemma example_mask: "cidr_mask 24 = 0xffffff00"
  by code_simp

lemma example_arg: "atocidr ''10.0.0.0/24'' = Some (0x0a000000, 0xffffff00)"
proof -
  have four: "(4 :: nat) = Suc (Suc (Suc (Suc 0)))" by simp
  show ?thesis unfolding atocidr_def four scan_dotted.simps example_scans by (simp add: example_scans example_mask quad_def)
qed

lemma example_tables:
  "replicate RCP_OSPF_AREA_LIMIT x = [x, x, x, x, x, x, x, x]" "replicate RCP_OSPF_NETWORK_LIMIT y = [y, y, y, y, y, y, y, y]"
  by (simp_all add: RCP_OSPF_AREA_LIMIT_def RCP_OSPF_NETWORK_LIMIT_def numeral_eq_Suc)

lemmas example_simps = example_arg example_tables cold_start_def cliNetworkCmd_def new_area_entry_def add_network_entry_def
  createOspfArea_def need_router_id_def generate_router_id_def get_shm_area_def get_shm_area_empty_def get_shm_network_def
  get_shm_network_empty_def get_shm_any_network_def new_shm_area_def zero_network_def areaAdd_def areaFind_def ospf_if_skip_def
  sys_calls_def set_areas_def with_adj_def update_abr_def upd_shm_network_def upd_pos_def

lemma example_cmd: "cliNetworkCmd False ''10.0.0.0/24'' 0 (fold sys_step [] (cold_start [example_intf])) = (False, example_cfg)"
proof -
  have "fst (cliNetworkCmd False ''10.0.0.0/24'' 0 (cold_start [example_intf])) = False"
    by (simp add: example_simps example_intf_def)
  then show ?thesis by (simp add: example_cfg_def prod_eq_iff)
qed

theorem network_cmd_roundtrip_witness:
  "\<exists>p. get_shm_network 0 0x0a000000 0xffffff00 (sy_cfg example_cfg) = Some p \<and>
       get_shm_any_network 0x0a000000 0xffffff00 (sy_cfg example_cfg) = Some p"
  using network_cmd_roundtrip [OF example_arg example_cmd] by blast

section \<open>The interface task\<close>

lemma shm_match_area:
  assumes ok: "sys_ok s" and m: "shm_match_network ip msk (sy_cfg s) = Some (a, j)"
  shows "areaFind (cn_area_id (the_shm_net (sy_cfg s) (a, j))) (sy_areas s) \<noteq> None"
proof -
  have v: "shm_net (sy_cfg s) (a, j)"
    using find_shm_network_Some [OF m [unfolded shm_match_network_def]] by (simp add: shm_net_def)
  have "cn_area_id (the_shm_net (sy_cfg s) (a, j)) = ca_area_id (sy_cfg s ! a)"
    using v ok unfolding sys_ok_def ocfg_ok_def nets_in_area_def by auto
  moreover have "ca_area_id (sy_cfg s ! a) \<in> valid_ids (sy_cfg s)" using v by (auto simp: valid_ids_nth shm_net_def)
  ultimately show ?thesis using ok unfolding areaFind_None sys_ok_def by simp
qed

lemma start_network_result:
  assumes k: "areaFind aid (sy_areas s) = Some k" and i: "i < length (sy_intf s)"
    and none: "networkFind aid (if_ip (sy_intf s ! i)) (if_mask (sy_intf s ! i)) (sy_areas s) = None"
  defines "s' \<equiv> start_network i aid s"
  shows "networkFind aid (if_ip (sy_intf s ! i)) (if_mask (sy_intf s ! i)) (sy_areas s') = Some (k, 0)"
    "the_net (k, 0) (sy_areas s') = (new_network (sy_intf s ! i) aid (sy_router_id s))
       \<lparr>net_state := NETSTATE_WAITING, net_wait_timer := sint (ucast (ospf_dead (sy_intf s ! i)) :: u32)\<rparr>"
    "ospf_multicast_ip (sy_intf s' ! i) = if_ip (sy_intf s ! i)"
proof -
  let ?net = "new_network (sy_intf s ! i) aid (sy_router_id s)"
  let ?al = "upd_pos k (\<lambda>a. a\<lparr>oa_network := ?net # oa_network a\<rparr>) (sy_areas s)"
  have kl: "k < length (sy_areas s)" using k find_pos_lengthD by (simp add: areaFind_def) blast
  have add: "networkAdd aid ?net (sy_areas s) = (False, ?al)"
    using k none by (simp add: networkAdd_def) (simp add: new_network_def)
  have k': "areaFind aid ?al = Some k" using k by (simp add: areaFind_def find_pos_upd_pos)
  let ?st = "(sy_adj s)\<lparr>adj_areas := ?al\<rparr>"
  let ?up = "\<lambda>n. n\<lparr>net_state := NETSTATE_WAITING, net_wait_timer := sint (net_dead_interval n)\<rparr>"
  have v: "net_valid (k, 0) ?al" using kl by (simp add: net_valid_def nth_upd_pos)
  have net: "the_net (k, 0) ?al = ?net" using kl by (simp add: the_net_def nth_upd_pos)
  have areas: "sy_areas s' = upd_net (k, 0) ?up ?al"
    unfolding s'_def start_network_def Let_def add
    by (simp add: k' netfsmInterfaceUp_def Let_def net upd_oif_def with_adj_def set_areas_def sys_calls_def)
       (simp add: new_network_def)
  show "the_net (k, 0) (sy_areas s') = ?net\<lparr>net_state := NETSTATE_WAITING, net_wait_timer := sint (ucast (ospf_dead (sy_intf s ! i)) :: u32)\<rparr>"
    unfolding areas the_net_upd_net [OF v] net by (simp add: new_network_def)
  have "areaFind aid (upd_net (k, 0) ?up ?al) = Some k" using k' by (simp add: areaFind_def upd_net_def find_pos_upd_pos)
  moreover have "oa_network (upd_net (k, 0) ?up ?al ! k) = ?up ?net # oa_network (sy_areas s ! k)"
    using kl by (simp add: upd_net_def nth_upd_pos)
  ultimately show "networkFind aid (if_ip (sy_intf s ! i)) (if_mask (sy_intf s ! i)) (sy_areas s') = Some (k, 0)"
    unfolding areas networkFind_def by (simp add: new_network_def)
  show "ospf_multicast_ip (sy_intf s' ! i) = if_ip (sy_intf s ! i)"
    unfolding s'_def start_network_def Let_def add using i
    by (simp add: upd_oif_def nth_upd_pos)
qed

text \<open>The interface task brings OSPF up: in a reachable state, an interface that is up, is not a loopback,
  does not run OSPF yet and whose address falls into a configured network gets a network in the area of
  that entry, in state Waiting with the wait timer at the dead interval and without neighbours, and is
  marked as running, unless that area already has a network with this address and mask.
\<close>

theorem interface_started:
  assumes "s = fold sys_step es (cold_start intfs)" "i < length (sy_intf s)" "intf = sy_intf s ! i"
    and "\<not> ospf_if_skip intf" "ospf_multicast_ip intf = 0" "if_link_up intf" "if_admin_up intf"
    and "shm_match_network (if_ip intf AND if_mask intf) (if_mask intf) (sy_cfg s) = Some (a, j)"
    and "aid = cn_area_id (ca_network (sy_cfg s ! a) ! j)" "networkFind aid (if_ip intf) (if_mask intf) (sy_areas s) = None"
  shows "\<exists>p. networkFind aid (if_ip intf) (if_mask intf) (sy_areas (update_intf time db i s)) = Some p \<and>
    (let n = the_net p (sy_areas (update_intf time db i s))
     in net_state n = NETSTATE_WAITING \<and> net_wait_timer n = uint (ospf_dead intf) \<and> net_neighbor n = [] \<and> net_area_id n = aid) \<and>
    ospf_multicast_ip (sy_intf (update_intf time db i s) ! i) = if_ip intf"
proof -
  have ok: "sys_ok s" using reach_ok assms(1) by simp
  obtain k where k: "areaFind aid (sy_areas s) = Some k" using shm_match_area [OF ok assms(8)] assms(9) by auto
  have u: "update_intf time db i s = start_network i aid s" using assms(3-9) by (simp add: update_intf_def Let_def)
  have "sint (ucast (ospf_dead intf) :: u32) = uint (ospf_dead intf)"
  proof -
    have "uint (ospf_dead intf) < 2 ^ 31" using uint_lt2p [of "ospf_dead intf"] by simp
    moreover have "- (2 ^ 31) \<le> uint (ospf_dead intf)" by (rule order_trans [OF _ uint_ge_0]) simp
    ultimately have "signed_take_bit 31 (uint (ospf_dead intf)) = uint (ospf_dead intf)" by (rule signed_take_bit_int_eq_self [rotated])
    then show ?thesis by (simp add: sint_uint uint_up_ucast is_up)
  qed
  then show ?thesis
    using start_network_result [OF k assms(2) assms(10) [unfolded assms(3)]] unfolding u assms(3)
    by (intro exI [of _ "(k, 0)"]) (simp add: new_network_def)
qed

lemma example_cfg_sel:
  "sy_areas example_cfg = [\<lparr>oa_area_id = 0, oa_router_id = 0x0a000001, oa_network = [], oa_stub = False, oa_no_summary = False, oa_mylsa = None\<rparr>]"
  "sy_intf example_cfg = [example_intf]" "sy_router_id example_cfg = 0x0a000001"
  "sy_cfg example_cfg ! 0 = \<lparr>ca_valid = True, ca_stub = False, ca_no_summary = False, ca_area_id = 0, ca_default_cost = RCP_OSPF_DEFAULT_COST,
     ca_network = \<lparr>cn_valid = True, cn_ip = 0x0a000000, cn_mask = 0xffffff00, cn_area_id = 0\<rparr> # map (\<lambda>_. zero_network) [1, 2, 3, 4, 5, 6, 7 :: nat]\<rparr>"
  "shm_match_network 0x0a000000 0xffffff00 (sy_cfg example_cfg) = Some (0, 0)"
  by (simp_all add: example_cfg_def example_simps example_intf_def shm_match_network_def)

theorem interface_started_witness:
  "\<forall>time db. \<exists>p. networkFind 0 0x0a000001 0xffffff00 (sy_areas (update_intf time db 0 example_cfg)) = Some p \<and>
     net_state (the_net p (sy_areas (update_intf time db 0 example_cfg))) = NETSTATE_WAITING"
proof (intro allI)
  fix time db
  have s: "example_cfg = fold sys_step [EvNetwork False ''10.0.0.0/24'' 0] (cold_start [example_intf])"
    by (simp add: example_cfg_def)
  show "\<exists>p. networkFind 0 0x0a000001 0xffffff00 (sy_areas (update_intf time db 0 example_cfg)) = Some p \<and>
     net_state (the_net p (sy_areas (update_intf time db 0 example_cfg))) = NETSTATE_WAITING"
    using interface_started [OF s, of 0 example_intf 0 0 0 time db]
    by (simp add: example_cfg_sel Let_def) (auto simp: example_intf_def ospf_if_skip_def networkFind_def areaFind_def example_cfg_sel)
qed

section \<open>Where the source does not do what it means to\<close>

text \<open>When the address of an interface moves to a network of another area, the old network is looked up in
  the new area. It is not found there, so it is never deleted, and OSPF never starts on the new address:
  the task leaves the interface and the areas as they are, this time and every time after.\<close>

theorem address_change_across_areas_stuck:
  assumes "\<not> ospf_if_skip (sy_intf s ! i)" "ospf_multicast_ip (sy_intf s ! i) \<noteq> 0" "if_ip (sy_intf s ! i) \<noteq> 0"
    and "if_ip (sy_intf s ! i) \<noteq> ospf_multicast_ip (sy_intf s ! i)"
    and "shm_match_network (if_ip (sy_intf s ! i)) (if_mask (sy_intf s ! i)) (sy_cfg s) = Some (a, j)"
    and "networkFind (cn_area_id (ca_network (sy_cfg s ! a) ! j)) (ospf_multicast_ip (sy_intf s ! i))
           (ospf_multicast_mask (sy_intf s ! i)) (sy_areas s) = None"
  shows "update_intf time db i s = s"
  using assms by (simp add: update_intf_def update_started_def Let_def)

text \<open>The process creates the areas of the configuration without their stub flag when it is restarted.\<close>

lemma createOspfArea_stub:
  "\<forall>a \<in> set (sy_areas s). \<not> oa_stub a \<Longrightarrow> \<forall>a \<in> set (sy_areas (snd (createOspfArea aid s))). \<not> oa_stub a"
  by (auto simp: createOspfArea_def Let_def areaAdd_def need_router_id_def update_abr_def)

theorem restart_loses_stub:
  assumes "sy_areas s = []" "a \<in> set (sy_areas (ospf_restart redist s))"
  shows "\<not> oa_stub a"
proof -
  let ?f = "\<lambda>i s. if ca_valid (sy_cfg s ! i) then snd (createOspfArea (ca_area_id (sy_cfg s ! i)) s) else s"
  have "\<forall>a \<in> set (sy_areas t). \<not> oa_stub a \<Longrightarrow> \<forall>a \<in> set (sy_areas (fold ?f is t)). \<not> oa_stub a" for "is" t
  proof (induction "is" arbitrary: t)
    case (Cons i "is")
    have "\<forall>a \<in> set (sy_areas (?f i t)). \<not> oa_stub a" using Cons.prems createOspfArea_stub by simp
    from Cons.IH [OF this] show ?case by simp
  qed simp
  from this [of s "[0..<length (sy_cfg s)]"] show ?thesis using assms by (simp add: ospf_restart_def Let_def)
qed

text \<open>Removing the configured cost of the default route originates it with cost 0, not with the default cost
  that the table then holds.\<close>

theorem no_default_cost_originates_zero:
  assumes "get_shm_area aid (sy_cfg s) = Some i"
  shows "CSumDefault aid 0 \<in> set (adj_out (sy_adj (snd (cliAreaDefaultCost True aid val s)))) \<and>
    ca_default_cost (sy_cfg (snd (cliAreaDefaultCost True aid val s)) ! i) = RCP_OSPF_DEFAULT_COST"
  using assms get_shm_area_Some [OF assms]
  by (simp add: cliAreaDefaultCost_def Let_def sys_calls_def with_adj_def update_abr_def nth_upd_pos)

text \<open>A virtual link that comes up ends in state Waiting like a broadcast network: the \<open>else\<close> has no braces.\<close>

theorem virtual_link_waits:
  assumes "net_valid p (adj_areas st)" "net_state (net_at p st) = NETSTATE_DOWN" "net_type (net_at p st) = N_TYPE_VLINK"
  shows "net_state (net_at p (netfsmInterfaceUp p st)) = NETSTATE_WAITING"
  using assms by (simp add: netfsmInterfaceUp_def Let_def the_net_upd_net upd_net_comp)

end
