(* ===== verification/Ospf_DdProps.thy ===== *)
theory Ospf_DdProps
  imports Ospf_Election
begin

text \<open>
  The database exchange (\<open>ospf/exec/dbdesc.c\<close>): the description packets carry the whole link state
  database, in order and without repetition, and the exchange comes to an end.
\<close>

section \<open>One packet\<close>

definition fresh_hdr :: "OspfLsaHeaderList \<Rightarrow> bool" where
  "fresh_hdr x \<longleftrightarrow> \<not> hl_ack x \<and> \<not> hl_sent x"

text \<open>What \<open>dbdescRx\<close> does with the list when the answer is in sequence.\<close>

definition ack_sent :: "OspfLsaHeaderList list \<Rightarrow> OspfLsaHeaderList list" where
  "ack_sent xs = lsahListPurge (map (\<lambda>x. if hl_sent x \<and> \<not> hl_ack x then x\<lparr>hl_ack := True\<rparr> else x) xs)"

lemma dd_fill_fresh:
  "list_all fresh_hdr xs \<Longrightarrow>
     dd_fill n xs = (map hl_header (take n xs), map (\<lambda>x. x\<lparr>hl_sent := True\<rparr>) (take n xs) @ drop n xs)"
proof (induction xs arbitrary: n)
  case (Cons x xs)
  then show ?case by (cases n) (simp_all add: fresh_hdr_def)
next
  case Nil
  then show ?case by (cases n) simp_all
qed

lemma dd_fill_length: "length (fst (dd_fill n xs)) \<le> n"
  by (induction n xs rule: dd_fill.induct) (auto split: prod.split simp: split_beta)

lemma ack_sent_fresh: "list_all fresh_hdr xs \<Longrightarrow> ack_sent (snd (dd_fill n xs)) = drop n xs"
proof -
  assume fresh: "list_all fresh_hdr xs"
  let ?ack = "\<lambda>x. if hl_sent x \<and> \<not> hl_ack x then x\<lparr>hl_ack := True\<rparr> else x"
  have a: "map ?ack (map (\<lambda>x. x\<lparr>hl_sent := True\<rparr>) ys) = map (\<lambda>x. x\<lparr>hl_sent := True, hl_ack := True\<rparr>) ys"
    if "list_all fresh_hdr ys" for ys
    using that by (induction ys) (simp_all add: fresh_hdr_def)
  have b: "map ?ack ys = ys \<and> dropWhile hl_ack ys = ys" if "list_all fresh_hdr ys" for ys
    using that by (induction ys) (simp_all add: fresh_hdr_def)
  have "list_all fresh_hdr (take n xs)" "list_all fresh_hdr (drop n xs)"
    using fresh by (auto simp: list_all_iff dest: in_set_takeD in_set_dropD)
  then show ?thesis
    unfolding ack_sent_def lsahListPurge_def dd_fill_fresh [OF fresh] snd_conv map_append a [OF \<open>list_all fresh_hdr (take n xs)\<close>]
    using b [OF \<open>list_all fresh_hdr (drop n xs)\<close>] by (subst dropWhile_append2) auto
qed

section \<open>The exchange\<close>

lemma length_upd_nb: "length (net_neighbor (fst (upd_nb k g s))) = length (net_neighbor (fst s))"
  by (simp add: upd_nb_def)

text \<open>Rounds of the exchange: a description packet is built, the answer arrives (with whatever else happens in
  between, as long as the neighbour stays in Exchange with its list) and is accepted as in sequence. The
  second argument holds the headers of the packets.\<close>

inductive dd_run :: "nat \<Rightarrow> net_out \<Rightarrow> OspfLsaHeader list list \<Rightarrow> net_out \<Rightarrow> bool" for k where
  dd_stop: "dd_run k s [] s"
| dd_step: "dbdescBuildPkt env k flds s = (DdPkt dbd hs, s1) \<Longrightarrow>
    on_ddsum (nb_of k s2) = on_ddsum (nb_of k s1) \<Longrightarrow> on_state (nb_of k s2) = NSTATE_EXCHANGE \<Longrightarrow>
    k < length (net_neighbor (fst s2)) \<Longrightarrow>
    dd_exchange env' k s2 = (True, s3) \<Longrightarrow> dd_run k s3 hss s' \<Longrightarrow> dd_run k s (hs # hss) s'"

inductive_cases dd_run_ConsE: "dd_run k s (hs # hss) s'"

lemma dbdescBuildPkt_list:
  assumes "dbdescBuildPkt env k flds s = (DdPkt dbd hs, s1)" "on_state (nb_of k s) = NSTATE_EXCHANGE" "k < length (net_neighbor (fst s))"
  shows "hs = fst (dd_fill OSPF_DD_MAX (on_ddsum (nb_of k s)))" "on_ddsum (nb_of k s1) = snd (dd_fill OSPF_DD_MAX (on_ddsum (nb_of k s)))"
  using assms by (auto simp: dbdescBuildPkt_def Let_def split_beta nb_of_upd_nb)

lemma dd_exchange_True:
  assumes "dd_exchange env k s = (True, s')" "k < length (net_neighbor (fst s))"
  shows "on_ddsum (nb_of k s') = ack_sent (on_ddsum (nb_of k s))" "on_state (nb_of k s') = on_state (nb_of k s)"
    "length (net_neighbor (fst s')) = length (net_neighbor (fst s))"
  using assms by (auto simp: dd_exchange_def Let_def ack_sent_def nb_of_upd_nb length_upd_nb split: if_splits)

lemma dd_run_headers:
  assumes "dd_run k s hss s'" "on_state (nb_of k s) = NSTATE_EXCHANGE" "k < length (net_neighbor (fst s))"
    and "list_all fresh_hdr (on_ddsum (nb_of k s))"
  shows "concat hss = map hl_header (take (OSPF_DD_MAX * length hss) (on_ddsum (nb_of k s))) \<and>
    on_ddsum (nb_of k s') = drop (OSPF_DD_MAX * length hss) (on_ddsum (nb_of k s))"
  using assms
proof (induction rule: dd_run.induct)
  case (dd_step env flds s dbd hs s1 s2 env' s3 hss s')
  let ?xs = "on_ddsum (nb_of k s)"
  note pkt = dbdescBuildPkt_list [OF dd_step.hyps(1) dd_step.prems(1,2)]
  note ex = dd_exchange_True [OF dd_step.hyps(5,4)]
  have hs: "hs = map hl_header (take OSPF_DD_MAX ?xs)" using pkt(1) dd_fill_fresh [OF dd_step.prems(3)] by simp
  have xs3: "on_ddsum (nb_of k s3) = drop OSPF_DD_MAX ?xs"
    using ex(1) dd_step.hyps(2) pkt(2) ack_sent_fresh [OF dd_step.prems(3)] by simp
  have "list_all fresh_hdr (drop OSPF_DD_MAX ?xs)" using dd_step.prems(3) by (auto simp: list_all_iff dest: in_set_dropD)
  then have "concat hss = map hl_header (take (OSPF_DD_MAX * length hss) (drop OSPF_DD_MAX ?xs)) \<and>
      on_ddsum (nb_of k s') = drop (OSPF_DD_MAX * length hss) (drop OSPF_DD_MAX ?xs)"
    using dd_step.IH ex dd_step.hyps(3,4) xs3 by simp
  then show ?case using hs take_add [of OSPF_DD_MAX "OSPF_DD_MAX * length hss" ?xs] by (simp add: add.commute)
qed simp

lemma ddsum_of_fresh: "list_all fresh_hdr dds \<Longrightarrow> list_all fresh_hdr (ddsum_of env dds)"
proof -
  have add: "list_all fresh_hdr ys \<Longrightarrow> list_all fresh_hdr (fold lsahListAdd hs ys)" for hs ys
    by (induction hs arbitrary: ys) (simp_all add: lsahListAdd_def fresh_hdr_def)
  have "list_all fresh_hdr ys \<Longrightarrow> list_all fresh_hdr
     (fold (\<lambda>i dds. if i = unat LSA_TYPE_EXTERNAL \<and> ne_stub env then dds else fold lsahListAdd (ne_lsas env i) dds) is ys)" for "is" ys
    by (induction "is" arbitrary: ys) (simp_all add: add)
  then show "list_all fresh_hdr dds \<Longrightarrow> ?thesis" unfolding ddsum_of_def by blast
qed

lemma ddsum_of_set:
  "set (map hl_header (ddsum_of env [])) = {h. \<exists>i < unat LSA_TYPE_MAX. h \<in> set (ne_lsas env i) \<and> \<not> (i = unat LSA_TYPE_EXTERNAL \<and> ne_stub env)}"
proof -
  have add: "set (map hl_header (fold lsahListAdd hs ys)) = set hs \<union> set (map hl_header ys)" for hs ys
    by (induction hs arbitrary: ys) (auto simp: lsahListAdd_def)
  have "set (map hl_header (fold (\<lambda>i dds. if i = unat LSA_TYPE_EXTERNAL \<and> ne_stub env then dds else fold lsahListAdd (ne_lsas env i) dds) is ys)) =
      {h. \<exists>i \<in> set is. h \<in> set (ne_lsas env i) \<and> \<not> (i = unat LSA_TYPE_EXTERNAL \<and> ne_stub env)} \<union> set (map hl_header ys)" for "is" ys
    by (induction "is" arbitrary: ys) (auto simp: add simp del: set_map)
  then show ?thesis unfolding ddsum_of_def by (auto simp del: set_map)
qed

text \<open>C18: The database exchange describes the whole database: when the negotiation has put the headers of
  the area into the summary list of a neighbour, then after as many accepted rounds as the list has
  blocks of 70 headers the packets together held every header of the list, in order and each once,
  these are the headers of all types in the database (without the external ones in a stub area), and
  the list is empty, so that the master sends its last packet and the exchange ends.
\<close>

theorem dd_exchange_complete:
  assumes "dd_run k s hss s'" "on_state (nb_of k s) = NSTATE_EXCHANGE" "k < length (net_neighbor (fst s))"
    and "on_ddsum (nb_of k s) = ddsum_of env []" "length (ddsum_of env []) \<le> OSPF_DD_MAX * length hss"
  shows "concat hss = map hl_header (ddsum_of env []) \<and>
    set (concat hss) = {h. \<exists>i < unat LSA_TYPE_MAX. h \<in> set (ne_lsas env i) \<and> \<not> (i = unat LSA_TYPE_EXTERNAL \<and> ne_stub env)} \<and>
    on_ddsum (nb_of k s') = []"
proof -
  have "list_all fresh_hdr (on_ddsum (nb_of k s))" using assms(4) ddsum_of_fresh [of "[]" env] by simp
  from dd_run_headers [OF assms(1,2,3) this] have "concat hss = map hl_header (ddsum_of env [])" "on_ddsum (nb_of k s') = []"
    using assms(4,5) by simp_all
  then show ?thesis using ddsum_of_set [of env] by simp
qed

lemma dd_fill_again: "fst (dd_fill n (snd (dd_fill n xs))) = fst (dd_fill n xs)"
  by (induction n xs rule: dd_fill.induct) (auto simp: split_beta)

text \<open>No description packet carries more than 70 headers, which with the fixed part and a digest is
  less than 1500 bytes, and the packet built again without an answer carries the same headers: the marks of
  a packet that was not acknowledged do not take headers out of the list.
\<close>

theorem dd_packet_bounded:
  assumes "dbdescBuildPkt env k flds s = (DdPkt dbd hs, s1)" "k < length (net_neighbor (fst s))"
    and "dbdescBuildPkt env k flds s1 = (DdPkt dbd' hs', s2)"
  shows "length hs \<le> OSPF_DD_MAX \<and> hs' = hs"
proof (cases "on_state (nb_of k s) = NSTATE_EXCHANGE")
  case True
  note l = dbdescBuildPkt_list [OF assms(1) True assms(2)]
  have "on_state (nb_of k s1) = NSTATE_EXCHANGE" "k < length (net_neighbor (fst s1))"
    using assms(1,2) True by (auto simp: dbdescBuildPkt_def Let_def split_beta nb_of_upd_nb length_upd_nb)
  from dbdescBuildPkt_list(1) [OF assms(3) this] show ?thesis using l dd_fill_again dd_fill_length by simp
next
  case False
  then have "hs = []" "on_state (nb_of k s1) \<noteq> NSTATE_EXCHANGE"
    using assms(1,2) by (auto simp: dbdescBuildPkt_def Let_def nb_of_upd_nb)
  moreover from this(2) have "hs' = []" using assms(3) by (auto simp: dbdescBuildPkt_def Let_def)
  ultimately show ?thesis by simp
qed

section \<open>An example\<close>

text \<open>A database with one router advertisement, and a neighbour that is master of the exchange; the answer
  repeats the sequence number.\<close>

definition example_hdr :: OspfLsaHeader where
  "example_hdr = \<lparr>lh_age = 1, lh_options = 2, lh_type = LSA_TYPE_ROUTER, lh_link_state_id = 0x0a000001, lh_adv_router = 0x0a000001,
                  lh_seq = 0x80000001, lh_checksum = 0, lh_length = 36\<rparr>"

definition example_nenv :: nb_env where
  "example_nenv = \<lparr>ne_stub = False, ne_time = 0, ne_intf = None, ne_lsas = (\<lambda>i. if i = 1 then [example_hdr] else []),
                   ne_find = (\<lambda>_. None)\<rparr>"

definition example_exchange :: net_out where
  "example_exchange =
     (example_net 0x0a000002 [(example_nb 0x0a000002 1 0x0a000002)\<lparr>on_state := NSTATE_EXCHANGE, on_master := True, on_dd_seq_number := 7,
        on_lastdbd_seq := 7, on_ddsum := [\<lparr>hl_ack = False, hl_sent = False, hl_header = example_hdr\<rparr>]\<rparr>], [])"

definition example_built :: "OspfPacket \<times> net_out" where
  "example_built = dbdescBuildPkt example_nenv 0 1 example_exchange"

lemma example_ddsum: "ddsum_of example_nenv [] = [\<lparr>hl_ack = False, hl_sent = False, hl_header = example_hdr\<rparr>]"
  by (simp add: ddsum_of_def example_nenv_def lsahListAdd_def upt_rec)

lemma example_dd:
  "on_state (nb_of 0 example_exchange) = NSTATE_EXCHANGE" "0 < length (net_neighbor (fst example_exchange))"
  "on_ddsum (nb_of 0 example_exchange) = ddsum_of example_nenv []"
  by (simp_all add: example_exchange_def example_net_def nb_of_def example_ddsum)

lemma example_pkt: "\<exists>dbd. example_built = (DdPkt dbd [example_hdr], snd example_built)"
  by (simp add: example_built_def dbdescBuildPkt_def Let_def example_dd example_ddsum numeral_eq_Suc)

lemma example_nb0:
  "nb_of 0 example_exchange = (example_nb 0x0a000002 1 0x0a000002)\<lparr>on_state := NSTATE_EXCHANGE, on_master := True, on_dd_seq_number := 7,
     on_lastdbd_seq := 7, on_ddsum := [\<lparr>hl_ack = False, hl_sent = False, hl_header = example_hdr\<rparr>]\<rparr>"
  by (simp add: example_exchange_def example_net_def nb_of_def)

lemma example_answer: "fst (dd_exchange example_nenv 0 (snd example_built))"
proof -
  let ?nb = "nb_of 0 (snd example_built)" and ?old = "nb_of 0 example_exchange"
  have same: "on_state ?nb = on_state ?old" "on_master ?nb = on_master ?old" "on_dd_seq_number ?nb = on_dd_seq_number ?old"
    "on_lastdbd_seq ?nb = on_lastdbd_seq ?old" "on_lastdbd_fields ?nb = on_lastdbd_fields ?old"
    "on_lastdbd_options ?nb = on_lastdbd_options ?old" "on_options ?nb = on_options ?old"
    using example_dd(2) by (simp_all add: example_built_def dbdescBuildPkt_def Let_def split_beta nb_of_upd_nb)
  show ?thesis
    by (simp add: dd_exchange_def Let_def dd_duplicate_def dd_inseq_def same example_nb0 example_nb_def)
qed

lemma example_run: "dd_run 0 example_exchange [[example_hdr]] (snd (dd_exchange example_nenv 0 (snd example_built)))"
proof -
  obtain dbd where "example_built = (DdPkt dbd [example_hdr], snd example_built)" using example_pkt by blast
  then have 1: "dbdescBuildPkt example_nenv 0 1 example_exchange = (DdPkt dbd [example_hdr], snd example_built)"
    by (simp add: example_built_def)
  have 2: "on_state (nb_of 0 (snd example_built)) = NSTATE_EXCHANGE" "0 < length (net_neighbor (fst (snd example_built)))"
    using example_dd by (simp_all add: example_built_def dbdescBuildPkt_def Let_def split_beta nb_of_upd_nb length_upd_nb)
  have 3: "dd_exchange example_nenv 0 (snd example_built) = (True, snd (dd_exchange example_nenv 0 (snd example_built)))"
    using example_answer by (simp add: prod_eq_iff)
  show ?thesis by (rule dd_step [OF 1 refl 2 3 dd_stop])
qed

theorem dd_exchange_complete_witness:
  "set (concat [[example_hdr]]) = {h. \<exists>i < unat LSA_TYPE_MAX. h \<in> set (ne_lsas example_nenv i) \<and>
     \<not> (i = unat LSA_TYPE_EXTERNAL \<and> ne_stub example_nenv)}"
  using dd_exchange_complete [OF example_run example_dd] by (simp add: example_ddsum)

theorem dd_packet_bounded_witness:
  "\<exists>dbd s1 dbd' hs' s2. dbdescBuildPkt example_nenv 0 1 example_exchange = (DdPkt dbd [example_hdr], s1) \<and>
     dbdescBuildPkt example_nenv 0 1 s1 = (DdPkt dbd' hs', s2) \<and> hs' = [example_hdr]"
proof -
  obtain dbd s1 where 1: "dbdescBuildPkt example_nenv 0 1 example_exchange = (DdPkt dbd [example_hdr], s1)"
    using example_pkt by (metis example_built_def)
  obtain dbd' hs' s2 where 2: "dbdescBuildPkt example_nenv 0 1 s1 = (DdPkt dbd' hs', s2)"
    by (auto simp: dbdescBuildPkt_def Let_def split_beta)
  show ?thesis using dd_packet_bounded [OF 1 example_dd(2) 2] 1 2 by blast
qed

end
