(* ===== verification/Smem.thy ===== *)
theory Smem
  imports Prelude
begin

text \<open>
  The allocator of the shared memory segment (\<open>librcp/smem.c\<close>), which holds the command tree and the
  log. The memory is cut into chunks of 16 bytes, with one cell of a byte per chunk: 0 for a free
  chunk, otherwise the number of chunks from here to the end of the block. The byte arrays are lists,
  addresses are 64 bit words. A read or write outside the cell array is the result \<open>None\<close>. The handle is
  the bucket itself; the guards against a NULL handle are left to the callers.
\<close>

section \<open>The allocator\<close>

record Bucket =
  bk_initialized :: bool
  bk_pmem :: u64
  bk_cells :: "u8 list"
  bk_cmem :: u64
  bk_max_chunks :: int
  bk_last_allocation :: int
  bk_last_free :: int
  bk_alloc_calls :: int
  bk_alloc_calls_failed :: int
  bk_free_calls :: int
  bk_wrap :: int

definition align :: "u64 \<Rightarrow> u64 \<Rightarrow> u64 \<times> u64" where
  "align mem sz = (if mem mod 16 = 0 then (mem, sz) else (mem div 16 * 16 + 16, sz - 16))"

definition get_chunks_from_size :: "u64 \<Rightarrow> int" where
  "get_chunks_from_size sz =
     (let chunks = sint (ucast (if sz mod 16 = 0 then sz div 16 else sz div 16 + 1) :: u32)
      in if chunks = 0 then 1 else chunks)"

text \<open>\<open>sizeof(Bucket)\<close> is 56 on the 64 bit targets the casts of the source assume.\<close>

definition smem_initialize :: "u64 \<Rightarrow> u64 \<Rightarrow> (u64 \<times> Bucket) option" where
  "smem_initialize mem sz =
     (let (bkt, size1) = align mem sz
      in if sz < size1 then None
         else let (cmem, size2) = align (bkt + 56) (size1 - 56);
                  max_chunks = sint (ucast (size2 div 17) :: u32)
              in Some (bkt, \<lparr>bk_initialized = True, bk_pmem = cmem + word_of_int (max_chunks * 16),
                             bk_cells = replicate (nat max_chunks) 0, bk_cmem = cmem, bk_max_chunks = max_chunks,
                             bk_last_allocation = 0, bk_last_free = 0, bk_alloc_calls = 0, bk_alloc_calls_failed = 0,
                             bk_free_calls = 0, bk_wrap = 0\<rparr>))"

definition smem_get_alloc_free :: "Bucket \<Rightarrow> int" where
  "smem_get_alloc_free b = bk_alloc_calls b + bk_free_calls b"

definition cell_at :: "u8 list \<Rightarrow> int \<Rightarrow> u8 option" where
  "cell_at cs i = (if 0 \<le> i \<and> i < int (length cs) then Some (cs ! nat i) else None)"

text \<open>The inner loop: from a free cell on, are all cells before \<open>e\<close> free? The position is where the loop stops.\<close>

function scan_run :: "u8 list \<Rightarrow> int \<Rightarrow> int \<Rightarrow> (bool \<times> int) option" where
  "scan_run cs i e =
     (if i < e
      then (case cell_at cs i of None \<Rightarrow> None | Some c \<Rightarrow> if c \<noteq> 0 then Some (False, i) else scan_run cs (i + 1) e)
      else Some (True, i))"
  by pat_completeness auto
termination by (relation "measure (\<lambda>(cs, i, e). nat (e - i))") auto

declare scan_run.simps [simp del]

lemma scan_run_le: "scan_run cs i e = Some (b, j) \<Longrightarrow> i \<le> j"
proof (induction cs i e rule: scan_run.induct)
  case (1 cs i e)
  show ?case
    using 1(2) by (simp add: scan_run.simps [of cs i e] split: if_splits option.splits) (force dest: 1(1))
qed

lemma uint_pos: "(c :: u8) \<noteq> 0 \<Longrightarrow> 0 < uint c"
  by (simp add: word_neq_0_conv word_less_def)

text \<open>The outer loop: the index of the first run of \<open>chunks\<close> free cells, if there is one.\<close>

function find_chunks :: "u8 list \<Rightarrow> int \<Rightarrow> int \<Rightarrow> int \<Rightarrow> int option option" where
  "find_chunks cs max_chunks chunks i =
     (if i < max_chunks - chunks
      then (case cell_at cs i of
              None \<Rightarrow> None
            | Some c \<Rightarrow>
                if c = 0
                then (case scan_run cs i (i + chunks) of
                        None \<Rightarrow> None
                      | Some (True, j) \<Rightarrow> Some (Some (j - chunks))
                      | Some (False, j) \<Rightarrow> find_chunks cs max_chunks chunks (j + 1))
                else find_chunks cs max_chunks chunks (i + (uint c - 1) + 1))
      else Some None)"
  by pat_completeness auto
termination
  by (relation "measure (\<lambda>(cs, m, n, i). nat (m - n - i))") (auto dest: scan_run_le uint_pos)

declare find_chunks.simps [simp del]

text \<open>The cells of a new block hold the number of chunks left, cut to a byte.\<close>

primrec mark_cells :: "nat \<Rightarrow> nat \<Rightarrow> u8 list \<Rightarrow> u8 list" where
  "mark_cells 0 i cs = cs"
| "mark_cells (Suc n) i cs = mark_cells n (Suc i) (cs[i := word_of_nat (Suc n)])"

primrec clear_cells :: "nat \<Rightarrow> nat \<Rightarrow> u8 list \<Rightarrow> u8 list" where
  "clear_cells 0 i cs = cs"
| "clear_cells (Suc n) i cs = clear_cells n (Suc i) (cs[i := 0])"

text \<open>The search starts at the last allocation and is repeated once from the start.\<close>

function rcpAlloc :: "u64 \<Rightarrow> Bucket \<Rightarrow> (u64 option \<times> Bucket) option" where
  "rcpAlloc sz b =
     (let chunks = get_chunks_from_size sz; start_walk = bk_last_allocation b
      in case find_chunks (bk_cells b) (bk_max_chunks b) chunks start_walk of
           None \<Rightarrow> None
         | Some (Some index) \<Rightarrow>
             Some (Some (bk_cmem b + word_of_int (index * 16)),
                   b\<lparr>bk_last_allocation := index, bk_cells := mark_cells (nat chunks) (nat index) (bk_cells b),
                     bk_alloc_calls := bk_alloc_calls b + 1\<rparr>)
         | Some None \<Rightarrow>
             if start_walk \<noteq> 0
             then rcpAlloc sz (b\<lparr>bk_last_allocation := 0, bk_last_free := 0, bk_wrap := bk_wrap b + 1\<rparr>)
             else Some (None, b\<lparr>bk_alloc_calls_failed := bk_alloc_calls_failed b + 1\<rparr>))"
  by pat_completeness auto
termination by (relation "measure (\<lambda>(sz, b). if bk_last_allocation b = 0 then 0 else 1)") auto

declare rcpAlloc.simps [simp del]

text \<open>The flag tells whether an \<open>ASSERT\<close> failed.\<close>

definition rcpFree :: "u64 \<Rightarrow> Bucket \<Rightarrow> (bool \<times> Bucket) option" where
  "rcpFree mem b =
     (let delta = sint (ucast ((mem - bk_cmem b) div 16) :: u32)
      in if delta < 0 \<or> delta \<ge> bk_max_chunks b then Some (True, b)
         else case cell_at (bk_cells b) delta of
                None \<Rightarrow> None
              | Some c \<Rightarrow>
                  if c = 0 then Some (True, b)
                  else if delta + uint c > int (length (bk_cells b)) then None
                  else Some (False, b\<lparr>bk_last_free := delta, bk_cells := clear_cells (unat c) (nat delta) (bk_cells b),
                                    bk_free_calls := bk_free_calls b + 1\<rparr>))"

section \<open>Cells and blocks\<close>

text \<open>The cells count down to the end of their block.\<close>

definition cells_ok :: "u8 list \<Rightarrow> bool" where
  "cells_ok cs \<longleftrightarrow> (\<forall>i < length cs. 1 < unat (cs ! i) \<longrightarrow> Suc i < length cs \<and> unat (cs ! Suc i) = unat (cs ! i) - 1)"

text \<open>The allocated blocks with their index and number of chunks: a block starts where the cell before belongs
  to no block or ends one.\<close>

definition blocks :: "u8 list \<Rightarrow> (nat \<times> nat) set" where
  "blocks cs = {(i, n). i < length cs \<and> n = unat (cs ! i) \<and> n \<noteq> 0 \<and> (i = 0 \<or> unat (cs ! (i - 1)) \<le> 1)}"

lemma cells_okD: "cells_ok cs \<Longrightarrow> i < length cs \<Longrightarrow> 1 < unat (cs ! i) \<Longrightarrow> Suc i < length cs \<and> unat (cs ! Suc i) = unat (cs ! i) - 1"
  by (simp add: cells_ok_def)

lemma block_cell:
  assumes "cells_ok cs" "i < length cs" "k < unat (cs ! i)"
  shows "i + k < length cs \<and> unat (cs ! (i + k)) = unat (cs ! i) - k"
  using assms(3)
proof (induction k)
  case 0
  then show ?case using assms(2) by simp
next
  case (Suc k)
  then have "i + k < length cs" "unat (cs ! (i + k)) = unat (cs ! i) - k" by simp_all
  with Suc.prems cells_okD [OF assms(1), of "i + k"] show ?case by simp
qed

lemma free_before:
  assumes "cells_ok cs" "i < length cs" "cs ! i = 0"
  shows "i = 0 \<or> unat (cs ! (i - 1)) \<le> 1"
proof (cases i)
  case (Suc j)
  with assms cells_okD [OF assms(1), of j] show ?thesis by (cases "1 < unat (cs ! j)") auto
qed simp

lemma blocks_disjoint:
  assumes "cells_ok cs" "(i, n) \<in> blocks cs" "(j, m) \<in> blocks cs" "i \<noteq> j"
  shows "i + n \<le> j \<or> j + m \<le> i"
proof -
  have "i + n \<le> j" if "(i, n) \<in> blocks cs" "(j, m) \<in> blocks cs" "i < j" for i n j m
  proof (rule ccontr)
    assume "\<not> i + n \<le> j"
    then have "j - 1 - i < unat (cs ! i)" "i + (j - 1 - i) = j - 1" "n - (j - 1 - i) > 1"
      using that by (auto simp: blocks_def)
    with block_cell [OF assms(1), of i "j - 1 - i"] that show False by (auto simp: blocks_def)
  qed
  with assms(2,3,4) show ?thesis by (cases "i < j") (auto simp: not_less dest: le_neq_trans)
qed

lemma block_length: "cells_ok cs \<Longrightarrow> (i, n) \<in> blocks cs \<Longrightarrow> i + n \<le> length cs \<and> n \<le> 255"
proof -
  assume a: "cells_ok cs" "(i, n) \<in> blocks cs"
  then have "n - 1 < unat (cs ! i)" "i < length cs" "n = unat (cs ! i)" "n \<noteq> 0" by (auto simp: blocks_def)
  with block_cell [OF a(1), of i "n - 1"] unat_u8_less [of "cs ! i"] show ?thesis by linarith
qed

lemma block_cells_used: "cells_ok cs \<Longrightarrow> (i, n) \<in> blocks cs \<Longrightarrow> k < n \<Longrightarrow> cs ! (i + k) \<noteq> 0"
  using block_cell [of cs i k] by (auto simp: blocks_def)

lemma mark_cells_length [simp]: "length (mark_cells n i cs) = length cs"
  by (induction n arbitrary: i cs) simp_all

lemma nth_mark_cells:
  "j < length cs \<Longrightarrow> mark_cells n i cs ! j = (if i \<le> j \<and> j < i + n then word_of_nat (i + n - j) else cs ! j)"
proof (induction n arbitrary: i cs)
  case (Suc n)
  then show ?case using Suc.IH [of "cs[i := word_of_nat (Suc n)]" "Suc i"]
    by (cases i j rule: linorder_cases) (simp_all add: nth_list_update del: of_nat_Suc of_nat_diff)
qed auto

lemma clear_cells_length [simp]: "length (clear_cells n i cs) = length cs"
  by (induction n arbitrary: i cs) simp_all

lemma nth_clear_cells: "j < length cs \<Longrightarrow> clear_cells n i cs ! j = (if i \<le> j \<and> j < i + n then 0 else cs ! j)"
proof (induction n arbitrary: i cs)
  case (Suc n)
  then show ?case using Suc.IH [of "cs[i := 0]" "Suc i"] by (auto simp: nth_list_update)
qed auto

definition free_run :: "u8 list \<Rightarrow> nat \<Rightarrow> nat \<Rightarrow> bool" where
  "free_run cs k n \<longleftrightarrow> (\<forall>j < n. cs ! (k + j) = 0)"

lemma unat_mark: "n \<le> 255 \<Longrightarrow> k \<le> j \<Longrightarrow> j < k + n \<Longrightarrow> unat (word_of_nat (k + n - j) :: u8) = k + n - j"
  unfolding unat_of_nat by simp

lemma unat_nth_mark:
  "n \<le> 255 \<Longrightarrow> j < length cs \<Longrightarrow> unat (mark_cells n k cs ! j) = (if k \<le> j \<and> j < k + n then k + n - j else unat (cs ! j))"
  using unat_mark [of n k j] by (simp add: nth_mark_cells)

lemma free_run_cell: "free_run cs k n \<Longrightarrow> k \<le> j \<Longrightarrow> j < k + n \<Longrightarrow> cs ! j = 0"
  unfolding free_run_def by (metis add_diff_inverse_nat add_less_cancel_left not_less)

text \<open>Marking a free run adds a block, clearing a block removes it, and nothing else changes.\<close>

lemma mark_block:
  assumes ok: "cells_ok cs" and run: "free_run cs k n" and n: "0 < n" "n \<le> 255" "k + n \<le> length cs"
  shows "cells_ok (mark_cells n k cs)" "blocks (mark_cells n k cs) = insert (k, n) (blocks cs)"
proof -
  let ?m = "mark_cells n k cs"
  note u = unat_nth_mark [OF n(2)]
  show "cells_ok ?m"
  proof (unfold cells_ok_def, intro allI impI)
    fix i assume i: "i < length ?m" "1 < unat (?m ! i)"
    consider "k \<le> i" "i < k + n" | "\<not> (k \<le> i \<and> i < k + n)" by blast
    then show "Suc i < length ?m \<and> unat (?m ! Suc i) = unat (?m ! i) - 1"
    proof cases
      case 1
      then show ?thesis using i n u [of i cs k] u [of "Suc i" cs k] by auto
    next
      case 2
      then have s: "Suc i < length cs" "unat (cs ! Suc i) = unat (cs ! i) - 1" "1 < unat (cs ! i)"
        using i cells_okD [OF ok, of i] u [of i cs k] by (auto split: if_splits)
      then have "\<not> (k \<le> Suc i \<and> Suc i < k + n)" using free_run_cell [OF run, of "Suc i"] by auto
      then show ?thesis using 2 i s u [of i cs k] u [of "Suc i" cs k] by auto
    qed
  qed
  have mem: "(i, c) \<in> blocks ?m \<longleftrightarrow> (i, c) = (k, n) \<or> (i, c) \<in> blocks cs" for i c
  proof (cases "i < length cs")
    case True
    consider "k \<le> i" "i < k + n" | "i = k + n" | "\<not> (k \<le> i \<and> i \<le> k + n)" by linarith
    then show ?thesis
    proof cases
      case 1
      have z: "cs ! i = 0" "cs ! k = 0" using free_run_cell [OF run] 1 n by auto
      have "i = 0 \<or> unat (?m ! (i - 1)) \<le> 1 \<longleftrightarrow> i = k"
      proof (cases "i = k")
        case True
        then show ?thesis using n z u [of "k - 1" cs k] free_before [OF ok, of k] by (cases k) auto
      next
        case False
        then show ?thesis using 1 n u [of "i - 1" cs k] by auto
      qed
      then show ?thesis using 1 True z u [of i cs k] n by (auto simp: blocks_def)
    next
      case 2
      then have "unat (?m ! (i - 1)) = 1" "unat (cs ! (i - 1)) = 0"
        using n True u [of "i - 1" cs k] free_run_cell [OF run, of "i - 1"] by auto
      then show ?thesis using 2 True n u [of i cs k] by (auto simp: blocks_def)
    next
      case 3
      then have "unat (?m ! (i - 1)) = unat (cs ! (i - 1)) \<or> i = 0"
        using True u [of "i - 1" cs k] by (cases i) auto
      then show ?thesis using 3 True n u [of i cs k] by (auto simp: blocks_def)
    qed
  next
    case False
    then show ?thesis using n by (auto simp: blocks_def)
  qed
  show "blocks ?m = insert (k, n) (blocks cs)"
    by (intro equalityI subrelI) (simp_all only: mem insert_iff)
qed

lemma clear_block:
  assumes ok: "cells_ok cs" and b: "(k, n) \<in> blocks cs"
  shows "cells_ok (clear_cells n k cs)" "blocks (clear_cells n k cs) = blocks cs - {(k, n)}"
proof -
  let ?m = "clear_cells n k cs"
  have n: "k + n \<le> length cs" "0 < n" "n = unat (cs ! k)" using block_length [OF ok b] b by (auto simp: blocks_def)
  have inside: "unat (cs ! i) = k + n - i" if "k \<le> i" "i < k + n" for i
    using block_cell [OF ok, of k "i - k"] that n by simp
  have start: "k = 0 \<or> unat (cs ! (k - 1)) \<le> 1" using b by (auto simp: blocks_def)
  show "cells_ok ?m"
  proof (unfold cells_ok_def, intro allI impI)
    fix i assume i: "i < length ?m" "1 < unat (?m ! i)"
    then have o: "\<not> (k \<le> i \<and> i < k + n)" "1 < unat (cs ! i)" by (auto simp: nth_clear_cells split: if_splits)
    then have "\<not> (k \<le> Suc i \<and> Suc i < k + n)" using start by (cases "k = Suc i") auto
    then show "Suc i < length ?m \<and> unat (?m ! Suc i) = unat (?m ! i) - 1"
      using o i cells_okD [OF ok, of i] by (auto simp: nth_clear_cells)
  qed
  have mem: "(i, c) \<in> blocks ?m \<longleftrightarrow> (i, c) \<noteq> (k, n) \<and> (i, c) \<in> blocks cs" for i c
  proof (cases "i < length cs")
    case True
    consider "k \<le> i" "i < k + n" | "i = k + n" | "\<not> (k \<le> i \<and> i \<le> k + n)" by linarith
    then show ?thesis
    proof cases
      case 1
      then have "(i, c) \<in> blocks cs \<Longrightarrow> i = k \<and> c = n"
        using blocks_disjoint [OF ok b, of i c] n(3) by (fastforce simp: blocks_def)
      moreover have "(i, c) \<notin> blocks ?m" using 1 True by (auto simp: blocks_def nth_clear_cells)
      ultimately show ?thesis by blast
    next
      case 2
      then have "unat (cs ! (i - 1)) = 1" "unat (?m ! (i - 1)) = 0"
        using n True inside [of "i - 1"] by (auto simp: nth_clear_cells)
      then show ?thesis using 2 True n by (auto simp: blocks_def nth_clear_cells)
    next
      case 3
      then have "unat (?m ! (i - 1)) = unat (cs ! (i - 1)) \<or> i = 0"
        using True by (cases i) (auto simp: nth_clear_cells)
      then show ?thesis using 3 True n by (auto simp: blocks_def nth_clear_cells)
    qed
  next
    case False
    then show ?thesis by (auto simp: blocks_def)
  qed
  show "blocks ?m = blocks cs - {(k, n)}"
    by (intro equalityI subrelI) (simp_all add: mem)
qed

section \<open>The search\<close>

lemma cell_at_Some: "0 \<le> i \<Longrightarrow> i < int (length cs) \<Longrightarrow> cell_at cs i = Some (cs ! nat i)"
  by (simp add: cell_at_def)

lemma scan_run_spec:
  assumes "0 \<le> i" "i \<le> e" "e \<le> int (length cs)"
  shows "(scan_run cs i e = Some (True, e) \<and> (\<forall>k. i \<le> k \<and> k < e \<longrightarrow> cs ! nat k = 0)) \<or>
         (\<exists>j. scan_run cs i e = Some (False, j) \<and> i \<le> j \<and> j < e \<and> cs ! nat j \<noteq> 0)"
  using assms
proof (induction cs i e rule: scan_run.induct)
  case (1 cs i e)
  show ?case
  proof (cases "i < e \<and> cs ! nat i = 0")
    case True
    have eq: "scan_run cs i e = scan_run cs (i + 1) e"
      using True 1(2,4) by (simp add: scan_run.simps [of cs i e] cell_at_Some)
    have "(scan_run cs (i + 1) e = Some (True, e) \<and> (\<forall>k. i + 1 \<le> k \<and> k < e \<longrightarrow> cs ! nat k = 0)) \<or>
         (\<exists>j. scan_run cs (i + 1) e = Some (False, j) \<and> i + 1 \<le> j \<and> j < e \<and> cs ! nat j \<noteq> 0)"
      using 1(1) [of 0] 1(2,4) True by (simp add: cell_at_Some)
    moreover have "cs ! nat k = 0" if "i \<le> k" "k < e" "\<forall>k. i + 1 \<le> k \<and> k < e \<longrightarrow> cs ! nat k = 0" for k
      using that True by (cases "k = i") auto
    ultimately show ?thesis unfolding eq by fastforce
  next
    case False
    then show ?thesis using 1(2-4) by (auto simp: scan_run.simps [of cs i e] cell_at_Some)
  qed
qed

definition run_at :: "u8 list \<Rightarrow> int \<Rightarrow> int \<Rightarrow> bool" where
  "run_at cs n k \<longleftrightarrow> (\<forall>j. k \<le> j \<and> j < k + n \<longrightarrow> cs ! nat j = 0)"

text \<open>The search ends at the first run that does not touch the last chunk, or there is none.\<close>

definition first_fit :: "u8 list \<Rightarrow> int \<Rightarrow> int \<Rightarrow> int option \<Rightarrow> bool" where
  "first_fit cs n i r \<longleftrightarrow>
     (case r of
        Some k \<Rightarrow> i \<le> k \<and> k < int (length cs) - n \<and> run_at cs n k \<and> (\<forall>l. i \<le> l \<and> l < k \<longrightarrow> \<not> run_at cs n l)
      | None \<Rightarrow> \<forall>l. i \<le> l \<and> l < int (length cs) - n \<longrightarrow> \<not> run_at cs n l)"

lemma first_fit_skip:
  assumes "first_fit cs n i' r" "i \<le> i'" "\<And>l. i \<le> l \<Longrightarrow> l < i' \<Longrightarrow> \<not> run_at cs n l"
  shows "first_fit cs n i r"
  using assms by (force simp: first_fit_def not_le split: option.splits)

lemma used_block_no_run:
  assumes "cells_ok cs" "0 \<le> i" "i < int (length cs)" "i \<le> l" "l < i + uint (cs ! nat i)" "0 < n"
  shows "\<not> run_at cs n l"
proof -
  have "uint (cs ! nat i) = int (unat (cs ! nat i))" by simp
  then have k: "nat (l - i) < unat (cs ! nat i)" "nat i < length cs" using assms(2-5) by linarith+
  have "nat i + nat (l - i) = nat l" using assms(2,4) by (simp add: nat_add_distrib [symmetric])
  with block_cell [OF assms(1) k(2,1)] k(1) have "cs ! nat l \<noteq> 0" by auto
  then show ?thesis using assms(6) by (auto simp: run_at_def)
qed

lemma find_chunks_first_fit:
  assumes "cells_ok cs" "0 < n" "0 \<le> i"
  shows "\<exists>r. find_chunks cs (int (length cs)) n i = Some r \<and> first_fit cs n i r"
  using assms(3)
proof (induction i rule: measure_induct_rule [where f = "\<lambda>i. nat (int (length cs) - n - i)"])
  case (less i)
  let ?m = "int (length cs)"
  consider "\<not> i < ?m - n" | "i < ?m - n" "cs ! nat i \<noteq> 0" | "i < ?m - n" "cs ! nat i = 0" by blast
  then show ?case
  proof cases
    case 1
    then show ?thesis by (auto simp: find_chunks.simps [of _ _ _ i] first_fit_def)
  next
    case 2
    let ?i = "i + uint (cs ! nat i)"
    have "i < ?i" using uint_pos [OF 2(2)] by simp
    then obtain r where "find_chunks cs ?m n ?i = Some r" "first_fit cs n ?i r"
      using less.IH [of ?i] less.prems 2(1) by auto
    moreover have "find_chunks cs ?m n i = find_chunks cs ?m n ?i"
      using 2 assms(2) less.prems by (simp add: find_chunks.simps [of _ _ _ i] cell_at_Some)
    ultimately show ?thesis
      using first_fit_skip [of cs n ?i r i] used_block_no_run [OF assms(1) less.prems _ _ _ assms(2)] 2 assms(2) \<open>i < ?i\<close> by force
  next
    case 3
    consider "scan_run cs i (i + n) = Some (True, i + n)" "\<forall>k. i \<le> k \<and> k < i + n \<longrightarrow> cs ! nat k = 0"
      | j where "scan_run cs i (i + n) = Some (False, j)" "i \<le> j" "j < i + n" "cs ! nat j \<noteq> 0"
      using scan_run_spec [of i "i + n" cs] less.prems assms(2) 3 by auto
    then show ?thesis
    proof cases
      case 1
      then show ?thesis
        using 3 assms(2) less.prems by (auto simp: find_chunks.simps [of _ _ _ i] cell_at_Some first_fit_def run_at_def)
    next
      case (2 j)
      then obtain r where "find_chunks cs ?m n (j + 1) = Some r" "first_fit cs n (j + 1) r"
        using less.IH [of "j + 1"] less.prems 3 by auto
      moreover have "find_chunks cs ?m n i = find_chunks cs ?m n (j + 1)"
        using 2 3 assms(2) less.prems by (simp add: find_chunks.simps [of _ _ _ i] cell_at_Some)
      moreover have "\<not> run_at cs n l" if "i \<le> l" "l < j + 1" for l using 2 that by (force simp: run_at_def)
      ultimately show ?thesis using first_fit_skip [of cs n "j + 1" r i] 2(2) by auto
    qed
  qed
qed

section \<open>Operations on a consistent bucket\<close>

lemma sint_ucast32:
  assumes "unat (w :: u64) < 2 ^ 31"
  shows "sint (ucast w :: u32) = int (unat w)"
proof -
  have u: "uint w < 2 ^ 31" using assms by (metis int_ops(3) of_nat_less_iff of_nat_numeral of_nat_power uint_nat)
  then have "uint (ucast w :: u32) = uint w" by (simp add: unsigned_ucast_eq take_bit_int_eq_self)
  moreover have "signed_take_bit 31 (uint w) = uint w"
    by (rule signed_take_bit_int_eq_self) (use u uint_ge_0 [of w] in linarith)+
  ultimately show ?thesis by (simp add: sint_uint)
qed

text \<open>The number of chunks of a request.\<close>

definition units :: "u64 \<Rightarrow> nat" where
  "units sz = (if sz = 0 then 1 else (unat sz + 15) div 16)"

lemma units_fit: "unat sz \<le> 16 * units sz" "0 < units sz"
  by (auto simp: units_def simp flip: unat_eq_0)

lemma div_round_up: "0 < r \<Longrightarrow> r < 16 \<Longrightarrow> (16 * q + r + 15) div 16 = q + (1 :: nat)"
  by (rule div_nat_eqI) simp_all

lemma div_round_up_mod: "(k :: nat) mod 16 \<noteq> 0 \<Longrightarrow> (k + 15) div 16 = k div 16 + 1"
  using div_round_up [of "k mod 16" "k div 16"] by simp

lemma get_chunks_units:
  assumes "sz \<le> 4080"
  shows "get_chunks_from_size sz = int (units sz)" "units sz \<le> 255"
proof -
  have n: "unat sz \<le> 4080" using assms by (simp add: word_le_nat_alt)
  then have small: "unat (sz div 16) = unat sz div 16" "unat (sz div 16 + 1) = unat sz div 16 + 1"
    by (simp_all add: unat_div unat_word_ariths)
  have m: "sz mod 16 = 0 \<longleftrightarrow> unat sz mod 16 = 0" by (simp add: unat_mod flip: unat_eq_0)
  show "units sz \<le> 255" using n div_le_mono [of "unat sz + 15" 4095 16] by (simp add: units_def)
  show "get_chunks_from_size sz = int (units sz)"
    using n small m div_round_up_mod [of "unat sz"] sint_ucast32 [of "sz div 16"] sint_ucast32 [of "sz div 16 + 1"]
    by (auto simp: get_chunks_from_size_def units_def Let_def simp flip: unat_eq_0)
qed

text \<open>The region of the bucket lies below the end of the address space, and its size fits an \<open>int\<close>.\<close>

definition bucket_ok :: "Bucket \<Rightarrow> bool" where
  "bucket_ok b \<longleftrightarrow> cells_ok (bk_cells b) \<and> bk_max_chunks b = int (length (bk_cells b)) \<and> 0 \<le> bk_last_allocation b \<and>
     length (bk_cells b) < 2 ^ 27 \<and> unat (bk_cmem b) + 16 * length (bk_cells b) < 2 ^ 64"

definition same_region :: "Bucket \<Rightarrow> Bucket \<Rightarrow> bool" where
  "same_region b b' \<longleftrightarrow> bk_cmem b' = bk_cmem b \<and> length (bk_cells b') = length (bk_cells b)"

definition chunk_addr :: "Bucket \<Rightarrow> nat \<Rightarrow> u64" where
  "chunk_addr b k = bk_cmem b + word_of_int (int k * 16)"

text \<open>A request of at most 4080 bytes is always answered, with the first run of free chunks found from the
  last allocation on, and else from the start.\<close>

definition alloc_result :: "Bucket \<Rightarrow> nat \<Rightarrow> u64 option \<Rightarrow> Bucket \<Rightarrow> bool" where
  "alloc_result b n r b' \<longleftrightarrow> bucket_ok b' \<and> same_region b b' \<and>
     (case r of
        Some p \<Rightarrow> \<exists>k. p = chunk_addr b k \<and> k + n < length (bk_cells b) \<and> free_run (bk_cells b) k n \<and>
                      bk_cells b' = mark_cells n k (bk_cells b)
      | None \<Rightarrow> bk_cells b' = bk_cells b \<and> (\<forall>k. k + n < length (bk_cells b) \<longrightarrow> \<not> free_run (bk_cells b) k n))"

lemma run_at_free: "run_at cs (int n) (int k) \<longleftrightarrow> free_run cs k n"
proof
  assume r: "run_at cs (int n) (int k)"
  show "free_run cs k n" unfolding free_run_def
  proof (intro allI impI)
    fix j assume "j < n"
    with r [unfolded run_at_def, rule_format, of "int (k + j)"] show "cs ! (k + j) = 0" by (simp del: of_nat_add)
  qed
next
  assume "free_run cs k n"
  then show "run_at cs (int n) (int k)"
    unfolding run_at_def by (metis free_run_cell nat_eq_iff nat_int nat_less_iff nat_mono of_nat_0_le_iff of_nat_add order_trans)
qed

lemma alloc_at:
  assumes ok: "bucket_ok b" and sz: "sz \<le> 4080" and fit: "first_fit (bk_cells b) (int (units sz)) i (Some k)" "0 \<le> i"
  shows "alloc_result b (units sz) (Some (bk_cmem b + word_of_int (k * 16)))
    (b\<lparr>bk_last_allocation := k, bk_cells := mark_cells (units sz) (nat k) (bk_cells b), bk_alloc_calls := c\<rparr>)"
proof -
  have k: "0 \<le> k" "nat k + units sz < length (bk_cells b)" "free_run (bk_cells b) (nat k) (units sz)"
    using fit run_at_free [of _ _ "nat k"] by (auto simp: first_fit_def)
  note m = mark_block [OF _ k(3) units_fit(2) get_chunks_units(2) [OF sz]]
  show ?thesis unfolding alloc_result_def option.case
    using ok k m by (auto simp: bucket_ok_def same_region_def chunk_addr_def intro!: exI [of _ "nat k"])
qed

lemma rcpAlloc_from_start:
  assumes ok: "bucket_ok b" and sz: "sz \<le> 4080" and l: "bk_last_allocation b = 0"
  shows "\<exists>r b'. rcpAlloc sz b = Some (r, b') \<and> alloc_result b (units sz) r b'"
proof -
  have c: "cells_ok (bk_cells b)" "bk_max_chunks b = int (length (bk_cells b))" using ok by (simp_all add: bucket_ok_def)
  obtain r where r: "find_chunks (bk_cells b) (bk_max_chunks b) (int (units sz)) 0 = Some r" "first_fit (bk_cells b) (int (units sz)) 0 r"
    using find_chunks_first_fit [OF c(1), of "int (units sz)" 0] units_fit(2) c(2) by auto
  note ev = rcpAlloc.simps [of sz b] get_chunks_units(1) [OF sz] l r(1)
  show ?thesis
  proof (cases r)
    case None
    have "\<not> free_run (bk_cells b) k (units sz)" if "k + units sz < length (bk_cells b)" for k
      using r(2) that run_at_free [of "bk_cells b" "units sz" k] unfolding None first_fit_def by simp
    then show ?thesis using ok ev None by (simp add: Let_def alloc_result_def same_region_def bucket_ok_def)
  next
    case (Some k)
    then show ?thesis using alloc_at [OF ok sz, of 0 k] r(2) ev by (simp add: Let_def)
  qed
qed

lemma rcpAlloc_result:
  assumes ok: "bucket_ok b" and sz: "sz \<le> 4080"
  shows "\<exists>r b'. rcpAlloc sz b = Some (r, b') \<and> alloc_result b (units sz) r b'"
proof (cases "bk_last_allocation b = 0")
  case False
  have c: "cells_ok (bk_cells b)" "bk_max_chunks b = int (length (bk_cells b))" "0 \<le> bk_last_allocation b"
    using ok by (simp_all add: bucket_ok_def)
  obtain r where r: "find_chunks (bk_cells b) (bk_max_chunks b) (int (units sz)) (bk_last_allocation b) = Some r"
      "first_fit (bk_cells b) (int (units sz)) (bk_last_allocation b) r"
    using find_chunks_first_fit [OF c(1), of "int (units sz)" "bk_last_allocation b"] units_fit(2) c by auto
  note ev = rcpAlloc.simps [of sz b] get_chunks_units(1) [OF sz] r(1)
  show ?thesis
  proof (cases r)
    case None
    let ?b = "b\<lparr>bk_last_allocation := 0, bk_last_free := 0, bk_wrap := bk_wrap b + 1\<rparr>"
    have "bucket_ok ?b" using ok by (simp add: bucket_ok_def)
    from rcpAlloc_from_start [OF this sz] obtain r' b' where "rcpAlloc sz ?b = Some (r', b')" "alloc_result ?b (units sz) r' b'" by auto
    moreover have "alloc_result ?b = alloc_result b"
      by (intro ext) (simp add: alloc_result_def same_region_def chunk_addr_def split: option.split)
    ultimately show ?thesis using ev None False by (simp add: Let_def)
  next
    case (Some k)
    then show ?thesis using alloc_at [OF ok sz r(2) [unfolded Some] c(3)] ev by (simp add: Let_def)
  qed
qed (rule rcpAlloc_from_start [OF assms])

lemma unat_chunk_addr: "bucket_ok b \<Longrightarrow> k \<le> length (bk_cells b) \<Longrightarrow> unat (chunk_addr b k) = unat (bk_cmem b) + 16 * k"
proof -
  assume a: "bucket_ok b" "k \<le> length (bk_cells b)"
  have "word_of_int (int k * 16) = (word_of_nat (16 * k) :: u64)" by (simp add: mult.commute)
  moreover have "unat (bk_cmem b) + 16 * k < 2 ^ 64" using a by (simp add: bucket_ok_def)
  ultimately show ?thesis unfolding chunk_addr_def by (simp add: unat_word_ariths unat_of_nat del: of_nat_mult)
qed

lemma rcpFree_block:
  assumes ok: "bucket_ok b" and bl: "(k, n) \<in> blocks (bk_cells b)"
  shows "rcpFree (chunk_addr b k) b = Some (False, b\<lparr>bk_last_free := int k, bk_cells := clear_cells n k (bk_cells b),
     bk_free_calls := bk_free_calls b + 1\<rparr>)"
proof -
  have k: "cells_ok (bk_cells b)" "k < length (bk_cells b)" "n = unat (bk_cells b ! k)" "n \<noteq> 0"
    "bk_max_chunks b = int (length (bk_cells b))" "length (bk_cells b) < 2 ^ 27"
    using ok bl by (auto simp: bucket_ok_def blocks_def)
  have "unat (chunk_addr b k - bk_cmem b) = 16 * k"
    using unat_chunk_addr [OF ok, of k] k(2) by (subst unat_sub_if_size) (simp add: word_le_nat_alt)
  then have "unat ((chunk_addr b k - bk_cmem b) div 16) = k" by (simp add: unat_div)
  then have d: "sint (ucast ((chunk_addr b k - bk_cmem b) div 16) :: u32) = int k"
    using sint_ucast32 [of "(chunk_addr b k - bk_cmem b) div 16"] k(2,6) by simp
  have "uint (bk_cells b ! k) = int (unat (bk_cells b ! k))" by simp
  then have "int k + uint (bk_cells b ! k) \<le> int (length (bk_cells b))" using k(3) block_length [OF k(1) bl] by linarith
  moreover have "bk_cells b ! k \<noteq> 0" using k(3,4) by auto
  ultimately show ?thesis unfolding rcpFree_def d Let_def using k(2,3,5) by (simp add: cell_at_Some)
qed

section \<open>The interface\<close>

text \<open>What the users of an allocator rely on: the blocks in use are known, a new block is disjoint from all
  of them, and freeing a block takes exactly this one away.\<close>

definition extent :: "u64 \<times> nat \<Rightarrow> nat set" where
  "extent x = {unat (fst x) ..< unat (fst x) + 16 * snd x}"

locale block_store =
  fixes inv :: "'s \<Rightarrow> bool"
    and live :: "'s \<Rightarrow> (u64 \<times> nat) set"
    and alloc :: "u64 \<Rightarrow> 's \<Rightarrow> u64 option \<times> 's"
    and free :: "u64 \<Rightarrow> 's \<Rightarrow> 's"
    and limit :: u64
  assumes alloc_Some: "inv s \<Longrightarrow> sz \<le> limit \<Longrightarrow> alloc sz s = (Some p, s') \<Longrightarrow>
      inv s' \<and> live s' = insert (p, units sz) (live s) \<and> (\<forall>x \<in> live s. extent x \<inter> extent (p, units sz) = {})"
    and alloc_None: "inv s \<Longrightarrow> sz \<le> limit \<Longrightarrow> alloc sz s = (None, s') \<Longrightarrow> inv s' \<and> live s' = live s"
    and free_live: "inv s \<Longrightarrow> (p, n) \<in> live s \<Longrightarrow> inv (free p s) \<and> live (free p s) = live s - {(p, n)}"

text \<open>A client that requests memory and gives back what it holds; the last argument is what it holds, with
  the sizes it asked for.\<close>

inductive client_run :: "(u64 \<Rightarrow> 's \<Rightarrow> u64 option \<times> 's) \<Rightarrow> (u64 \<Rightarrow> 's \<Rightarrow> 's) \<Rightarrow> u64 \<Rightarrow> 's \<Rightarrow> 's \<Rightarrow> (u64 \<times> u64) set \<Rightarrow> bool"
  for alloc free limit s0 where
  run_start: "client_run alloc free limit s0 s0 {}"
| run_alloc: "client_run alloc free limit s0 s H \<Longrightarrow> sz \<le> limit \<Longrightarrow> alloc sz s = (Some p, s') \<Longrightarrow>
    client_run alloc free limit s0 s' (insert (p, sz) H)"
| run_full: "client_run alloc free limit s0 s H \<Longrightarrow> sz \<le> limit \<Longrightarrow> alloc sz s = (None, s') \<Longrightarrow> client_run alloc free limit s0 s' H"
| run_free: "client_run alloc free limit s0 s H \<Longrightarrow> (p, sz) \<in> H \<Longrightarrow> client_run alloc free limit s0 (free p s) (H - {(p, sz)})"

definition block_of :: "u64 \<times> u64 \<Rightarrow> u64 \<times> nat" where
  "block_of x = (fst x, units (snd x))"

lemma extent_start: "unat p \<in> extent (p, units sz)"
  using units_fit(2) [of sz] by (simp add: extent_def)

context block_store
begin

text \<open>The blocks in use are the ones the client holds, and they do not overlap.\<close>

lemma client_blocks:
  assumes "client_run alloc free limit s0 s H" "inv s0" "live s0 = {}"
  shows "inv s \<and> live s = block_of ` H \<and> inj_on fst H \<and> (\<forall>x \<in> H. \<forall>y \<in> H. x \<noteq> y \<longrightarrow> extent (block_of x) \<inter> extent (block_of y) = {})"
  using assms
proof (induction rule: client_run.induct)
  case run_start
  then show ?case by simp
next
  case (run_alloc s H sz p s')
  then have IH: "inv s" "live s = block_of ` H" "inj_on fst H"
    "\<forall>x \<in> H. \<forall>y \<in> H. x \<noteq> y \<longrightarrow> extent (block_of x) \<inter> extent (block_of y) = {}" by auto
  note a = alloc_Some [OF IH(1) run_alloc.hyps(2,3)]
  then have dis: "extent (block_of x) \<inter> extent (block_of (p, sz)) = {}" if "x \<in> H" for x
    using that IH(2) by (auto simp: block_of_def)
  have "p \<noteq> fst x" if "x \<in> H" for x
    using dis [OF that] extent_start [of p sz] extent_start [of "fst x" "snd x"] by (auto simp: block_of_def)
  then show ?case using a IH dis by (auto simp: block_of_def Int_commute)
next
  case (run_full s H sz s')
  then show ?case using alloc_None [of s sz s'] by auto
next
  case (run_free s H p sz)
  then have IH: "inv s" "live s = block_of ` H" "inj_on fst H"
    "\<forall>x \<in> H. \<forall>y \<in> H. x \<noteq> y \<longrightarrow> extent (block_of x) \<inter> extent (block_of y) = {}" by auto
  then have "(p, units sz) \<in> live s" using run_free.hyps(2) by (force simp: block_of_def)
  note f = free_live [OF IH(1) this]
  have "block_of ` H - {(p, units sz)} = block_of ` (H - {(p, sz)})"
  proof -
    have "inj_on block_of H" using IH(3) by (auto simp: inj_on_def block_of_def)
    then show ?thesis using run_free.hyps(2) inj_on_image_set_diff [of block_of H H "{(p, sz)}"] by (simp add: block_of_def)
  qed
  then show ?case using f IH inj_on_diff [of fst H] by auto
qed

end

section \<open>The bucket as a block store\<close>

definition live_blocks :: "Bucket \<Rightarrow> (u64 \<times> nat) set" where
  "live_blocks b = (\<lambda>(k, n). (chunk_addr b k, n)) ` blocks (bk_cells b)"

definition smem_alloc :: "u64 \<Rightarrow> Bucket \<Rightarrow> u64 option \<times> Bucket" where
  "smem_alloc sz b = the (rcpAlloc sz b)"

definition smem_free :: "u64 \<Rightarrow> Bucket \<Rightarrow> Bucket" where
  "smem_free p b = snd (the (rcpFree p b))"

lemma smem_alloc_result:
  assumes "bucket_ok b" "sz \<le> 4080" "smem_alloc sz b = (r, b')"
  shows "alloc_result b (units sz) r b'"
  using rcpAlloc_result [OF assms(1,2)] assms(3) by (auto simp: smem_alloc_def)

lemma chunk_addr_region: "same_region b b' \<Longrightarrow> chunk_addr b' = chunk_addr b"
  by (simp add: fun_eq_iff chunk_addr_def same_region_def)

lemma chunk_extents:
  assumes "bucket_ok b" "(k, n) \<in> blocks (bk_cells b)" "(j, m) \<in> blocks (bk_cells b)" "k \<noteq> j"
  shows "extent (chunk_addr b k, n) \<inter> extent (chunk_addr b j, m) = {}"
  using blocks_disjoint [of "bk_cells b" k n j m] assms unat_chunk_addr [OF assms(1), of k] unat_chunk_addr [OF assms(1), of j]
  by (auto simp: extent_def bucket_ok_def blocks_def)

lemma alloc_adds_block:
  assumes ok: "bucket_ok b" and sz: "sz \<le> 4080" and r: "alloc_result b (units sz) (Some p) b'"
  shows "live_blocks b' = insert (p, units sz) (live_blocks b)" "\<forall>x \<in> live_blocks b. extent x \<inter> extent (p, units sz) = {}"
proof -
  obtain k where k: "p = chunk_addr b k" "k + units sz < length (bk_cells b)" "free_run (bk_cells b) k (units sz)"
      "bk_cells b' = mark_cells (units sz) k (bk_cells b)" "bucket_ok b'" "same_region b b'"
    using r by (auto simp: alloc_result_def)
  have c: "cells_ok (bk_cells b)" using ok by (simp add: bucket_ok_def)
  have bl: "blocks (bk_cells b') = insert (k, units sz) (blocks (bk_cells b))"
    unfolding k(4) using mark_block(2) [OF c k(3) units_fit(2) get_chunks_units(2) [OF sz]] k(2) by simp
  then show "live_blocks b' = insert (p, units sz) (live_blocks b)"
    by (simp add: live_blocks_def chunk_addr_region [OF k(6)] k(1))
  have "k \<noteq> j" if "(j, m) \<in> blocks (bk_cells b)" for j m
    using block_cells_used [OF c that, of 0] free_run_cell [OF k(3), of k] units_fit(2) [of sz] that by (auto simp: blocks_def)
  then show "\<forall>x \<in> live_blocks b. extent x \<inter> extent (p, units sz) = {}"
    using chunk_extents [OF k(5), of _ _ k "units sz"] bl
    by (simp add: live_blocks_def k(1) chunk_addr_region [OF k(6)] split_beta) (metis prod.collapse)
qed

lemma free_drops_block:
  assumes ok: "bucket_ok b" and p: "(p, n) \<in> live_blocks b"
  shows "rcpFree p b = Some (False, smem_free p b)" "bucket_ok (smem_free p b)" "same_region b (smem_free p b)"
    "live_blocks (smem_free p b) = live_blocks b - {(p, n)}"
proof -
  obtain k where k: "p = chunk_addr b k" "(k, n) \<in> blocks (bk_cells b)" using p by (auto simp: live_blocks_def)
  note f = rcpFree_block [OF ok k(2)]
  have c: "cells_ok (bk_cells b)" using ok by (simp add: bucket_ok_def)
  show "rcpFree p b = Some (False, smem_free p b)" using f by (simp add: smem_free_def k(1))
  show "bucket_ok (smem_free p b)" using f clear_block [OF c k(2)] ok by (simp add: smem_free_def k(1) bucket_ok_def)
  show r: "same_region b (smem_free p b)" using f by (simp add: smem_free_def k(1) same_region_def)
  have inj: "inj_on (\<lambda>(k, n). (chunk_addr b k, n)) (blocks (bk_cells b))"
  proof (rule inj_onI, clarsimp)
    fix i j m assume a: "(i, m) \<in> blocks (bk_cells b)" "(j, m) \<in> blocks (bk_cells b)" "chunk_addr b i = chunk_addr b j"
    then have "unat (chunk_addr b i) = unat (chunk_addr b j)" by simp
    with a(1,2) show "i = j" using unat_chunk_addr [OF ok, of i] unat_chunk_addr [OF ok, of j] by (auto simp: blocks_def)
  qed
  have "blocks (bk_cells (smem_free p b)) = blocks (bk_cells b) - {(k, n)}"
    using f clear_block(2) [OF c k(2)] by (simp add: smem_free_def k(1))
  then show "live_blocks (smem_free p b) = live_blocks b - {(p, n)}"
    using inj_on_image_set_diff [OF inj, of "blocks (bk_cells b)" "{(k, n)}"] k(2)
    unfolding live_blocks_def chunk_addr_region [OF r] by (simp add: k(1))
qed

lemma alloc_full_keeps: "alloc_result b n None b' \<Longrightarrow> live_blocks b' = live_blocks b"
  using chunk_addr_region [of b b'] by (simp add: alloc_result_def live_blocks_def)

lemma same_region_trans: "same_region b0 b \<Longrightarrow> same_region b b' \<Longrightarrow> same_region b0 b'"
  by (simp add: same_region_def)

interpretation smem: block_store "\<lambda>b. bucket_ok b \<and> same_region b0 b" live_blocks smem_alloc smem_free 4080 for b0
proof
  fix s sz p s' assume "bucket_ok s \<and> same_region b0 s" "sz \<le> 4080" "smem_alloc sz s = (Some p, s')"
  with alloc_adds_block [of s sz p s'] smem_alloc_result [of s sz "Some p" s']
  show "(bucket_ok s' \<and> same_region b0 s') \<and> live_blocks s' = insert (p, units sz) (live_blocks s) \<and>
    (\<forall>x \<in> live_blocks s. extent x \<inter> extent (p, units sz) = {})"
    by (auto simp: alloc_result_def dest: same_region_trans)
next
  fix s sz s' assume "bucket_ok s \<and> same_region b0 s" "sz \<le> 4080" "smem_alloc sz s = (None, s')"
  with smem_alloc_result [of s sz None s'] alloc_full_keeps [of s "units sz" s']
  show "(bucket_ok s' \<and> same_region b0 s') \<and> live_blocks s' = live_blocks s"
    by (auto simp: alloc_result_def intro: same_region_trans)
next
  fix s p n assume "bucket_ok s \<and> same_region b0 s" "(p, n) \<in> live_blocks s"
  then show "(bucket_ok (smem_free p s) \<and> same_region b0 (smem_free p s)) \<and> live_blocks (smem_free p s) = live_blocks s - {(p, n)}"
    using free_drops_block [of s p n] by (auto intro: same_region_trans)
qed

section \<open>Initialization\<close>

lemma align_fits:
  assumes "align mem sz = (m, s)" "unat mem + unat sz < 2 ^ 64" "16 \<le> unat sz"
  shows "unat mem \<le> unat m" "unat m \<le> unat mem + 15" "16 dvd unat m" "unat m + unat s \<le> unat mem + unat sz"
    "unat sz - 16 \<le> unat s" "unat s \<le> unat sz"
proof -
  let ?q = "unat mem div 16" and ?r = "unat mem mod 16"
  have mem: "unat mem = 16 * ?q + ?r" "?r < 16" by simp_all
  have r: "mem mod 16 = 0 \<longleftrightarrow> ?r = 0" by (simp add: unat_mod flip: unat_eq_0)
  have low: "?r \<noteq> 0 \<Longrightarrow> Suc (16 * ?q) \<le> unat mem" using mem by linarith
  have "16 * ?q + 16 < 2 ^ 64" using assms(2,3) mem by linarith
  then have up: "unat (mem div 16 * 16 + 16) = 16 * ?q + 16" by (simp add: unat_word_ariths unat_div)
  have sub: "unat (sz - 16) = unat sz - 16" using assms(3) by (subst unat_sub) (simp_all add: word_le_nat_alt)
  show "unat mem \<le> unat m" "unat m \<le> unat mem + 15" "16 dvd unat m" "unat m + unat s \<le> unat mem + unat sz"
    "unat sz - 16 \<le> unat s" "unat s \<le> unat sz"
    using assms mem r up sub low by (auto simp: align_def dvd_eq_mod_eq_0 split: if_splits)
qed

lemma smem_initialize_layout:
  assumes "unat mem + unat sz < 2 ^ 64" "88 \<le> unat sz" "unat sz < 2 ^ 31"
  obtains h b where "smem_initialize mem sz = Some (h, b)" "bucket_ok b" "blocks (bk_cells b) = {}"
    "unat mem \<le> unat h" "unat h + 56 \<le> unat (bk_cmem b)" "16 dvd unat (bk_cmem b)"
    "unat (bk_pmem b) = unat (bk_cmem b) + 16 * length (bk_cells b)"
    "unat (bk_pmem b) + length (bk_cells b) \<le> unat mem + unat sz"
proof -
  obtain h s1 where a1: "align mem sz = (h, s1)" by (cases "align mem sz")
  have f1: "unat mem \<le> unat h" "unat h + unat s1 \<le> unat mem + unat sz" "72 \<le> unat s1" "unat s1 \<le> unat sz"
    using align_fits [OF a1 assms(1)] assms(2) by auto
  have h: "unat (h + 56) = unat h + 56" using f1 assms(1) by (subst unat_add_lem [THEN iffD1]) auto
  have s: "unat (s1 - 56) = unat s1 - 56" using f1 by (subst unat_sub) (simp_all add: word_le_nat_alt)
  have pre: "unat (h + 56) + unat (s1 - 56) < 2 ^ 64" "16 \<le> unat (s1 - 56)" using h s f1 assms(1) by linarith+
  obtain c s2 where a2: "align (h + 56) (s1 - 56) = (c, s2)" by (cases "align (h + 56) (s1 - 56)")
  have f2: "unat h + 56 \<le> unat c" "16 dvd unat c" "unat c + unat s2 \<le> unat mem + unat sz" "unat s2 < 2 ^ 31"
    using align_fits [OF a2 pre] h s f1 assms(3) by linarith+
  let ?n = "unat s2 div 17"
  have n: "sint (ucast (s2 div 17) :: u32) = int ?n" "?n < 2 ^ 27" "17 * ?n \<le> unat s2"
    using sint_ucast32 [of "s2 div 17"] f2(4) by (auto simp: unat_div)
  have "word_of_int (int ?n * 16) = (word_of_nat (16 * ?n) :: u64)" by (simp add: mult.commute)
  moreover have "unat c + 16 * ?n < 2 ^ 64" using f2(3) n(3) assms(1) by linarith
  ultimately have p: "unat (c + word_of_int (int ?n * 16)) = unat c + 16 * ?n"
    by (simp add: unat_word_ariths unat_of_nat del: of_nat_mult)
  let ?b = "\<lparr>bk_initialized = True, bk_pmem = c + word_of_int (int ?n * 16), bk_cells = replicate ?n 0, bk_cmem = c,
    bk_max_chunks = int ?n, bk_last_allocation = 0, bk_last_free = 0, bk_alloc_calls = 0, bk_alloc_calls_failed = 0,
    bk_free_calls = 0, bk_wrap = 0\<rparr>"
  have "smem_initialize mem sz = Some (h, ?b)"
    using f1(4) unfolding smem_initialize_def a1 a2 prod.case Let_def n(1) by (simp add: word_less_nat_alt)
  moreover have "bucket_ok ?b" using n(2,3) f2(3) assms(1) by (simp add: bucket_ok_def cells_ok_def)
  moreover have "blocks (bk_cells ?b) = {}" by (simp add: blocks_def)
  ultimately show ?thesis using that f1 f2 p n(3) by simp
qed

section \<open>Properties\<close>

text \<open>C20: Whatever a process requests and gives back, the allocator of the shared memory never hands out
  memory twice: after the initialization of a region, and for every sequence of requests of at most 4080
  bytes and releases, the blocks in use do not overlap, are aligned to 16 bytes and lie in the region
  between the bucket and the cells; each of them is released without an error, and a further request
  does not read outside the cells.
\<close>

theorem smem_no_overlap:
  assumes "unat mem + unat sz < 2 ^ 64" "88 \<le> unat sz" "unat sz < 2 ^ 31" "smem_initialize mem sz = Some (h, b0)"
    and run: "client_run smem_alloc smem_free 4080 b0 b H"
  shows "(\<forall>x \<in> H. \<forall>y \<in> H. x \<noteq> y \<longrightarrow>
        {unat (fst x) ..< unat (fst x) + unat (snd x)} \<inter> {unat (fst y) ..< unat (fst y) + unat (snd y)} = {}) \<and>
    (\<forall>x \<in> H. 16 dvd unat (fst x) \<and> unat h + 56 \<le> unat (fst x) \<and> unat (fst x) + unat (snd x) \<le> unat (bk_pmem b0) \<and>
       (\<exists>b'. rcpFree (fst x) b = Some (False, b'))) \<and>
    (\<forall>n \<le> 4080. rcpAlloc n b \<noteq> None)"
proof -
  obtain h' b' where "smem_initialize mem sz = Some (h', b')" "bucket_ok b'" "blocks (bk_cells b') = {}"
    "unat h' + 56 \<le> unat (bk_cmem b')" "16 dvd unat (bk_cmem b')" "unat (bk_pmem b') = unat (bk_cmem b') + 16 * length (bk_cells b')"
    using smem_initialize_layout [OF assms(1-3)] by metis
  then have i: "bucket_ok b0" "blocks (bk_cells b0) = {}" "unat h + 56 \<le> unat (bk_cmem b0)" "16 dvd unat (bk_cmem b0)"
    "unat (bk_pmem b0) = unat (bk_cmem b0) + 16 * length (bk_cells b0)" using assms(4) by simp_all
  have c: "(bucket_ok b \<and> same_region b0 b) \<and> live_blocks b = block_of ` H \<and> inj_on fst H \<and>
      (\<forall>x \<in> H. \<forall>y \<in> H. x \<noteq> y \<longrightarrow> extent (block_of x) \<inter> extent (block_of y) = {})"
    using smem.client_blocks [OF run, of b0] i(1,2) by (simp add: live_blocks_def same_region_def)
  have part: "{unat (fst x) ..< unat (fst x) + unat (snd x)} \<subseteq> extent (block_of x)" for x
    using units_fit(1) [of "snd x"] by (auto simp: extent_def block_of_def)
  have region: "16 dvd unat (fst x) \<and> unat h + 56 \<le> unat (fst x) \<and> unat (fst x) + unat (snd x) \<le> unat (bk_pmem b0) \<and>
       (\<exists>b'. rcpFree (fst x) b = Some (False, b'))" if "x \<in> H" for x
  proof -
    have l: "(fst x, units (snd x)) \<in> live_blocks b" using that c by (force simp: block_of_def)
    then obtain k where k: "fst x = chunk_addr b k" "(k, units (snd x)) \<in> blocks (bk_cells b)" by (auto simp: live_blocks_def)
    have "k + units (snd x) \<le> length (bk_cells b)" using block_length [OF _ k(2)] c by (simp add: bucket_ok_def)
    then show ?thesis
      using k(1) unat_chunk_addr [of b k] c i units_fit(1) [of "snd x"] free_drops_block(1) [OF _ l] by (auto simp: same_region_def)
  qed
  have dis: "{unat (fst x) ..< unat (fst x) + unat (snd x)} \<inter> {unat (fst y) ..< unat (fst y) + unat (snd y)} = {}"
    if "x \<in> H" "y \<in> H" "x \<noteq> y" for x y using c that part [of x] part [of y] by blast
  have "rcpAlloc n b \<noteq> None" if "n \<le> 4080" for n using rcpAlloc_result [of b n] c that by auto
  then show ?thesis using region dis by blast
qed

text \<open>A request of at most 4080 bytes fails only when no run of free chunks is long enough, not counting
  the last chunk; otherwise the block consists of chunks that were free, and releasing it restores the
  cells.
\<close>

theorem smem_alloc_complete:
  assumes "bucket_ok b" "sz \<le> 4080"
  shows "\<exists>r b'. rcpAlloc sz b = Some (r, b') \<and>
    (r = None \<longleftrightarrow> (\<forall>k. k + units sz < length (bk_cells b) \<longrightarrow> \<not> free_run (bk_cells b) k (units sz))) \<and>
    (\<forall>p. r = Some p \<longrightarrow> (\<exists>b''. rcpFree p b' = Some (False, b'') \<and> bk_cells b'' = bk_cells b))"
proof -
  obtain r b' where r: "rcpAlloc sz b = Some (r, b')" "alloc_result b (units sz) r b'" using rcpAlloc_result [OF assms] by blast
  have "\<exists>b''. rcpFree p b' = Some (False, b'') \<and> bk_cells b'' = bk_cells b" if p: "r = Some p" for p
  proof -
    obtain k where k: "p = chunk_addr b k" "k + units sz < length (bk_cells b)" "free_run (bk_cells b) k (units sz)"
        "bk_cells b' = mark_cells (units sz) k (bk_cells b)" "bucket_ok b'" "same_region b b'"
      using r(2) p by (auto simp: alloc_result_def)
    have "cells_ok (bk_cells b)" using assms(1) by (simp add: bucket_ok_def)
    then have bl: "(k, units sz) \<in> blocks (bk_cells b')"
      unfolding k(4) using mark_block(2) [OF _ k(3) units_fit(2) get_chunks_units(2) [OF assms(2)]] k(2) by simp
    have "clear_cells (units sz) k (bk_cells b') = bk_cells b"
      unfolding k(4) by (rule nth_equalityI) (auto simp: nth_clear_cells nth_mark_cells free_run_cell [OF k(3)])
    then show ?thesis using rcpFree_block [OF k(5) bl] chunk_addr_region [OF k(6)] k(1) by simp
  qed
  moreover have "r = None \<longleftrightarrow> (\<forall>k. k + units sz < length (bk_cells b) \<longrightarrow> \<not> free_run (bk_cells b) k (units sz))"
    using r(2) by (auto simp: alloc_result_def split: option.splits)
  ultimately show ?thesis using r(1) by blast
qed

text \<open>The file gives 256 chunks, or 4096 bytes, as the limit. The first cell of such a block is 256 cut to a byte,
  which is 0: the next request gets the same memory.\<close>

theorem smem_4096_overlaps:
  assumes "bucket_ok b" "bk_last_allocation b = 0" "bk_cells b = replicate n 0" "256 < n"
  shows "\<exists>p b1 b2. rcpAlloc 4096 b = Some (Some p, b1) \<and> rcpAlloc 16 b1 = Some (Some p, b2)"
proof -
  have m: "bk_max_chunks b = int n" using assms(1,3) by (simp add: bucket_ok_def)
  have u: "get_chunks_from_size 4096 = 256" "get_chunks_from_size 16 = 1"
    by (simp_all add: get_chunks_from_size_def)
  have "scan_run (replicate n 0) 0 256 = Some (True, 256)"
    using scan_run_spec [of 0 256 "replicate n 0"] assms(4) by auto
  then have f: "find_chunks (replicate n 0) (int n) 256 0 = Some (Some 0)"
    using assms(4) by (simp add: find_chunks.simps [of _ _ _ 0] cell_at_def)
  let ?b = "b\<lparr>bk_last_allocation := 0, bk_cells := mark_cells 256 0 (replicate n 0), bk_alloc_calls := bk_alloc_calls b + 1\<rparr>"
  have a: "rcpAlloc 4096 b = Some (Some (bk_cmem b), ?b)"
    using f by (simp add: rcpAlloc.simps [of 4096 b] u assms(2,3) m)
  have c: "mark_cells 256 0 (replicate n 0) ! 0 = (0 :: u8)"
    using assms(4) by (subst nth_mark_cells) simp_all
  have "scan_run (mark_cells 256 0 (replicate n 0)) 0 1 = Some (True, 1)"
    using c assms(4) by (simp add: scan_run.simps [of _ 0] scan_run.simps [of _ 1] cell_at_def)
  then have "find_chunks (mark_cells 256 0 (replicate n 0)) (int n) 1 0 = Some (Some 0)"
    using c assms(4) by (simp add: find_chunks.simps [of _ _ _ 0] cell_at_def)
  then have "\<exists>b2. rcpAlloc 16 ?b = Some (Some (bk_cmem b), b2)"
    by (simp add: rcpAlloc.simps [of 16] u m)
  with a show ?thesis by blast
qed

section \<open>An example\<close>

definition example_bucket :: Bucket where
  "example_bucket = \<lparr>bk_initialized = True, bk_pmem = 4272, bk_cells = replicate 7 0, bk_cmem = 4160, bk_max_chunks = 7,
     bk_last_allocation = 0, bk_last_free = 0, bk_alloc_calls = 0, bk_alloc_calls_failed = 0, bk_free_calls = 0, bk_wrap = 0\<rparr>"

lemma seven_cells: "replicate 7 0 = [0, 0, 0, 0, 0, 0, (0 :: u8)]"
  by (simp add: numeral_eq_Suc)

lemma example_init: "smem_initialize 4096 192 = Some (4096, example_bucket)"
  by (simp add: smem_initialize_def align_def example_bucket_def)

lemma example_bucket_ok: "bucket_ok example_bucket"
  by (simp add: bucket_ok_def example_bucket_def cells_ok_def)

definition example_bucket1 :: Bucket where
  "example_bucket1 = example_bucket\<lparr>bk_cells := [2, 1, 0, 0, 0, 0, 0], bk_alloc_calls := 1\<rparr>"

lemma example_alloc: "rcpAlloc 32 example_bucket = Some (Some 4160, example_bucket1)"
proof -
  let ?c = "[0, 0, 0, 0, 0, 0, (0 :: u8)]"
  have "scan_run ?c 0 2 = Some (True, 2)"
    by (simp add: scan_run.simps [of _ 0] scan_run.simps [of _ 1] scan_run.simps [of _ 2] cell_at_def)
  then have "find_chunks ?c 7 2 0 = Some (Some 0)" by (simp add: find_chunks.simps [of _ _ _ 0] cell_at_def)
  moreover have "get_chunks_from_size 32 = 2" by (simp add: get_chunks_from_size_def)
  moreover have "mark_cells 2 0 ?c = [2, 1, 0, 0, 0, 0, 0]" by (simp add: numeral_2_eq_2)
  ultimately show ?thesis by (simp add: rcpAlloc.simps [of 32] example_bucket_def example_bucket1_def seven_cells)
qed

theorem smem_no_overlap_witness:
  "client_run smem_alloc smem_free 4080 example_bucket example_bucket1 {(4160, 32)} \<and>
   (\<exists>b'. rcpFree 4160 example_bucket1 = Some (False, b')) \<and> unat (4160 :: u64) + 32 \<le> unat (bk_pmem example_bucket)"
proof -
  have "smem_alloc 32 example_bucket = (Some 4160, example_bucket1)" by (simp add: smem_alloc_def example_alloc)
  then have run: "client_run smem_alloc smem_free 4080 example_bucket example_bucket1 {(4160, 32)}"
    by (intro run_alloc [OF run_start]) simp_all
  with smem_no_overlap [OF _ _ _ example_init run] show ?thesis by simp
qed

theorem smem_alloc_complete_witness:
  "bucket_ok example_bucket \<and> (\<exists>b''. rcpFree 4160 example_bucket1 = Some (False, b'') \<and> bk_cells b'' = bk_cells example_bucket)"
  using smem_alloc_complete [OF example_bucket_ok, of 32] example_bucket_ok by (simp add: example_alloc)

end
