(* ===== verification/Cli_Special.thy ===== *)
theory Cli_Special
  imports Ip_Util
begin

text \<open>
  The special tokens of the command line (\<^verbatim>\<open>librcp/parser_special.c\<close>): a token such as \<open><ip>\<close> or \<open><u,1,10>\<close> in the tree of
  commands stands for the words that its check function accepts. A check is \<open>True\<close> where the C function returns 0. The texts for
  the user (help, error strings) are not modelled. The interfaces of the shared memory and the files that exist
  are an argument.
\<close>

section \<open>Reading numbers\<close>

text \<open>\<open>%d\<close> and \<open>atoi\<close>: the value of \<open>strtol\<close>, which is limited to 64 bits, stored in 32 bits.\<close>

definition strtol_val :: "bool \<Rightarrow> string \<Rightarrow> int" where
  "strtol_val neg ds =
     (let v = int (foldl (\<lambda>n c. n * 10 + digit_val c) 0 ds)
      in if neg then max (- (2 ^ 63)) (- v) else min (2 ^ 63 - 1) v)"

definition scan_d :: "string \<Rightarrow> (u32 \<times> string) option" where
  "scan_d s =
     (let s1 = dropWhile is_space s;
          neg = (case s1 of c # _ \<Rightarrow> c = CHR ''-'' | [] \<Rightarrow> False);
          s2 = (case s1 of c # t \<Rightarrow> (if c = CHR ''-'' \<or> c = CHR ''+'' then t else s1) | [] \<Rightarrow> []);
          ds = takeWhile is_digit s2
      in if ds = [] then None else Some (word_of_int (strtol_val neg ds), dropWhile is_digit s2))"

definition hex_val :: "char \<Rightarrow> nat option" where
  "hex_val c =
     (let n = of_char c :: nat
      in if 48 \<le> n \<and> n \<le> 57 then Some (n - 48) else if 65 \<le> n \<and> n \<le> 70 then Some (n - 55) else if 97 \<le> n \<and> n \<le> 102 then Some (n - 87) else None)"

definition scan_x :: "string \<Rightarrow> (u32 \<times> string) option" where
  "scan_x s =
     (let s1 = dropWhile is_space s;
          neg = (case s1 of c # _ \<Rightarrow> c = CHR ''-'' | [] \<Rightarrow> False);
          s2 = (case s1 of c # t \<Rightarrow> (if c = CHR ''-'' \<or> c = CHR ''+'' then t else s1) | [] \<Rightarrow> []);
          s3 = (if take 2 s2 = ''0x'' \<or> take 2 s2 = ''0X'' then drop 2 s2 else s2);
          ds = takeWhile (\<lambda>c. hex_val c \<noteq> None) s3;
          v = foldl (\<lambda>n c. n * 16 + the (hex_val c)) 0 ds
      in if ds = [] then None
         else Some (word_of_nat (if v \<ge> 2 ^ 64 then 2 ^ 64 - 1 else if neg then (2 ^ 64 - v) mod 2 ^ 64 else v), drop (length ds) s3))"

text \<open>Conversions with a character between them: the values that were read.\<close>

fun scan_seq :: "(string \<Rightarrow> (u32 \<times> string) option) \<Rightarrow> string \<Rightarrow> string \<Rightarrow> u32 list" where
  "scan_seq f seps s =
     (case f s of
        None \<Rightarrow> []
      | Some (v, r) \<Rightarrow> v # (case seps of [] \<Rightarrow> [] | c # cs \<Rightarrow> (case scan_lit c r of None \<Rightarrow> [] | Some r' \<Rightarrow> scan_seq f cs r')))"

declare scan_seq.simps [simp del]

section \<open>Strings\<close>

definition ok_chars :: string where
  "ok_chars = ''abcdefghijklmnopqrstuvwxyzABCDEFGHIJKLMNOPQRSTUVWXYZ1234567890_-.@''"

definition rcpInputNotClean :: "string \<Rightarrow> bool" where
  "rcpInputNotClean str \<longleftrightarrow> dropWhile (\<lambda>c. c \<in> set ok_chars) str \<noteq> []"

definition CLI_TUN_PASSWD :: nat where [simp]: "CLI_TUN_PASSWD = 24"
definition CLI_RIP_PASSWD :: nat where [simp]: "CLI_RIP_PASSWD = 16"
definition CLI_OSPF_PASSWD :: nat where [simp]: "CLI_OSPF_PASSWD = 8"
definition CLI_OSPF_MD5_PASSWD :: nat where [simp]: "CLI_OSPF_MD5_PASSWD = 16"
definition CLI_SNMP_MIN_PASSWD :: nat where [simp]: "CLI_SNMP_MIN_PASSWD = 8"
definition CLI_SNMP_MAX_PASSWD :: nat where [simp]: "CLI_SNMP_MAX_PASSWD = 64"
definition CLI_SNMP_MAX_COMMUNITY :: nat where [simp]: "CLI_SNMP_MAX_COMMUNITY = 16"
definition CLI_MAX_ADMIN_NAME :: nat where [simp]: "CLI_MAX_ADMIN_NAME = 31"
definition CLI_MAX_PASSWD :: nat where [simp]: "CLI_MAX_PASSWD = 128"
definition CLI_MAX_HOSTNAME :: nat where [simp]: "CLI_MAX_HOSTNAME = 16"
definition CLI_MAX_TUNNEL_NAME :: nat where [simp]: "CLI_MAX_TUNNEL_NAME = 15"
definition CLI_DOMAIN_NAME :: nat where [simp]: "CLI_DOMAIN_NAME = 63"
definition RCP_MAX_IF_NAME :: nat where [simp]: "RCP_MAX_IF_NAME = 15"

definition chk_word :: "string \<Rightarrow> string \<Rightarrow> bool" where
  "chk_word token str \<longleftrightarrow> True"

definition chk_snmp_password :: "string \<Rightarrow> string \<Rightarrow> bool" where
  "chk_snmp_password token str \<longleftrightarrow> \<not> (length str < CLI_SNMP_MIN_PASSWD \<or> length str > CLI_SNMP_MAX_PASSWD)"

definition chk_tun_password :: "string \<Rightarrow> string \<Rightarrow> bool" where
  "chk_tun_password token str \<longleftrightarrow> \<not> length str > CLI_TUN_PASSWD"

definition chk_rip_password :: "string \<Rightarrow> string \<Rightarrow> bool" where
  "chk_rip_password token str \<longleftrightarrow> \<not> length str > CLI_RIP_PASSWD"

definition chk_ospf_password :: "string \<Rightarrow> string \<Rightarrow> bool" where
  "chk_ospf_password token str \<longleftrightarrow> \<not> length str > CLI_OSPF_PASSWD"

definition chk_ospf_md5_password :: "string \<Rightarrow> string \<Rightarrow> bool" where
  "chk_ospf_md5_password token str \<longleftrightarrow> \<not> length str > CLI_OSPF_MD5_PASSWD"

definition chk_snmp_community :: "string \<Rightarrow> string \<Rightarrow> bool" where
  "chk_snmp_community token str \<longleftrightarrow> \<not> length str > CLI_SNMP_MAX_COMMUNITY"

definition chk_administrator :: "string \<Rightarrow> string \<Rightarrow> bool" where
  "chk_administrator token str \<longleftrightarrow> \<not> length str > CLI_MAX_ADMIN_NAME"

definition chk_password :: "string \<Rightarrow> string \<Rightarrow> bool" where
  "chk_password token str \<longleftrightarrow> \<not> length str > CLI_MAX_PASSWD"

definition chk_hostname :: "string \<Rightarrow> string \<Rightarrow> bool" where
  "chk_hostname token str = (if length str > CLI_MAX_HOSTNAME then False else \<not> rcpInputNotClean str)"

definition chk_tunnel_name :: "string \<Rightarrow> string \<Rightarrow> bool" where
  "chk_tunnel_name token str = (if length str > CLI_MAX_TUNNEL_NAME then False else \<not> rcpInputNotClean str)"

definition chk_domain_name :: "string \<Rightarrow> string \<Rightarrow> bool" where
  "chk_domain_name token str = (if length str > CLI_DOMAIN_NAME then False else if rcpInputNotClean str then False else CHR ''@'' \<notin> set str)"

definition chk_userathost :: "string \<Rightarrow> string \<Rightarrow> bool" where
  "chk_userathost token str =
     (if str = [] then False
      else if rcpInputNotClean str then False
      else if hd str = CHR ''@'' then False
      else (case dropWhile (\<lambda>c. c \<noteq> CHR ''@'') str of [] \<Rightarrow> False | _ # host \<Rightarrow> host \<noteq> []))"

section \<open>Files\<close>

definition bad_chars :: string where
  "bad_chars = [CHR 0x5C] @ ''*&!?'' @ [CHR 0x22, CHR 0x27] @ ''<>%^(){}[];, ''"

definition chk_file :: "string \<Rightarrow> string \<Rightarrow> bool" where
  "chk_file token str = (if list_ex (\<lambda>c. c \<in> set bad_chars) str then False else take 1 str \<noteq> ''.'')"

definition chk_existing_file :: "(string \<Rightarrow> bool) \<Rightarrow> string \<Rightarrow> string \<Rightarrow> bool" where
  "chk_existing_file regular token str = (if \<not> chk_file token str then False else regular str)"

definition chk_tftp_file :: "string \<Rightarrow> string \<Rightarrow> bool" where
  "chk_tftp_file token str =
     (if take 7 str \<noteq> ''tftp://'' then False else if \<not> chk_file token str then False else CHR ''/'' \<in> set (drop 7 str))"

text \<open>\<open>strchr\<close>: the rest from the first such character on.\<close>

definition strchr :: "char \<Rightarrow> string \<Rightarrow> string option" where
  "strchr c s = (let r = dropWhile (\<lambda>x. x \<noteq> c) s in if r = [] then None else Some r)"

definition url_file :: "string \<Rightarrow> string \<Rightarrow> string \<Rightarrow> bool" where
  "url_file scheme token str =
     (let n = length scheme; p = drop n str
      in if take n str \<noteq> scheme then False
         else if \<not> chk_file token str then False
         else (case Option.bind (Option.bind (strchr CHR '':'' p) (strchr CHR ''@'')) (strchr CHR ''/'') of
                 None \<Rightarrow> False
               | Some _ \<Rightarrow> length (filter (\<lambda>c. c = CHR ''@'') p) \<le> 1 \<and> length (filter (\<lambda>c. c = CHR '':'') p) \<le> 1))"

definition chk_ftp_file :: "string \<Rightarrow> string \<Rightarrow> bool" where
  "chk_ftp_file token str = url_file ''ftp://'' token str"

definition chk_sftp_file :: "string \<Rightarrow> string \<Rightarrow> bool" where
  "chk_sftp_file token str = url_file ''sftp://'' token str"

section \<open>Addresses\<close>

definition is_cidr_format :: "string \<Rightarrow> bool" where
  "is_cidr_format str =
     (if \<not> list_all (\<lambda>c. c = CHR ''.'' \<or> c = CHR ''/'' \<or> is_digit c) str then False
      else if length (filter (\<lambda>c. c = CHR ''.'') str) \<noteq> 3 then False
      else if length (filter (\<lambda>c. c = CHR ''/'') str) \<noteq> 1 then False
      else length (scan_seq scan_d ''.../'' str) = 5)"

definition dotted_format :: "string \<Rightarrow> bool" where
  "dotted_format str \<longleftrightarrow> list_all (\<lambda>c. c = CHR ''.'' \<or> is_digit c) str \<and> length (filter (\<lambda>c. c = CHR ''.'') str) = 3"

definition chk_ip :: "string \<Rightarrow> string \<Rightarrow> bool" where
  "chk_ip token str =
     (if is_cidr_format str then False
      else if \<not> dotted_format str then False
      else let vs = scan_seq scan_d ''...'' str
           in if length vs \<noteq> 4 \<or> list_ex (\<lambda>v. sint v < 0) vs then False
              else if list_ex (\<lambda>v. sint v > 255) vs then False
              else let ip = (case atoip str of None \<Rightarrow> 0 | Some ip \<Rightarrow> ip) in \<not> (isMulticast ip \<or> isBroadcast ip))"

definition chk_mac :: "string \<Rightarrow> string \<Rightarrow> bool" where
  "chk_mac token str = (let vs = scan_seq scan_x '':::::'' str in \<not> (length vs \<noteq> 6 \<or> list_ex (\<lambda>v. v > 255) vs))"

text \<open>The loop over the bits of the mask is that of \<open>maskContiguous\<close>.\<close>

definition chk_mask :: "string \<Rightarrow> string \<Rightarrow> bool" where
  "chk_mask token str =
     (if is_cidr_format str then False
      else if \<not> dotted_format str then False
      else (case scan_seq scan_d ''...'' str of
              [a, b, c, d] \<Rightarrow> if list_ex (\<lambda>v. v > 255) [a, b, c, d] then False else maskContiguous_loop 32 0x80000000 (quad a b c d) False
            | _ \<Rightarrow> False))"

definition cidr_values :: "string \<Rightarrow> bool" where
  "cidr_values str =
     (case scan_seq scan_d ''.../'' str of [a, b, c, d, e] \<Rightarrow> \<not> (list_ex (\<lambda>v. v > 255) [a, b, c, d] \<or> e > 32) | _ \<Rightarrow> False)"

definition chk_cidr :: "string \<Rightarrow> string \<Rightarrow> bool" where
  "chk_cidr token str =
     (if \<not> is_cidr_format str then False
      else if \<not> cidr_values str then False
      else let ip = (case atocidr str of None \<Rightarrow> 0 | Some (ip, _) \<Rightarrow> ip) in \<not> (isMulticast ip \<or> isBroadcast ip))"

definition chk_cidrloopback :: "string \<Rightarrow> string \<Rightarrow> bool" where
  "chk_cidrloopback token str = (if \<not> is_cidr_format str then False else cidr_values str)"

definition chk_cidrnet :: "string \<Rightarrow> string \<Rightarrow> bool" where
  "chk_cidrnet token str =
     (if \<not> is_cidr_format str then False
      else if \<not> cidr_values str then False
      else (case atocidr str of None \<Rightarrow> False | Some (ip, msk) \<Rightarrow> if ip AND NOT msk \<noteq> 0 then False else \<not> isMulticast ip))"

section \<open>Ranges\<close>

definition isnum :: "string \<Rightarrow> bool" where
  "isnum str \<longleftrightarrow> str \<noteq> [] \<and> list_all is_digit str"

text \<open>The two numbers of the token, behind its first three characters, which the table has checked.\<close>

definition chk_int2 :: "string \<Rightarrow> string \<Rightarrow> bool" where
  "chk_int2 token str =
     (case scan_seq scan_d '','' (drop 3 token) of
        [a, b] \<Rightarrow> if \<not> isnum str then False else (case scan_d str of Some (v, _) \<Rightarrow> \<not> (sint v < sint a \<or> sint v > sint b) | None \<Rightarrow> False)
      | _ \<Rightarrow> False)"

definition chk_uint2 :: "string \<Rightarrow> string \<Rightarrow> bool" where
  "chk_uint2 token str =
     (case scan_seq scan_u '','' (drop 3 token) of
        [a, b] \<Rightarrow> if \<not> isnum str then False else (case scan_u str of Some (v, _) \<Rightarrow> \<not> (v < a \<or> v > b) | None \<Rightarrow> False)
      | _ \<Rightarrow> False)"

definition chk_string2 :: "string \<Rightarrow> string \<Rightarrow> bool" where
  "chk_string2 token str =
     (case scan_seq scan_u '','' (drop 3 token) of
        [a, b] \<Rightarrow> (let len = word_of_nat (length str) :: u32 in \<not> (len < a \<or> len > b))
      | _ \<Rightarrow> False)"

definition num_range :: "int \<Rightarrow> int \<Rightarrow> string \<Rightarrow> string \<Rightarrow> bool" where
  "num_range lo hi token str =
     (if \<not> list_all is_digit str then False else (case scan_d str of Some (v, _) \<Rightarrow> \<not> (sint v < lo \<or> sint v > hi) | None \<Rightarrow> False))"

definition chk_port :: "string \<Rightarrow> string \<Rightarrow> bool" where
  "chk_port token str = num_range 1 65535 token str"

definition chk_icmp_type :: "string \<Rightarrow> string \<Rightarrow> bool" where
  "chk_icmp_type token str = num_range 0 255 token str"

definition chk_interface :: "RcpInterface list \<Rightarrow> string \<Rightarrow> string \<Rightarrow> bool" where
  "chk_interface intfs token str =
     (if length str > RCP_MAX_IF_NAME then False else list_ex (\<lambda>i. if_name i \<noteq> [] \<and> \<not> rcpInterfaceVirtual (if_name i) \<and> str = if_name i) intfs)"

text \<open>\<open>strtok\<close>: the nonempty pieces between the separators.\<close>

fun strtok_pieces :: "char \<Rightarrow> string \<Rightarrow> string \<Rightarrow> string list" where
  "strtok_pieces sep cur [] = (if cur = [] then [] else [cur])"
| "strtok_pieces sep cur (c # s) = (if c = sep then (if cur = [] then [] else [cur]) @ strtok_pieces sep [] s else strtok_pieces sep (cur @ [c]) s)"

definition chk_constate :: "string \<Rightarrow> string \<Rightarrow> bool" where
  "chk_constate token str = list_all (\<lambda>p. p \<in> {''new'', ''established'', ''related'', ''invalid''}) (strtok_pieces CHR '','' [] str)"

section \<open>The table\<close>

record cli_env =
  ce_intfs :: "RcpInterface list"
  ce_regular :: "string \<Rightarrow> bool"

definition chk :: "cli_env \<Rightarrow> (string \<times> nat \<times> (string \<Rightarrow> string \<Rightarrow> bool)) list" where
  "chk env =
     [(''<i, numbers here...>'', 3, chk_int2), (''<u, numbers here...>'', 3, chk_uint2), (''<s, numbers here...>'', 3, chk_string2), (''<word>'', 6, chk_word),
      (''<existing-file>'', 15, chk_existing_file (ce_regular env)), (''<tftp-file>'', 11, chk_tftp_file), (''<ftp-file>'', 10, chk_ftp_file),
      (''<sftp-file>'', 11, chk_sftp_file), (''<file>'', 6, chk_file), (''<interface>'', 11, chk_interface (ce_intfs env)),
      (''<interface2>'', 11, chk_interface (ce_intfs env)), (''<hostname>'', 10, chk_hostname), (''<tunnel-name>'', 13, chk_tunnel_name),
      (''<domain>'', 8, chk_domain_name), (''<userathost>'', 12, chk_userathost), (''<administrator>'', 15, chk_administrator),
      (''<password>'', 10, chk_password), (''<tun-password>'', 14, chk_tun_password), (''<rip-password>'', 14, chk_rip_password),
      (''<ospf-password>'', 15, chk_ospf_password), (''<ospf-md5-password>'', 19, chk_ospf_md5_password), (''<snmp-password>'', 15, chk_snmp_password),
      (''<snmp-community>'', 16, chk_snmp_community), (''<mac>'', 5, chk_mac), (''<ip>'', 4, chk_ip), (''<ip1>'', 4, chk_ip), (''<ip2>'', 4, chk_ip),
      (''<mask>'', 6, chk_mask), (''<ipnexthop>'', 11, chk_ip), (''<cidr>'', 6, chk_cidr), (''<cidrloopback>'', 6, chk_cidrloopback), (''<cidrnet>'', 9, chk_cidrnet),
      (''<cidrnet-destination>'', 21, chk_cidrnet), (''<port>'', 6, chk_port), (''<port-destination>'', 18, chk_port),
      (''<connection-state>'', 18, chk_constate), (''<icmp-type>'', 11, chk_icmp_type)]"

text \<open>The first entry whose format the token has decides. The word that is the token itself is accepted.\<close>

definition cliCheckSpecial :: "cli_env \<Rightarrow> string \<Rightarrow> string \<Rightarrow> bool" where
  "cliCheckSpecial env token str =
     (case find (\<lambda>(format, cnt, _). take cnt token = take cnt format) (chk env) of
        None \<Rightarrow> False
      | Some (_, _, f) \<Rightarrow> if token = str then True else f token str)"

end
