(* ===== verification/Cli_Tree.thy ===== *)
theory Cli_Tree
  imports Cli_Special
begin

text \<open>
  The tree of commands (\<^verbatim>\<open>librcp/parser_add.c\<close>, \<^verbatim>\<open>librcp/parser_find.c\<close>). A node has a token, a chain of nodes that follow it in a command
  (\<open>rule\<close>) and, in its own chain, the alternatives (\<open>next\<close>); a chain is a list of nodes. The memory comes out of the shared segment:
  the outcome of the allocations is a function of their number, an argument of the operations. The texts for the user and the output modifiers are
  not modelled, so the tree is that before \<open>cliParserAddOM\<close>. Words are shorter than \<open>CLI_MAX_LINE\<close>, and no command is added for no mode at all.
\<close>

section \<open>Data\<close>

type_synonym CliMode = "64 word"

datatype CliNode = CliNode (cn_token: "string option") (cn_mode: CliMode) (cn_exe: nat) (cn_exe_mode: CliMode) (cn_owner: u32) (cn_rule: "CliNode list")

record CliParserOp =
  op_word :: string
  word_multimatch :: string
  word_completed :: string
  last_node_match :: "CliNode option"
  op_depth :: nat

definition create_node :: "CliMode \<Rightarrow> u32 \<Rightarrow> CliNode" where
  "create_node mode owner = CliNode None mode 0 0 owner []"

definition set_token :: "string \<Rightarrow> CliNode \<Rightarrow> CliNode" where
  "set_token w x = CliNode (Some w) (cn_mode x) (cn_exe x) (cn_exe_mode x) (cn_owner x) (cn_rule x)"

text \<open>The words of a line.\<close>

definition cli_words :: "string \<Rightarrow> string list" where
  "cli_words str = strtok_pieces CHR '' '' [] str"

section \<open>Adding a command\<close>

text \<open>The position of the node for a word in a chain: the first node gets the word if it has none, a node with the word is taken, or a new one is
  put at the end of the chain. \<open>None\<close> if there is no memory.\<close>

definition head_token :: "(nat \<Rightarrow> bool) \<Rightarrow> nat \<Rightarrow> CliNode list \<Rightarrow> string \<Rightarrow> bool \<times> nat \<times> CliNode list" where
  "head_token al n chain w =
     (case chain of
        x # xs \<Rightarrow> if cn_token x = None then if al n then (True, Suc n, set_token w x # xs) else (False, Suc n, chain) else (True, n, chain)
      | [] \<Rightarrow> (True, n, chain))"

definition place_word :: "(nat \<Rightarrow> bool) \<Rightarrow> CliMode \<Rightarrow> u32 \<Rightarrow> nat \<Rightarrow> CliNode list \<Rightarrow> string \<Rightarrow> nat option \<times> nat \<times> CliNode list" where
  "place_word al mode owner n chain w =
     (case head_token al n chain w of
        (ok, n, chain) \<Rightarrow>
          if \<not> ok then (None, n, chain)
          else (case find_pos (\<lambda>x. cn_token x = Some w \<and> cn_mode x \<noteq> 0) chain of
                  Some i \<Rightarrow> (Some i, n, chain)
                | None \<Rightarrow>
                    if \<not> al n then (None, Suc n, chain)
                    else if \<not> al (Suc n) then (None, n + 2, chain)
                    else (Some (length chain), n + 2, chain @ [set_token w (create_node mode owner)])))"

text \<open>\<open>True\<close> for an error. The last word makes its node executable, every other word leads into the chain behind its node.\<close>

fun cliParserAddCmd_internal :: "(nat \<Rightarrow> bool) \<Rightarrow> CliMode \<Rightarrow> u32 \<Rightarrow> nat \<Rightarrow> CliNode list \<Rightarrow> string list \<Rightarrow> bool \<times> nat \<times> CliNode list" where
  "cliParserAddCmd_internal al mode owner n chain [] = (False, n, chain)"
| "cliParserAddCmd_internal al mode owner n chain (w # ws) =
     (case place_word al mode owner n chain w of
        (None, n, chain) \<Rightarrow> (True, n, chain)
      | (Some i, n, chain) \<Rightarrow>
          (case chain ! i of
             CliNode t md ex em ow rule \<Rightarrow>
               if ws = [] then (False, n, chain[i := CliNode t (md OR mode) (ex + 1) (em OR mode) (ow OR owner) rule])
               else if rule = [] \<and> \<not> al n then (True, Suc n, chain[i := CliNode t (md OR mode) ex em ow rule])
               else (case cliParserAddCmd_internal al mode owner (if rule = [] then Suc n else n)
                            (if rule = [] then [create_node mode owner] else rule) ws of
                       (e, n, rule) \<Rightarrow> (e, n, chain[i := CliNode t (md OR mode) ex em ow rule]))))"

definition cliParserAddCmd :: "(nat \<Rightarrow> bool) \<Rightarrow> CliMode \<Rightarrow> u32 \<Rightarrow> nat \<Rightarrow> CliNode list \<Rightarrow> string \<Rightarrow> bool \<times> nat \<times> CliNode list" where
  "cliParserAddCmd al mode owner n chain str = cliParserAddCmd_internal al mode owner n chain (cli_words str)"

section \<open>Finding a command\<close>

text \<open>The walk along a chain reads the token of every node; it crashes (\<open>None\<close>) at a node without one.\<close>

fun first_match :: "(string \<Rightarrow> CliNode \<Rightarrow> bool) \<Rightarrow> CliNode list \<Rightarrow> CliNode option option" where
  "first_match P [] = Some None"
| "first_match P (x # xs) =
     (case cn_token x of None \<Rightarrow> None | Some t \<Rightarrow> if P t x then Some (Some x) else first_match P xs)"

definition is_special :: "string \<Rightarrow> bool" where
  "is_special t \<longleftrightarrow> take 1 t = ''<''"

definition node_token :: "CliNode \<Rightarrow> string" where
  "node_token x = (case cn_token x of None \<Rightarrow> [] | Some t \<Rightarrow> t)"

definition prefix_match :: "CliMode \<Rightarrow> string \<Rightarrow> CliNode \<Rightarrow> bool" where
  "prefix_match mode w x \<longleftrightarrow> \<not> is_special (node_token x) \<and> cn_mode x AND mode \<noteq> 0 \<and> take (length w) (node_token x) = w"

definition find_token :: "cli_env \<Rightarrow> CliMode \<Rightarrow> CliNode list \<Rightarrow> string \<Rightarrow> CliParserOp \<Rightarrow> (CliNode option \<times> CliParserOp) option" where
  "find_token env mode chain w p =
     (case first_match (\<lambda>t x. \<not> is_special t \<and> cn_mode x AND mode \<noteq> 0 \<and> w = t) chain of
        None \<Rightarrow> None
      | Some (Some x) \<Rightarrow> Some (Some x, p\<lparr>word_completed := word_completed p @ node_token x @ '' ''\<rparr>)
      | Some None \<Rightarrow>
          (case first_match (\<lambda>t x. is_special t \<and> cn_mode x AND mode \<noteq> 0 \<and> cliCheckSpecial env t w) chain of
             None \<Rightarrow> None
           | Some (Some x) \<Rightarrow> Some (Some x, p\<lparr>word_completed := word_completed p @ w @ '' ''\<rparr>)
           | Some None \<Rightarrow>
               let ms = filter (prefix_match mode w) chain;
                   p = p\<lparr>word_multimatch := concat (map (\<lambda>x. node_token x @ '' '') ms)\<rparr>
               in (case ms of
                     [x] \<Rightarrow> Some (Some x, p\<lparr>word_completed := word_completed p @ node_token x @ '' ''\<rparr>)
                   | _ \<Rightarrow> Some (None, p))))"

fun cliParserFindCmd_internal :: "cli_env \<Rightarrow> CliMode \<Rightarrow> CliNode list \<Rightarrow> string list \<Rightarrow> CliParserOp \<Rightarrow> (CliNode option \<times> CliParserOp) option" where
  "cliParserFindCmd_internal env mode chain [] p = Some (None, p\<lparr>word_multimatch := []\<rparr>)"
| "cliParserFindCmd_internal env mode chain (w # ws) p =
     (case find_token env mode chain w (p\<lparr>word_multimatch := [], op_word := w\<rparr>) of
        None \<Rightarrow> None
      | Some (None, p) \<Rightarrow> Some (None, p)
      | Some (Some x, p) \<Rightarrow>
          let p = p\<lparr>last_node_match := Some x, op_depth := op_depth p + 1\<rparr>
          in if ws = [] then Some (Some x, p)
             else if cn_rule x = [] then Some (None, p)
             else cliParserFindCmd_internal env mode (cn_rule x) ws p)"

definition cliParserFindCmd :: "cli_env \<Rightarrow> CliMode \<Rightarrow> CliNode list \<Rightarrow> string \<Rightarrow> CliParserOp \<Rightarrow> (CliNode option \<times> CliParserOp) option" where
  "cliParserFindCmd env mode chain str p =
     cliParserFindCmd_internal env mode chain (cli_words str) (p\<lparr>word_completed := [], last_node_match := None, word_multimatch := [], op_depth := 0\<rparr>)"

end
