(* ===== verification/Cli_SpecialProps.thy ===== *)
theory Cli_SpecialProps
  imports Cli_Special
begin

text \<open>
  What the special tokens of the command line accept: numbers in their range, networks, names that are safe in
  a call of the shell, and two things that they should not accept.
\<close>

lemma scan_d_dec:
  assumes "n < 2 ^ 63" "r = [] \<or> \<not> is_digit (hd r)"
  shows "scan_d (dec n @ r) = Some (word_of_nat n, r)"
proof -
  obtain c ds where c: "dec n = c # ds" by (cases "dec n") auto
  have dig: "is_digit c" using digits_dec [of n] by (simp add: c)
  have tw: "takeWhile is_digit (dec n @ r) = dec n" "dropWhile is_digit (dec n @ r) = r"
    using digits_dec [of n] assms(2) by (cases r; simp add: takeWhile_append dropWhile_append)+
  have "strtol_val False (dec n) = int n" using assms(1) by (simp add: strtol_val_def value_dec)
  then show ?thesis using digit_not_special [OF dig] tw unfolding scan_d_def by (simp add: c Let_def)
qed

lemma scan_seq_d:
  "n < 2 ^ 63 \<Longrightarrow> \<not> is_digit c \<Longrightarrow> scan_seq scan_d (c # cs) (dec n @ c # r) = word_of_nat n # scan_seq scan_d cs r"
  "n < 2 ^ 63 \<Longrightarrow> r = [] \<or> \<not> is_digit (hd r) \<Longrightarrow> scan_seq scan_d [] (dec n @ r) = [word_of_nat n]"
  by (subst scan_seq.simps; simp add: scan_d_dec)+

lemma scan_seq_u:
  "n < 2 ^ 32 \<Longrightarrow> \<not> is_digit c \<Longrightarrow> scan_seq scan_u (c # cs) (dec n @ c # r) = word_of_nat n # scan_seq scan_u cs r"
  "n < 2 ^ 32 \<Longrightarrow> r = [] \<or> \<not> is_digit (hd r) \<Longrightarrow> scan_seq scan_u [] (dec n @ r) = [word_of_nat n]"
  by (subst scan_seq.simps; simp add: scan_u_dec)+

lemma isnum_dec [simp]: "isnum (dec n)"
  using digits_dec [of n] by (simp add: isnum_def list_all_iff)

lemma other_not_digit [simp]: "\<not> is_digit CHR '',''" "\<not> is_digit CHR ''>''"
  by (simp_all add: is_digit_def)

section \<open>Ranges\<close>

definition range_token :: "char \<Rightarrow> nat \<Rightarrow> nat \<Rightarrow> string" where
  "range_token c a b = [CHR ''<'', c, CHR '',''] @ dec a @ '','' @ dec b @ ''>''"

lemma dec_not_token: "dec n \<noteq> range_token c a b"
proof
  assume "dec n = range_token c a b"
  then have "CHR ''<'' \<in> set (dec n)" by (simp add: range_token_def)
  then show False using digits_dec [of n] by (auto simp: is_digit_def)
qed

lemma sint_small: "m < 2 ^ 31 \<Longrightarrow> sint (word_of_nat m :: u32) = int m"
proof -
  assume m: "m < 2 ^ 31"
  have "sint (word_of_nat m :: u32) = signed_take_bit 31 (int m)" by (simp add: signed_of_nat)
  also have "\<dots> = int m" using m by (intro signed_take_bit_int_eq_self) simp_all
  finally show ?thesis .
qed

text \<open>C25: a number is accepted for a token \<open><i,a,b>\<close> or \<open><u,a,b>\<close> exactly if it lies in the range, as long as it fits into an \<open>int\<close>.\<close>

theorem range_tokens:
  assumes "c \<in> {CHR ''i'', CHR ''u''}" "a < 2 ^ 31" "b < 2 ^ 31" "n < 2 ^ 31"
  shows "cliCheckSpecial env (range_token c a b) (dec n) \<longleftrightarrow> a \<le> n \<and> n \<le> b"
proof -
  have i: "scan_seq scan_d '','' (dec a @ '','' @ dec b @ ''>'') = [word_of_nat a, word_of_nat b]" "scan_d (dec n) = Some (word_of_nat n, [])"
    using assms scan_d_dec [of n "[]"] by (simp_all add: scan_seq_d)
  have u: "scan_seq scan_u '','' (dec a @ '','' @ dec b @ ''>'') = [word_of_nat a, word_of_nat b]" "scan_u (dec n) = Some (word_of_nat n, [])"
    using assms scan_u_dec [of n "[]"] by (simp_all add: scan_seq_u)
  have w: "(word_of_nat x :: u32) < word_of_nat y \<longleftrightarrow> x < y" if "x < 2 ^ 31" "y < 2 ^ 31" for x y
    using that by (simp add: word_less_nat_alt unat_of_nat)
  have "chk_int2 (range_token CHR ''i'' a b) (dec n) \<longleftrightarrow> a \<le> n \<and> n \<le> b"
    using i assms(2-4) by (auto simp: chk_int2_def range_token_def sint_small)
  moreover have "chk_uint2 (range_token CHR ''u'' a b) (dec n) \<longleftrightarrow> a \<le> n \<and> n \<le> b"
    using u assms(2-4) by (auto simp: chk_uint2_def range_token_def w)
  moreover have "cliCheckSpecial env (range_token CHR ''i'' a b) (dec n) = chk_int2 (range_token CHR ''i'' a b) (dec n)"
    "cliCheckSpecial env (range_token CHR ''u'' a b) (dec n) = chk_uint2 (range_token CHR ''u'' a b) (dec n)"
    using dec_not_token [of n, symmetric] by (auto simp: cliCheckSpecial_def chk_def range_token_def)
  ultimately show ?thesis using assms(1) by auto
qed

lemmas number_defs = scan_u_def scan_d_def Let_def is_space_def is_digit_def digit_val_def strtoul_val_def strtol_val_def isnum_def

text \<open>A number beyond the type is cut to it: 4294967297 is taken for 1.\<close>

theorem range_wraps: "cliCheckSpecial env ''<u,1,10>'' ''4294967297'' \<and> cliCheckSpecial env ''<i,1,10>'' ''4294967297'' \<and> cliCheckSpecial env ''<port>'' ''4294967376''"
proof -
  have "chk_uint2 ''<u,1,10>'' ''4294967297''" "chk_int2 ''<i,1,10>'' ''4294967297''" "chk_port ''<port>'' ''4294967376''"
    by (simp_all add: chk_uint2_def chk_int2_def chk_port_def num_range_def scan_seq.simps number_defs)
  then show ?thesis by (simp add: cliCheckSpecial_def chk_def)
qed

section \<open>Masks and networks\<close>

lemma print_ip_chars: "list_all (\<lambda>c. c = CHR ''.'' \<or> is_digit c) (print_ip ip)" "length (filter (\<lambda>c. c = CHR ''.'') (print_ip ip)) = 3"
  "length (filter (\<lambda>c. c = CHR ''/'') (print_ip ip)) = 0"
proof -
  have d: "filter (\<lambda>c. c = CHR ''.'') (dec n) = []" "filter (\<lambda>c. c = CHR ''/'') (dec n) = []" "list_all is_digit (dec n)" for n
    using digits_dec [of n] by (auto simp: filter_empty_conv list_all_iff)
  show "list_all (\<lambda>c. c = CHR ''.'' \<or> is_digit c) (print_ip ip)" using d(3) by (auto simp: print_ip_def list_all_iff)
  show "length (filter (\<lambda>c. c = CHR ''.'') (print_ip ip)) = 3" "length (filter (\<lambda>c. c = CHR ''/'') (print_ip ip)) = 0" using d by (simp_all add: print_ip_def)
qed

definition quad_values :: "u32 \<Rightarrow> u32 list" where
  "quad_values ip = [word_of_nat (ip_byte 3 ip), word_of_nat (ip_byte 2 ip), word_of_nat (ip_byte 1 ip), word_of_nat (ip_byte 0 ip)]"

lemma ip_byte_less63: "ip_byte k ip < 9223372036854775808"
  using ip_byte_less [of k ip] by simp

lemma scan_quad:
  assumes "r = [] \<or> \<not> is_digit (hd r)"
  shows "scan_seq scan_d ''...'' (print_ip ip @ r) = quad_values ip"
    "n < 2 ^ 63 \<Longrightarrow> scan_seq scan_d ''.../'' (print_ip ip @ ''/'' @ dec n) = quad_values ip @ [word_of_nat n]"
  using assms scan_seq_d(2) [of n "[]"] unfolding print_ip_def quad_values_def
  by (simp_all add: scan_seq_d ip_byte_less63)

lemma quad_small: "\<not> list_ex (\<lambda>v. v > 255) (quad_values ip)"
  by (simp add: quad_values_def small_word_le ip_byte_less)

text \<open>Every dotted quad is accepted as a mask.\<close>

theorem mask_token_accepts_all: "cliCheckSpecial env ''<mask>'' (print_ip m)"
proof -
  have "\<not> is_cidr_format (print_ip m)" "dotted_format (print_ip m)" using print_ip_chars [of m] by (auto simp: is_cidr_format_def dotted_format_def)
  moreover have "maskContiguous_loop 32 0x80000000 x False" for x using maskContiguous_loop_True [of 31 x] by (simp add: eval_nat_numeral)
  ultimately have "chk_mask ''<mask>'' (print_ip m)"
    using scan_quad(1) [of "[]" m] quad_small [of m] by (simp add: chk_mask_def quad_values_def)
  then show ?thesis by (simp add: cliCheckSpecial_def chk_def)
qed

lemma cidr_token_values:
  assumes "e \<le> 32"
  shows "is_cidr_format (print_cidr ip (cidr_mask e))" "cidr_values (print_cidr ip (cidr_mask e))" "atocidr (print_cidr ip (cidr_mask e)) = Some (ip, cidr_mask e)"
proof -
  have e: "print_cidr ip (cidr_mask e) = print_ip ip @ ''/'' @ dec e" using assms by (simp add: print_cidr_def mask2bits_cidr_mask unat_of_nat)
  have v: "scan_seq scan_d ''.../'' (print_ip ip @ ''/'' @ dec e) = quad_values ip @ [word_of_nat e]" using assms scan_quad(2) [of "[]" e ip] by simp
  have d: "filter (\<lambda>c. c = CHR ''.'') (dec e) = []" "filter (\<lambda>c. c = CHR ''/'') (dec e) = []" "list_all is_digit (dec e)"
    using digits_dec [of e] by (auto simp: filter_empty_conv list_all_iff)
  show "is_cidr_format (print_cidr ip (cidr_mask e))"
    using print_ip_chars [of ip] d v unfolding e by (auto simp: is_cidr_format_def list_all_iff quad_values_def)
  have le: "\<not> (32 :: u32) < word_of_nat e" "unat (word_of_nat e :: u32) = e" using assms by (simp_all add: word_less_nat_alt unat_of_nat)
  show "cidr_values (print_cidr ip (cidr_mask e))" using v quad_small [of ip] le(1) unfolding e cidr_values_def by (simp add: quad_values_def)
  have "scan_u (dec e @ []) = Some (word_of_nat e, [])" using assms by (intro scan_u_dec) simp_all
  then show "atocidr (print_cidr ip (cidr_mask e)) = Some (ip, cidr_mask e)"
    using le by (simp add: atocidr_def e scan_dotted_print_ip small_word_le ip_byte_less quad_ip_bytes)
qed

text \<open>A prefix is accepted as a network exactly if its host bits are zero and it is not multicast, and as the address of an interface exactly if it is neither multicast nor
  a broadcast address.\<close>

theorem network_tokens:
  assumes "e \<le> 32"
  shows "(cliCheckSpecial env ''<cidrnet>'' (print_cidr ip (cidr_mask e)) \<longleftrightarrow> ip AND NOT (cidr_mask e) = 0 \<and> \<not> isMulticast ip) \<and>
    (cliCheckSpecial env ''<cidr>'' (print_cidr ip (cidr_mask e)) \<longleftrightarrow> \<not> isMulticast ip \<and> \<not> isBroadcast ip)"
proof -
  note v = cidr_token_values [OF assms, of ip]
  obtain c s where c: "print_cidr ip (cidr_mask e) = c # s" "is_digit c"
    using digits_dec [of "ip_byte 3 ip"] by (cases "dec (ip_byte 3 ip)") (auto simp: print_cidr_def print_ip_def)
  then have n: "''<cidrnet>'' \<noteq> print_cidr ip (cidr_mask e)" "''<cidr>'' \<noteq> print_cidr ip (cidr_mask e)" by (auto simp: is_digit_def)
  have "cliCheckSpecial env ''<cidrnet>'' (print_cidr ip (cidr_mask e)) = chk_cidrnet ''<cidrnet>'' (print_cidr ip (cidr_mask e))"
    "cliCheckSpecial env ''<cidr>'' (print_cidr ip (cidr_mask e)) = chk_cidr ''<cidr>'' (print_cidr ip (cidr_mask e))"
    using n by (simp_all add: cliCheckSpecial_def chk_def del: One_nat_def)
  then show ?thesis using v by (auto simp: chk_cidrnet_def chk_cidr_def Let_def)
qed

section \<open>Names\<close>

lemma clean_iff: "\<not> rcpInputNotClean str \<longleftrightarrow> set str \<subseteq> set ok_chars"
  by (auto simp: rcpInputNotClean_def dropWhile_eq_Nil_conv)


end
