(* ===== verification/Dhcp_Lease.thy ===== *)
theory Dhcp_Lease
  imports Prelude
begin

text \<open>
  The leases of the DHCP server (\<open>dhcp/exec/lease.h\<close>, \<open>dhcp/exec/lease.c\<close>). A lease is linked into three
  hash tables, by hardware address, by IP address and by the time it expires. Leases live in a store by
  address, the chains of the tables are lists of addresses. The lease file and the temporary file it is
  replaced with are lists of records. Failed \<open>ASSERT\<close>s are counted.
\<close>

section \<open>Hash functions\<close>

definition LEASE_MAC_HASH_MAX :: nat where [simp]: "LEASE_MAC_HASH_MAX = 4096"
definition LEASE_TSTAMP_HASH_MAX :: nat where [simp]: "LEASE_TSTAMP_HASH_MAX = 256"
definition DHCP_OFFER_LEASE_TIME :: int where [simp]: "DHCP_OFFER_LEASE_TIME = 20"

definition hash_mac :: "u8 list \<Rightarrow> nat" where
  "hash_mac mac =
     (let msb = mac ! 0 XOR mac ! 2 XOR mac ! 4; lsb = mac ! 1 XOR mac ! 3 XOR mac ! 5;
          hash = push_bit 8 (ucast msb :: u16) + ucast lsb
      in unat (hash AND 0xfff))"

text \<open>0 if the addresses are equal.\<close>

definition compare_mac :: "u8 list \<Rightarrow> u8 list \<Rightarrow> int" where
  "compare_mac mac1 mac2 =
     (if mac1 ! 0 = mac2 ! 0 \<and> mac1 ! 1 = mac2 ! 1 \<and> mac1 ! 2 = mac2 ! 2 \<and>
         mac1 ! 3 = mac2 ! 3 \<and> mac1 ! 4 = mac2 ! 4 \<and> mac1 ! 5 = mac2 ! 5 then 0 else 1)"

definition jenkins_step :: "u32 \<Rightarrow> u8 \<Rightarrow> u32" where
  "jenkins_step h b = (let h = h + ucast b; h = h + push_bit 10 h in h XOR drop_bit 6 h)"

text \<open>The bytes of the address in memory order on a little-endian machine.\<close>

definition hash_ip :: "u32 \<Rightarrow> nat" where
  "hash_ip ip =
     (let h = foldl jenkins_step 0 [ucast ip, ucast (drop_bit 8 ip), ucast (drop_bit 16 ip), ucast (drop_bit 24 ip)];
          h = h + push_bit 3 h; h = h XOR drop_bit 11 h; h = h + push_bit 15 h
      in unat (h AND 0xfff))"

definition hash_tstamp :: "int \<Rightarrow> nat" where
  "hash_tstamp tstamp = nat (tstamp AND 0xff)"

section \<open>The tables\<close>

record Lease =
  le_ip :: u32
  le_mask :: u32
  le_mac :: "u8 list"
  le_tstamp :: int
  le_lease :: u32
  le_tid :: u32
  le_declined :: bool

record LeaseStore =
  st_ip :: u32
  st_mask :: u32
  st_mac :: "u8 list"
  st_tstamp :: int
  st_lease :: u32

record lease_db =
  ls_mem :: "nat \<Rightarrow> Lease"
  ls_new :: nat
  ht_mac :: "nat \<Rightarrow> nat list"
  ht_ip :: "nat \<Rightarrow> nat list"
  ht_tstamp :: "nat \<Rightarrow> nat list"
  ls_file :: "LeaseStore list"
  ls_tmp :: "LeaseStore list"
  ls_asserts :: nat

text \<open>The time, and whether memory is available for a lease and for a packet, the lease file can be read and written, and the command that
  renames the temporary file can be started.\<close>

record lease_env =
  en_now :: int
  en_malloc :: bool
  en_malloc_pkt :: bool
  en_read :: bool
  en_write :: bool
  en_system :: bool

definition lease_assert :: "lease_db \<Rightarrow> lease_db" where
  "lease_assert db = db\<lparr>ls_asserts := Suc (ls_asserts db)\<rparr>"

definition upd_lease :: "nat \<Rightarrow> (Lease \<Rightarrow> Lease) \<Rightarrow> lease_db \<Rightarrow> lease_db" where
  "upd_lease a f db = db\<lparr>ls_mem := (ls_mem db)(a := f (ls_mem db a))\<rparr>"

definition add_mac :: "nat \<Rightarrow> lease_db \<Rightarrow> lease_db" where
  "add_mac a db = (let h = hash_mac (le_mac (ls_mem db a)) in db\<lparr>ht_mac := (ht_mac db)(h := a # ht_mac db h)\<rparr>)"

definition add_ip :: "nat \<Rightarrow> lease_db \<Rightarrow> lease_db" where
  "add_ip a db = (let h = hash_ip (le_ip (ls_mem db a)) in db\<lparr>ht_ip := (ht_ip db)(h := a # ht_ip db h)\<rparr>)"

definition add_tstamp :: "nat \<Rightarrow> lease_db \<Rightarrow> lease_db" where
  "add_tstamp a db = (let h = hash_tstamp (le_tstamp (ls_mem db a)) in db\<lparr>ht_tstamp := (ht_tstamp db)(h := a # ht_tstamp db h)\<rparr>)"

definition remove_mac :: "nat \<Rightarrow> lease_db \<Rightarrow> lease_db" where
  "remove_mac a db =
     (let h = hash_mac (le_mac (ls_mem db a))
      in if a \<in> set (ht_mac db h) then db\<lparr>ht_mac := (ht_mac db)(h := remove1 a (ht_mac db h))\<rparr> else lease_assert db)"

definition remove_ip :: "nat \<Rightarrow> lease_db \<Rightarrow> lease_db" where
  "remove_ip a db =
     (let h = hash_ip (le_ip (ls_mem db a))
      in if a \<in> set (ht_ip db h) then db\<lparr>ht_ip := (ht_ip db)(h := remove1 a (ht_ip db h))\<rparr> else lease_assert db)"

definition remove_tstamp :: "nat \<Rightarrow> lease_db \<Rightarrow> lease_db" where
  "remove_tstamp a db =
     (let h = hash_tstamp (le_tstamp (ls_mem db a))
      in if a \<in> set (ht_tstamp db h) then db\<lparr>ht_tstamp := (ht_tstamp db)(h := remove1 a (ht_tstamp db h))\<rparr> else lease_assert db)"

section \<open>Operations\<close>

definition lease_find_mac :: "u8 list \<Rightarrow> lease_db \<Rightarrow> nat option" where
  "lease_find_mac mac db = find (\<lambda>a. compare_mac (le_mac (ls_mem db a)) mac = 0) (ht_mac db (hash_mac mac))"

definition lease_find_ip :: "u32 \<Rightarrow> lease_db \<Rightarrow> nat option" where
  "lease_find_ip ip db = find (\<lambda>a. le_ip (ls_mem db a) = ip) (ht_ip db (hash_ip ip))"

definition lease_add :: "lease_env \<Rightarrow> u8 list \<Rightarrow> u32 \<Rightarrow> int \<Rightarrow> lease_db \<Rightarrow> nat option \<times> lease_db" where
  "lease_add env mac ip tstamp db =
     (if lease_find_mac mac db \<noteq> None then (None, db)
      else if lease_find_ip ip db \<noteq> None then (None, db)
      else if tstamp < en_now env then (None, lease_assert db)
      else if \<not> en_malloc env then (None, db)
      else let a = ls_new db;
               lease = \<lparr>le_ip = ip, le_mask = 0, le_mac = take 6 mac, le_tstamp = tstamp, le_lease = 0, le_tid = 0, le_declined = False\<rparr>;
               db = db\<lparr>ls_mem := (ls_mem db)(a := lease), ls_new := Suc a\<rparr>
           in (Some a, add_tstamp a (add_ip a (add_mac a db))))"

definition lease_delete :: "nat \<Rightarrow> lease_db \<Rightarrow> lease_db" where
  "lease_delete a db = remove_tstamp a (remove_ip a (remove_mac a db))"

definition lease_renew :: "nat \<Rightarrow> int \<Rightarrow> lease_db \<Rightarrow> lease_db" where
  "lease_renew a tstamp db = add_tstamp a (upd_lease a (\<lambda>l. l\<lparr>le_tstamp := tstamp\<rparr>) (remove_tstamp a db))"

text \<open>The walk over the table of hardware addresses; the function stops it with \<open>True\<close>.\<close>

fun walk_chain :: "(nat \<Rightarrow> 's \<Rightarrow> bool \<times> 's) \<Rightarrow> nat list \<Rightarrow> 's \<Rightarrow> bool \<times> 's" where
  "walk_chain f [] s = (False, s)"
| "walk_chain f (a # as) s = (case f a s of (True, s) \<Rightarrow> (True, s) | (False, s) \<Rightarrow> walk_chain f as s)"

definition lease_walk :: "(nat \<Rightarrow> 's \<Rightarrow> bool \<times> 's) \<Rightarrow> lease_db \<Rightarrow> 's \<Rightarrow> 's" where
  "lease_walk f db s = snd (walk_chain f (concat (map (ht_mac db) [0..<LEASE_MAC_HASH_MAX])) s)"

text \<open>The pointer to the next lease of the chain is read before a lease is deleted.\<close>

definition lease_timeout :: "int \<Rightarrow> lease_db \<Rightarrow> lease_db" where
  "lease_timeout now db =
     fold (\<lambda>a db. if le_tstamp (ls_mem db a) \<le> now then lease_delete a db else db) (ht_tstamp db (hash_tstamp now)) db"

section \<open>The lease file\<close>

definition lease_record :: "Lease \<Rightarrow> LeaseStore" where
  "lease_record l = \<lparr>st_ip = le_ip l, st_mask = le_mask l, st_mac = le_mac l, st_tstamp = le_tstamp l, st_lease = le_lease l\<rparr>"

definition lease_store :: "lease_env \<Rightarrow> nat \<Rightarrow> lease_db \<Rightarrow> lease_db" where
  "lease_store env a db = (if en_write env then db\<lparr>ls_file := ls_file db @ [lease_record (ls_mem db a)]\<rparr> else db)"

definition lupdate :: "lease_db \<Rightarrow> nat \<Rightarrow> LeaseStore list \<Rightarrow> bool \<times> LeaseStore list" where
  "lupdate db a f = (False, f @ [lease_record (ls_mem db a)])"

definition lease_file_update :: "lease_env \<Rightarrow> lease_db \<Rightarrow> lease_db" where
  "lease_file_update env db =
     (if \<not> en_write env then db
      else let tmp = lease_walk (lupdate db) db (ls_tmp db)
           in if en_system env then db\<lparr>ls_file := tmp, ls_tmp := []\<rparr> else lease_assert (db\<lparr>ls_tmp := tmp\<rparr>))"

text \<open>The source reads the pointer to the next lease out of the memory it has just freed; the value is
  the one before.\<close>

definition lease_clear_all :: "lease_env \<Rightarrow> lease_db \<Rightarrow> lease_db" where
  "lease_clear_all env db =
     lease_file_update env (fold lease_delete (concat (map (ht_tstamp db) [0..<LEASE_TSTAMP_HASH_MAX])) db)"

text \<open>Reading one record at the start. The message about the new lease is printed also when there is none, which
  ends the process (\<open>None\<close>).\<close>

definition init_lease :: "lease_env \<Rightarrow> LeaseStore \<Rightarrow> lease_db \<Rightarrow> lease_db option" where
  "init_lease env r db =
     (if st_tstamp r \<le> en_now env then Some db
      else let db = (case lease_find_ip (st_ip r) db of None \<Rightarrow> db | Some a \<Rightarrow> lease_delete a db)
           in case lease_add env (st_mac r) (st_ip r) (st_tstamp r) db of
                (None, _) \<Rightarrow> None
              | (Some a, db) \<Rightarrow> Some (upd_lease a (\<lambda>l. l\<lparr>le_mask := st_mask r, le_lease := st_lease r\<rparr>) db))"

fun init_leases :: "lease_env \<Rightarrow> LeaseStore list \<Rightarrow> lease_db \<Rightarrow> lease_db option" where
  "init_leases env [] db = Some db"
| "init_leases env (r # rs) db = (case init_lease env r db of None \<Rightarrow> None | Some db \<Rightarrow> init_leases env rs db)"

definition lease_init :: "lease_env \<Rightarrow> lease_db \<Rightarrow> lease_db option" where
  "lease_init env db =
     (let db = db\<lparr>ht_mac := (\<lambda>_. []), ht_ip := (\<lambda>_. []), ht_tstamp := (\<lambda>_. [])\<rparr>
      in if \<not> en_read env then Some db else map_option (lease_file_update env) (init_leases env (ls_file db) db))"

end
