(* ===== verification/Dhcp_LeaseInv.thy ===== *)
theory Dhcp_LeaseInv
  imports Dhcp_Lease
begin

text \<open>
  The three hash tables of the leases stay in step: an invariant of the lease database, its preservation
  by every operation, and what the lookups return.
\<close>

section \<open>Chains\<close>

text \<open>Every element of \<open>L\<close> is once in the chain of its hash value, and nothing else is.\<close>

definition chained :: "('a \<Rightarrow> nat) \<Rightarrow> (nat \<Rightarrow> 'a list) \<Rightarrow> 'a set \<Rightarrow> bool" where
  "chained f ht L \<longleftrightarrow> (\<forall>h. distinct (ht h)) \<and> (\<forall>h a. a \<in> set (ht h) \<longleftrightarrow> a \<in> L \<and> f a = h)"

lemma chained_add: "chained f ht L \<Longrightarrow> a \<notin> L \<Longrightarrow> chained f (ht(f a := a # ht (f a))) (insert a L)"
  by (auto simp: chained_def)

lemma chained_remove: "chained f ht L \<Longrightarrow> chained f (ht(f a := remove1 a (ht (f a)))) (L - {a})"
  by (auto simp: chained_def)

lemma chained_cong: "(\<And>a. a \<in> L \<Longrightarrow> f a = g a) \<Longrightarrow> chained f ht L \<longleftrightarrow> chained g ht L"
  by (auto simp: chained_def)

lemma chained_mem: "chained f ht L \<Longrightarrow> a \<in> set (ht (f a)) \<longleftrightarrow> a \<in> L"
  by (simp add: chained_def)

lemma find_SomeD: "find P xs = Some a \<Longrightarrow> a \<in> set xs \<and> P a"
  by (auto simp: find_Some_iff)

lemma chained_find:
  assumes "chained (\<lambda>a. hash (key a)) ht L" "inj_on key L"
  shows "find (\<lambda>a. key a = k) (ht (hash k)) = Some a \<longleftrightarrow> a \<in> L \<and> key a = k"
proof
  assume "find (\<lambda>a. key a = k) (ht (hash k)) = Some a"
  then show "a \<in> L \<and> key a = k" using assms(1) find_SomeD [of _ _ a] by (force simp: chained_def)
next
  assume a: "a \<in> L \<and> key a = k"
  then have "a \<in> set (ht (hash k))" using assms(1) by (auto simp: chained_def)
  with a obtain b where b: "find (\<lambda>a. key a = k) (ht (hash k)) = Some b" by (cases "find (\<lambda>a. key a = k) (ht (hash k))") (auto simp: find_None_iff)
  then have "b \<in> L" "key b = k" using assms(1) find_SomeD [OF b] by (auto simp: chained_def)
  then have "b = a" using a assms(2) by (auto simp: inj_on_def)
  with b show "find (\<lambda>a. key a = k) (ht (hash k)) = Some a" by simp
qed

section \<open>The invariant\<close>

definition lease_ok :: "nat set \<Rightarrow> lease_db \<Rightarrow> bool" where
  "lease_ok L db \<longleftrightarrow>
     chained (\<lambda>a. hash_mac (le_mac (ls_mem db a))) (ht_mac db) L \<and>
     chained (\<lambda>a. hash_ip (le_ip (ls_mem db a))) (ht_ip db) L \<and>
     chained (\<lambda>a. hash_tstamp (le_tstamp (ls_mem db a))) (ht_tstamp db) L \<and>
     inj_on (\<lambda>a. le_mac (ls_mem db a)) L \<and> inj_on (\<lambda>a. le_ip (ls_mem db a)) L \<and>
     (\<forall>a \<in> L. a < ls_new db \<and> length (le_mac (ls_mem db a)) = 6)"

definition leases :: "lease_db \<Rightarrow> nat set" where
  "leases db = (\<Union>h. set (ht_mac db h))"

lemma lease_ok_leases: "lease_ok L db \<Longrightarrow> leases db = L"
  by (auto simp: lease_ok_def leases_def chained_def)

lemma six_bytes: "length (m :: u8 list) = 6 \<Longrightarrow> \<exists>a b c d e f. m = [a, b, c, d, e, f]"
  by (auto simp: length_Suc_conv numeral_eq_Suc)

lemma compare_mac_eq:
  assumes "length m1 = 6" "length m2 = 6"
  shows "compare_mac m1 m2 = 0 \<longleftrightarrow> m1 = m2"
  using six_bytes [OF assms(1)] six_bytes [OF assms(2)] by (elim exE) (simp add: compare_mac_def)

lemma find_cong_set: "(\<And>x. x \<in> set xs \<Longrightarrow> P x = Q x) \<Longrightarrow> find P xs = find Q xs"
  by (induction xs) auto

lemma lease_find_mac_iff:
  assumes "lease_ok L db" "length mac = 6"
  shows "lease_find_mac mac db = Some a \<longleftrightarrow> a \<in> L \<and> le_mac (ls_mem db a) = mac"
proof -
  have "lease_find_mac mac db = find (\<lambda>a. le_mac (ls_mem db a) = mac) (ht_mac db (hash_mac mac))"
    unfolding lease_find_mac_def
    by (rule find_cong_set) (use assms in \<open>auto simp: compare_mac_eq lease_ok_def chained_def\<close>)
  then show ?thesis
    using chained_find [of hash_mac "\<lambda>a. le_mac (ls_mem db a)" "ht_mac db" L mac a] assms(1) by (simp add: lease_ok_def)
qed

lemma lease_find_ip_iff: "lease_ok L db \<Longrightarrow> lease_find_ip ip db = Some a \<longleftrightarrow> a \<in> L \<and> le_ip (ls_mem db a) = ip"
  using chained_find [of hash_ip "\<lambda>a. le_ip (ls_mem db a)" "ht_ip db" L ip a] by (simp add: lease_ok_def lease_find_ip_def)

lemma lease_find_ip_None: "lease_ok L db \<Longrightarrow> lease_find_ip ip db = None \<longleftrightarrow> (\<forall>a \<in> L. le_ip (ls_mem db a) \<noteq> ip)"
  using lease_find_ip_iff [of L db ip] by (cases "lease_find_ip ip db") auto

lemma lease_find_mac_None:
  "lease_ok L db \<Longrightarrow> length mac = 6 \<Longrightarrow> lease_find_mac mac db = None \<longleftrightarrow> (\<forall>a \<in> L. le_mac (ls_mem db a) \<noteq> mac)"
  using lease_find_mac_iff [of L db mac] by (cases "lease_find_mac mac db") auto

section \<open>Operations keep the invariant\<close>

lemma lease_ok_fields [simp]:
  "lease_ok L (db\<lparr>ls_file := f\<rparr>) = lease_ok L db" "lease_ok L (db\<lparr>ls_tmp := f\<rparr>) = lease_ok L db"
  "lease_ok L (db\<lparr>ls_asserts := n\<rparr>) = lease_ok L db" "lease_ok L (lease_assert db) = lease_ok L db"
  by (simp_all add: lease_ok_def lease_assert_def)

text \<open>What no operation but the allocation of a new lease changes.\<close>

lemma lease_delete_frame [simp]: "ls_mem (lease_delete a db) = ls_mem db" "ls_new (lease_delete a db) = ls_new db"
  "ls_file (lease_delete a db) = ls_file db" "ls_tmp (lease_delete a db) = ls_tmp db"
  by (simp_all add: lease_delete_def remove_mac_def remove_ip_def remove_tstamp_def lease_assert_def Let_def)

lemma lease_delete_eq:
  assumes "lease_ok L db" "a \<in> L"
  shows "lease_delete a db = db\<lparr>ht_mac := (ht_mac db)(hash_mac (le_mac (ls_mem db a)) := remove1 a (ht_mac db (hash_mac (le_mac (ls_mem db a))))),
     ht_ip := (ht_ip db)(hash_ip (le_ip (ls_mem db a)) := remove1 a (ht_ip db (hash_ip (le_ip (ls_mem db a))))),
     ht_tstamp := (ht_tstamp db)(hash_tstamp (le_tstamp (ls_mem db a)) := remove1 a (ht_tstamp db (hash_tstamp (le_tstamp (ls_mem db a)))))\<rparr>"
  using assms by (simp add: lease_ok_def lease_delete_def remove_mac_def remove_ip_def remove_tstamp_def Let_def chained_def)

lemma lease_delete_ok:
  assumes "lease_ok L db" "a \<in> L"
  shows "lease_ok (L - {a}) (lease_delete a db)" "ls_asserts (lease_delete a db) = ls_asserts db"
proof -
  show "lease_ok (L - {a}) (lease_delete a db)"
    using assms(1) chained_remove [of "\<lambda>a. hash_mac (le_mac (ls_mem db a))" "ht_mac db" L a]
      chained_remove [of "\<lambda>a. hash_ip (le_ip (ls_mem db a))" "ht_ip db" L a]
      chained_remove [of "\<lambda>a. hash_tstamp (le_tstamp (ls_mem db a))" "ht_tstamp db" L a]
    unfolding lease_delete_eq [OF assms] lease_ok_def by (auto intro: inj_on_diff)
  show "ls_asserts (lease_delete a db) = ls_asserts db" unfolding lease_delete_eq [OF assms] by simp
qed

lemma lease_ok_upd:
  assumes "lease_ok L db" "\<And>l. le_mac (f l) = le_mac l" "\<And>l. le_ip (f l) = le_ip l" "\<And>l. le_tstamp (f l) = le_tstamp l"
  shows "lease_ok L (upd_lease a f db)"
proof -
  have "le_mac (ls_mem (upd_lease a f db) b) = le_mac (ls_mem db b)" "le_ip (ls_mem (upd_lease a f db) b) = le_ip (ls_mem db b)"
    "le_tstamp (ls_mem (upd_lease a f db) b) = le_tstamp (ls_mem db b)" for b using assms(2-4) by (simp_all add: upd_lease_def)
  then show ?thesis using assms(1) unfolding lease_ok_def by (simp add: upd_lease_def)
qed

lemma lease_renew_ok:
  assumes "lease_ok L db" "a \<in> L"
  shows "lease_ok L (lease_renew a t db)" "ls_asserts (lease_renew a t db) = ls_asserts db"
    "ls_mem (lease_renew a t db) = (ls_mem db)(a := (ls_mem db a)\<lparr>le_tstamp := t\<rparr>)"
proof -
  let ?h = "\<lambda>b. hash_tstamp (le_tstamp (ls_mem db b))"
  let ?m = "(ls_mem db)(a := (ls_mem db a)\<lparr>le_tstamp := t\<rparr>)"
  let ?ht = "(ht_tstamp db)(?h a := remove1 a (ht_tstamp db (?h a)))"
  have c: "chained ?h (ht_tstamp db) L" using assms(1) by (simp add: lease_ok_def)
  then have m: "a \<in> set (ht_tstamp db (?h a))" using assms(2) by (simp add: chained_def)
  have eq: "lease_renew a t db = db\<lparr>ls_mem := ?m, ht_tstamp := ?ht(hash_tstamp t := a # ?ht (hash_tstamp t))\<rparr>"
    using m by (simp add: lease_renew_def remove_tstamp_def add_tstamp_def upd_lease_def Let_def)
  have "chained (\<lambda>b. hash_tstamp (le_tstamp (?m b))) ?ht (L - {a})"
    using chained_remove [OF c, of a] by (subst chained_cong [of _ _ ?h]) auto
  from chained_add [OF this, of a] assms(2)
  have c': "chained (\<lambda>b. hash_tstamp (le_tstamp (?m b))) (?ht(hash_tstamp t := a # ?ht (hash_tstamp t))) L"
    by (simp add: insert_absorb)
  have "le_mac (?m b) = le_mac (ls_mem db b)" "le_ip (?m b) = le_ip (ls_mem db b)" for b by simp_all
  then show "lease_ok L (lease_renew a t db)"
    using assms(1) c' unfolding eq lease_ok_def by simp
  show "ls_asserts (lease_renew a t db) = ls_asserts db" "ls_mem (lease_renew a t db) = ?m" unfolding eq by simp_all
qed

lemma lease_add_Some:
  assumes ok: "lease_ok L db" and mac: "length mac = 6" and add: "lease_add env mac ip t db = (Some a, db')"
  shows "lease_ok (insert a L) db'" "a \<notin> L" "a = ls_new db" "ls_asserts db' = ls_asserts db"
    "ls_mem db' = (ls_mem db)(a := \<lparr>le_ip = ip, le_mask = 0, le_mac = mac, le_tstamp = t, le_lease = 0, le_tid = 0, le_declined = False\<rparr>)"
    "\<forall>b \<in> L. le_ip (ls_mem db b) \<noteq> ip \<and> le_mac (ls_mem db b) \<noteq> mac" "en_now env \<le> t" "ls_file db' = ls_file db" "ls_tmp db' = ls_tmp db"
proof -
  let ?l = "\<lparr>le_ip = ip, le_mask = 0, le_mac = mac, le_tstamp = t, le_lease = 0, le_tid = 0, le_declined = False\<rparr>"
  let ?m = "(ls_mem db)(ls_new db := ?l)"
  have g: "lease_find_mac mac db = None" "lease_find_ip ip db = None" "a = ls_new db" "en_now env \<le> t"
    and db': "db' = add_tstamp a (add_ip a (add_mac a (db\<lparr>ls_mem := ?m, ls_new := Suc (ls_new db)\<rparr>)))"
    using add mac by (auto simp: lease_add_def Let_def split: if_splits)
  have new: "ls_new db \<notin> L" using ok by (auto simp: lease_ok_def)
  have free: "\<forall>b \<in> L. le_ip (ls_mem db b) \<noteq> ip \<and> le_mac (ls_mem db b) \<noteq> mac"
    using g(1,2) lease_find_mac_None [OF ok mac] lease_find_ip_None [OF ok] by simp
  have same: "b \<in> L \<Longrightarrow> ?m b = ls_mem db b" for b using new by auto
  have keep: "chained (\<lambda>b. f (?m b)) ht L \<longleftrightarrow> chained (\<lambda>b. f (ls_mem db b)) ht L" for f :: "Lease \<Rightarrow> nat" and ht
    by (rule chained_cong) (simp only: same)
  have c: "chained (\<lambda>b. hash_mac (le_mac (?m b))) (ht_mac db) L" "chained (\<lambda>b. hash_ip (le_ip (?m b))) (ht_ip db) L"
    "chained (\<lambda>b. hash_tstamp (le_tstamp (?m b))) (ht_tstamp db) L"
    using ok keep [of "\<lambda>l. hash_mac (le_mac l)"] keep [of "\<lambda>l. hash_ip (le_ip l)"] keep [of "\<lambda>l. hash_tstamp (le_tstamp l)"]
    unfolding lease_ok_def by blast+
  have inj: "inj_on (\<lambda>b. le_mac (?m b)) (insert (ls_new db) L)" "inj_on (\<lambda>b. le_ip (?m b)) (insert (ls_new db) L)"
    using ok free new by (auto simp: lease_ok_def inj_on_def)
  show "lease_ok (insert a L) db'"
    unfolding lease_ok_def db' g(3)
    using chained_add [OF c(1) new] chained_add [OF c(2) new] chained_add [OF c(3) new] inj ok mac
    by (simp add: add_mac_def add_ip_def add_tstamp_def Let_def) (auto simp: lease_ok_def)
  show "a \<notin> L" "a = ls_new db" "\<forall>b \<in> L. le_ip (ls_mem db b) \<noteq> ip \<and> le_mac (ls_mem db b) \<noteq> mac" "en_now env \<le> t"
    using new g(3,4) free by auto
  show "ls_asserts db' = ls_asserts db" "ls_mem db' = (ls_mem db)(a := ?l)" "ls_file db' = ls_file db" "ls_tmp db' = ls_tmp db"
    unfolding db' g(3) by (simp_all add: add_mac_def add_ip_def add_tstamp_def Let_def)
qed

lemma lease_add_None: "lease_add env mac ip t db = (None, db') \<Longrightarrow> db' = db \<or> (t < en_now env \<and> db' = lease_assert db)"
  by (auto simp: lease_add_def Let_def split: if_splits)

text \<open>Deleting some leases of a list without repetition.\<close>

lemma delete_fold:
  assumes "lease_ok L db" "distinct as" "set as \<subseteq> L"
  shows "lease_ok (L - {a \<in> set as. P (ls_mem db a)}) (fold (\<lambda>a db. if P (ls_mem db a) then lease_delete a db else db) as db) \<and>
    ls_asserts (fold (\<lambda>a db. if P (ls_mem db a) then lease_delete a db else db) as db) = ls_asserts db \<and>
    ls_mem (fold (\<lambda>a db. if P (ls_mem db a) then lease_delete a db else db) as db) = ls_mem db"
  using assms
proof (induction as arbitrary: L db)
  case (Cons a as)
  show ?case
  proof (cases "P (ls_mem db a)")
    case True
    have "L - {a} - {b \<in> set as. P (ls_mem db b)} = L - {b \<in> set (a # as). P (ls_mem db b)}" using True by auto
    with Cons.IH [of "L - {a}" "lease_delete a db"] Cons.prems lease_delete_ok [OF Cons.prems(1), of a] True show ?thesis by auto
  next
    case False
    have "L - {b \<in> set as. P (ls_mem db b)} = L - {b \<in> set (a # as). P (ls_mem db b)}" using False by auto
    with Cons.IH [of L db] Cons.prems False show ?thesis by auto
  qed
qed simp

lemma hash_tstamp_mod: "hash_tstamp t = nat (t mod 256)"
proof -
  have "t AND 0xff = take_bit 8 t" by (simp add: take_bit_eq_mask mask_eq_exp_minus_1)
  then show ?thesis by (simp add: hash_tstamp_def take_bit_eq_mod)
qed

lemma hash_tstamp_less: "hash_tstamp t < 256"
  by (simp add: hash_tstamp_mod nat_less_iff)

definition expires_at :: "int \<Rightarrow> Lease \<Rightarrow> bool" where
  "expires_at now l \<longleftrightarrow> le_tstamp l \<le> now \<and> hash_tstamp (le_tstamp l) = hash_tstamp now"

lemma lease_timeout_ok:
  assumes "lease_ok L db"
  shows "lease_ok {a \<in> L. \<not> expires_at now (ls_mem db a)} (lease_timeout now db)"
    "ls_asserts (lease_timeout now db) = ls_asserts db" "ls_mem (lease_timeout now db) = ls_mem db"
proof -
  have c: "distinct (ht_tstamp db (hash_tstamp now))"
    "set (ht_tstamp db (hash_tstamp now)) = {a \<in> L. hash_tstamp (le_tstamp (ls_mem db a)) = hash_tstamp now}"
    using assms by (auto simp: lease_ok_def chained_def)
  have "L - {a \<in> set (ht_tstamp db (hash_tstamp now)). le_tstamp (ls_mem db a) \<le> now} = {a \<in> L. \<not> expires_at now (ls_mem db a)}"
    using c(2) by (auto simp: expires_at_def)
  moreover have "set (ht_tstamp db (hash_tstamp now)) \<subseteq> L" using c(2) by auto
  ultimately show "lease_ok {a \<in> L. \<not> expires_at now (ls_mem db a)} (lease_timeout now db)"
    "ls_asserts (lease_timeout now db) = ls_asserts db" "ls_mem (lease_timeout now db) = ls_mem db"
    using delete_fold [OF assms c(1), of "\<lambda>l. le_tstamp l \<le> now"] by (auto simp: lease_timeout_def)
qed

lemma chained_all:
  assumes "chained f ht L" "\<And>a. a \<in> L \<Longrightarrow> f a < n"
  shows "distinct (concat (map ht [0..<n]))" "set (concat (map ht [0..<n])) = L"
proof -
  have "distinct (concat (map ht is))" if "distinct is" for "is"
    using that assms(1) by (induction "is") (auto simp: chained_def)
  then show "distinct (concat (map ht [0..<n]))" by simp
  show "set (concat (map ht [0..<n])) = L" using assms by (auto simp: chained_def)
qed

lemma lease_file_update_frame [simp]:
  "lease_ok L (lease_file_update env db) = lease_ok L db" "ls_mem (lease_file_update env db) = ls_mem db"
  "leases (lease_file_update env db) = leases db"
  by (simp_all add: lease_file_update_def Let_def lease_assert_def leases_def)

lemma lease_clear_all_ok:
  assumes "lease_ok L db"
  shows "lease_ok {} (lease_clear_all env db)"
proof -
  have "chained (\<lambda>a. hash_tstamp (le_tstamp (ls_mem db a))) (ht_tstamp db) L" using assms by (simp add: lease_ok_def)
  note all = chained_all [OF this hash_tstamp_less]
  define as where "as = concat (map (ht_tstamp db) [0..<256])"
  have as: "distinct as" "set as = L" using all by (simp_all add: as_def)
  then have "lease_ok (L - {a \<in> set as. True}) (fold (\<lambda>a db. if True then lease_delete a db else db) as db)"
    using delete_fold [OF assms as(1), of "\<lambda>_. True"] by blast
  then show ?thesis using as(2) by (simp add: lease_clear_all_def flip: as_def)
qed

section \<open>The lease file\<close>

definition records :: "nat set \<Rightarrow> lease_db \<Rightarrow> LeaseStore set" where
  "records L db = (\<lambda>a. lease_record (ls_mem db a)) ` L"

lemma hash_mac_less: "hash_mac m < 4096"
proof -
  have "unat (w AND 0xfff) < 4096" for w :: u16
    using word_and_le1 [of w "0xfff"] by (simp add: word_le_nat_alt)
  then show ?thesis by (simp add: hash_mac_def Let_def)
qed

lemma walk_chain_update: "walk_chain (lupdate db) as f = (False, f @ map (\<lambda>a. lease_record (ls_mem db a)) as)"
  by (induction as arbitrary: f) (simp_all add: lupdate_def)

lemma lease_file_update_records:
  assumes "lease_ok L db" "ls_tmp db = []" "en_write env" "en_system env"
  obtains as where "ls_file (lease_file_update env db) = map (\<lambda>a. lease_record (ls_mem db a)) as" "distinct as" "set as = L"
proof
  have c: "chained (\<lambda>a. hash_mac (le_mac (ls_mem db a))) (ht_mac db) L" using assms(1) by (simp add: lease_ok_def)
  show "ls_file (lease_file_update env db) = map (\<lambda>a. lease_record (ls_mem db a)) (concat (map (ht_mac db) [0..<4096]))"
    using assms(2-4) by (simp add: lease_file_update_def lease_walk_def walk_chain_update)
  show "distinct (concat (map (ht_mac db) [0..<4096]))" "set (concat (map (ht_mac db) [0..<4096])) = L"
    using chained_all [OF c hash_mac_less] by auto
qed

text \<open>One record: a lease with the same address is replaced.\<close>

lemma init_lease_ok:
  assumes "lease_ok L db" "length (st_mac r) = 6" "init_lease env r db = Some db'"
  shows "\<exists>L'. lease_ok L' db'"
proof -
  let ?db = "case lease_find_ip (st_ip r) db of None \<Rightarrow> db | Some a \<Rightarrow> lease_delete a db"
  obtain L1 where L1: "lease_ok L1 ?db"
  proof (cases "lease_find_ip (st_ip r) db")
    case None
    then show ?thesis using that assms(1) by simp
  next
    case (Some a)
    then have "a \<in> L" using lease_find_ip_iff [OF assms(1)] by blast
    then show ?thesis using that [of "L - {a}"] lease_delete_ok(1) [OF assms(1)] Some by simp
  qed
  show ?thesis
  proof (cases "st_tstamp r \<le> en_now env")
    case False
    then obtain a db2 where a: "lease_add env (st_mac r) (st_ip r) (st_tstamp r) ?db = (Some a, db2)"
      "db' = upd_lease a (\<lambda>l. l\<lparr>le_mask := st_mask r, le_lease := st_lease r\<rparr>) db2"
      using assms(3) by (auto simp: init_lease_def Let_def split: prod.splits option.splits)
    have "lease_ok (insert a L1) db'" unfolding a(2) by (rule lease_ok_upd [OF lease_add_Some(1) [OF L1 assms(2) a(1)]]) simp_all
    then show ?thesis by blast
  qed (use assms in \<open>auto simp: init_lease_def\<close>)
qed

lemma init_lease_new:
  assumes ok: "lease_ok L db" "length (st_mac r) = 6" "\<forall>a \<in> L. le_ip (ls_mem db a) \<noteq> st_ip r \<and> le_mac (ls_mem db a) \<noteq> st_mac r"
    and m: "en_malloc env" "en_now env < st_tstamp r"
  shows "\<exists>a db'. init_lease env r db = Some db' \<and> a \<notin> L \<and> lease_ok (insert a L) db' \<and> records (insert a L) db' = insert r (records L db) \<and>
    (\<forall>b \<in> L. ls_mem db' b = ls_mem db b) \<and> le_ip (ls_mem db' a) = st_ip r \<and> le_mac (ls_mem db' a) = st_mac r \<and> ls_asserts db' = ls_asserts db"
proof -
  have none: "lease_find_ip (st_ip r) db = None" "lease_find_mac (st_mac r) db = None"
    using lease_find_ip_None [OF ok(1)] lease_find_mac_None [OF ok(1,2)] ok(3) by auto
  then obtain a db2 where a: "lease_add env (st_mac r) (st_ip r) (st_tstamp r) db = (Some a, db2)"
    using m by (simp add: lease_add_def Let_def)
  note s = lease_add_Some [OF ok(1,2) a]
  let ?db = "upd_lease a (\<lambda>l. l\<lparr>le_mask := st_mask r, le_lease := st_lease r\<rparr>) db2"
  have "init_lease env r db = Some ?db" using m none a by (simp add: init_lease_def)
  moreover have "lease_ok (insert a L) ?db" by (rule lease_ok_upd [OF s(1)]) simp_all
  moreover have mem: "ls_mem ?db = (ls_mem db)(a := \<lparr>le_ip = st_ip r, le_mask = st_mask r, le_mac = st_mac r,
      le_tstamp = st_tstamp r, le_lease = st_lease r, le_tid = 0, le_declined = False\<rparr>)" by (simp add: upd_lease_def s(5))
  moreover have "records (insert a L) ?db = insert r (records L db)"
    unfolding records_def mem using s(2) by (auto simp: lease_record_def)
  ultimately show ?thesis using s(2,4) by (intro exI [of _ a] exI [of _ ?db]) (auto simp: upd_lease_def)
qed

lemma init_leases_distinct:
  assumes "lease_ok L db" "en_malloc env" "distinct (map st_mac rs)" "distinct (map st_ip rs)"
    "\<forall>r \<in> set rs. length (st_mac r) = 6 \<and> (\<forall>a \<in> L. le_ip (ls_mem db a) \<noteq> st_ip r \<and> le_mac (ls_mem db a) \<noteq> st_mac r)"
  shows "\<exists>L' db'. init_leases env rs db = Some db' \<and> lease_ok L' db' \<and> records L' db' = records L db \<union> {r \<in> set rs. en_now env < st_tstamp r}"
  using assms
proof (induction rs arbitrary: L db)
  case (Cons r rs)
  show ?case
  proof (cases "en_now env < st_tstamp r")
    case False
    then have "init_lease env r db = Some db" by (simp add: init_lease_def)
    moreover have "{x \<in> set (r # rs). en_now env < st_tstamp x} = {x \<in> set rs. en_now env < st_tstamp x}" using False by auto
    ultimately show ?thesis using Cons.IH [of L db] Cons.prems by simp
  next
    case True
    obtain a db1 where a: "init_lease env r db = Some db1" "a \<notin> L" "lease_ok (insert a L) db1" "records (insert a L) db1 = insert r (records L db)"
      "\<forall>b \<in> L. ls_mem db1 b = ls_mem db b" "le_ip (ls_mem db1 a) = st_ip r" "le_mac (ls_mem db1 a) = st_mac r"
      using init_lease_new [OF Cons.prems(1), of r env] Cons.prems(2,5) True by auto
    have "\<forall>r' \<in> set rs. st_ip r \<noteq> st_ip r' \<and> st_mac r \<noteq> st_mac r'" using Cons.prems(3,4) by (metis image_eqI list.set_map distinct.simps(2) list.simps(9))
    then obtain L' db' where "init_leases env rs db1 = Some db'" "lease_ok L' db'"
      "records L' db' = records (insert a L) db1 \<union> {r \<in> set rs. en_now env < st_tstamp r}"
      using Cons.IH [OF a(3) Cons.prems(2)] Cons.prems(3-5) a(5-7) by auto
    moreover have "{x \<in> set (r # rs). en_now env < st_tstamp x} = insert r {x \<in> set rs. en_now env < st_tstamp x}" using True by auto
    ultimately show ?thesis using a(1,4) by auto
  qed
qed auto

lemma lease_ok_empty: "lease_ok {} (db\<lparr>ht_mac := (\<lambda>_. []), ht_ip := (\<lambda>_. []), ht_tstamp := (\<lambda>_. [])\<rparr>)"
  by (simp add: lease_ok_def chained_def)

end
