(* ===== verification/Dhcp_Server.thy ===== *)
theory Dhcp_Server
  imports Dhcp_Lease Ip_Util
begin

text \<open>
  The DHCP server (\<open>dhcp/exec/dhcp_rx_server.c\<close>), the queue of offers that wait for the answer to a ping
  (\<open>icmp.c\<close>). The received packet is a record of the fields the
  handlers read, in host order, with the six bytes of the hardware address. Packets that are sent (replies of the server, and packets the relay forwards with their length), pings and changes of the counters of an
  interface are appended to a list of outputs. A handler whose search for an address does not end is \<open>None\<close>.
\<close>

section \<open>Data\<close>

record RcpDhcpsNetwork =
  dn_valid :: bool
  dn_ip :: u32
  dn_mask :: u32
  dn_name :: string
  dn_range_start :: u32
  dn_range_end :: u32
  dn_gw1 :: u32
  dn_gw2 :: u32
  dn_lease_days :: u8
  dn_lease_hours :: u8
  dn_lease_minutes :: u8
  dn_last_ip :: u32

record RcpDhcpsHost =
  dh_ip :: u32
  dh_mac :: "u8 list"
  dh_valid :: bool

record DhcpInterface =
  pi_index :: nat
  pi_ip :: u32
  pi_mask :: u32

record dhcps_config =
  dhcps_dns1 :: u32
  dhcps_dns2 :: u32
  dhcps_ntp1 :: u32
  dhcps_ntp2 :: u32
  dhcps_domain_name :: "u8 list"

record DhcpPacket =
  dp_type :: u8
  dp_tid :: u32
  dp_secs :: u16
  dp_ciaddr :: u32
  dp_giaddr :: u32
  dp_chaddr :: "u8 list"
  dp_requested_ip :: u32
  dp_82 :: "u8 list option"
  dp_ip_source :: u32

text \<open>The packet as it is on the wire (\<open>DhcpPacket\<close> of \<open>dhcp.h\<close>), in host order.\<close>

record DhcpWire =
  dw_op :: u8
  dw_htype :: u8
  dw_hlen :: u8
  dw_hops :: u8
  dw_tid :: u32
  dw_secs :: u16
  dw_flags :: u16
  dw_ciaddr :: u32
  dw_yiaddr :: u32
  dw_siaddr :: u32
  dw_giaddr :: u32
  dw_chaddr :: "u8 list"
  dw_sname :: "u8 list"
  dw_file :: "u8 list"
  dw_cookie :: u32
  dw_options :: "u8 list"

record DhcpReply =
  rp_op :: u8
  rp_htype :: u8
  rp_hlen :: u8
  rp_tid :: u32
  rp_secs :: u16
  rp_yiaddr :: u32
  rp_siaddr :: u32
  rp_giaddr :: u32
  rp_chaddr :: "u8 list"
  rp_cookie :: "u8 list"
  rp_options :: "u8 list"

datatype dhcp_stat =
    Rx | RxDiscover | RxOffer | RxRequest | RxDecline | RxAck | RxNack | RxRelease | RxInform
  | ErrRx | ErrPkt | ErrLease | ErrNotConfigured | ErrIcmp | ErrHops | ErrServerNotconf | ErrGiaddr | ErrOutgoingIntf
  | WarnServerUnknown | Tx | TxOffer | TxAck | TxNack

datatype dhcp_out =
    DStat nat dhcp_stat
  | DStatClear nat
  | DPing u32
  | DRaw nat DhcpReply
  | DClient u32 DhcpReply
  | DRelay u32 DhcpReply
  | DForward u32 DhcpWire nat
  | DToClient nat DhcpWire nat

record icmp_entry =
  iq_ip :: u32
  iq_ttl :: int
  iq_response :: bool
  iq_giaddr :: u32
  iq_pif :: DhcpInterface
  iq_pkt :: DhcpReply

record dhcp_srv =
  ds_db :: lease_db
  ds_network :: "RcpDhcpsNetwork list"
  ds_host :: "RcpDhcpsHost list"
  ds_config :: dhcps_config
  icmp_queue :: "icmp_entry list"
  ds_out :: "dhcp_out list"

definition dhcp_emit :: "dhcp_out list \<Rightarrow> dhcp_srv \<Rightarrow> dhcp_srv" where
  "dhcp_emit os st = st\<lparr>ds_out := ds_out st @ os\<rparr>"

section \<open>Options\<close>

definition add_msgtype_offer :: "u8 list" where "add_msgtype_offer = [0x35, 1, 2]"
definition add_msgtype_ack :: "u8 list" where "add_msgtype_ack = [0x35, 1, 5]"
definition add_msgtype_nack :: "u8 list" where "add_msgtype_nack = [0x35, 1, 6]"

definition add_serverid :: "u32 \<Rightarrow> u8 list" where "add_serverid ip = [0x36, 4] @ put32 ip"
definition add_lease :: "u32 \<Rightarrow> u8 list" where "add_lease seconds = [0x33, 4] @ put32 seconds"
definition add_subnetmask :: "u32 \<Rightarrow> u8 list" where "add_subnetmask msk = [1, 4] @ put32 msk"

text \<open>Two addresses, of which the second is optional.\<close>

definition add_pair :: "u8 \<Rightarrow> u32 \<Rightarrow> u32 \<Rightarrow> u8 list" where
  "add_pair code a b =
     (if a = 0 then [] else if b = 0 then [code, 4] @ put32 a else [code, 8] @ put32 a @ put32 b)"

definition add_dns :: "dhcps_config \<Rightarrow> u8 list" where "add_dns cfg = add_pair 6 (dhcps_dns1 cfg) (dhcps_dns2 cfg)"
definition add_ntp :: "dhcps_config \<Rightarrow> u8 list" where "add_ntp cfg = add_pair 42 (dhcps_ntp1 cfg) (dhcps_ntp2 cfg)"
definition add_router :: "RcpDhcpsNetwork \<Rightarrow> u8 list" where "add_router net = add_pair 3 (dn_gw1 net) (dn_gw2 net)"

definition add_domain_name :: "dhcps_config \<Rightarrow> u8 list" where
  "add_domain_name cfg =
     (let n = dhcps_domain_name cfg in if n = [] then [] else [15, word_of_nat (length n)] @ n)"

definition add_option82 :: "DhcpPacket \<Rightarrow> u8 list" where
  "add_option82 pkt = (case dp_82 pkt of None \<Rightarrow> [] | Some opt \<Rightarrow> take (unat (opt ! 1) + 2) opt)"

definition build_reply :: "DhcpPacket \<Rightarrow> DhcpInterface \<Rightarrow> u32 \<Rightarrow> u8 list \<Rightarrow> DhcpReply" where
  "build_reply pkt pif yiaddr opts =
     \<lparr>rp_op = 2, rp_htype = 1, rp_hlen = 6, rp_tid = dp_tid pkt, rp_secs = dp_secs pkt, rp_yiaddr = yiaddr, rp_siaddr = pi_ip pif,
      rp_giaddr = dp_giaddr pkt, rp_chaddr = take 6 (dp_chaddr pkt),
      rp_cookie = [0x63, 0x82, 0x53, 0x63], rp_options = opts @ [0xff]\<rparr>"

text \<open>The options of an offer and of an acknowledgement after the message type.\<close>

definition lease_options :: "DhcpPacket \<Rightarrow> DhcpInterface \<Rightarrow> RcpDhcpsNetwork \<Rightarrow> dhcps_config \<Rightarrow> Lease \<Rightarrow> u8 list" where
  "lease_options pkt pif net cfg l =
     add_serverid (pi_ip pif) @ add_lease (le_lease l) @ add_subnetmask (le_mask l) @ add_router net @ add_dns cfg @ add_ntp cfg @
     add_domain_name cfg @ (if dp_giaddr pkt \<noteq> 0 then add_option82 pkt else [])"

section \<open>Assigning an address\<close>

text \<open>The loop \<open>for (ip = start; ip <= stop; ip++)\<close>, which does not end when \<open>stop\<close> is the highest address and all
  addresses are taken.\<close>

partial_function (option) scan_free :: "(u32 \<Rightarrow> bool) \<Rightarrow> u32 \<Rightarrow> u32 \<Rightarrow> u32 option option" where
  "scan_free taken ip stop =
     (if ip \<le> stop then if taken ip then scan_free taken (ip + 1) stop else Some (Some ip) else Some None)"

definition range_first :: "RcpDhcpsNetwork \<Rightarrow> u32" where
  "range_first net =
     (if dn_last_ip net = 0 then dn_range_start net
      else if dn_last_ip net + 1 < dn_range_start net \<or> dn_last_ip net + 1 > dn_range_end net then dn_range_start net
      else dn_last_ip net + 1)"

definition static_host :: "RcpDhcpsHost list \<Rightarrow> RcpDhcpsNetwork \<Rightarrow> u8 list \<Rightarrow> RcpDhcpsHost option" where
  "static_host hosts net mac =
     find (\<lambda>h. dh_valid h \<and> dh_mac h = take 6 mac \<and> dh_ip h AND dn_mask net = dn_ip net AND dn_mask net) hosts"

definition assign_ip :: "RcpDhcpsHost list \<Rightarrow> RcpDhcpsNetwork \<Rightarrow> u8 list \<Rightarrow> lease_db \<Rightarrow> (u32 \<times> RcpDhcpsNetwork) option" where
  "assign_ip hosts net mac db =
     (case static_host hosts net mac of
        Some h \<Rightarrow> Some (dh_ip h, net)
      | None \<Rightarrow>
          let start = range_first net; taken = (\<lambda>ip. lease_find_ip ip db \<noteq> None)
          in case scan_free taken start (dn_range_end net) of
               None \<Rightarrow> None
             | Some (Some ip) \<Rightarrow> Some (ip, net\<lparr>dn_last_ip := ip\<rparr>)
             | Some None \<Rightarrow>
                 (case scan_free taken (dn_range_start net) start of
                    None \<Rightarrow> None
                  | Some (Some ip) \<Rightarrow> Some (ip, net\<lparr>dn_last_ip := ip\<rparr>)
                  | Some None \<Rightarrow> Some (0, net\<lparr>dn_last_ip := 0\<rparr>)))"

definition lease_seconds :: "RcpDhcpsNetwork \<Rightarrow> u32" where
  "lease_seconds net =
     ucast (dn_lease_minutes net) * 60 + ucast (dn_lease_hours net) * 3600 + ucast (dn_lease_days net) * 24 * 3600"

text \<open>The common part of \<open>assign_lease\<close> and \<open>assign_lease_relay\<close>, which differ in the test of the network.\<close>

definition assign_from :: "lease_env \<Rightarrow> (RcpDhcpsNetwork \<Rightarrow> bool) \<Rightarrow> u8 list \<Rightarrow> dhcp_srv \<Rightarrow> (nat option \<times> dhcp_srv) option" where
  "assign_from env match mac st =
     (case find_pos (\<lambda>n. dn_valid n \<and> match n \<and> dn_range_start n \<noteq> 0 \<and> dn_range_end n \<noteq> 0) (ds_network st) of
        None \<Rightarrow> Some (None, st)
      | Some i \<Rightarrow>
          (case assign_ip (ds_host st) (ds_network st ! i) mac (ds_db st) of
             None \<Rightarrow> None
           | Some (ip, net) \<Rightarrow>
               let st = st\<lparr>ds_network := (ds_network st)[i := net]\<rparr>
               in if ip = 0 then Some (None, st)
                  else (case lease_add env mac ip (en_now env + DHCP_OFFER_LEASE_TIME) (ds_db st) of
                          (None, db) \<Rightarrow> Some (None, st\<lparr>ds_db := lease_assert db\<rparr>)
                        | (Some a, db) \<Rightarrow>
                            Some (Some a, st\<lparr>ds_db := upd_lease a (\<lambda>l. l\<lparr>le_lease := lease_seconds net, le_mask := dn_mask net\<rparr>) db\<rparr>))))"

definition assign_lease :: "lease_env \<Rightarrow> DhcpInterface \<Rightarrow> u8 list \<Rightarrow> dhcp_srv \<Rightarrow> (nat option \<times> dhcp_srv) option" where
  "assign_lease env pif mac st = assign_from env (\<lambda>n. pi_ip pif AND pi_mask pif = dn_ip n \<and> pi_mask pif = dn_mask n) mac st"

definition assign_lease_relay :: "lease_env \<Rightarrow> u32 \<Rightarrow> u8 list \<Rightarrow> dhcp_srv \<Rightarrow> (nat option \<times> dhcp_srv) option" where
  "assign_lease_relay env giaddr mac st = assign_from env (\<lambda>n. giaddr AND dn_mask n = dn_ip n) mac st"

definition dhcp_find_network :: "Lease \<Rightarrow> RcpDhcpsNetwork list \<Rightarrow> RcpDhcpsNetwork option" where
  "dhcp_find_network l nets = find (\<lambda>n. dn_valid n \<and> le_ip l AND le_mask l = dn_ip n \<and> le_mask l = dn_mask n) nets"

section \<open>Offers wait for a ping\<close>

definition send_icmp_pkt :: "u32 \<Rightarrow> u32 \<Rightarrow> DhcpInterface \<Rightarrow> DhcpReply \<Rightarrow> dhcp_srv \<Rightarrow> dhcp_srv" where
  "send_icmp_pkt ip giaddr pif pkt st =
     dhcp_emit [DPing ip] (st\<lparr>icmp_queue := \<lparr>iq_ip = ip, iq_ttl = 2, iq_response = False, iq_giaddr = giaddr, iq_pif = pif, iq_pkt = pkt\<rparr> # icmp_queue st\<rparr>)"

text \<open>An echo reply with the identifiers of the server.\<close>

definition get_icmp_pkt :: "u32 \<Rightarrow> dhcp_srv \<Rightarrow> dhcp_srv" where
  "get_icmp_pkt ip st =
     (case find_pos (\<lambda>e. iq_ip e = ip) (icmp_queue st) of
        None \<Rightarrow> st
      | Some i \<Rightarrow>
          let n = pi_index (iq_pif (icmp_queue st ! i))
          in dhcp_emit [DStat n ErrRx, DStat n ErrIcmp]
               (st\<lparr>icmp_queue := upd_pos i (\<lambda>e. e\<lparr>iq_response := True, iq_ttl := 0\<rparr>) (icmp_queue st)\<rparr>))"

definition send_dhcp_pkt :: "icmp_entry \<Rightarrow> dhcp_out list" where
  "send_dhcp_pkt e =
     (let n = pi_index (iq_pif e)
      in [DStat n Tx, DStat n TxOffer, if iq_giaddr e = 0 then DRaw n (iq_pkt e) else DRelay (iq_giaddr e) (iq_pkt e)])"

definition icmp_timeout :: "dhcp_srv \<Rightarrow> dhcp_srv" where
  "icmp_timeout st =
     (let q = map (\<lambda>e. e\<lparr>iq_ttl := iq_ttl e - 1\<rparr>) (icmp_queue st)
      in dhcp_emit (concat (map send_dhcp_pkt (filter (\<lambda>e. iq_ttl e \<le> 0 \<and> \<not> iq_response e) q)))
           (st\<lparr>icmp_queue := filter (\<lambda>e. \<not> iq_ttl e \<le> 0) q\<rparr>))"

section \<open>Messages\<close>

abbreviation lease_at :: "nat \<Rightarrow> dhcp_srv \<Rightarrow> Lease" where
  "lease_at a st \<equiv> ls_mem (ds_db st) a"

definition set_lease :: "nat \<Rightarrow> (Lease \<Rightarrow> Lease) \<Rightarrow> dhcp_srv \<Rightarrow> dhcp_srv" where
  "set_lease a f st = st\<lparr>ds_db := upd_lease a f (ds_db st)\<rparr>"

definition offer_lease :: "lease_env \<Rightarrow> DhcpPacket \<Rightarrow> DhcpInterface \<Rightarrow> nat \<Rightarrow> dhcp_srv \<Rightarrow> dhcp_srv" where
  "offer_lease env pkt pif a st =
     (case dhcp_find_network (lease_at a st) (ds_network st) of
        None \<Rightarrow> dhcp_emit [DStat (pi_index pif) ErrRx, DStat (pi_index pif) ErrNotConfigured] st
      | Some net \<Rightarrow>
          let st = set_lease a (\<lambda>l. l\<lparr>le_tid := dp_tid pkt\<rparr>) st
          in if \<not> en_malloc_pkt env then st\<lparr>ds_db := lease_assert (ds_db st)\<rparr>
             else send_icmp_pkt (le_ip (lease_at a st)) (dp_giaddr pkt) pif
                    (build_reply pkt pif (le_ip (lease_at a st))
                       (add_msgtype_offer @ lease_options pkt pif net (ds_config st) (lease_at a st))) st)"

definition process_discover :: "lease_env \<Rightarrow> DhcpPacket \<Rightarrow> DhcpInterface \<Rightarrow> dhcp_srv \<Rightarrow> dhcp_srv option" where
  "process_discover env pkt pif st =
     (case lease_find_mac (dp_chaddr pkt) (ds_db st) of
        Some a \<Rightarrow> Some (if le_declined (lease_at a st) then st else offer_lease env pkt pif a st)
      | None \<Rightarrow>
          (case (if dp_giaddr pkt = 0 then assign_lease env pif (dp_chaddr pkt) st
                 else assign_lease_relay env (dp_giaddr pkt) (dp_chaddr pkt) st) of
             None \<Rightarrow> None
           | Some (None, st) \<Rightarrow> Some (dhcp_emit [DStat (pi_index pif) ErrRx, DStat (pi_index pif) ErrLease] st)
           | Some (Some a, st) \<Rightarrow> Some (offer_lease env pkt pif a st)))"

text \<open>The lease that belongs both to the address and to the client.\<close>

definition client_lease :: "u32 \<Rightarrow> u8 list \<Rightarrow> lease_db \<Rightarrow> nat option" where
  "client_lease ip mac db =
     (case (lease_find_ip ip db, lease_find_mac mac db) of
        (Some a, Some b) \<Rightarrow> if a = b then Some a else None
      | _ \<Rightarrow> None)"

definition wanted_ip :: "DhcpPacket \<Rightarrow> u32" where
  "wanted_ip pkt = (if dp_requested_ip pkt = 0 then dp_ciaddr pkt else dp_requested_ip pkt)"

definition dhcp_error :: "DhcpInterface \<Rightarrow> dhcp_stat \<Rightarrow> dhcp_srv \<Rightarrow> dhcp_srv" where
  "dhcp_error pif e st = dhcp_emit [DStat (pi_index pif) ErrRx, DStat (pi_index pif) e] st"

definition process_decline :: "DhcpPacket \<Rightarrow> DhcpInterface \<Rightarrow> dhcp_srv \<Rightarrow> dhcp_srv" where
  "process_decline pkt pif st =
     (if wanted_ip pkt = 0 then dhcp_error pif ErrPkt st
      else case client_lease (wanted_ip pkt) (dp_chaddr pkt) (ds_db st) of
             None \<Rightarrow> dhcp_error pif ErrLease st
           | Some a \<Rightarrow>
               if le_tid (lease_at a st) \<noteq> 0 \<and> le_tid (lease_at a st) \<noteq> dp_tid pkt then dhcp_error pif ErrLease st
               else set_lease a (\<lambda>l. l\<lparr>le_declined := True\<rparr>)
                      (if dhcp_find_network (lease_at a st) (ds_network st) = None then dhcp_error pif ErrNotConfigured st else st))"

definition send_nack :: "DhcpPacket \<Rightarrow> DhcpInterface \<Rightarrow> dhcp_srv \<Rightarrow> dhcp_srv" where
  "send_nack pkt pif st =
     (let r = build_reply pkt pif 0 add_msgtype_nack
      in dhcp_emit [DStat (pi_index pif) Tx, DStat (pi_index pif) TxNack,
                    if dp_giaddr pkt = 0 then DRaw (pi_index pif) r else DRelay (dp_giaddr pkt) r] st)"

definition send_ack :: "DhcpPacket \<Rightarrow> DhcpInterface \<Rightarrow> DhcpReply \<Rightarrow> dhcp_srv \<Rightarrow> dhcp_srv" where
  "send_ack pkt pif r st =
     dhcp_emit [DStat (pi_index pif) Tx, DStat (pi_index pif) TxAck,
                if dp_giaddr pkt = 0
                then if dp_ip_source pkt = 0 then DRaw (pi_index pif) r else DClient (dp_ip_source pkt) r
                else DRelay (dp_giaddr pkt) r] st"

definition process_request :: "lease_env \<Rightarrow> DhcpPacket \<Rightarrow> DhcpInterface \<Rightarrow> dhcp_srv \<Rightarrow> dhcp_srv" where
  "process_request env pkt pif st =
     (if wanted_ip pkt = 0 then send_nack pkt pif (dhcp_error pif ErrPkt st)
      else case client_lease (wanted_ip pkt) (dp_chaddr pkt) (ds_db st) of
             None \<Rightarrow> send_nack pkt pif (dhcp_error pif ErrLease st)
           | Some a \<Rightarrow>
               if le_tid (lease_at a st) \<noteq> 0 \<and> le_tid (lease_at a st) \<noteq> dp_tid pkt
               then send_nack pkt pif (dhcp_error pif ErrLease st)
               else let st = set_lease a (\<lambda>l. l\<lparr>le_tid := 0\<rparr>) st
                    in case dhcp_find_network (lease_at a st) (ds_network st) of
                         None \<Rightarrow> dhcp_error pif ErrNotConfigured st
                       | Some net \<Rightarrow>
                           let st = st\<lparr>ds_db := lease_renew a (en_now env + uint (lease_seconds net)) (ds_db st)\<rparr>;
                               st = set_lease a (\<lambda>l. l\<lparr>le_lease := lease_seconds net\<rparr>) st;
                               st = st\<lparr>ds_db := lease_store env a (ds_db st)\<rparr>
                           in send_ack pkt pif
                                (build_reply pkt pif (le_ip (lease_at a st))
                                   (add_msgtype_ack @ lease_options pkt pif net (ds_config st) (lease_at a st))) st)"

definition process_release :: "lease_env \<Rightarrow> DhcpPacket \<Rightarrow> DhcpInterface \<Rightarrow> dhcp_srv \<Rightarrow> dhcp_srv" where
  "process_release env pkt pif st =
     (if dp_ciaddr pkt = 0 then dhcp_error pif ErrPkt st
      else case client_lease (dp_ciaddr pkt) (dp_chaddr pkt) (ds_db st) of
             None \<Rightarrow> dhcp_error pif ErrLease st
           | Some a \<Rightarrow>
               if le_tid (lease_at a st) \<noteq> 0 then dhcp_error pif ErrLease st
               else if dhcp_find_network (lease_at a st) (ds_network st) = None then dhcp_error pif ErrNotConfigured st
               else let st = st\<lparr>ds_db := lease_renew a (en_now env + DHCP_OFFER_LEASE_TIME) (ds_db st)\<rparr>;
                        st = set_lease a (\<lambda>l. l\<lparr>le_lease := word_of_int DHCP_OFFER_LEASE_TIME\<rparr>) st;
                        st = st\<lparr>ds_db := lease_store env a (ds_db st)\<rparr>
                    in set_lease a (\<lambda>l. l\<lparr>le_declined := True\<rparr>) st)"

definition process_inform :: "DhcpPacket \<Rightarrow> DhcpInterface \<Rightarrow> dhcp_srv \<Rightarrow> dhcp_srv" where
  "process_inform pkt pif st =
     (if dp_ciaddr pkt = 0 then dhcp_error pif ErrPkt st
      else dhcp_emit [DStat (pi_index pif) Tx, DStat (pi_index pif) TxAck,
             DClient (dp_ciaddr pkt) (build_reply pkt pif 0
               (add_msgtype_ack @ add_serverid (pi_ip pif) @ add_dns (ds_config st) @ add_ntp (ds_config st) @ add_domain_name (ds_config st)))] st)"

definition dhcp_rx_server :: "lease_env \<Rightarrow> DhcpPacket \<Rightarrow> DhcpInterface \<Rightarrow> dhcp_srv \<Rightarrow> dhcp_srv option" where
  "dhcp_rx_server env pkt pif st =
     (if dp_type pkt = 1 then process_discover env pkt pif st
      else if dp_type pkt = 3 then Some (process_request env pkt pif st)
      else if dp_type pkt = 4 then Some (process_decline pkt pif st)
      else if dp_type pkt = 7 then Some (process_release env pkt pif st)
      else if dp_type pkt = 8 then Some (process_inform pkt pif st)
      else Some st)"

section \<open>Commands\<close>

definition cliClearDhcpLeaseCmd :: "lease_env \<Rightarrow> dhcp_srv \<Rightarrow> dhcp_srv" where
  "cliClearDhcpLeaseCmd env st = st\<lparr>ds_db := lease_clear_all env (ds_db st)\<rparr>"

definition cliClearDhcpLeaseIpCmd :: "string \<Rightarrow> dhcp_srv \<Rightarrow> bool \<times> dhcp_srv" where
  "cliClearDhcpLeaseIpCmd arg st =
     (case atoip arg of
        None \<Rightarrow> (True, st)
      | Some ip \<Rightarrow> (case lease_find_ip ip (ds_db st) of None \<Rightarrow> (False, st) | Some a \<Rightarrow> (False, st\<lparr>ds_db := lease_delete a (ds_db st)\<rparr>)))"

end
