(* ===== verification/Dhcp_Relay.thy ===== *)
theory Dhcp_Relay
  imports Dhcp_Server
begin

text \<open>
  Reception of a DHCP packet (\<open>dhcp/exec/dhcp_rx.c\<close>) and the relay agent (\<open>dhcp_tx.c\<close>): the parser of the options,
  the choice between the local server and the relay, option 82, and the server groups a packet is forwarded to.
  The options are the bytes of the array; a read outside of the array makes the result \<open>None\<close>. A write past its end makes
  the list longer than the array, it goes into the fields behind it.
\<close>

section \<open>Options\<close>

text \<open>The fields of \<open>Packet\<close> that the parser sets; pointers into the options are positions.\<close>

record pkt_info =
  pk_type :: "nat option"
  pk_82 :: "nat option"
  pk_end :: nat
  pk_len :: nat
  pk_server_id :: u32
  pk_lease_time :: u32
  pk_subnet_mask :: u32
  pk_requested_ip :: u32

definition no_info :: pkt_info where
  "no_info = \<lparr>pk_type = None, pk_82 = None, pk_end = 0, pk_len = 0, pk_server_id = 0, pk_lease_time = 0, pk_subnet_mask = 0, pk_requested_ip = 0\<rparr>"

definition DHCP_HEADER :: nat where [simp]: "DHCP_HEADER = 240"
definition DHCP_OPTIONS :: nat where [simp]: "DHCP_OPTIONS = 308 + 824"
definition MAX_DHCP_PKT_SIZE :: nat where [simp]: "MAX_DHCP_PKT_SIZE = 1400 - 20 - 8"

definition opt32 :: "u8 list \<Rightarrow> nat \<Rightarrow> u32" where
  "opt32 b p = be32 (b ! (p + 2)) (b ! (p + 3)) (b ! (p + 4)) (b ! (p + 5))"

text \<open>The options with four bytes of data that the parser copies.\<close>

definition copied_option :: "u8 \<Rightarrow> bool" where
  "copied_option c \<longleftrightarrow> c = 54 \<or> c = 51 \<or> c = 1 \<or> c = 50"

definition read_option :: "u8 list \<Rightarrow> nat \<Rightarrow> pkt_info \<Rightarrow> pkt_info" where
  "read_option b p k =
     (if b ! p = 53 then k\<lparr>pk_type := Some (p + 2)\<rparr>
      else if b ! p = 82 then k\<lparr>pk_82 := Some p\<rparr>
      else if b ! p = 54 then k\<lparr>pk_server_id := opt32 b p\<rparr>
      else if b ! p = 51 then k\<lparr>pk_lease_time := opt32 b p\<rparr>
      else if b ! p = 1 then k\<lparr>pk_subnet_mask := opt32 b p\<rparr>
      else if b ! p = 50 then k\<lparr>pk_requested_ip := opt32 b p\<rparr>
      else k)"

function chk_loop :: "u8 list \<Rightarrow> nat \<Rightarrow> pkt_info \<Rightarrow> (nat \<times> pkt_info) option" where
  "chk_loop b p k =
     (if length b \<le> p then None
      else if b ! p = 0xff \<or> b ! p = 0 then Some (p, k)
      else if copied_option (b ! p) \<and> length b < p + 6 then None
      else if length b \<le> p + 1 then None
      else chk_loop b (p + 2 + unat (b ! (p + 1))) (read_option b p k))"
  by auto
termination by (relation "measure (\<lambda>(b, p, _). length b - p)") auto

declare chk_loop.simps [simp del]

text \<open>\<open>True\<close> for a bad packet.\<close>

definition chk_options :: "u8 list \<Rightarrow> (bool \<times> pkt_info) option" where
  "chk_options b =
     (case chk_loop b 0 no_info of
        None \<Rightarrow> None
      | Some (p, k) \<Rightarrow>
          if b ! p \<noteq> 0xff then Some (True, k)
          else Some (False, k\<lparr>pk_end := p, pk_len := DHCP_HEADER + p + 1\<rparr>))"

section \<open>State\<close>

record RcpDhcprServer =
  sv_valid :: bool
  sv_ip :: "u32 list"
  sv_leases :: "u32 list"

text \<open>The fields of \<open>RcpInterface\<close> that only this process reads.\<close>

record DhcpIf = RcpInterface +
  if_admin_up :: bool
  if_dhcp_relay :: bool

record dhcp_proc =
  dc_srv :: dhcp_srv
  dhcps_enable :: bool
  dc_intf :: "DhcpIf list"
  dhcpr_server :: "RcpDhcprServer list"
  dhcpr_max_hops :: u8
  dhcpr_service_delay :: u8
  dhcpr_option82 :: bool
  dc_hostname :: "u8 list"
  dc_tic :: u32

definition dc_emit :: "dhcp_out list \<Rightarrow> dhcp_proc \<Rightarrow> dhcp_proc" where
  "dc_emit os s = s\<lparr>dc_srv := dhcp_emit os (dc_srv s)\<rparr>"

definition dc_error :: "nat \<Rightarrow> dhcp_stat \<Rightarrow> dhcp_proc \<Rightarrow> dhcp_proc" where
  "dc_error i e s = dc_emit [DStat i ErrRx, DStat i e] s"

definition dc_assert :: "dhcp_proc \<Rightarrow> dhcp_proc" where
  "dc_assert s = s\<lparr>dc_srv := (dc_srv s)\<lparr>ds_db := lease_assert (ds_db (dc_srv s))\<rparr>\<rparr>"

definition dc_pif :: "nat \<Rightarrow> dhcp_proc \<Rightarrow> DhcpInterface" where
  "dc_pif i s = \<lparr>pi_index = i, pi_ip = if_ip (dc_intf s ! i), pi_mask = if_mask (dc_intf s ! i)\<rparr>"

definition char_bytes :: "string \<Rightarrow> u8 list" where
  "char_bytes str = map (\<lambda>c. word_of_nat (of_char c)) str"

section \<open>Servers behind the relay\<close>

definition group_ips :: "RcpDhcprServer \<Rightarrow> u32 list" where
  "group_ips g = filter (\<lambda>ip. ip \<noteq> 0) (sv_ip g)"

definition check_server :: "u32 \<Rightarrow> RcpDhcprServer list \<Rightarrow> bool" where
  "check_server ip gs = (ip \<noteq> 0 \<and> list_ex (\<lambda>g. sv_valid g \<and> list_ex (\<lambda>x. x \<noteq> 0 \<and> x = ip) (sv_ip g)) gs)"

text \<open>The counter of the first server with the address.\<close>

definition update_lease_count :: "u32 \<Rightarrow> RcpDhcprServer list \<Rightarrow> RcpDhcprServer list" where
  "update_lease_count ip gs =
     (if ip = 0 then gs
      else case find_pos (\<lambda>g. sv_valid g \<and> list_ex (\<lambda>x. x \<noteq> 0 \<and> x = ip) (sv_ip g)) gs of
             None \<Rightarrow> gs
           | Some i \<Rightarrow>
               (case find_pos (\<lambda>x. x \<noteq> 0 \<and> x = ip) (sv_ip (gs ! i)) of
                  None \<Rightarrow> gs
                | Some j \<Rightarrow> upd_pos i (\<lambda>g. g\<lparr>sv_leases := upd_pos j (\<lambda>n. n + 1) (sv_leases g)\<rparr>) gs))"

definition txpacket_all :: "RcpDhcprServer list \<Rightarrow> u32 list" where
  "txpacket_all gs = concat (map group_ips (filter sv_valid gs))"

text \<open>The counter of the second loop is incremented for every slot of the table, also for those that are not valid.\<close>

fun balance_loop :: "nat \<Rightarrow> nat \<Rightarrow> RcpDhcprServer list \<Rightarrow> u32 list" where
  "balance_loop index cnt [] = []"
| "balance_loop index cnt (g # gs) =
     (if \<not> sv_valid g then balance_loop index (cnt + 1) gs
      else if cnt = index then group_ips g
      else balance_loop index (cnt + 1) gs)"

definition txpacket_random_balancing :: "nat \<Rightarrow> RcpDhcprServer list \<Rightarrow> u32 list" where
  "txpacket_random_balancing rnd gs =
     (let cnt = length (filter sv_valid gs)
      in if cnt = 0 then [] else balance_loop (rnd mod cnt) 0 gs)"

section \<open>Forwarding to the servers\<close>

definition put_at :: "nat \<Rightarrow> u8 list \<Rightarrow> u8 list \<Rightarrow> u8 list" where
  "put_at p bs b = take p b @ bs @ drop (p + length bs) b"

definition add_relay_option :: "u8 list \<Rightarrow> u8 list \<Rightarrow> pkt_info \<Rightarrow> u8 list \<Rightarrow> u8 list \<times> pkt_info" where
  "add_relay_option host name k b =
     (let len_option = length host + 1 + length name
      in if pk_len k + len_option < MAX_DHCP_PKT_SIZE
         then (put_at (pk_end k) ([82, word_of_nat (len_option + 2), 1, word_of_nat len_option] @ host @ [46] @ name @ [0xff]) b,
               k\<lparr>pk_end := pk_end k + 4 + len_option, pk_len := pk_len k + len_option + 4\<rparr>)
         else (b, k))"

text \<open>The checks of the relay and its changes to the packet.\<close>

definition relay_giaddr :: "nat \<Rightarrow> DhcpWire \<Rightarrow> pkt_info \<Rightarrow> dhcp_proc \<Rightarrow> dhcp_stat + DhcpWire" where
  "relay_giaddr i w k s =
     (if dw_giaddr w = 0
      then if pk_82 k \<noteq> None then Inl ErrPkt else Inr (w\<lparr>dw_giaddr := if_ip (dc_intf s ! i)\<rparr>)
      else if rcpFindInterface (map RcpInterface.truncate (dc_intf s)) (dw_giaddr w) \<noteq> None then Inl ErrGiaddr
      else Inr w)"

definition relay_option :: "nat \<Rightarrow> DhcpWire \<Rightarrow> pkt_info \<Rightarrow> dhcp_proc \<Rightarrow> DhcpWire \<times> pkt_info" where
  "relay_option i w k s =
     (if dhcpr_option82 s \<and> pk_82 k = None
      then (case add_relay_option (dc_hostname s) (char_bytes (if_name (dc_intf s ! i))) k (dw_options w) of
              (b, k) \<Rightarrow> (w\<lparr>dw_options := b\<rparr>, k))
      else (w, k))"

definition relay_targets :: "nat \<Rightarrow> DhcpWire \<Rightarrow> pkt_info \<Rightarrow> dhcp_proc \<Rightarrow> u32 list" where
  "relay_targets rnd w k s =
     (if pk_server_id k \<noteq> 0 then [pk_server_id k]
      else if unat (dhcpr_service_delay s) \<le> unat (dw_secs w) then txpacket_all (dhcpr_server s)
      else txpacket_random_balancing rnd (dhcpr_server s))"

definition relay_to_servers :: "nat \<Rightarrow> nat \<Rightarrow> DhcpWire \<Rightarrow> pkt_info \<Rightarrow> dhcp_proc \<Rightarrow> dhcp_proc" where
  "relay_to_servers rnd i w k s =
     (if filter sv_valid (dhcpr_server s) = [] then dc_error i ErrServerNotconf s
      else case relay_giaddr i w k s of
             Inl e \<Rightarrow> dc_error i e s
           | Inr w1 \<Rightarrow>
               (case relay_option i w1 k s of
                  (w2, k2) \<Rightarrow>
                    let w3 = w2\<lparr>dw_hops := dw_hops w2 + 1\<rparr>;
                        s1 = (if pk_server_id k2 \<noteq> 0 \<and> \<not> check_server (pk_server_id k2) (dhcpr_server s)
                              then dc_emit [DStat i WarnServerUnknown] s else s)
                    in dc_emit (map (\<lambda>ip. DForward ip w3 (pk_len k2)) (relay_targets rnd w3 k2 s)) s1))"

definition wire_packet :: "DhcpWire \<Rightarrow> pkt_info \<Rightarrow> nat \<Rightarrow> u32 \<Rightarrow> DhcpPacket" where
  "wire_packet w k t src =
     \<lparr>dp_type = dw_options w ! t, dp_tid = dw_tid w, dp_secs = dw_secs w, dp_ciaddr = dw_ciaddr w, dp_giaddr = dw_giaddr w,
      dp_chaddr = take 6 (dw_chaddr w), dp_requested_ip = pk_requested_ip k,
      dp_82 = map_option (\<lambda>p. drop p (dw_options w)) (pk_82 k), dp_ip_source = src\<rparr>"

definition forward_server :: "lease_env \<Rightarrow> nat \<Rightarrow> nat \<Rightarrow> u32 \<Rightarrow> nat \<Rightarrow> DhcpWire \<Rightarrow> pkt_info \<Rightarrow> dhcp_proc \<Rightarrow> dhcp_proc option" where
  "forward_server env rnd i src t w k s =
     (if \<not> if_dhcp_relay (dc_intf s ! i)
      then if dhcps_enable s
           then map_option (\<lambda>st. s\<lparr>dc_srv := st\<rparr>) (dhcp_rx_server env (wire_packet w k t src) (dc_pif i s) (dc_srv s))
           else Some (dc_error i ErrNotConfigured s)
      else Some (relay_to_servers rnd i w k s))"

section \<open>Forwarding to the clients\<close>

definition remove_option82 :: "DhcpWire \<Rightarrow> pkt_info \<Rightarrow> DhcpWire \<times> pkt_info" where
  "remove_option82 w k =
     (case pk_82 k of
        None \<Rightarrow> (w, k)
      | Some p \<Rightarrow> (w\<lparr>dw_options := (dw_options w)[p := 0xff]\<rparr>,
                   k\<lparr>pk_len := pk_len k - unat (dw_options w ! (p + 1)), pk_end := p, pk_82 := None\<rparr>))"

definition forward_client :: "nat \<Rightarrow> nat \<Rightarrow> DhcpWire \<Rightarrow> pkt_info \<Rightarrow> dhcp_proc \<Rightarrow> dhcp_proc" where
  "forward_client i t w k s =
     (case rcpFindInterfaceByLPM (map RcpInterface.truncate (dc_intf s)) (dw_yiaddr w) of
        None \<Rightarrow> dc_error i ErrOutgoingIntf s
      | Some j \<Rightarrow>
          if \<not> if_dhcp_relay (dc_intf s ! j) then dc_error i ErrOutgoingIntf s
          else (case remove_option82 w k of
                  (w1, k1) \<Rightarrow>
                    let w2 = w1\<lparr>dw_hops := dw_hops w1 + 1\<rparr>;
                        s1 = dc_emit [DToClient j w2 (pk_len k1), DStat j Tx] s
                    in if dw_options w2 ! t = 2 then dc_emit [DStat j TxOffer] s1
                       else if dw_options w2 ! t = 5
                       then (dc_emit [DStat j TxAck] s1)\<lparr>dhcpr_server := update_lease_count (pk_server_id k1) (dhcpr_server s1)\<rparr>
                       else if dw_options w2 ! t = 6 then dc_emit [DStat j TxNack] s1
                       else dc_assert s1))"

section \<open>Reception\<close>

text \<open>The interface index and the addresses come with the packet; \<open>rnd\<close> is the next value of \<open>rand()\<close>.\<close>

definition dhcp_rxpacket :: "lease_env \<Rightarrow> nat \<Rightarrow> int \<Rightarrow> u32 \<Rightarrow> DhcpWire \<Rightarrow> dhcp_proc \<Rightarrow> dhcp_proc option" where
  "dhcp_rxpacket env rnd kindex src w s =
     (case rcpFindInterfaceByKIndex (map RcpInterface.truncate (dc_intf s)) kindex of
        None \<Rightarrow> Some s
      | Some i \<Rightarrow>
          if \<not> if_link_up (dc_intf s ! i) \<or> \<not> if_admin_up (dc_intf s ! i) then Some s
          else let s = dc_emit [DStat i Rx] s
               in if if_dhcp_relay (dc_intf s ! i) \<and> dhcpr_max_hops s < dw_hops w then Some (dc_error i ErrHops s)
                  else (case chk_options (dw_options w) of
                          None \<Rightarrow> None
                        | Some (True, _) \<Rightarrow> Some (dc_error i ErrPkt s)
                        | Some (False, k) \<Rightarrow>
                            (case pk_type k of
                               None \<Rightarrow> Some (dc_error i ErrPkt s)
                             | Some t \<Rightarrow>
                                 let ty = dw_options w ! t
                                 in if ty = 1 then forward_server env rnd i src t w k (dc_emit [DStat i RxDiscover] s)
                                    else if ty = 2 then Some (forward_client i t w k (dc_emit [DStat i RxOffer] s))
                                    else if ty = 3 then forward_server env rnd i src t w k (dc_emit [DStat i RxRequest] s)
                                    else if ty = 4 then forward_server env rnd i src t w k (dc_emit [DStat i RxDecline] s)
                                    else if ty = 5 then Some (forward_client i t w k (dc_emit [DStat i RxAck] s))
                                    else if ty = 6 then Some (forward_client i t w k (dc_emit [DStat i RxNack] s))
                                    else if ty = 7 then forward_server env rnd i src t w k (dc_emit [DStat i RxRelease] s)
                                    else if ty = 8 then forward_server env rnd i src t w k (dc_emit [DStat i RxInform] s)
                                    else Some (dc_assert s))))"

section \<open>The main loop\<close>

text \<open>The branch of \<open>main\<close> for a second without data.\<close>

definition dhcp_tick :: "lease_env \<Rightarrow> dhcp_proc \<Rightarrow> dhcp_proc" where
  "dhcp_tick env s =
     (let st = icmp_timeout (dc_srv s);
          st = st\<lparr>ds_db := lease_timeout (en_now env) (ds_db st)\<rparr>;
          st = (if unat (dc_tic s) mod 3600 = 0 then st\<lparr>ds_db := lease_file_update env (ds_db st)\<rparr> else st)
      in s\<lparr>dc_srv := st, dc_tic := dc_tic s + 1\<rparr>)"

end
