(* ===== verification/Dhcp_Config.thy ===== *)
theory Dhcp_Config
  imports Dhcp_Relay Rip_Proc
begin

text \<open>
  The configuration commands of the DHCP server (\<open>dhcp/exec/callbacks_server.c\<close>) and of the relay agent
  (\<open>callbacks_relay.c\<close>). A command gets the words of the command line and returns 0 or \<open>RCPERR\<close>. The commands of
  the network mode get the name of the network that the session is in (\<open>mode_data\<close>).
\<close>

section \<open>Tables\<close>

definition find_dhcps_network :: "u32 \<Rightarrow> u32 \<Rightarrow> RcpDhcpsNetwork list \<Rightarrow> nat option" where
  "find_dhcps_network ip msk nets = find_pos (\<lambda>n. dn_valid n \<and> ip = dn_ip n \<and> msk = dn_mask n) nets"

definition find_network_name :: "string \<Rightarrow> RcpDhcpsNetwork list \<Rightarrow> nat option" where
  "find_network_name nm nets = find_pos (\<lambda>n. dn_valid n \<and> nm = dn_name n) nets"

definition find_dhcps_network_empty :: "RcpDhcpsNetwork list \<Rightarrow> nat option" where
  "find_dhcps_network_empty nets = find_pos (\<lambda>n. \<not> dn_valid n) nets"

definition find_host :: "u32 \<Rightarrow> RcpDhcpsHost list \<Rightarrow> nat option" where
  "find_host ip hosts = find_pos (\<lambda>h. dh_valid h \<and> ip = dh_ip h) hosts"

definition find_host_empty :: "RcpDhcpsHost list \<Rightarrow> nat option" where
  "find_host_empty hosts = find_pos (\<lambda>h. \<not> dh_valid h) hosts"

definition find_server :: "u32 list \<Rightarrow> RcpDhcprServer list \<Rightarrow> nat option" where
  "find_server ips gs = find_pos (\<lambda>g. sv_valid g \<and> ips = sv_ip g) gs"

definition find_server_empty :: "RcpDhcprServer list \<Rightarrow> nat option" where
  "find_server_empty gs = find_pos (\<lambda>g. \<not> sv_valid g) gs"

text \<open>Entries after \<open>memset\<close> with 0.\<close>

definition no_network :: RcpDhcpsNetwork where
  "no_network = \<lparr>dn_valid = False, dn_ip = 0, dn_mask = 0, dn_name = [], dn_range_start = 0, dn_range_end = 0, dn_gw1 = 0, dn_gw2 = 0,
     dn_lease_days = 0, dn_lease_hours = 0, dn_lease_minutes = 0, dn_last_ip = 0\<rparr>"

definition no_host :: RcpDhcpsHost where
  "no_host = \<lparr>dh_ip = 0, dh_mac = [0, 0, 0, 0, 0, 0], dh_valid = False\<rparr>"

definition no_server :: RcpDhcprServer where
  "no_server = \<lparr>sv_valid = False, sv_ip = [0, 0, 0, 0], sv_leases = [0, 0, 0, 0]\<rparr>"

definition new_dhcps_network :: "u32 \<Rightarrow> u32 \<Rightarrow> RcpDhcpsNetwork" where
  "new_dhcps_network ip msk = no_network\<lparr>dn_valid := True, dn_ip := ip, dn_mask := msk, dn_name := print_cidr ip msk, dn_lease_days := 1\<rparr>"

definition upd_networks :: "(RcpDhcpsNetwork list \<Rightarrow> RcpDhcpsNetwork list) \<Rightarrow> dhcp_proc \<Rightarrow> dhcp_proc" where
  "upd_networks f s = s\<lparr>dc_srv := (dc_srv s)\<lparr>ds_network := f (ds_network (dc_srv s))\<rparr>\<rparr>"

definition upd_hosts :: "(RcpDhcpsHost list \<Rightarrow> RcpDhcpsHost list) \<Rightarrow> dhcp_proc \<Rightarrow> dhcp_proc" where
  "upd_hosts f s = s\<lparr>dc_srv := (dc_srv s)\<lparr>ds_host := f (ds_host (dc_srv s))\<rparr>\<rparr>"

definition upd_config :: "(dhcps_config \<Rightarrow> dhcps_config) \<Rightarrow> dhcp_proc \<Rightarrow> dhcp_proc" where
  "upd_config f s = s\<lparr>dc_srv := (dc_srv s)\<lparr>ds_config := f (ds_config (dc_srv s))\<rparr>\<rparr>"

section \<open>Server mode\<close>

definition cliNoIpDhcpServer :: "dhcp_proc \<Rightarrow> int \<times> dhcp_proc" where
  "cliNoIpDhcpServer s =
     (0, upd_config (\<lambda>c. c\<lparr>dhcps_dns1 := 0, dhcps_dns2 := 0, dhcps_ntp1 := 0, dhcps_ntp2 := 0, dhcps_domain_name := []\<rparr>)
           (upd_networks (map (\<lambda>_. no_network)) (s\<lparr>dhcps_enable := False\<rparr>)))"

definition cliDhcpServerEnableCmd :: "string list \<Rightarrow> dhcp_proc \<Rightarrow> int \<times> dhcp_proc" where
  "cliDhcpServerEnableCmd argv s = (0, s\<lparr>dhcps_enable := \<not> is_no argv\<rparr>)"

definition cliDhcpServerNoNetwork :: "dhcp_proc \<Rightarrow> int \<times> dhcp_proc" where
  "cliDhcpServerNoNetwork s = (0, upd_networks (map (\<lambda>_. no_network)) s)"

text \<open>The name of the network is the new \<open>mode_data\<close> of the session.\<close>

definition cliDhcpServerNetwork :: "string list \<Rightarrow> dhcp_proc \<Rightarrow> int \<times> string option \<times> dhcp_proc" where
  "cliDhcpServerNetwork argv s =
     (case atocidr (argv ! (if is_no argv then 2 else 1)) of
        None \<Rightarrow> (RCPERR, None, s)
      | Some (ip, msk) \<Rightarrow>
          if ip AND NOT msk \<noteq> 0 then (RCPERR, None, s)
          else (case (is_no argv, find_dhcps_network ip msk (ds_network (dc_srv s))) of
                  (True, None) \<Rightarrow> (0, None, s)
                | (True, Some i) \<Rightarrow> (0, None, upd_networks (upd_pos i (\<lambda>_. no_network)) s)
                | (False, Some i) \<Rightarrow> (0, Some (dn_name (ds_network (dc_srv s) ! i)), s)
                | (False, None) \<Rightarrow>
                    (case find_dhcps_network_empty (ds_network (dc_srv s)) of
                       None \<Rightarrow> (RCPERR, None, s)
                     | Some i \<Rightarrow> (0, Some (print_cidr ip msk), upd_networks (upd_pos i (\<lambda>_. new_dhcps_network ip msk)) s))))"

text \<open>One address, and a second one if there are three words.\<close>

definition two_ips :: "string list \<Rightarrow> (u32 \<times> u32) option" where
  "two_ips argv =
     (case atoip (argv ! 1) of
        None \<Rightarrow> None
      | Some a \<Rightarrow> if length argv = 3 then map_option (Pair a) (atoip (argv ! 2)) else Some (a, 0))"

definition cliDhcpServerDns :: "string list \<Rightarrow> dhcp_proc \<Rightarrow> int \<times> dhcp_proc" where
  "cliDhcpServerDns argv s =
     (if is_no argv then (0, upd_config (\<lambda>c. c\<lparr>dhcps_dns1 := 0, dhcps_dns2 := 0\<rparr>) s)
      else case two_ips argv of
             None \<Rightarrow> (RCPERR, s)
           | Some (a, b) \<Rightarrow> (0, upd_config (\<lambda>c. c\<lparr>dhcps_dns1 := a, dhcps_dns2 := b\<rparr>) s))"

definition cliDhcpServerNtp :: "string list \<Rightarrow> dhcp_proc \<Rightarrow> int \<times> dhcp_proc" where
  "cliDhcpServerNtp argv s =
     (if is_no argv then (0, upd_config (\<lambda>c. c\<lparr>dhcps_ntp1 := 0, dhcps_ntp2 := 0\<rparr>) s)
      else case two_ips argv of
             None \<Rightarrow> (RCPERR, s)
           | Some (a, b) \<Rightarrow> (0, upd_config (\<lambda>c. c\<lparr>dhcps_ntp1 := a, dhcps_ntp2 := b\<rparr>) s))"

definition CLI_MAX_DOMAIN_NAME :: nat where [simp]: "CLI_MAX_DOMAIN_NAME = 63"

definition cliDhcpServerDomainName :: "string list \<Rightarrow> dhcp_proc \<Rightarrow> int \<times> dhcp_proc" where
  "cliDhcpServerDomainName argv s =
     (0, upd_config (\<lambda>c. c\<lparr>dhcps_domain_name := if is_no argv then [] else take CLI_MAX_DOMAIN_NAME (char_bytes (argv ! 1))\<rparr>) s)"

text \<open>\<open>mac\<close> is what \<open>atomac\<close> reads out of the second word, \<open>None\<close> if it fails.\<close>

definition cliDhcpServerHost :: "u8 list option \<Rightarrow> string list \<Rightarrow> dhcp_proc \<Rightarrow> int \<times> dhcp_proc" where
  "cliDhcpServerHost mac argv s =
     (case atoip (argv ! (if is_no argv then 2 else 1)) of
        None \<Rightarrow> (RCPERR, s)
      | Some ip \<Rightarrow>
          let hosts = ds_host (dc_srv s)
          in if is_no argv
             then (0, case find_host ip hosts of None \<Rightarrow> s | Some i \<Rightarrow> upd_hosts (upd_pos i (\<lambda>_. no_host)) s)
             else (case mac of
                     None \<Rightarrow> (RCPERR, s)
                   | Some m \<Rightarrow>
                       (case (case find_host ip hosts of None \<Rightarrow> find_host_empty hosts | Some i \<Rightarrow> Some i) of
                          None \<Rightarrow> (RCPERR, s)
                        | Some i \<Rightarrow> (0, upd_hosts (upd_pos i (\<lambda>_. \<lparr>dh_ip = ip, dh_mac = m, dh_valid = True\<rparr>)) s))))"

section \<open>Network mode\<close>

definition set_lease_time :: "u8 \<Rightarrow> u8 \<Rightarrow> u8 \<Rightarrow> RcpDhcpsNetwork \<Rightarrow> RcpDhcpsNetwork" where
  "set_lease_time d h m n =
     (if d = 0 \<and> h = 0 \<and> m = 0 then n\<lparr>dn_lease_days := 1, dn_lease_hours := 0, dn_lease_minutes := 0\<rparr>
      else n\<lparr>dn_lease_days := d, dn_lease_hours := h, dn_lease_minutes := m\<rparr>)"

definition cliDhcpServerLease :: "string \<Rightarrow> string list \<Rightarrow> dhcp_proc \<Rightarrow> int \<times> dhcp_proc" where
  "cliDhcpServerLease nm argv s =
     (case find_network_name nm (ds_network (dc_srv s)) of
        None \<Rightarrow> (RCPERR, s)
      | Some i \<Rightarrow>
          (0, upd_networks (upd_pos i
                (if is_no argv then set_lease_time 0 0 0
                 else set_lease_time (word_of_int (atoi (argv ! 1))) (word_of_int (atoi (argv ! 2))) (word_of_int (atoi (argv ! 3))))) s))"

definition cliDhcpServerRouter :: "string \<Rightarrow> string list \<Rightarrow> dhcp_proc \<Rightarrow> int \<times> dhcp_proc" where
  "cliDhcpServerRouter nm argv s =
     (case find_network_name nm (ds_network (dc_srv s)) of
        None \<Rightarrow> (RCPERR, s)
      | Some i \<Rightarrow>
          if is_no argv then (0, upd_networks (upd_pos i (\<lambda>n. n\<lparr>dn_gw1 := 0, dn_gw2 := 0\<rparr>)) s)
          else (case two_ips argv of
                  None \<Rightarrow> (RCPERR, s)
                | Some (a, b) \<Rightarrow> (0, upd_networks (upd_pos i (\<lambda>n. n\<lparr>dn_gw1 := a, dn_gw2 := b\<rparr>)) s)))"

definition cliDhcpServerRange :: "string \<Rightarrow> string list \<Rightarrow> dhcp_proc \<Rightarrow> int \<times> dhcp_proc" where
  "cliDhcpServerRange nm argv s =
     (case find_network_name nm (ds_network (dc_srv s)) of
        None \<Rightarrow> (RCPERR, s)
      | Some i \<Rightarrow>
          let n = ds_network (dc_srv s) ! i
          in if is_no argv then (0, upd_networks (upd_pos i (\<lambda>n. n\<lparr>dn_range_start := 0, dn_range_end := 0\<rparr>)) s)
             else (case (atoip (argv ! 1), atoip (argv ! 2)) of
                     (Some r1, Some r2) \<Rightarrow>
                       if r1 AND dn_mask n \<noteq> dn_ip n AND dn_mask n then (RCPERR, s)
                       else if r2 AND dn_mask n \<noteq> dn_ip n AND dn_mask n then (RCPERR, s)
                       else if r2 \<le> r1 then (RCPERR, s)
                       else (0, upd_networks (upd_pos i (\<lambda>n. n\<lparr>dn_range_start := r1, dn_range_end := r2\<rparr>)) s)
                   | _ \<Rightarrow> (RCPERR, s)))"

section \<open>Relay agent\<close>

definition cliDhcpRelayCmd :: "string \<Rightarrow> string list \<Rightarrow> dhcp_proc \<Rightarrow> int \<times> dhcp_proc" where
  "cliDhcpRelayCmd ifname argv s =
     (case rcpFindInterfaceByName (map RcpInterface.truncate (dc_intf s)) ifname of
        None \<Rightarrow> (RCPERR, s)
      | Some i \<Rightarrow> (0, s\<lparr>dc_intf := upd_pos i (\<lambda>x. x\<lparr>if_dhcp_relay := \<not> is_no argv\<rparr>) (dc_intf s)\<rparr>))"

definition cliNoServerAll :: "dhcp_proc \<Rightarrow> int \<times> dhcp_proc" where
  "cliNoServerAll s = (0, s\<lparr>dhcpr_server := map (\<lambda>g. g\<lparr>sv_valid := False\<rparr>) (dhcpr_server s)\<rparr>)"

text \<open>Up to four addresses; those that are missing are 0.\<close>

definition server_ips :: "string list \<Rightarrow> u32 list option" where
  "server_ips args = map_option (\<lambda>ips. ips @ replicate (4 - length ips) 0) (those (map atoip (take 4 args)))"

definition cliServerCmd :: "string list \<Rightarrow> dhcp_proc \<Rightarrow> int \<times> dhcp_proc" where
  "cliServerCmd argv s =
     (case server_ips (drop (if is_no argv then 2 else 1) argv) of
        None \<Rightarrow> (RCPERR, s)
      | Some ips \<Rightarrow>
          let gs = dhcpr_server s
          in case (is_no argv, find_server ips gs) of
               (True, None) \<Rightarrow> (0, s)
             | (True, Some i) \<Rightarrow> (0, s\<lparr>dhcpr_server := upd_pos i (\<lambda>g. g\<lparr>sv_valid := False\<rparr>) gs\<rparr>)
             | (False, Some i) \<Rightarrow> (0, s\<lparr>dhcpr_server := upd_pos i (\<lambda>g. g\<lparr>sv_ip := ips\<rparr>) gs\<rparr>)
             | (False, None) \<Rightarrow>
                 (case find_server_empty gs of
                    None \<Rightarrow> (RCPERR, s)
                  | Some i \<Rightarrow> (0, s\<lparr>dhcpr_server := upd_pos i (\<lambda>_. no_server\<lparr>sv_valid := True, sv_ip := ips\<rparr>) gs\<rparr>)))"

definition cliServiceDelayCmd :: "string list \<Rightarrow> dhcp_proc \<Rightarrow> int \<times> dhcp_proc" where
  "cliServiceDelayCmd argv s = (0, s\<lparr>dhcpr_service_delay := if is_no argv then 10 else word_of_int (atoi (argv ! 1))\<rparr>)"

definition cliMaxHopsCmd :: "string list \<Rightarrow> dhcp_proc \<Rightarrow> int \<times> dhcp_proc" where
  "cliMaxHopsCmd argv s = (0, s\<lparr>dhcpr_max_hops := if is_no argv then 4 else word_of_int (atoi (argv ! 1))\<rparr>)"

definition cliClearDhcpStatsCmd :: "dhcp_proc \<Rightarrow> int \<times> dhcp_proc" where
  "cliClearDhcpStatsCmd s =
     (0, dc_emit (map DStatClear (filter (\<lambda>i. if_name (dc_intf s ! i) \<noteq> []) [0..<length (dc_intf s)]))
           (s\<lparr>dhcpr_server := map (\<lambda>g. if sv_valid g then g\<lparr>sv_leases := map (\<lambda>_. 0) (sv_leases g)\<rparr> else g) (dhcpr_server s)\<rparr>))"

definition cliOption :: "string list \<Rightarrow> dhcp_proc \<Rightarrow> int \<times> dhcp_proc" where
  "cliOption argv s = (0, s\<lparr>dhcpr_option82 := \<not> is_no argv\<rparr>)"

definition cliNoIpDhcpRelay :: "dhcp_proc \<Rightarrow> int \<times> dhcp_proc" where
  "cliNoIpDhcpRelay s =
     (0, s\<lparr>dhcpr_max_hops := 4, dhcpr_service_delay := 10, dhcpr_server := map (\<lambda>_. no_server) (dhcpr_server s)\<rparr>)"

section \<open>Events of the process\<close>

datatype dhcp_event =
    DEPacket lease_env nat int u32 DhcpWire
  | DEEcho u32
  | DETick lease_env
  | DEClear lease_env
  | DEClearIp string
  | DENoServer
  | DEEnable "string list"
  | DENoNetwork
  | DENetwork "string list"
  | DEDns "string list"
  | DENtp "string list"
  | DEDomain "string list"
  | DEHost "u8 list option" "string list"
  | DELease string "string list"
  | DERouter string "string list"
  | DERange string "string list"
  | DERelay string "string list"
  | DENoServerAll
  | DEServer "string list"
  | DEDelay "string list"
  | DEHops "string list"
  | DEClearStats
  | DEOption "string list"
  | DENoRelay

definition on_srv :: "(dhcp_srv \<Rightarrow> dhcp_srv) \<Rightarrow> dhcp_proc \<Rightarrow> dhcp_proc" where
  "on_srv f s = s\<lparr>dc_srv := f (dc_srv s)\<rparr>"

fun dhcp_step :: "dhcp_event \<Rightarrow> dhcp_proc \<Rightarrow> dhcp_proc option" where
  "dhcp_step (DEPacket env rnd kindex src w) s = dhcp_rxpacket env rnd kindex src w s"
| "dhcp_step (DEEcho ip) s = Some (on_srv (get_icmp_pkt ip) s)"
| "dhcp_step (DETick env) s = Some (dhcp_tick env s)"
| "dhcp_step (DEClear env) s = Some (on_srv (cliClearDhcpLeaseCmd env) s)"
| "dhcp_step (DEClearIp arg) s = Some (on_srv (\<lambda>st. snd (cliClearDhcpLeaseIpCmd arg st)) s)"
| "dhcp_step DENoServer s = Some (snd (cliNoIpDhcpServer s))"
| "dhcp_step (DEEnable argv) s = Some (snd (cliDhcpServerEnableCmd argv s))"
| "dhcp_step DENoNetwork s = Some (snd (cliDhcpServerNoNetwork s))"
| "dhcp_step (DENetwork argv) s = Some (snd (snd (cliDhcpServerNetwork argv s)))"
| "dhcp_step (DEDns argv) s = Some (snd (cliDhcpServerDns argv s))"
| "dhcp_step (DENtp argv) s = Some (snd (cliDhcpServerNtp argv s))"
| "dhcp_step (DEDomain argv) s = Some (snd (cliDhcpServerDomainName argv s))"
| "dhcp_step (DEHost mac argv) s = Some (snd (cliDhcpServerHost mac argv s))"
| "dhcp_step (DELease nm argv) s = Some (snd (cliDhcpServerLease nm argv s))"
| "dhcp_step (DERouter nm argv) s = Some (snd (cliDhcpServerRouter nm argv s))"
| "dhcp_step (DERange nm argv) s = Some (snd (cliDhcpServerRange nm argv s))"
| "dhcp_step (DERelay ifname argv) s = Some (snd (cliDhcpRelayCmd ifname argv s))"
| "dhcp_step DENoServerAll s = Some (snd (cliNoServerAll s))"
| "dhcp_step (DEServer argv) s = Some (snd (cliServerCmd argv s))"
| "dhcp_step (DEDelay argv) s = Some (snd (cliServiceDelayCmd argv s))"
| "dhcp_step (DEHops argv) s = Some (snd (cliMaxHopsCmd argv s))"
| "dhcp_step DEClearStats s = Some (snd (cliClearDhcpStatsCmd s))"
| "dhcp_step (DEOption argv) s = Some (snd (cliOption argv s))"
| "dhcp_step DENoRelay s = Some (snd (cliNoIpDhcpRelay s))"

end
