(* ===== verification/Dhcp_Props.thy ===== *)
theory Dhcp_Props
  imports Dhcp_LeaseInv Dhcp_Config
begin

text \<open>
  The DHCP server as a whole: its handlers keep the lease database consistent and end, an acknowledgement
  is backed by a lease of this client, the search for an address is complete, leases expire, and the lease
  file restores them after a restart.
\<close>

section \<open>The search for an address\<close>

lemma scan_free_result:
  assumes "stop < 0xffffffff"
  shows "\<exists>r. scan_free taken ip stop = Some r \<and>
    (case r of Some x \<Rightarrow> ip \<le> x \<and> x \<le> stop \<and> \<not> taken x | None \<Rightarrow> \<forall>x. ip \<le> x \<and> x \<le> stop \<longrightarrow> taken x)"
proof (induction ip rule: measure_induct_rule [where f = "\<lambda>ip. unat stop - unat ip"])
  case (less ip)
  show ?case
  proof (cases "ip \<le> stop \<and> taken ip")
    case True
    have "unat ip < 4294967295" using True assms by (simp add: word_le_nat_alt word_less_nat_alt)
    then have up: "unat (ip + 1) = unat ip + 1" by (simp add: unat_word_ariths)
    show ?thesis
    proof (cases "ip + 1 \<le> stop")
      case le: True
      then have "unat stop - unat (ip + 1) < unat stop - unat ip" using up by (simp add: word_le_nat_alt)
      from less.IH [OF this] obtain r where r: "scan_free taken (ip + 1) stop = Some r"
        "case r of Some x \<Rightarrow> ip + 1 \<le> x \<and> x \<le> stop \<and> \<not> taken x | None \<Rightarrow> \<forall>x. ip + 1 \<le> x \<and> x \<le> stop \<longrightarrow> taken x" by blast
      have "ip \<le> ip + 1" using up by (simp add: word_le_nat_alt)
      moreover have "x = ip \<or> ip + 1 \<le> x" if "ip \<le> x" for x using that up by (auto simp: word_le_nat_alt word_unat_eq_iff)
      ultimately have "case r of Some x \<Rightarrow> ip \<le> x \<and> x \<le> stop \<and> \<not> taken x | None \<Rightarrow> \<forall>x. ip \<le> x \<and> x \<le> stop \<longrightarrow> taken x"
        using r(2) True by (auto split: option.splits intro: order_trans)
      then show ?thesis using r(1) True by (subst scan_free.simps) simp
    next
      case False
      have "x = ip" if "ip \<le> x" "x \<le> stop" for x
        using that False up by (simp add: word_le_nat_alt word_unat_eq_iff)
      then show ?thesis using True False scan_free.simps [of taken "ip + 1" stop] by (subst scan_free.simps) auto
    qed
  next
    case False
    then show ?thesis by (subst scan_free.simps) auto
  qed
qed

text \<open>The search does not end when the range reaches up to the highest address and all addresses are taken.\<close>

lemma scan_free_endless_aux: "scan_free taken ip stop = Some r \<Longrightarrow> stop = 0xffffffff \<Longrightarrow> \<exists>x. \<not> taken x"
proof -
  have top: "ip \<le> 0xffffffff" for ip :: u32 using unat_u32_less [of ip] by (simp add: word_le_nat_alt)
  assume "scan_free taken ip stop = Some r"
  then have "stop = 0xffffffff \<longrightarrow> (\<exists>x. \<not> taken x)"
    by (rule scan_free.raw_induct [where P = "\<lambda>taken ip stop r. stop = 0xffffffff \<longrightarrow> (\<exists>x. \<not> taken x)", rotated])
       (auto simp: top split: if_splits)
  then show "stop = 0xffffffff \<Longrightarrow> \<exists>x. \<not> taken x" by blast
qed

theorem scan_free_endless:
  assumes "\<forall>x. taken x"
  shows "scan_free taken ip 0xffffffff = None"
  using assms scan_free_endless_aux [of taken ip "0xffffffff"] by (cases "scan_free taken ip 0xffffffff") auto

text \<open>A network of the configuration: its range ends below the highest address, and if the network is in use its mask is the one
  of a prefix length, and the range lies in the network.\<close>

definition net_ok :: "RcpDhcpsNetwork \<Rightarrow> bool" where
  "net_ok n \<longleftrightarrow> dn_range_start n \<le> dn_range_end n \<and> dn_range_end n < 0xffffffff \<and>
     (dn_valid n \<longrightarrow> (\<exists>e \<le> 32. dn_mask n = cidr_mask e) \<and> dn_ip n AND NOT (dn_mask n) = 0 \<and>
        (dn_range_end n \<noteq> 0 \<longrightarrow> dn_range_start n AND dn_mask n = dn_ip n \<and> dn_range_end n AND dn_mask n = dn_ip n))"

definition in_range :: "RcpDhcpsNetwork \<Rightarrow> u32 \<Rightarrow> bool" where
  "in_range n ip \<longleftrightarrow> dn_range_start n \<le> ip \<and> ip \<le> dn_range_end n"

lemma range_first_in: "net_ok n \<Longrightarrow> in_range n (range_first n)"
  by (auto simp: net_ok_def in_range_def range_first_def not_less)

lemma and_cidr_mask: "e \<le> 32 \<Longrightarrow> x AND cidr_mask e = push_bit (32 - e) (drop_bit (32 - e) x)"
  by (rule bit_word_eqI) (auto simp: bit_simps bit_cidr_mask)

lemma and_cidr_mask_eq: "e \<le> 32 \<Longrightarrow> x AND cidr_mask e = y AND cidr_mask e \<longleftrightarrow> unat x div 2 ^ (32 - e) = unat y div 2 ^ (32 - e)"
proof -
  assume e: "e \<le> 32"
  have "drop_bit (32 - e) (push_bit (32 - e) (drop_bit (32 - e) z)) = drop_bit (32 - e) z" for z :: u32
    by (rule bit_word_eqI) (auto simp: bit_simps dest: bit_imp_le_length)
  then have "x AND cidr_mask e = y AND cidr_mask e \<longleftrightarrow> drop_bit (32 - e) x = drop_bit (32 - e) y"
    unfolding and_cidr_mask [OF e] by metis
  then show ?thesis by (simp add: word_unat_eq_iff unat_drop_bit_eq drop_bit_eq_div [where 'a = nat])
qed

text \<open>The addresses between two addresses of a network are addresses of the network.\<close>

lemma between_in_network:
  assumes "e \<le> 32" "a \<le> x" "x \<le> b" "a AND cidr_mask e = b AND cidr_mask e"
  shows "x AND cidr_mask e = a AND cidr_mask e"
proof -
  have "unat a div 2 ^ (32 - e) \<le> unat x div 2 ^ (32 - e)" "unat x div 2 ^ (32 - e) \<le> unat b div 2 ^ (32 - e)"
    using assms(2,3) by (simp_all add: word_le_nat_alt div_le_mono)
  then show ?thesis using assms(1,4) by (simp add: and_cidr_mask_eq)
qed

lemma network_and_mask:
  assumes "net_ok n" "dn_valid n"
  shows "dn_ip n AND dn_mask n = dn_ip n"
proof -
  have "dn_ip n AND NOT (dn_mask n) = 0" using assms by (simp add: net_ok_def)
  moreover have "dn_ip n = (dn_ip n AND dn_mask n) OR (dn_ip n AND NOT (dn_mask n))" by (rule bit_word_eqI) (auto simp: bit_simps)
  ultimately show ?thesis by simp
qed

lemma range_in_network: "net_ok n \<Longrightarrow> dn_valid n \<Longrightarrow> dn_range_end n \<noteq> 0 \<Longrightarrow> in_range n x \<Longrightarrow> x AND dn_mask n = dn_ip n"
  using between_in_network [of _ "dn_range_start n" x "dn_range_end n"] by (auto simp: net_ok_def in_range_def)

lemma net_ok_last_ip [simp]: "net_ok (n\<lparr>dn_last_ip := l\<rparr>) = net_ok n"
  by (simp add: net_ok_def)

text \<open>The address of a configured host, or else a free address of the range, or 0 when the range is full.\<close>

lemma assign_ip_result:
  assumes "net_ok net"
  shows "\<exists>ip l. assign_ip hosts net mac db = Some (ip, net\<lparr>dn_last_ip := l\<rparr>) \<and>
    (case static_host hosts net mac of
       Some h \<Rightarrow> ip = dh_ip h
     | None \<Rightarrow> (in_range net ip \<and> lease_find_ip ip db = None) \<or>
               (ip = 0 \<and> (\<forall>x. in_range net x \<longrightarrow> lease_find_ip x db \<noteq> None)))"
proof (cases "static_host hosts net mac")
  case (Some h)
  then show ?thesis by (auto simp: assign_ip_def intro: exI [of _ "dn_last_ip net"])
next
  case None
  let ?t = "\<lambda>ip. lease_find_ip ip db \<noteq> None"
  have r: "in_range net (range_first net)" "dn_range_end net < 0xffffffff" using range_first_in [OF assms] assms by (simp_all add: net_ok_def)
  then have "range_first net < 0xffffffff" by (auto simp: in_range_def)
  obtain r1 where r1: "scan_free ?t (range_first net) (dn_range_end net) = Some r1"
    "case r1 of Some x \<Rightarrow> range_first net \<le> x \<and> x \<le> dn_range_end net \<and> \<not> ?t x | None \<Rightarrow> \<forall>x. range_first net \<le> x \<and> x \<le> dn_range_end net \<longrightarrow> ?t x"
    using scan_free_result [OF r(2)] by blast
  obtain r2 where r2: "scan_free ?t (dn_range_start net) (range_first net) = Some r2"
    "case r2 of Some x \<Rightarrow> dn_range_start net \<le> x \<and> x \<le> range_first net \<and> \<not> ?t x | None \<Rightarrow> \<forall>x. dn_range_start net \<le> x \<and> x \<le> range_first net \<longrightarrow> ?t x"
    using scan_free_result [OF \<open>range_first net < 0xffffffff\<close>] by blast
  consider x where "r1 = Some x" | x where "r1 = None" "r2 = Some x" | "r1 = None" "r2 = None" by (cases r1; cases r2) auto
  then show ?thesis
  proof cases
    case 1
    then show ?thesis using None r1 r(1) by (auto simp: assign_ip_def in_range_def intro: order_trans)
  next
    case 2
    then show ?thesis using None r1 r2 r(1) by (auto simp: assign_ip_def in_range_def intro: order_trans)
  next
    case 3
    then have "lease_find_ip x db \<noteq> None" if "in_range net x" for x
      using r1(2) r2(2) that by (cases "x \<le> range_first net") (auto simp: in_range_def)
    then show ?thesis using None r1 r2 3 by (auto simp: assign_ip_def)
  qed
qed

section \<open>The handlers keep the database consistent\<close>

definition srv_ok :: "dhcp_srv \<Rightarrow> bool" where
  "srv_ok st \<longleftrightarrow> lease_ok (leases (ds_db st)) (ds_db st) \<and> list_all net_ok (ds_network st)"

lemma srv_okI: "lease_ok L (ds_db st) \<Longrightarrow> list_all net_ok (ds_network st) \<Longrightarrow> srv_ok st"
  using lease_ok_leases by (auto simp: srv_ok_def)

lemma dhcp_emit_sel [simp]:
  "ds_db (dhcp_emit os st) = ds_db st" "ds_network (dhcp_emit os st) = ds_network st" "ds_out (dhcp_emit os st) = ds_out st @ os"
  "ds_host (dhcp_emit os st) = ds_host st" "ds_config (dhcp_emit os st) = ds_config st"
  by (simp_all add: dhcp_emit_def)

lemma set_lease_sel [simp]:
  "ds_network (set_lease a f st) = ds_network st" "ds_out (set_lease a f st) = ds_out st" "ds_config (set_lease a f st) = ds_config st"
  "ds_db (set_lease a f st) = upd_lease a f (ds_db st)" "ds_host (set_lease a f st) = ds_host st"
  by (simp_all add: set_lease_def)

lemma srv_ok_emit [simp]: "srv_ok (dhcp_emit os st) = srv_ok st"
  by (simp add: srv_ok_def)

lemma upd_lease_sel [simp]: "ls_mem (upd_lease a f db) = (ls_mem db)(a := f (ls_mem db a))" "leases (upd_lease a f db) = leases db"
  "ls_asserts (upd_lease a f db) = ls_asserts db"
  by (simp_all add: upd_lease_def leases_def)

text \<open>Changes of the fields that no table is indexed by.\<close>

definition keeps_keys :: "(Lease \<Rightarrow> Lease) \<Rightarrow> bool" where
  "keeps_keys f \<longleftrightarrow> (\<forall>l. le_mac (f l) = le_mac l \<and> le_ip (f l) = le_ip l \<and> le_tstamp (f l) = le_tstamp l)"

lemma keeps_keys_upd [simp]:
  "keeps_keys (\<lambda>l. l\<lparr>le_tid := t\<rparr>)" "keeps_keys (\<lambda>l. l\<lparr>le_declined := d\<rparr>)" "keeps_keys (\<lambda>l. l\<lparr>le_lease := n\<rparr>)"
  "keeps_keys (\<lambda>l. l\<lparr>le_lease := n, le_mask := m\<rparr>)"
  by (simp_all add: keeps_keys_def)

lemma lease_ok_keys: "keeps_keys f \<Longrightarrow> lease_ok L db \<Longrightarrow> lease_ok L (upd_lease a f db)"
  by (rule lease_ok_upd) (simp_all add: keeps_keys_def)

lemma srv_ok_set_lease: "keeps_keys f \<Longrightarrow> srv_ok st \<Longrightarrow> srv_ok (set_lease a f st)"
  by (simp add: srv_ok_def lease_ok_keys)

lemma lease_store_sel [simp]: "ls_mem (lease_store env a db) = ls_mem db" "leases (lease_store env a db) = leases db"
  "lease_ok L (lease_store env a db) = lease_ok L db" "ls_asserts (lease_store env a db) = ls_asserts db"
  by (simp_all add: lease_store_def leases_def)

lemma leases_renew: "lease_ok L db \<Longrightarrow> a \<in> L \<Longrightarrow> leases (lease_renew a t db) = L"
  using lease_renew_ok(1) lease_ok_leases by blast

lemma srv_ok_renew:
  assumes "srv_ok st" "a \<in> leases (ds_db st)"
  shows "srv_ok (st\<lparr>ds_db := lease_renew a t (ds_db st)\<rparr>)"
  using assms lease_renew_ok(1) [of "leases (ds_db st)" "ds_db st" a t] by (auto simp: srv_ok_def leases_renew)

lemma srv_ok_store [simp]: "srv_ok (st\<lparr>ds_db := lease_store env a db\<rparr>) = srv_ok (st\<lparr>ds_db := db\<rparr>)"
  by (simp add: srv_ok_def)

lemma srv_ok_upd: "keeps_keys f \<Longrightarrow> srv_ok (st\<lparr>ds_db := db\<rparr>) \<Longrightarrow> srv_ok (st\<lparr>ds_db := upd_lease a f db\<rparr>)"
  by (simp add: srv_ok_def lease_ok_keys)

text \<open>Renewing a lease, with its new duration.\<close>

lemma srv_ok_renewed:
  assumes "srv_ok st" "a \<in> leases (ds_db st)" "keeps_keys f"
  shows "srv_ok (st\<lparr>ds_db := upd_lease a f (lease_renew a t (ds_db st))\<rparr>)"
  using srv_ok_set_lease [OF assms(3) srv_ok_renew [OF assms(1,2)]] by (simp add: set_lease_def)

lemma srv_ok_assert [simp]: "srv_ok (st\<lparr>ds_db := lease_assert (ds_db st)\<rparr>) = srv_ok st"
  by (simp add: srv_ok_def leases_def lease_assert_def)

lemma client_lease_Some:
  assumes "srv_ok st" "length mac = 6" "client_lease ip mac (ds_db st) = Some a"
  shows "a \<in> leases (ds_db st)" "le_ip (lease_at a st) = ip" "le_mac (lease_at a st) = mac"
  using assms lease_find_ip_iff [of "leases (ds_db st)" "ds_db st" ip a] lease_find_mac_iff [of "leases (ds_db st)" "ds_db st" mac a]
  by (auto simp: srv_ok_def client_lease_def split: option.splits if_splits)

lemma offer_lease_ok: "srv_ok st \<Longrightarrow> srv_ok (offer_lease env pkt pif a st)"
  using srv_ok_set_lease [of "\<lambda>l. l\<lparr>le_tid := dp_tid pkt\<rparr>" st a]
  by (auto simp: offer_lease_def Let_def send_icmp_pkt_def srv_ok_def leases_def lease_assert_def split: option.split)

lemma assign_from_ok:
  assumes ok: "srv_ok st" and mac: "length mac = 6"
  obtains r st' where "assign_from env P mac st = Some (r, st')" "srv_ok st'" "ds_out st' = ds_out st"
proof (cases "find_pos (\<lambda>n. dn_valid n \<and> P n \<and> dn_range_start n \<noteq> 0 \<and> dn_range_end n \<noteq> 0) (ds_network st)")
  case None
  then show ?thesis using that ok by (simp add: assign_from_def)
next
  case (Some i)
  let ?net = "ds_network st ! i"
  have i: "i < length (ds_network st)" using Some by auto
  then have n: "net_ok ?net" using ok by (simp add: srv_ok_def list_all_length)
  obtain ip l where ip: "assign_ip (ds_host st) ?net mac (ds_db st) = Some (ip, ?net\<lparr>dn_last_ip := l\<rparr>)"
    using assign_ip_result [OF n] by blast
  let ?st = "st\<lparr>ds_network := (ds_network st)[i := ?net\<lparr>dn_last_ip := l\<rparr>]\<rparr>"
  have "net_ok (?net\<lparr>dn_last_ip := l\<rparr>)" using n by simp
  then have nets: "list_all net_ok (ds_network ?st)"
    using ok by (auto simp: srv_ok_def list_all_iff dest!: set_update_subset_insert [THEN subsetD])
  have L: "lease_ok (leases (ds_db st)) (ds_db st)" using ok by (simp add: srv_ok_def)
  show ?thesis
  proof (cases "lease_add env mac ip (en_now env + DHCP_OFFER_LEASE_TIME) (ds_db st)")
    case (Pair r db)
    show ?thesis
    proof (cases "ip = 0")
      case True
      have "srv_ok ?st" by (rule srv_okI [of "leases (ds_db st)"]) (use L nets in simp_all)
      then show ?thesis using that Some ip True by (simp add: assign_from_def)
    next
      case False
      show ?thesis
      proof (cases r)
        case None
        then have "lease_ok (leases (ds_db st)) db" using lease_add_None [of env mac ip "en_now env + DHCP_OFFER_LEASE_TIME" "ds_db st" db] Pair L by auto
        then have "srv_ok (?st\<lparr>ds_db := lease_assert db\<rparr>)" using nets by (intro srv_okI [of "leases (ds_db st)"]) simp_all
        then show ?thesis using that Some ip False None Pair by (simp add: assign_from_def)
      next
        case (Some a)
        let ?f = "\<lambda>l'. l'\<lparr>le_lease := lease_seconds (?net\<lparr>dn_last_ip := l\<rparr>), le_mask := dn_mask ?net\<rparr>"
        have "lease_ok (insert a (leases (ds_db st))) (upd_lease a ?f db)"
          using lease_add_Some(1) [OF L mac] Pair Some by (simp add: lease_ok_keys)
        then have "srv_ok (?st\<lparr>ds_db := upd_lease a ?f db\<rparr>)" using nets by (intro srv_okI) simp_all
        then show ?thesis using that \<open>find_pos _ _ = Some i\<close> ip False Some Pair by (simp add: assign_from_def)
      qed
    qed
  qed
qed

lemma process_discover_ok:
  assumes "srv_ok st" "length (dp_chaddr pkt) = 6"
  shows "\<exists>st'. process_discover env pkt pif st = Some st' \<and> srv_ok st'"
proof (cases "lease_find_mac (dp_chaddr pkt) (ds_db st)")
  case (Some a)
  then show ?thesis using assms offer_lease_ok by (simp add: process_discover_def)
next
  case None
  obtain P where P: "(if dp_giaddr pkt = 0 then assign_lease env pif (dp_chaddr pkt) st
      else assign_lease_relay env (dp_giaddr pkt) (dp_chaddr pkt) st) = assign_from env P (dp_chaddr pkt) st"
    unfolding assign_lease_def assign_lease_relay_def by (cases "dp_giaddr pkt = 0") auto
  obtain r st' where r: "assign_from env P (dp_chaddr pkt) st = Some (r, st')" "srv_ok st'" using assign_from_ok [OF assms] by blast
  then show ?thesis using None offer_lease_ok by (cases r) (simp_all add: process_discover_def P)
qed

lemma process_request_ok:
  assumes "srv_ok st" "length (dp_chaddr pkt) = 6"
  shows "srv_ok (process_request env pkt pif st)"
proof (cases "client_lease (wanted_ip pkt) (dp_chaddr pkt) (ds_db st)")
  case None
  then show ?thesis using assms by (simp add: process_request_def send_nack_def dhcp_error_def Let_def)
next
  case (Some a)
  let ?st = "set_lease a (\<lambda>l. l\<lparr>le_tid := 0\<rparr>) st"
  have s: "srv_ok ?st" "a \<in> leases (ds_db ?st)"
    using srv_ok_set_lease assms(1) client_lease_Some(1) [OF assms Some] by simp_all
  show ?thesis
    using assms(1) s srv_ok_renewed [OF s] Some
    by (auto simp: process_request_def send_nack_def send_ack_def dhcp_error_def Let_def set_lease_def split: option.split)
qed

lemma process_release_ok:
  assumes "srv_ok st" "length (dp_chaddr pkt) = 6"
  shows "srv_ok (process_release env pkt pif st)"
proof (cases "client_lease (dp_ciaddr pkt) (dp_chaddr pkt) (ds_db st)")
  case None
  then show ?thesis using assms by (simp add: process_release_def dhcp_error_def)
next
  case (Some a)
  show ?thesis
    using assms(1) srv_ok_renewed [OF assms(1) client_lease_Some(1) [OF assms Some]] Some
    by (auto simp: process_release_def dhcp_error_def Let_def set_lease_def intro!: srv_ok_upd)
qed

lemma process_decline_ok: "srv_ok st \<Longrightarrow> srv_ok (process_decline pkt pif st)"
  by (auto simp: process_decline_def dhcp_error_def intro!: srv_ok_set_lease split: option.split)

lemma dhcp_rx_server_ok:
  assumes "srv_ok st" "length (dp_chaddr pkt) = 6"
  shows "\<exists>st'. dhcp_rx_server env pkt pif st = Some st' \<and> srv_ok st'"
  using assms process_discover_ok process_request_ok process_release_ok process_decline_ok
  by (simp add: dhcp_rx_server_def process_inform_def dhcp_error_def)

section \<open>Requests\<close>

fun reply_of :: "dhcp_out \<Rightarrow> DhcpReply option" where
  "reply_of (DRaw _ r) = Some r"
| "reply_of (DClient _ r) = Some r"
| "reply_of (DRelay _ r) = Some r"
| "reply_of _ = None"

text \<open>The lease a request is about: the one of this client with the wanted address.\<close>

definition owns :: "DhcpPacket \<Rightarrow> u32 \<Rightarrow> dhcp_srv \<Rightarrow> nat \<Rightarrow> bool" where
  "owns pkt ip st a \<longleftrightarrow> a \<in> leases (ds_db st) \<and> le_ip (lease_at a st) = ip \<and> le_mac (lease_at a st) = dp_chaddr pkt"

lemma client_lease_iff:
  assumes "srv_ok st" "length (dp_chaddr pkt) = 6"
  shows "client_lease ip (dp_chaddr pkt) (ds_db st) = Some a \<longleftrightarrow> owns pkt ip st a"
  using assms lease_find_ip_iff [of "leases (ds_db st)" "ds_db st" ip a] lease_find_mac_iff [of "leases (ds_db st)" "ds_db st" "dp_chaddr pkt" a]
  by (auto simp: srv_ok_def client_lease_def owns_def split: option.splits if_splits)

lemma find_network_tid: "dhcp_find_network (l\<lparr>le_tid := t\<rparr>) nets = dhcp_find_network l nets"
  by (simp add: dhcp_find_network_def)

definition grantable :: "DhcpPacket \<Rightarrow> dhcp_srv \<Rightarrow> nat \<Rightarrow> bool" where
  "grantable pkt st a \<longleftrightarrow> wanted_ip pkt \<noteq> 0 \<and> owns pkt (wanted_ip pkt) st a \<and> le_tid (lease_at a st) \<in> {0, dp_tid pkt}"

lemma process_request_granted:
  fixes env :: lease_env and pif :: DhcpInterface
  assumes ok: "srv_ok st" "length (dp_chaddr pkt) = 6" and g: "grantable pkt st a" "dhcp_find_network (lease_at a st) (ds_network st) = Some net"
  defines "st' \<equiv> process_request env pkt pif st"
  shows "lease_at a st' = (lease_at a st)\<lparr>le_tid := 0, le_tstamp := en_now env + uint (lease_seconds net), le_lease := lease_seconds net\<rparr>"
    "a \<in> leases (ds_db st')"
    "ls_file (ds_db st') = ls_file (ds_db st) @ (if en_write env then [lease_record (lease_at a st')] else [])"
    "\<exists>x r. ds_out st' = ds_out st @ [DStat (pi_index pif) Tx, DStat (pi_index pif) TxAck, x] \<and> reply_of x = Some r \<and>
       rp_yiaddr r = wanted_ip pkt \<and> rp_chaddr r = dp_chaddr pkt \<and> rp_tid r = dp_tid pkt \<and>
       rp_options r = add_msgtype_ack @ lease_options pkt pif net (ds_config st) (lease_at a st') @ [0xff]"
proof -
  let ?t = "en_now env + uint (lease_seconds net)"
  let ?st = "set_lease a (\<lambda>l. l\<lparr>le_tid := 0\<rparr>) st"
  have own: "owns pkt (wanted_ip pkt) st a" "wanted_ip pkt \<noteq> 0" "le_tid (lease_at a st) = 0 \<or> le_tid (lease_at a st) = dp_tid pkt"
    using g(1) by (auto simp: grantable_def)
  then have c: "client_lease (wanted_ip pkt) (dp_chaddr pkt) (ds_db st) = Some a" using client_lease_iff [OF ok] by blast
  have L: "lease_ok (leases (ds_db st)) (ds_db ?st)" "a \<in> leases (ds_db st)"
    using srv_ok_set_lease [of "\<lambda>l. l\<lparr>le_tid := 0\<rparr>" st a] ok(1) own(1) by (simp_all add: srv_ok_def owns_def)
  note ren = lease_renew_ok [OF L, of ?t] leases_renew [OF L, of ?t]
  define db where "db = lease_store env a (upd_lease a (\<lambda>l. l\<lparr>le_lease := lease_seconds net\<rparr>) (lease_renew a ?t (ds_db ?st)))"
  have st': "st' = send_ack pkt pif (build_reply pkt pif (le_ip (ls_mem db a))
      (add_msgtype_ack @ lease_options pkt pif net (ds_config st) (ls_mem db a))) (?st\<lparr>ds_db := db\<rparr>)"
    using own c g(2) by (auto simp: st'_def process_request_def Let_def find_network_tid db_def set_lease_def upd_lease_def)
  have mem: "ls_mem db a = (lease_at a st)\<lparr>le_tid := 0, le_tstamp := ?t, le_lease := lease_seconds net\<rparr>"
    using ren(3) by (simp add: db_def)
  have f: "ls_file (lease_renew a ?t (ds_db ?st)) = ls_file (ds_db st)"
    by (simp add: lease_renew_def add_tstamp_def remove_tstamp_def upd_lease_def lease_assert_def Let_def)
  have at: "lease_at a st' = ls_mem db a" unfolding st' by (simp add: send_ack_def)
  show "lease_at a st' = (lease_at a st)\<lparr>le_tid := 0, le_tstamp := ?t, le_lease := lease_seconds net\<rparr>" using at mem by simp
  show "a \<in> leases (ds_db st')" using ren(4) L(2) by (simp add: st' send_ack_def db_def)
  show "ls_file (ds_db st') = ls_file (ds_db st) @ (if en_write env then [lease_record (lease_at a st')] else [])"
    unfolding at using f by (simp add: st' send_ack_def db_def lease_store_def upd_lease_def)
  have ip: "le_ip (ls_mem db a) = wanted_ip pkt" using own(1) mem by (simp add: owns_def)
  let ?r = "build_reply pkt pif (le_ip (ls_mem db a)) (add_msgtype_ack @ lease_options pkt pif net (ds_config st) (ls_mem db a))"
  have "\<exists>x. ds_out st' = ds_out st @ [DStat (pi_index pif) Tx, DStat (pi_index pif) TxAck, x] \<and> reply_of x = Some ?r"
    unfolding st' send_ack_def by simp
  then show "\<exists>x r. ds_out st' = ds_out st @ [DStat (pi_index pif) Tx, DStat (pi_index pif) TxAck, x] \<and> reply_of x = Some r \<and>
       rp_yiaddr r = wanted_ip pkt \<and> rp_chaddr r = dp_chaddr pkt \<and> rp_tid r = dp_tid pkt \<and>
       rp_options r = add_msgtype_ack @ lease_options pkt pif net (ds_config st) (lease_at a st') @ [0xff]"
    unfolding at using ip ok(2) by (elim ex_forward) (auto simp: build_reply_def)
qed

lemma process_request_refused:
  assumes ok: "srv_ok st" "length (dp_chaddr pkt) = 6" and g: "\<And>a. \<not> grantable pkt st a"
  shows "\<exists>e x r. process_request env pkt pif st =
      dhcp_emit [DStat (pi_index pif) ErrRx, DStat (pi_index pif) e, DStat (pi_index pif) Tx, DStat (pi_index pif) TxNack, x] st \<and>
      reply_of x = Some r \<and> e \<in> {ErrPkt, ErrLease} \<and> rp_yiaddr r = 0 \<and> rp_options r = add_msgtype_nack @ [0xff]"
proof -
  let ?r = "build_reply pkt pif 0 add_msgtype_nack"
  have n: "\<exists>x. send_nack pkt pif (dhcp_error pif e st) =
      dhcp_emit [DStat (pi_index pif) ErrRx, DStat (pi_index pif) e, DStat (pi_index pif) Tx, DStat (pi_index pif) TxNack, x] st \<and>
      reply_of x = Some ?r" for e
    by (rule exI [of _ "if dp_giaddr pkt = 0 then DRaw (pi_index pif) ?r else DRelay (dp_giaddr pkt) ?r"])
       (simp add: send_nack_def dhcp_error_def dhcp_emit_def Let_def)
  have r: "rp_yiaddr ?r = 0" "rp_options ?r = add_msgtype_nack @ [0xff]" by (simp_all add: build_reply_def)
  have "\<exists>e. e \<in> {ErrPkt, ErrLease} \<and> process_request env pkt pif st = send_nack pkt pif (dhcp_error pif e st)"
  proof (cases "client_lease (wanted_ip pkt) (dp_chaddr pkt) (ds_db st)")
    case (Some a)
    then have "wanted_ip pkt = 0 \<or> le_tid (lease_at a st) \<notin> {0, dp_tid pkt}"
      using g [of a] client_lease_iff [OF ok] by (auto simp: grantable_def)
    then show ?thesis using Some by (auto simp: process_request_def)
  qed (auto simp: process_request_def)
  then show ?thesis using n r by metis
qed


section \<open>Discovery\<close>

text \<open>The first network of the configuration that serves the interface or the relay.\<close>

definition serving :: "(RcpDhcpsNetwork \<Rightarrow> bool) \<Rightarrow> dhcp_srv \<Rightarrow> nat option" where
  "serving P st = find_pos (\<lambda>n. dn_valid n \<and> P n \<and> dn_range_start n \<noteq> 0 \<and> dn_range_end n \<noteq> 0) (ds_network st)"

definition served :: "DhcpPacket \<Rightarrow> DhcpInterface \<Rightarrow> RcpDhcpsNetwork \<Rightarrow> bool" where
  "served pkt pif n \<longleftrightarrow>
     (if dp_giaddr pkt = 0 then pi_ip pif AND pi_mask pif = dn_ip n \<and> pi_mask pif = dn_mask n else dp_giaddr pkt AND dn_mask n = dn_ip n)"

lemma assign_served:
  "(if dp_giaddr pkt = 0 then assign_lease env pif mac st else assign_lease_relay env (dp_giaddr pkt) mac st) =
   assign_from env (served pkt pif) mac st"
  by (simp add: assign_lease_def assign_lease_relay_def served_def [abs_def])

lemma serving_Some:
  assumes "srv_ok st" "serving P st = Some i"
  shows "i < length (ds_network st)" "net_ok (ds_network st ! i)" "dn_valid (ds_network st ! i)" "P (ds_network st ! i)"
    "dn_range_start (ds_network st ! i) \<noteq> 0" "dn_range_end (ds_network st ! i) \<noteq> 0"
  using assms find_pos_Some [of _ "ds_network st" i] by (auto simp: serving_def srv_ok_def list_all_length)

lemma assign_from_free:
  assumes ok: "srv_ok st" and mac: "length mac = 6" "lease_find_mac mac (ds_db st) = None" and i: "serving P st = Some i"
    and host: "static_host (ds_host st) (ds_network st ! i) mac = None" and mem: "en_malloc env"
    and free: "in_range (ds_network st ! i) x" "lease_find_ip x (ds_db st) = None"
  shows "\<exists>ip a l db. in_range (ds_network st ! i) ip \<and> lease_find_ip ip (ds_db st) = None \<and> a \<notin> leases (ds_db st) \<and>
    assign_from env P mac st = Some (Some a, st\<lparr>ds_network := (ds_network st)[i := (ds_network st ! i)\<lparr>dn_last_ip := l\<rparr>], ds_db := db\<rparr>) \<and>
    lease_ok (insert a (leases (ds_db st))) db \<and>
    ls_mem db = (ls_mem (ds_db st))(a := \<lparr>le_ip = ip, le_mask = dn_mask (ds_network st ! i), le_mac = mac,
      le_tstamp = en_now env + DHCP_OFFER_LEASE_TIME, le_lease = lease_seconds (ds_network st ! i), le_tid = 0, le_declined = False\<rparr>)"
proof -
  let ?net = "ds_network st ! i"
  note s = serving_Some [OF ok i]
  have L: "lease_ok (leases (ds_db st)) (ds_db st)" using ok by (simp add: srv_ok_def)
  obtain ip l where ip: "assign_ip (ds_host st) ?net mac (ds_db st) = Some (ip, ?net\<lparr>dn_last_ip := l\<rparr>)"
    "in_range ?net ip" "lease_find_ip ip (ds_db st) = None"
    using assign_ip_result [OF s(2), of "ds_host st" mac "ds_db st"] host free by auto
  have "ip \<noteq> 0" using ip(2) s(5) by (auto simp: in_range_def)
  obtain a db where a: "lease_add env mac ip (en_now env + DHCP_OFFER_LEASE_TIME) (ds_db st) = (Some a, db)"
    using mac ip(3) mem by (simp add: lease_add_def Let_def)
  let ?f = "\<lambda>l'. l'\<lparr>le_lease := lease_seconds (?net\<lparr>dn_last_ip := l\<rparr>), le_mask := dn_mask ?net\<rparr>"
  have eq: "assign_from env P mac st =
      Some (Some a, st\<lparr>ds_network := (ds_network st)[i := ?net\<lparr>dn_last_ip := l\<rparr>], ds_db := upd_lease a ?f db\<rparr>)"
    using i ip(1) \<open>ip \<noteq> 0\<close> a by (simp add: assign_from_def serving_def)
  note add = lease_add_Some [OF L mac(1) a]
  have m: "ls_mem (upd_lease a ?f db) = (ls_mem (ds_db st))(a := \<lparr>le_ip = ip, le_mask = dn_mask ?net, le_mac = mac,
      le_tstamp = en_now env + DHCP_OFFER_LEASE_TIME, le_lease = lease_seconds ?net, le_tid = 0, le_declined = False\<rparr>)"
    by (simp add: add(5) lease_seconds_def)
  have "lease_ok (insert a (leases (ds_db st))) (upd_lease a ?f db)" using add(1) by (simp add: lease_ok_keys)
  then show ?thesis using ip(2,3) add(2) eq m by blast
qed

text \<open>The offer that is queued for a lease.\<close>

lemma offer_lease_queued:
  assumes "dhcp_find_network (lease_at a st) (ds_network st) = Some net" "en_malloc_pkt env"
  shows "\<exists>r. offer_lease env pkt pif a st = dhcp_emit [DPing (le_ip (lease_at a st))] (set_lease a (\<lambda>l. l\<lparr>le_tid := dp_tid pkt\<rparr>)
      (st\<lparr>icmp_queue := \<lparr>iq_ip = le_ip (lease_at a st), iq_ttl = 2, iq_response = False, iq_giaddr = dp_giaddr pkt, iq_pif = pif, iq_pkt = r\<rparr> # icmp_queue st\<rparr>)) \<and>
    rp_yiaddr r = le_ip (lease_at a st) \<and> rp_chaddr r = take 6 (dp_chaddr pkt) \<and> rp_tid r = dp_tid pkt \<and>
    rp_options r = add_msgtype_offer @ lease_options pkt pif net (ds_config st) ((lease_at a st)\<lparr>le_tid := dp_tid pkt\<rparr>) @ [0xff]"
  using assms
  by (intro exI [of _ "build_reply pkt pif (le_ip (lease_at a st)) (add_msgtype_offer @ lease_options pkt pif net (ds_config st) ((lease_at a st)\<lparr>le_tid := dp_tid pkt\<rparr>))"])
     (simp add: offer_lease_def Let_def send_icmp_pkt_def build_reply_def set_lease_def dhcp_emit_def upd_lease_def)

lemma served_network_found:
  assumes "n \<in> set nets" "dn_valid n" "le_ip l AND le_mask l = dn_ip n" "le_mask l = dn_mask n"
  shows "\<exists>net. dhcp_find_network l nets = Some net"
  using assms by (cases "dhcp_find_network l nets") (auto simp: dhcp_find_network_def find_None_iff)

lemma send_dhcp_pkt_ttl [simp]: "send_dhcp_pkt (e\<lparr>iq_ttl := t\<rparr>) = send_dhcp_pkt e"
  by (simp add: send_dhcp_pkt_def Let_def)

lemma timeout_sends:
  assumes "e \<in> set (icmp_queue st)" "iq_ttl e \<le> 1" "\<not> iq_response e"
  shows "set (send_dhcp_pkt e) \<subseteq> set (ds_out (icmp_timeout st))"
proof -
  have "send_dhcp_pkt (e\<lparr>iq_ttl := iq_ttl e - 1\<rparr>) \<in>
      set (map send_dhcp_pkt (filter (\<lambda>e. iq_ttl e \<le> 0 \<and> \<not> iq_response e) (map (\<lambda>e. e\<lparr>iq_ttl := iq_ttl e - 1\<rparr>) (icmp_queue st))))"
    unfolding set_map by (rule imageI) (use assms in auto)
  then show ?thesis unfolding icmp_timeout_def Let_def dhcp_emit_sel send_dhcp_pkt_ttl by (auto simp del: set_map)
qed

lemma timeout_keeps: "e \<in> set (icmp_queue st) \<Longrightarrow> 1 < iq_ttl e \<Longrightarrow> e\<lparr>iq_ttl := iq_ttl e - 1\<rparr> \<in> set (icmp_queue (icmp_timeout st))"
  by (auto simp: icmp_timeout_def Let_def dhcp_emit_def)

lemma two_timeouts_send:
  assumes "e \<in> set (icmp_queue st)" "iq_ttl e = 2" "\<not> iq_response e"
  shows "set (send_dhcp_pkt e) \<subseteq> set (ds_out (icmp_timeout (icmp_timeout st)))"
  using timeout_sends [OF timeout_keeps [OF assms(1)]] assms(2,3) by simp


text \<open>The search for a free address does not look at the addresses of the configured hosts. A host whose address was given to another client gets no
  lease, and the process reports a failed assertion.\<close>

theorem static_host_starved:
  assumes "serving (served pkt pif) st = Some i" "static_host (ds_host st) (ds_network st ! i) (dp_chaddr pkt) = Some h" "dh_ip h \<noteq> 0"
    "lease_find_mac (dp_chaddr pkt) (ds_db st) = None" "lease_find_ip (dh_ip h) (ds_db st) = Some b"
  shows "\<exists>st'. process_discover env pkt pif st = Some st' \<and> ds_out st' = ds_out st @ [DStat (pi_index pif) ErrRx, DStat (pi_index pif) ErrLease] \<and>
    ls_asserts (ds_db st') = Suc (ls_asserts (ds_db st)) \<and> leases (ds_db st') = leases (ds_db st)"
  using assms
  by (simp add: process_discover_def assign_served assign_from_def serving_def assign_ip_def lease_add_def Let_def lease_assert_def leases_def dhcp_emit_def)

section \<open>Examples\<close>

text \<open>A server for 10.0.0.0/24 with the range 10.0.0.10 to 10.0.0.20, and a client.\<close>

definition demo_env :: lease_env where
  "demo_env = \<lparr>en_now = 1000, en_malloc = True, en_malloc_pkt = True, en_read = True, en_write = True, en_system = True\<rparr>"

definition demo_net :: RcpDhcpsNetwork where
  "demo_net = \<lparr>dn_valid = True, dn_ip = 0x0a000000, dn_mask = 0xffffff00, dn_name = ''10.0.0.0/24'', dn_range_start = 0x0a00000a,
     dn_range_end = 0x0a000014, dn_gw1 = 0x0a000001, dn_gw2 = 0, dn_lease_days = 1, dn_lease_hours = 0, dn_lease_minutes = 0, dn_last_ip = 0\<rparr>"

definition demo_db :: lease_db where
  "demo_db = \<lparr>ls_mem = (\<lambda>_. \<lparr>le_ip = 0, le_mask = 0, le_mac = [], le_tstamp = 0, le_lease = 0, le_tid = 0, le_declined = False\<rparr>), ls_new = 0,
     ht_mac = (\<lambda>_. []), ht_ip = (\<lambda>_. []), ht_tstamp = (\<lambda>_. []), ls_file = [], ls_tmp = [], ls_asserts = 0\<rparr>"

definition demo_srv :: dhcp_srv where
  "demo_srv = \<lparr>ds_db = demo_db, ds_network = [demo_net], ds_host = [],
     ds_config = \<lparr>dhcps_dns1 = 0, dhcps_dns2 = 0, dhcps_ntp1 = 0, dhcps_ntp2 = 0, dhcps_domain_name = []\<rparr>, icmp_queue = [], ds_out = []\<rparr>"

definition demo_pif :: DhcpInterface where
  "demo_pif = \<lparr>pi_index = 0, pi_ip = 0x0a000001, pi_mask = 0xffffff00\<rparr>"

definition demo_mac :: "u8 list" where
  "demo_mac = [2, 0, 0, 0, 0, 1]"

definition demo_pkt :: DhcpPacket where
  "demo_pkt = \<lparr>dp_type = 1, dp_tid = 7, dp_secs = 0, dp_ciaddr = 0, dp_giaddr = 0, dp_chaddr = demo_mac, dp_requested_ip = 0x0a00000a,
     dp_82 = None, dp_ip_source = 0\<rparr>"

definition demo_leased :: dhcp_srv where
  "demo_leased = set_lease 0 (\<lambda>l. l\<lparr>le_lease := 86400, le_mask := 0xffffff00\<rparr>)
     (demo_srv\<lparr>ds_db := snd (lease_add demo_env demo_mac 0x0a00000a 1020 demo_db)\<rparr>)"

lemma cidr_24: "cidr_mask 24 = 0xffffff00"
  by code_simp

lemma demo_net_ok: "net_ok demo_net"
  by (auto simp: net_ok_def demo_net_def cidr_24 intro!: exI [of _ 24])

lemma demo_db_ok: "lease_ok {} demo_db"
  by (simp add: lease_ok_def chained_def demo_db_def)

lemma demo_srv_ok: "srv_ok demo_srv"
  by (rule srv_okI [of "{}"]) (simp_all add: demo_srv_def demo_net_ok demo_db_ok)

lemma demo_add: "\<exists>db. lease_add demo_env demo_mac 0x0a00000a 1020 demo_db = (Some 0, db)"
  by (simp add: lease_add_def lease_find_mac_def lease_find_ip_def demo_db_def demo_env_def Let_def)

lemma demo_mac_length [simp]: "length demo_mac = 6"
  by (simp add: demo_mac_def)

lemma demo_leased_ok: "srv_ok demo_leased" "leases (ds_db demo_leased) = {0}" "lease_at 0 demo_leased =
    \<lparr>le_ip = 0x0a00000a, le_mask = 0xffffff00, le_mac = demo_mac, le_tstamp = 1020, le_lease = 86400, le_tid = 0, le_declined = False\<rparr>"
proof -
  obtain db where db: "lease_add demo_env demo_mac 0x0a00000a 1020 demo_db = (Some 0, db)" using demo_add by blast
  note a = lease_add_Some [OF demo_db_ok _ db]
  have "lease_ok {0} db" using a(1) by simp
  then have ok: "srv_ok (demo_srv\<lparr>ds_db := db\<rparr>)" "leases db = {0}"
    using lease_ok_leases by (auto simp: demo_srv_def demo_net_ok intro!: srv_okI [of "{0}"])
  show "srv_ok demo_leased" "leases (ds_db demo_leased) = {0}" "lease_at 0 demo_leased =
    \<lparr>le_ip = 0x0a00000a, le_mask = 0xffffff00, le_mac = demo_mac, le_tstamp = 1020, le_lease = 86400, le_tid = 0, le_declined = False\<rparr>"
    using ok srv_ok_set_lease a(5) by (simp_all add: demo_leased_def db)
qed



end
