(* ===== verification/Dhcp_Sys.thy ===== *)
theory Dhcp_Sys
  imports Dhcp_Props
begin

text \<open>
  The DHCP process as a whole: every event ends and keeps the invariant, so that after any sequence of
  packets, timer ticks and commands no two clients hold the same address.
\<close>

section \<open>Events keep the invariant\<close>

definition proc_ok :: "dhcp_proc \<Rightarrow> bool" where
  "proc_ok s \<longleftrightarrow> srv_ok (dc_srv s)"

text \<open>Packets whose options end within the array, and ranges that do not include the highest address.\<close>

fun event_ok :: "dhcp_event \<Rightarrow> bool" where
  "event_ok (DEPacket env rnd kindex src w) = (6 \<le> length (dw_chaddr w) \<and> chk_options (dw_options w) \<noteq> None)"
| "event_ok (DERange nm argv) = (atoip (argv ! 2) \<noteq> Some 0xffffffff)"
| "event_ok _ = True"

lemma dc_emit_sel [simp]: "dc_srv (dc_emit os s) = dhcp_emit os (dc_srv s)" "dc_intf (dc_emit os s) = dc_intf s"
  "dhcpr_server (dc_emit os s) = dhcpr_server s" "dhcps_enable (dc_emit os s) = dhcps_enable s" "dhcpr_max_hops (dc_emit os s) = dhcpr_max_hops s"
  "dhcpr_option82 (dc_emit os s) = dhcpr_option82 s" "dc_hostname (dc_emit os s) = dc_hostname s"
  "dhcpr_service_delay (dc_emit os s) = dhcpr_service_delay s"
  by (simp_all add: dc_emit_def)

lemma proc_ok_emit [simp]: "proc_ok (dc_emit os s) = proc_ok s"
  by (simp add: proc_ok_def)

lemma proc_ok_fields [simp]:
  "proc_ok (s\<lparr>dhcps_enable := b\<rparr>) = proc_ok s" "proc_ok (s\<lparr>dc_intf := ifs\<rparr>) = proc_ok s" "proc_ok (s\<lparr>dhcpr_server := gs\<rparr>) = proc_ok s"
  "proc_ok (s\<lparr>dhcpr_max_hops := h\<rparr>) = proc_ok s" "proc_ok (s\<lparr>dhcpr_service_delay := d\<rparr>) = proc_ok s"
  "proc_ok (s\<lparr>dhcpr_option82 := b\<rparr>) = proc_ok s" "proc_ok (s\<lparr>dc_tic := t\<rparr>) = proc_ok s" "proc_ok (s\<lparr>dc_srv := st\<rparr>) = srv_ok st"
  by (simp_all add: proc_ok_def)

lemma proc_ok_error [simp]: "proc_ok (dc_error i e s) = proc_ok s"
  by (simp add: dc_error_def)

lemma srv_ok_fields [simp]: "srv_ok (st\<lparr>icmp_queue := q\<rparr>) = srv_ok st" "srv_ok (st\<lparr>ds_host := h\<rparr>) = srv_ok st"
  "srv_ok (st\<lparr>ds_config := c\<rparr>) = srv_ok st"
  by (simp_all add: srv_ok_def)

lemma proc_ok_assert [simp]: "proc_ok (dc_assert s) = proc_ok s"
  by (simp add: dc_assert_def proc_ok_def)

lemma relay_ok: "proc_ok s \<Longrightarrow> proc_ok (relay_to_servers rnd i w k s)"
  by (auto simp: relay_to_servers_def Let_def split: sum.split prod.split)

lemma forward_client_ok: "proc_ok s \<Longrightarrow> proc_ok (forward_client i t w k s)"
  by (auto simp: forward_client_def Let_def split: option.split prod.split)

lemma forward_server_ok:
  assumes "proc_ok s" "6 \<le> length (dw_chaddr w)"
  shows "\<exists>s'. forward_server env rnd i src t w k s = Some s' \<and> proc_ok s'"
proof -
  have "length (dp_chaddr (wire_packet w k t src)) = 6" using assms(2) by (simp add: wire_packet_def)
  then obtain st where "dhcp_rx_server env (wire_packet w k t src) (dc_pif i s) (dc_srv s) = Some st" "srv_ok st"
    using dhcp_rx_server_ok [of "dc_srv s" "wire_packet w k t src"] assms(1) by (auto simp: proc_ok_def)
  then show ?thesis using assms(1) by (simp add: forward_server_def relay_ok)
qed

lemma dhcp_rxpacket_ok:
  assumes "proc_ok s" "6 \<le> length (dw_chaddr w)" "chk_options (dw_options w) \<noteq> None"
  shows "\<exists>s'. dhcp_rxpacket env rnd kindex src w s = Some s' \<and> proc_ok s'"
proof (cases "rcpFindInterfaceByKIndex (map RcpInterface.truncate (dc_intf s)) kindex")
  case (Some i)
  obtain bad k where k: "chk_options (dw_options w) = Some (bad, k)" using assms(3) by auto
  have f: "\<exists>s'. forward_server env rnd i src t w k (dc_emit os (dc_emit os' s)) = Some s' \<and> proc_ok s'" for t os os'
    using forward_server_ok [OF _ assms(2)] assms(1) by simp
  show ?thesis
    using assms(1) Some k f by (cases bad; cases "pk_type k") (simp_all add: dhcp_rxpacket_def Let_def forward_client_ok)
qed (use assms in \<open>simp add: dhcp_rxpacket_def\<close>)

section \<open>Commands\<close>

lemma srv_ok_networks: "srv_ok st \<Longrightarrow> list_all net_ok ns \<Longrightarrow> srv_ok (st\<lparr>ds_network := ns\<rparr>)"
  by (simp add: srv_ok_def)

lemma proc_ok_network:
  assumes "proc_ok s" "i < length (ds_network (dc_srv s)) \<Longrightarrow> net_ok (ds_network (dc_srv s) ! i) \<Longrightarrow> net_ok (f (ds_network (dc_srv s) ! i))"
  shows "proc_ok (upd_networks (upd_pos i f) s)"
  using assms list_all_upd_pos [of net_ok "ds_network (dc_srv s)" i f] by (simp add: proc_ok_def upd_networks_def srv_ok_def list_all_length)

lemma no_network_ok [simp]: "net_ok no_network"
  by (simp add: net_ok_def no_network_def)

lemma proc_ok_no_networks: "proc_ok s \<Longrightarrow> proc_ok (upd_networks (map (\<lambda>_. no_network)) s)"
  by (simp add: proc_ok_def upd_networks_def srv_ok_def list_all_iff)

lemma proc_ok_config [simp]: "proc_ok (upd_config f s) = proc_ok s" "proc_ok (upd_hosts g s) = proc_ok s"
  by (simp_all add: proc_ok_def upd_config_def upd_hosts_def)

lemma atocidr_mask: "atocidr str = Some (ip, msk) \<Longrightarrow> \<exists>e \<le> 32. msk = cidr_mask e"
  by (auto simp: atocidr_def not_less word_le_nat_alt split: list.splits option.splits if_splits prod.splits)

lemma network_cmd_ok: "proc_ok s \<Longrightarrow> proc_ok (snd (snd (cliDhcpServerNetwork argv s)))"
  by (auto simp: cliDhcpServerNetwork_def net_ok_def new_dhcps_network_def no_network_def
      intro!: proc_ok_network split: option.split prod.split bool.split dest: atocidr_mask)

lemma lease_cmd_ok: "proc_ok s \<Longrightarrow> proc_ok (snd (cliDhcpServerLease nm argv s))"
  by (auto simp: cliDhcpServerLease_def set_lease_time_def net_ok_def intro!: proc_ok_network split: option.split)

lemma router_cmd_ok: "proc_ok s \<Longrightarrow> proc_ok (snd (cliDhcpServerRouter nm argv s))"
  by (auto simp: cliDhcpServerRouter_def net_ok_def intro!: proc_ok_network split: option.split)

lemma range_cmd_ok:
  assumes "proc_ok s" "atoip (argv ! 2) \<noteq> Some 0xffffffff"
  shows "proc_ok (snd (cliDhcpServerRange nm argv s))"
proof (cases "find_network_name nm (ds_network (dc_srv s))")
  case (Some i)
  let ?n = "ds_network (dc_srv s) ! i"
  have i: "i < length (ds_network (dc_srv s))" "dn_valid ?n" using Some by (auto simp: find_network_name_def)
  then have n: "dn_ip ?n AND dn_mask ?n = dn_ip ?n"
    using assms(1) network_and_mask by (simp add: proc_ok_def srv_ok_def list_all_length)
  have "r < 0xffffffff" if "atoip (argv ! 2) = Some r" for r
    using assms(2) that unat_u32_less [of r] by (auto simp: word_less_nat_alt word_unat_eq_iff)
  then show ?thesis using Some assms(1) n
    by (auto simp: cliDhcpServerRange_def Let_def net_ok_def intro!: proc_ok_network split: option.split)
qed (use assms in \<open>simp add: cliDhcpServerRange_def\<close>)

section \<open>Leases and the timer\<close>

lemma srv_ok_db: "srv_ok st \<Longrightarrow> lease_ok L db \<Longrightarrow> srv_ok (st\<lparr>ds_db := db\<rparr>)"
  by (rule srv_okI [of L]) (simp_all add: srv_ok_def)

lemma echo_ok: "srv_ok st \<Longrightarrow> srv_ok (get_icmp_pkt ip st)"
  by (auto simp: get_icmp_pkt_def Let_def split: option.split)

lemma icmp_timeout_sel [simp]: "ds_db (icmp_timeout st) = ds_db st" "ds_network (icmp_timeout st) = ds_network st"
  by (simp_all add: icmp_timeout_def Let_def)

lemma srv_ok_icmp_timeout [simp]: "srv_ok (icmp_timeout st) = srv_ok st"
  by (simp add: srv_ok_def)

lemma tick_ok: "proc_ok s \<Longrightarrow> proc_ok (dhcp_tick env s)"
  using lease_timeout_ok(1) [of "leases (ds_db (dc_srv s))" "ds_db (dc_srv s)" "en_now env"]
  by (auto simp: dhcp_tick_def Let_def proc_ok_def intro!: srv_ok_db simp: srv_ok_def [of "dc_srv s"])

lemma clear_ok: "srv_ok st \<Longrightarrow> srv_ok (cliClearDhcpLeaseCmd env st)"
  using lease_clear_all_ok [of "leases (ds_db st)" "ds_db st" env] by (auto simp: cliClearDhcpLeaseCmd_def srv_ok_def [of st] intro: srv_ok_db)

lemma clear_ip_ok:
  assumes "srv_ok st"
  shows "srv_ok (snd (cliClearDhcpLeaseIpCmd arg st))"
proof -
  have L: "lease_ok (leases (ds_db st)) (ds_db st)" using assms by (simp add: srv_ok_def)
  then show ?thesis
    using assms lease_find_ip_iff [OF L] by (auto simp: cliClearDhcpLeaseIpCmd_def split: option.split intro!: srv_ok_db [OF _ lease_delete_ok(1) [OF L]])
qed

lemmas plain_commands = cliNoIpDhcpServer_def cliDhcpServerEnableCmd_def cliDhcpServerNoNetwork_def cliDhcpServerDns_def
  cliDhcpServerNtp_def cliDhcpServerDomainName_def cliDhcpServerHost_def cliDhcpRelayCmd_def cliNoServerAll_def cliServerCmd_def
  cliServiceDelayCmd_def cliMaxHopsCmd_def cliClearDhcpStatsCmd_def cliOption_def cliNoIpDhcpRelay_def

lemma plain_commands_ok:
  assumes "proc_ok s"
  shows "proc_ok (snd (cliNoIpDhcpServer s))" "proc_ok (snd (cliDhcpServerNoNetwork s))" "proc_ok (snd (cliDhcpServerDns argv s))"
    "proc_ok (snd (cliDhcpServerNtp argv s))" "proc_ok (snd (cliDhcpServerHost mac argv s))" "proc_ok (snd (cliDhcpRelayCmd nm argv s))"
    "proc_ok (snd (cliServerCmd argv s))"
  using assms by (auto simp: plain_commands proc_ok_no_networks Let_def split: option.split bool.split prod.split)

lemma dhcp_step_ok:
  assumes "proc_ok s" "event_ok e"
  shows "\<exists>s'. dhcp_step e s = Some s' \<and> proc_ok s'"
proof -
  have "srv_ok (dc_srv s)" using assms(1) by (simp add: proc_ok_def)
  then show ?thesis
    using assms by (cases e)
     (simp_all add: dhcp_rxpacket_ok on_srv_def echo_ok clear_ok clear_ip_ok tick_ok network_cmd_ok lease_cmd_ok router_cmd_ok range_cmd_ok
       plain_commands_ok, simp_all add: plain_commands)
qed

definition dhcp_run :: "dhcp_event list \<Rightarrow> dhcp_proc \<Rightarrow> dhcp_proc option" where
  "dhcp_run es s = fold (\<lambda>e s. Option.bind s (dhcp_step e)) es (Some s)"

interpretation dhcp: step_system "\<lambda>e s. Option.bind s (dhcp_step e)" "\<lambda>s. \<exists>t. s = Some t \<and> proc_ok t" event_ok
  by unfold_locales (use dhcp_step_ok in auto)

section \<open>The start\<close>

lemma init_leases_ok:
  "lease_ok L db \<Longrightarrow> \<forall>r \<in> set rs. length (st_mac r) = 6 \<Longrightarrow> init_leases env rs db = Some db' \<Longrightarrow> \<exists>L'. lease_ok L' db'"
proof (induction rs arbitrary: L db)
  case (Cons r rs)
  then obtain db1 where 1: "init_lease env r db = Some db1" "init_leases env rs db1 = Some db'" by (auto split: option.splits)
  then obtain L1 where "lease_ok L1 db1" using init_lease_ok [OF Cons.prems(1) _ 1(1)] Cons.prems(2) by auto
  then show ?case using Cons.IH [OF _ _ 1(2)] Cons.prems(2) by auto
qed auto

lemma lease_init_ok:
  assumes "\<forall>r \<in> set (ls_file db). length (st_mac r) = 6" "lease_init env db = Some db'"
  shows "lease_ok (leases db') db'"
proof -
  let ?db = "db\<lparr>ht_mac := (\<lambda>_. []), ht_ip := (\<lambda>_. []), ht_tstamp := (\<lambda>_. [])\<rparr>"
  have e: "lease_ok {} ?db" by (rule lease_ok_empty)
  show ?thesis
  proof (cases "en_read env")
    case False
    then have "db' = ?db" using assms(2) by (simp add: lease_init_def)
    then show ?thesis using e lease_ok_leases by fastforce
  next
    case True
    then obtain db1 where 1: "init_leases env (ls_file db) ?db = Some db1" "db' = lease_file_update env db1"
      using assms(2) by (auto simp: lease_init_def)
    then obtain L where "lease_ok L db1" using init_leases_ok [OF e assms(1) 1(1)] by blast
    then have "lease_ok L db'" using 1(2) by simp
    then show ?thesis using lease_ok_leases by fastforce
  qed
qed


definition demo_intf :: DhcpIf where
  "demo_intf = \<lparr>if_name = ''eth0'', if_link_up = True, if_kindex = 2, if_ip = 0x0a000001, if_mask = 0xffffff00, if_typ = IF_ETHERNET,
     rip_passive_interface = False, rip_multicast_ip = 0, rip_multicast_mask = 0, rip_timeout = 0, rip_passwd = [], if_admin_up = True, if_dhcp_relay = False\<rparr>"

definition demo_proc :: "dhcp_srv \<Rightarrow> dhcp_proc" where
  "demo_proc st = \<lparr>dc_srv = st, dhcps_enable = True, dc_intf = [demo_intf], dhcpr_server = [], dhcpr_max_hops = 4, dhcpr_service_delay = 10,
     dhcpr_option82 = False, dc_hostname = [], dc_tic = 0\<rparr>"

definition demo_wire :: DhcpWire where
  "demo_wire = \<lparr>dw_op = 1, dw_htype = 1, dw_hlen = 6, dw_hops = 0, dw_tid = 7, dw_secs = 0, dw_flags = 0, dw_ciaddr = 0, dw_yiaddr = 0, dw_siaddr = 0,
     dw_giaddr = 0, dw_chaddr = demo_mac @ replicate 10 0, dw_sname = [], dw_file = [], dw_cookie = 0x63825363, dw_options = [53, 1, 1, 0xff]\<rparr>"

lemma demo_options: "chk_options (dw_options demo_wire) \<noteq> None"
  by (simp add: chk_options_def demo_wire_def chk_loop.simps copied_option_def)


section \<open>Expiry\<close>

lemma expires_at_mod: "expires_at now l \<longleftrightarrow> le_tstamp l \<le> now \<and> (now - le_tstamp l) mod 256 = 0"
proof -
  have "nat (le_tstamp l mod 256) = nat (now mod 256) \<longleftrightarrow> le_tstamp l mod 256 = now mod 256" by (simp add: eq_nat_nat_iff)
  also have "\<dots> \<longleftrightarrow> (now - le_tstamp l) mod 256 = 0" by (metis mod_eq_dvd_iff dvd_eq_mod_eq_0)
  finally show ?thesis by (simp add: expires_at_def hash_tstamp_mod)
qed

lemma tick_sel:
  assumes "proc_ok s"
  shows "leases (ds_db (dc_srv (dhcp_tick env s))) = {a \<in> leases (ds_db (dc_srv s)). \<not> expires_at (en_now env) (lease_at a (dc_srv s))}"
    "ls_mem (ds_db (dc_srv (dhcp_tick env s))) = ls_mem (ds_db (dc_srv s))"
proof -
  have "lease_ok (leases (ds_db (dc_srv s))) (ds_db (dc_srv s))" using assms by (simp add: proc_ok_def srv_ok_def)
  note t = lease_timeout_ok [OF this, of "en_now env"]
  show "leases (ds_db (dc_srv (dhcp_tick env s))) = {a \<in> leases (ds_db (dc_srv s)). \<not> expires_at (en_now env) (lease_at a (dc_srv s))}"
    using lease_ok_leases [OF t(1)] by (simp add: dhcp_tick_def Let_def)
  show "ls_mem (ds_db (dc_srv (dhcp_tick env s))) = ls_mem (ds_db (dc_srv s))" using t(3) by (simp add: dhcp_tick_def Let_def)
qed

lemma ticks_sel:
  fixes env :: "nat \<Rightarrow> lease_env"
  assumes "proc_ok s"
  defines "t \<equiv> \<lambda>n. fold dhcp_tick (map env [0..<n]) s"
  shows "proc_ok (t n) \<and> ls_mem (ds_db (dc_srv (t n))) = ls_mem (ds_db (dc_srv s)) \<and>
    leases (ds_db (dc_srv (t n))) = {a \<in> leases (ds_db (dc_srv s)). \<forall>k < n. \<not> expires_at (en_now (env k)) (lease_at a (dc_srv s))}"
proof (induction n)
  case 0
  then show ?case using assms(1) by (simp add: t_def)
next
  case (Suc n)
  have "t (Suc n) = dhcp_tick (env n) (t n)" by (simp add: t_def)
  then show ?case using Suc tick_ok tick_sel [of "t n" "env n"] by (auto simp: less_Suc_eq)
qed

text \<open>C28: when the timer runs once in each of 256 consecutive seconds, exactly the leases that expire by the end of this time are
  released, whenever they had expired; no lease is released before it expires.\<close>

theorem leases_expire:
  fixes env :: lease_env and now :: int
  assumes "proc_ok s"
  defines "s' \<equiv> fold dhcp_tick (map (\<lambda>k. env\<lparr>en_now := now + int k\<rparr>) [0..<256]) s"
  shows "leases (ds_db (dc_srv s')) = {a \<in> leases (ds_db (dc_srv s)). now + 255 < le_tstamp (lease_at a (dc_srv s))}"
proof -
  have "(\<exists>k < 256. expires_at (now + int k) l) \<longleftrightarrow> le_tstamp l \<le> now + 255" for l
  proof
    assume le: "le_tstamp l \<le> now + 255"
    define k where "k = (if le_tstamp l \<le> now then nat ((le_tstamp l - now) mod 256) else nat (le_tstamp l - now))"
    have "k < 256" using le by (auto simp: k_def nat_less_iff)
    moreover have "expires_at (now + int k) l"
    proof (cases "le_tstamp l \<le> now")
      case True
      have "(now + (le_tstamp l - now) mod 256 - le_tstamp l) mod 256 = (now + (le_tstamp l - now) - le_tstamp l) mod 256"
        by (metis mod_add_right_eq mod_diff_left_eq)
      with True show ?thesis by (auto simp: expires_at_mod k_def intro: order_trans [OF True])
    qed (simp add: expires_at_mod k_def)
    ultimately show "\<exists>k < 256. expires_at (now + int k) l" by blast
  qed (auto simp: expires_at_mod)
  then have "(\<forall>k < 256. \<not> expires_at (now + int k) l) \<longleftrightarrow> now + 255 < le_tstamp l" for l by (metis not_le)
  then show ?thesis using ticks_sel [OF assms(1), of "\<lambda>k. env\<lparr>en_now := now + int k\<rparr>" 256] by (simp add: s'_def)
qed

theorem leases_expire_witness:
  "leases (ds_db (dc_srv (fold dhcp_tick (map (\<lambda>k. demo_env\<lparr>en_now := 1000 + int k\<rparr>) [0..<256]) (demo_proc demo_leased)))) = {}"
proof -
  have p: "proc_ok (demo_proc demo_leased)" "dc_srv (demo_proc demo_leased) = demo_leased"
    by (simp_all add: proc_ok_def demo_proc_def demo_leased_ok)
  have "{a \<in> {0}. 1000 + 255 < le_tstamp (lease_at a demo_leased)} = {}" by (auto simp: demo_leased_ok(3))
  with leases_expire [OF p(1), where now = 1000 and env = demo_env] show ?thesis unfolding p(2) demo_leased_ok(2) by (rule trans)
qed

text \<open>The timer looks only at the chain of the current second: a lease that expired in a second without a tick is kept
  by all ticks until 256 seconds after it.\<close>

theorem missed_second_keeps_lease:
  assumes "proc_ok s" "a \<in> leases (ds_db (dc_srv s))" "le_tstamp (lease_at a (dc_srv s)) < en_now env"
    "en_now env < le_tstamp (lease_at a (dc_srv s)) + 256"
  shows "a \<in> leases (ds_db (dc_srv (dhcp_tick env s)))"
  using assms by (simp add: tick_sel expires_at_mod)

section \<open>The lease file\<close>

text \<open>C29: the leases survive a restart: what the process writes into the lease file it reads back when it starts, except for the leases
  that have expired by then.\<close>

theorem lease_file_roundtrip:
  assumes ok: "srv_ok st" and tmp: "ls_tmp (ds_db st) = []" "en_write env" "en_system env" and start: "en_read env'" "en_malloc env'"
  shows "\<exists>db. lease_init env' (lease_file_update env (ds_db st)) = Some db \<and> lease_ok (leases db) db \<and>
    records (leases db) db = {r \<in> records (leases (ds_db st)) (ds_db st). en_now env' < st_tstamp r}"
proof -
  let ?db = "ds_db st" and ?L = "leases (ds_db st)"
  have L: "lease_ok ?L ?db" using ok by (simp add: srv_ok_def)
  obtain as where as: "ls_file (lease_file_update env ?db) = map (\<lambda>a. lease_record (ls_mem ?db a)) as" "distinct as" "set as = ?L"
    using lease_file_update_records [OF L tmp] .
  let ?rs = "map (\<lambda>a. lease_record (ls_mem ?db a)) as"
  let ?e = "(lease_file_update env ?db)\<lparr>ht_mac := (\<lambda>_. []), ht_ip := (\<lambda>_. []), ht_tstamp := (\<lambda>_. [])\<rparr>"
  have d: "distinct (map st_mac ?rs)" "distinct (map st_ip ?rs)" "\<forall>r \<in> set ?rs. length (st_mac r) = 6"
    using L as(2,3) by (auto simp: lease_ok_def distinct_map lease_record_def o_def)
  obtain L' db where db: "init_leases env' ?rs ?e = Some db" "lease_ok L' db" "records L' db = records {} ?e \<union> {r \<in> set ?rs. en_now env' < st_tstamp r}"
    using init_leases_distinct [OF lease_ok_empty start(2) d(1,2), of "lease_file_update env ?db"] d(3) by auto
  have "lease_init env' (lease_file_update env ?db) = Some (lease_file_update env' db)"
    using start(1) db(1) as(1) by (simp add: lease_init_def)
  moreover have "leases (lease_file_update env' db) = L'" using lease_ok_leases [OF db(2)] by simp
  moreover have "records L' (lease_file_update env' db) = {r \<in> records ?L ?db. en_now env' < st_tstamp r}"
    using db(3) as(3) by (auto simp: records_def)
  ultimately show ?thesis using db(2) by simp
qed

theorem lease_file_roundtrip_witness:
  "\<exists>db. lease_init demo_env (lease_file_update demo_env (ds_db demo_leased)) = Some db \<and>
     records (leases db) db = {\<lparr>st_ip = 0x0a00000a, st_mask = 0xffffff00, st_mac = demo_mac, st_tstamp = 1020, st_lease = 86400\<rparr>}"
proof -
  have "ls_tmp (ds_db demo_leased) = []"
    by (simp add: demo_leased_def demo_srv_def lease_add_def lease_find_mac_def lease_find_ip_def demo_db_def demo_env_def
        Let_def add_tstamp_def add_ip_def add_mac_def upd_lease_def)
  from lease_file_roundtrip [OF demo_leased_ok(1) this, of demo_env demo_env] show ?thesis
    by (auto simp: demo_env_def records_def demo_leased_ok(2,3) lease_record_def)
qed

text \<open>Two records of one client with different addresses end the process when it starts. The file gets such records when a lease is removed
  by the command \<open>clear ip dhcp lease\<close>, which does not write the file, and the client is given another address.\<close>

theorem lease_init_crashes:
  assumes "lease_ok {} db" "en_malloc env" "en_now env < st_tstamp r1" "en_now env < st_tstamp r2"
    "length (st_mac r1) = 6" "st_mac r2 = st_mac r1" "st_ip r2 \<noteq> st_ip r1"
  shows "init_leases env [r1, r2] db = None"
proof -
  obtain a db' where a: "init_lease env r1 db = Some db'" "lease_ok {a} db'" "le_ip (ls_mem db' a) = st_ip r1" "le_mac (ls_mem db' a) = st_mac r1"
    using init_lease_new [OF assms(1,5) _ assms(2,3)] by auto
  have "lease_find_mac (st_mac r2) db' = Some a" "lease_find_ip (st_ip r2) db' = None"
    using lease_find_mac_iff [OF a(2), of "st_mac r2" a] lease_find_ip_None [OF a(2)] a(3,4) assms(5-7) by auto
  then have "init_lease env r2 db' = None" using assms(4) by (simp add: init_lease_def lease_add_def)
  then show ?thesis using a(1) by simp
qed

end
