(* ===== verification/Dhcp_OptProps.thy ===== *)
theory Dhcp_OptProps
  imports Dhcp_Sys
begin

text \<open>
  The parser of the options against the code that writes them: what a relay reads out of the replies of the server,
  and the relay agent option that is added to a packet on its way to a server and taken out of the answer.
\<close>

section \<open>Encoded options\<close>

definition encode_option :: "u8 \<times> u8 list \<Rightarrow> u8 list" where
  "encode_option o' = fst o' # word_of_nat (length (snd o')) # snd o'"

definition encode_options :: "(u8 \<times> u8 list) list \<Rightarrow> u8 list" where
  "encode_options os = concat (map encode_option os)"

definition option_ok :: "u8 \<times> u8 list \<Rightarrow> bool" where
  "option_ok o' \<longleftrightarrow> fst o' \<noteq> 0 \<and> fst o' \<noteq> 0xff \<and> length (snd o') < 256 \<and> (copied_option (fst o') \<longrightarrow> length (snd o') = 4)"

definition data32 :: "u8 list \<Rightarrow> u32" where
  "data32 v = be32 (v ! 0) (v ! 1) (v ! 2) (v ! 3)"

text \<open>What the parser notes about an option at a position.\<close>

fun note_option :: "nat \<Rightarrow> u8 \<times> u8 list \<Rightarrow> pkt_info \<Rightarrow> pkt_info" where
  "note_option p (c, v) k =
     (if c = 53 then k\<lparr>pk_type := Some (p + 2)\<rparr>
      else if c = 82 then k\<lparr>pk_82 := Some p\<rparr>
      else if c = 54 then k\<lparr>pk_server_id := data32 v\<rparr>
      else if c = 51 then k\<lparr>pk_lease_time := data32 v\<rparr>
      else if c = 1 then k\<lparr>pk_subnet_mask := data32 v\<rparr>
      else if c = 50 then k\<lparr>pk_requested_ip := data32 v\<rparr>
      else k)"

fun note_options :: "nat \<Rightarrow> (u8 \<times> u8 list) list \<Rightarrow> pkt_info \<Rightarrow> pkt_info" where
  "note_options p [] k = k"
| "note_options p (x # xs) k = note_options (p + 2 + length (snd x)) xs (note_option p x k)"

lemma nth_after [simp]: "(pre @ xs) ! (length pre + n) = xs ! n"
  by (simp add: nth_append)

lemma read_option_encoded:
  assumes "option_ok x" "b = pre @ encode_option x @ rest"
  shows "read_option b (length pre) k = note_option (length pre) x k" "b ! length pre = fst x" "b ! (length pre + 1) = word_of_nat (length (snd x))"
proof -
  have at: "b ! (length pre + n) = (fst x # word_of_nat (length (snd x)) # snd x @ rest) ! n" for n
    unfolding assms(2) encode_option_def by (simp add: nth_append)
  from at [of 0] at [of 1] show b: "b ! length pre = fst x" "b ! (length pre + 1) = word_of_nat (length (snd x))" by simp_all
  have "opt32 b (length pre) = data32 (snd x)" if "length (snd x) = 4"
    unfolding opt32_def data32_def at using that by (simp add: nth_append nth_Cons')
  then show "read_option b (length pre) k = note_option (length pre) x k"
    using assms(1) b(1) by (cases x) (auto simp: read_option_def option_ok_def copied_option_def)
qed

lemma chk_loop_options:
  "list_all option_ok os \<Longrightarrow> b = pre @ encode_options os @ rest \<Longrightarrow> rest \<noteq> [] \<Longrightarrow>
   chk_loop b (length pre) k = chk_loop b (length pre + length (encode_options os)) (note_options (length pre) os k)"
proof (induction os arbitrary: pre k)
  case (Cons x os)
  have b: "b = pre @ encode_option x @ (encode_options os @ rest)" using Cons.prems(2) by (simp add: encode_options_def)
  have x: "option_ok x" "list_all option_ok os" using Cons.prems(1) by simp_all
  note r = read_option_encoded [OF x(1) b]
  have len: "length (encode_option x) = 2 + length (snd x)" by (simp add: encode_option_def)
  have "length b = length pre + 2 + length (snd x) + length (encode_options os) + length rest" using b len by simp
  moreover have "unat (word_of_nat (length (snd x)) :: u8) = length (snd x)" using x(1) by (simp add: option_ok_def unat_of_nat)
  ultimately have "chk_loop b (length pre) k = chk_loop b (length pre + 2 + length (snd x)) (note_option (length pre) x k)"
    using x(1) Cons.prems(3) r by (subst chk_loop.simps) (auto simp: option_ok_def)
  also have "\<dots> = chk_loop b (length (pre @ encode_option x)) (note_option (length pre) x k)" by (simp add: len)
  also have "\<dots> = chk_loop b (length (pre @ encode_option x) + length (encode_options os))
      (note_options (length (pre @ encode_option x)) os (note_option (length pre) x k))"
    by (rule Cons.IH [OF x(2)]) (use b Cons.prems(3) in simp_all)
  finally show ?case by (simp add: encode_options_def len add_ac)
qed (simp add: encode_options_def)

text \<open>The parser reads back every list of options that is ended by 255.\<close>

lemma chk_options_encoded:
  assumes "list_all option_ok os"
  shows "chk_options (encode_options os @ 0xff # rest) =
    Some (False, (note_options 0 os no_info)\<lparr>pk_end := length (encode_options os), pk_len := DHCP_HEADER + length (encode_options os) + 1\<rparr>)"
proof -
  let ?b = "encode_options os @ 0xff # rest"
  have "chk_loop ?b 0 no_info = chk_loop ?b (length (encode_options os)) (note_options 0 os no_info)"
    using chk_loop_options [OF assms, of ?b "[]" "0xff # rest" no_info] by simp
  also have "\<dots> = Some (length (encode_options os), note_options 0 os no_info)" by (subst chk_loop.simps) simp
  finally show ?thesis by (simp add: chk_options_def)
qed

lemma encode_options_simps [simp]: "encode_options [] = []" "encode_options (x # xs) = encode_option x @ encode_options xs"
  "encode_options (xs @ ys) = encode_options xs @ encode_options ys" "encode_option (c, v) = c # word_of_nat (length v) # v"
  by (simp_all add: encode_options_def encode_option_def)

lemma note_options_append: "note_options p (xs @ ys) k = note_options (p + length (encode_options xs)) ys (note_options p xs k)"
  by (induction xs arbitrary: p k) (auto simp: encode_option_def add_ac)

lemma note_options_other:
  assumes "\<forall>x \<in> set os. fst x \<noteq> 53 \<and> \<not> copied_option (fst x)"
  shows "pk_type (note_options p os k) = pk_type k" "pk_server_id (note_options p os k) = pk_server_id k"
    "pk_lease_time (note_options p os k) = pk_lease_time k" "pk_subnet_mask (note_options p os k) = pk_subnet_mask k"
    "pk_requested_ip (note_options p os k) = pk_requested_ip k"
proof -
  have "pk_type (note_options p os k) = pk_type k \<and> pk_server_id (note_options p os k) = pk_server_id k \<and>
    pk_lease_time (note_options p os k) = pk_lease_time k \<and> pk_subnet_mask (note_options p os k) = pk_subnet_mask k \<and>
    pk_requested_ip (note_options p os k) = pk_requested_ip k"
    using assms
  proof (induction os arbitrary: p k)
    case (Cons x os)
    then show ?case by (cases x) (simp add: copied_option_def)
  qed simp
  then show "pk_type (note_options p os k) = pk_type k" "pk_server_id (note_options p os k) = pk_server_id k"
    "pk_lease_time (note_options p os k) = pk_lease_time k" "pk_subnet_mask (note_options p os k) = pk_subnet_mask k"
    "pk_requested_ip (note_options p os k) = pk_requested_ip k" by simp_all
qed

text \<open>The parser has no bound: options that fill the array without an end mark are read past it.\<close>

theorem chk_options_overruns: "chk_options (replicate DHCP_OPTIONS 200) = None"
proof -
  have step: "chk_loop (replicate 1132 200) p k = (if 1132 \<le> p + 1 then None else chk_loop (replicate 1132 200) (202 + p) k)" for p k
    by (subst chk_loop.simps) (auto simp: copied_option_def read_option_def)
  show ?thesis by (simp add: chk_options_def step)
qed

section \<open>Replies of the server\<close>

definition pair_option :: "u8 \<Rightarrow> u32 \<Rightarrow> u32 \<Rightarrow> (u8 \<times> u8 list) list" where
  "pair_option c a b = (if a = 0 then [] else if b = 0 then [(c, put32 a)] else [(c, put32 a @ put32 b)])"

definition name_option :: "u8 list \<Rightarrow> (u8 \<times> u8 list) list" where
  "name_option n = (if n = [] then [] else [(15, n)])"

definition relay_option82 :: "DhcpPacket \<Rightarrow> (u8 \<times> u8 list) list" where
  "relay_option82 pkt = (if dp_giaddr pkt = 0 then []
     else case dp_82 pkt of None \<Rightarrow> [] | Some b \<Rightarrow> [(82, take (unat (b ! 1)) (drop 2 b))])"

text \<open>Option 82 of the received packet, as the parser found it.\<close>

definition received_82_ok :: "DhcpPacket \<Rightarrow> bool" where
  "received_82_ok pkt \<longleftrightarrow> (case dp_82 pkt of None \<Rightarrow> True | Some b \<Rightarrow> 2 + unat (b ! 1) \<le> length b \<and> b ! 0 = 82)"

lemma add_option82_encoded:
  assumes "received_82_ok pkt"
  shows "(if dp_giaddr pkt \<noteq> 0 then add_option82 pkt else []) = encode_options (relay_option82 pkt)"
proof (cases "dp_82 pkt")
  case (Some b)
  have l: "2 \<le> length b" "2 + unat (b ! 1) \<le> length b" "b ! 0 = 82" using assms Some by (auto simp: received_82_ok_def)
  then obtain v where v: "b = 82 # b ! 1 # v" by (cases b; cases "tl b") auto
  then have "take (unat (b ! 1) + 2) b = 82 # b ! 1 # take (unat (b ! 1)) v" by (metis add_2_eq_Suc' take_Suc_Cons)
  moreover have "drop 2 b = v" using v by (metis add_2_eq_Suc' add_0 drop0 drop_Suc_Cons numeral_2_eq_2)
  moreover have "length (take (unat (b ! 1)) v) = unat (b ! 1)" using l(2) v by (metis length_Cons length_take min.absorb2 add_2_eq_Suc Suc_le_mono)
  ultimately show ?thesis using Some by (simp add: add_option82_def relay_option82_def)
qed (simp add: add_option82_def relay_option82_def)

lemma lease_options_encoded:
  assumes "received_82_ok pkt"
  shows "lease_options pkt pif net cfg l = encode_options ([(54, put32 (pi_ip pif)), (51, put32 (le_lease l)), (1, put32 (le_mask l))] @
     pair_option 3 (dn_gw1 net) (dn_gw2 net) @ pair_option 6 (dhcps_dns1 cfg) (dhcps_dns2 cfg) @ pair_option 42 (dhcps_ntp1 cfg) (dhcps_ntp2 cfg) @
     name_option (dhcps_domain_name cfg) @ relay_option82 pkt)"
  unfolding lease_options_def add_option82_encoded [OF assms]
  by (simp add: add_serverid_def add_lease_def add_subnetmask_def add_router_def add_dns_def add_ntp_def add_domain_name_def add_pair_def
      pair_option_def name_option_def Let_def)

lemma data32_put32 [simp]: "data32 (put32 w) = w"
  using be32_put32 [of w] by (simp add: data32_def put32_def)

text \<open>A relay, or any receiver with this parser, reads out of an offer or an acknowledgement of the server what the server has put there: the packet is
  accepted, its length is that of the reply, and the message type, the address of the server, the time and the mask of the lease are found.\<close>

theorem server_reply_parsed:
  assumes "received_82_ok pkt" "length (dhcps_domain_name cfg) \<le> 63" "ty = add_msgtype_offer \<or> ty = add_msgtype_ack"
  shows "\<exists>k. chk_options (rp_options (build_reply pkt pif ip (ty @ lease_options pkt pif net cfg l)) @ rest) = Some (False, k) \<and>
    pk_len k = 240 + length (rp_options (build_reply pkt pif ip (ty @ lease_options pkt pif net cfg l))) \<and>
    pk_type k = Some 2 \<and> pk_server_id k = pi_ip pif \<and> pk_lease_time k = le_lease l \<and> pk_subnet_mask k = le_mask l"
proof -
  obtain m where m: "ty = encode_options [(53, [m])]" using assms(3) by (auto simp: add_msgtype_offer_def add_msgtype_ack_def)
  let ?os = "pair_option 3 (dn_gw1 net) (dn_gw2 net) @ pair_option 6 (dhcps_dns1 cfg) (dhcps_dns2 cfg) @ pair_option 42 (dhcps_ntp1 cfg) (dhcps_ntp2 cfg) @
     name_option (dhcps_domain_name cfg) @ relay_option82 pkt"
  let ?hd = "[(53, [m]), (54, put32 (pi_ip pif)), (51, put32 (le_lease l)), (1, put32 (le_mask l))]"
  have os: "list_all option_ok ?os" "\<forall>x \<in> set ?os. fst x \<noteq> 53 \<and> \<not> copied_option (fst x)"
    using assms(2) by (auto simp: option_ok_def copied_option_def pair_option_def name_option_def relay_option82_def min_def
        intro: le_less_trans split: option.splits)
  then have ok: "list_all option_ok (?hd @ ?os)" by (simp add: option_ok_def copied_option_def)
  have r: "rp_options (build_reply pkt pif ip (ty @ lease_options pkt pif net cfg l)) = encode_options (?hd @ ?os) @ [0xff]"
    unfolding m lease_options_encoded [OF assms(1)] by (simp add: build_reply_def)
  show ?thesis unfolding r using chk_options_encoded [OF ok, of rest] note_options_other [OF os(2)] 
    by (simp add: no_info_def)
qed

theorem server_reply_parsed_witness:
  "\<exists>k. chk_options (rp_options (build_reply demo_pkt demo_pif 0x0a00000a
     (add_msgtype_ack @ lease_options demo_pkt demo_pif demo_net (ds_config demo_srv) (lease_at 0 demo_leased)))) = Some (False, k) \<and>
   pk_lease_time k = 86400 \<and> pk_server_id k = 0x0a000001"
  using server_reply_parsed [of demo_pkt "ds_config demo_srv" add_msgtype_ack demo_pif "0x0a00000a" demo_net "lease_at 0 demo_leased" "[]"]
  by (auto simp: received_82_ok_def demo_pkt_def demo_srv_def demo_pif_def demo_leased_ok(3))

section \<open>The option of the relay\<close>

definition relay_data :: "u8 list \<Rightarrow> u8 list \<Rightarrow> u8 list" where
  "relay_data host name = [1, word_of_nat (length host + 1 + length name)] @ host @ [46] @ name"

lemma put_at_end:
  "put_at (length xs) (bs @ [y]) (xs @ z # rest) = xs @ bs @ y # drop (length bs) rest"
  by (simp add: put_at_def)

lemma relay_option_facts:
  assumes os: "list_all option_ok os" "\<forall>x \<in> set os. fst x \<noteq> 82" and b: "b = encode_options os @ 0xff # rest"
    and k: "chk_options b = Some (False, k)" and len: "length host + length name < 250" "pk_len k + length host + 1 + length name < 1372"
    and add: "add_relay_option host name k b = (b', k')" and rem: "remove_option82 (w\<lparr>dw_options := b'\<rparr>) (k'\<lparr>pk_82 := Some (pk_end k)\<rparr>) = (w'', k'')"
  shows "chk_options b' = Some (False, k'\<lparr>pk_82 := Some (pk_end k)\<rparr>) \<and>
    take (4 + length host + 1 + length name) (drop (pk_end k) b') = encode_option (82, relay_data host name) \<and>
    chk_options (dw_options w'') = Some (False, k)"
proof -
  let ?n = "length host + 1 + length name"
  let ?x = "(82 :: u8, relay_data host name)"
  let ?e = "length (encode_options os)"
  have k_eq: "k = (note_options 0 os no_info)\<lparr>pk_end := ?e, pk_len := DHCP_HEADER + ?e + 1\<rparr>"
    using k chk_options_encoded [OF os(1)] unfolding b by simp
  have x: "option_ok ?x" using len(1) by (simp add: option_ok_def copied_option_def relay_data_def)
  have enc: "encode_option ?x = [82, word_of_nat (?n + 2), 1, word_of_nat ?n] @ host @ [46] @ name" by (simp add: relay_data_def add_ac)
  have "b' = put_at ?e (encode_option ?x @ [0xff]) b"
    using add len(2) unfolding enc by (auto simp: add_relay_option_def Let_def k_eq)
  then have b': "b' = encode_options (os @ [?x]) @ 0xff # drop (length (encode_option ?x)) rest"
    unfolding b put_at_end by (simp del: encode_options_simps(4))
  have k': "k' = k\<lparr>pk_end := ?e + 4 + ?n, pk_len := pk_len k + ?n + 4\<rparr>"
    using add len(2) by (auto simp: add_relay_option_def Let_def k_eq)
  have ok: "list_all option_ok (os @ [?x])" using os(1) x by simp
  have le: "length (encode_option ?x) = 4 + ?n" unfolding enc by simp
  have 1: "chk_options b' = Some (False, k'\<lparr>pk_82 := Some (pk_end k)\<rparr>)"
    unfolding b' chk_options_encoded [OF ok] k' k_eq using le by (simp add: note_options_append relay_data_def)
  have 2: "take (4 + ?n) (drop (pk_end k) b') = encode_option ?x" unfolding b' using le by (simp add: k_eq del: encode_options_simps(4))
  have "dw_options w'' = b'[?e := 0xff]" using rem by (auto simp: remove_option82_def k_eq)
  also have "\<dots> = encode_options os @ 0xff # drop 1 (encode_option ?x) @ 0xff # drop (length (encode_option ?x)) rest"
    unfolding b' by (simp add: list_update_append)
  finally have "chk_options (dw_options w'') = Some (False, k)" using chk_options_encoded [OF os(1)] k_eq by simp
  then show ?thesis using 1 2 by (simp add: add_ac)
qed

text \<open>C33: the relay agent option. Added to the well-formed options of a client (without an option 82), it is found by the parser behind them,
  with the name of the router and of the interface, and changes nothing else; taken out again on the way back, it leaves the options as they were.\<close>

theorem relay_option_roundtrip:
  assumes os: "list_all option_ok os" "\<forall>x \<in> set os. fst x \<noteq> 82" and b: "b = encode_options os @ 0xff # rest"
    and k: "chk_options b = Some (False, k)" and len: "length host + length name < 250" "pk_len k + length host + 1 + length name < 1372"
    and add: "add_relay_option host name k b = (b', k')" and rem: "remove_option82 (w\<lparr>dw_options := b'\<rparr>) (k'\<lparr>pk_82 := Some (pk_end k)\<rparr>) = (w'', k'')"
  shows "chk_options b' = Some (False, k'\<lparr>pk_82 := Some (pk_end k)\<rparr>) \<and>
    take (4 + length host + 1 + length name) (drop (pk_end k) b') = encode_option (82, relay_data host name) \<and>
    chk_options (dw_options w'') = Some (False, k)"
  using assms by (rule relay_option_facts)

definition demo_os :: "(u8 \<times> u8 list) list" where
  "demo_os = [(53, [1])]"

theorem relay_option_roundtrip_witness:
  "\<exists>k b' k'. chk_options [53, 1, 1, 0xff] = Some (False, k) \<and> add_relay_option [82] [101] k [53, 1, 1, 0xff] = (b', k') \<and>
     chk_options b' = Some (False, k'\<lparr>pk_82 := Some 3\<rparr>)"
proof -
  let ?b = "encode_options demo_os @ 0xff # []"
  have ok: "list_all option_ok demo_os" "\<forall>x \<in> set demo_os. fst x \<noteq> 82" by (simp_all add: demo_os_def option_ok_def copied_option_def)
  obtain k where k: "chk_options ?b = Some (False, k)" "pk_end k = 3" "pk_len k = 244" using chk_options_encoded [OF ok(1), of "[]"] by (simp add: demo_os_def)
  obtain b' k' where a: "add_relay_option [82] [101] k ?b = (b', k')" by fastforce
  obtain w k'' where r: "remove_option82 (demo_wire\<lparr>dw_options := b'\<rparr>) (k'\<lparr>pk_82 := Some (pk_end k)\<rparr>) = (w, k'')" by fastforce
  have "?b = [53, 1, 1, 0xff]" by (simp add: demo_os_def)
  then show ?thesis using relay_option_roundtrip [OF ok refl k(1) _ _ a r] k a by auto
qed

text \<open>The test for room forgets the four bytes in front of the data: the option can run up to three bytes past the array.\<close>

theorem relay_option_overruns:
  assumes "length b = DHCP_OPTIONS" "pk_end k = 1120" "pk_len k = DHCP_HEADER + 1121" "length host + length name = 9"
  shows "length (fst (add_relay_option host name k b)) = DHCP_OPTIONS + 3"
  using assms by (simp add: add_relay_option_def put_at_def Let_def)

text \<open>Option 82 is added also to a packet that comes from another relay.\<close>

theorem reforwarded_packet_gets_option:
  assumes "dw_giaddr w \<noteq> 0" "relay_giaddr i w k s = Inr w1" "dhcpr_option82 s" "pk_82 k = None" and name: "name = char_bytes (if_name (dc_intf s ! i))"
    and room: "pk_len k + length (dc_hostname s) + 1 + length name < 1372"
  shows "dw_options (fst (relay_option i w1 k s)) = put_at (pk_end k) (encode_option (82, relay_data (dc_hostname s) name) @ [0xff]) (dw_options w)"
  using assms by (auto simp: relay_giaddr_def relay_option_def add_relay_option_def relay_data_def Let_def add_ac split: if_splits)

section \<open>Server groups\<close>

lemma balance_loop_eq:
  "balance_loop index cnt gs = (if cnt \<le> index \<and> index - cnt < length gs \<and> sv_valid (gs ! (index - cnt)) then group_ips (gs ! (index - cnt)) else [])"
proof (induction gs arbitrary: cnt)
  case (Cons g gs)
  show ?case
  proof (cases "cnt = index")
    case False
    then show ?thesis using Cons.IH [of "cnt + 1"] by (auto simp: nth_Cons' Suc_diff_le less_Suc_eq_0_disj)
  qed (use Cons.IH [of "cnt + 1"] in auto)
qed simp

text \<open>While the groups in use are the first ones of the table, a packet goes to all servers of one of them.\<close>

lemma balancing_prefix:
  assumes "list_all sv_valid vs" "list_all (\<lambda>g. \<not> sv_valid g) us" "vs \<noteq> []"
  shows "txpacket_random_balancing rnd (vs @ us) = group_ips (vs ! (rnd mod length vs))"
proof -
  have "filter sv_valid (vs @ us) = vs" using assms by (simp add: list_all_iff filter_empty_conv)
  moreover have "rnd mod length vs < length vs" using assms(3) by simp
  ultimately show ?thesis using assms by (simp add: txpacket_random_balancing_def Let_def balance_loop_eq nth_append list_all_length trans_less_add1)
qed

text \<open>After the first of two groups is removed, no packet is balanced to the one that is left.\<close>

theorem balancing_loses_packets:
  assumes "\<not> sv_valid g1" "sv_valid g2"
  shows "txpacket_random_balancing rnd [g1, g2] = []"
  using assms by (simp add: txpacket_random_balancing_def)

section \<open>A client behind the relay\<close>

lemma parsed_fields:
  assumes os: "list_all option_ok os" "\<forall>x \<in> set os. fst x \<noteq> 82" and b: "b = encode_options os @ 0xff # rest"
    and k: "chk_options b = Some (False, k)" and host: "length host + length name < 250" and add: "add_relay_option host name k b = (b', k')"
  shows "\<exists>k0. chk_options b' = Some (False, k0) \<and> pk_type k0 = pk_type k \<and> pk_requested_ip k0 = pk_requested_ip k \<and> pk_len k' = pk_len k0 \<and>
    pk_server_id k' = pk_server_id k"
proof (cases "pk_len k + length host + 1 + length name < 1372")
  case True
  obtain w k'' where r: "remove_option82 (demo_wire\<lparr>dw_options := b'\<rparr>) (k'\<lparr>pk_82 := Some (pk_end k)\<rparr>) = (w, k'')" by fastforce
  have "chk_options b' = Some (False, k'\<lparr>pk_82 := Some (pk_end k)\<rparr>)" using relay_option_facts [OF os b k host True add r] by blast
  moreover have "k' = k\<lparr>pk_end := pk_end k + 4 + (length host + 1 + length name), pk_len := pk_len k + (length host + 1 + length name) + 4\<rparr>"
    using add True by (auto simp: add_relay_option_def Let_def)
  ultimately show ?thesis by simp
next
  case False
  then have "b' = b" "k' = k" using add by (auto simp: add_relay_option_def Let_def)
  then show ?thesis using k by simp
qed

lemma note_options_82: "\<forall>x \<in> set os. fst x \<noteq> 82 \<Longrightarrow> pk_82 (note_options p os k) = pk_82 k"
proof (induction os arbitrary: p k)
  case (Cons x os)
  then show ?case by (cases x) simp
qed simp

lemma set_txpacket_all: "ip \<in> set (txpacket_all gs) \<longleftrightarrow> ip \<noteq> 0 \<and> (\<exists>g \<in> set gs. sv_valid g \<and> ip \<in> set (sv_ip g))"
  by (auto simp: txpacket_all_def group_ips_def)

text \<open>What the relay does to the packet of a client.\<close>

lemma relay_option_result:
  assumes os: "list_all option_ok os" "\<forall>x \<in> set os. fst x \<noteq> 82" and b: "dw_options w = encode_options os @ 0xff # rest"
    and k: "chk_options (dw_options w) = Some (False, k)" and host: "length (dc_hostname s) + length (if_name (dc_intf s ! i)) < 250"
    and r: "relay_option i w k s = (w', k')"
  shows "(\<exists>k0. chk_options (dw_options w') = Some (False, k0) \<and> pk_type k0 = pk_type k \<and> pk_requested_ip k0 = pk_requested_ip k \<and> pk_len k' = pk_len k0) \<and>
    pk_server_id k' = pk_server_id k \<and> w' = w\<lparr>dw_options := dw_options w'\<rparr>"
proof (cases "dhcpr_option82 s \<and> pk_82 k = None")
  case True
  let ?name = "char_bytes (if_name (dc_intf s ! i))"
  obtain b' where a: "add_relay_option (dc_hostname s) ?name k (dw_options w) = (b', k')" "w' = w\<lparr>dw_options := b'\<rparr>"
    using r True by (auto simp: relay_option_def split: prod.splits)
  have "length (dc_hostname s) + length ?name < 250" using host by (simp add: char_bytes_def)
  from parsed_fields [OF os b k this a(1)] show ?thesis by (auto simp: a(2))
qed (use r k in \<open>auto simp: relay_option_def\<close>)


definition demo_relay :: dhcp_proc where
  "demo_relay = (demo_proc demo_srv)\<lparr>dc_intf := [demo_intf\<lparr>if_dhcp_relay := True\<rparr>], dhcpr_service_delay := 0, dhcpr_option82 := True,
     dc_hostname := [114], dhcpr_server := [\<lparr>sv_valid = True, sv_ip = [0xc0a80001, 0, 0, 0], sv_leases = [0, 0, 0, 0]\<rparr>]\<rparr>"


end
