(* ===== verification/Dns_Pkt.thy ===== *)
theory Dns_Pkt
  imports Prelude
begin

text \<open>
  DNS packets (\<^verbatim>\<open>dns/exec/dns_pkt.c\<close>, \<^verbatim>\<open>dns.h\<close>). A packet is the buffer it was received into, a list of bytes,
  with the length of the received data; bytes behind the data are those the buffer happened to hold. What the
  parser extracts is a record; the fields it does not assign keep what was in them, which is an argument.
  Datagrams have at most 1500 bytes, the size of the buffer in front of the extracted fields. A C string is the list of its bytes in front of the first 0.
\<close>

section \<open>Data\<close>

definition CLI_MAX_DOMAIN :: nat where [simp]: "CLI_MAX_DOMAIN = 63"
definition DNS_MIN_TTL :: int where [simp]: "DNS_MIN_TTL = 10"
definition DNS_MAX_TTL :: int where [simp]: "DNS_MAX_TTL = 900"
definition DNS_STATIC_TTL :: u32 where [simp]: "DNS_STATIC_TTL = 60 * 60"
definition DNS_STATIC_FLAGS :: u16 where [simp]: "DNS_STATIC_FLAGS = 0x8180"

record DnsInfo =
  dns_len :: nat
  dns_pkt_type :: u8
  dns_error_code :: u8
  dns_flags :: u16
  dns_query_name :: "u8 list"
  dns_query_type :: u8
  dns_type :: u16
  dns_class :: u16
  dns_ttl :: int
  dns_address :: u32
  dns_address_v6 :: "u8 list"

record DnsCache =
  dc_ttl :: u32
  dc_ip :: u32
  dc_flags :: u16
  dc_static :: bool
  dc_marker :: bool
  dc_type :: u8
  dc_ipv6 :: "u8 list"
  dc_cname :: "(u8 list \<times> nat) option"
  dc_name :: "u8 list"

definition cstr :: "u8 list \<Rightarrow> u8 list" where
  "cstr b = takeWhile (\<lambda>c. c \<noteq> 0) b"

definition read_16 :: "u8 list \<Rightarrow> nat \<Rightarrow> u16" where
  "read_16 b p = be16 (b ! p) (b ! (p + 1))"

definition read_32 :: "u8 list \<Rightarrow> nat \<Rightarrow> u32" where
  "read_32 b p = be32 (b ! p) (b ! (p + 1)) (b ! (p + 2)) (b ! (p + 3))"

definition set_tid :: "u16 \<Rightarrow> u8 list \<Rightarrow> u8 list" where
  "set_tid tid b = put16 tid @ drop 2 b"

section \<open>Building an answer\<close>

text \<open>The bytes and the length of the answer for an entry of the cache. The data of the answer is written for the types 1 and 28 only.\<close>

definition dnspkt_build :: "DnsCache \<Rightarrow> u16 \<Rightarrow> u8 list \<times> nat" where
  "dnspkt_build dc tid =
     (case dc_cname dc of
        Some (b, len) \<Rightarrow> (set_tid tid b, len)
      | None \<Rightarrow>
          let name = dc_name dc @ [0];
              query = name @ put16 (ucast (dc_type dc)) @ put16 1;
              answer = put16 0xc00c @ put16 (ucast (dc_type dc)) @ put16 1 @ put32 (dc_ttl dc);
              rv = 12 + length name + 4
          in (put16 tid @ put16 (dc_flags dc) @ put16 1 @ put16 1 @ put16 0 @ put16 0 @ query @ answer @
                (if dc_type dc = 1 then put16 4 @ put32 (dc_ip dc)
                 else if dc_type dc = 28 then put16 16 @ dc_ipv6 dc else []),
              if dc_type dc = 1 then rv + 16 else if dc_type dc = 28 then rv + 16 + 12 else rv))"

section \<open>Names\<close>

text \<open>The labels of a name in packet format, each with a dot behind it; \<open>None\<close> if the name is too long.\<close>

function real_labels :: "nat \<Rightarrow> u8 list \<Rightarrow> u8 list option" where
  "real_labels tot [] = Some []"
| "real_labels tot (l # rest) =
     (if l = 0 then Some []
      else if tot + unat l \<ge> CLI_MAX_DOMAIN then None
      else map_option (\<lambda>r. take (unat l) rest @ [46] @ r) (real_labels (tot + unat l) (drop (unat l) rest)))"
  by pat_completeness auto
termination by (relation "measure (\<lambda>(_, b). length b)") auto

text \<open>The last dot is removed; for the empty name that writes in front of the buffer, and the result is empty.\<close>

definition dnspkt_get_real_name :: "u8 list \<Rightarrow> u8 list option" where
  "dnspkt_get_real_name b = map_option (\<lambda>n. cstr (butlast n)) (real_labels 0 b)"

definition chk_pkt_len :: "nat \<Rightarrow> nat \<Rightarrow> bool" where
  "chk_pkt_len p len = (p > len)"

text \<open>The length with the final 0, or 0 for an error. Every step is forward and stays within the length.\<close>

function name_loop :: "u8 list \<Rightarrow> nat \<Rightarrow> nat \<Rightarrow> nat \<Rightarrow> nat" where
  "name_loop b p len rv =
     (if b ! p = 0 then if rv + 1 > CLI_MAX_DOMAIN then 0 else rv + 1
      else if b ! p AND 0xc0 \<noteq> 0 then 0
      else if chk_pkt_len (p + unat (b ! p) + 1) len then 0
      else name_loop b (p + unat (b ! p) + 1) len (rv + unat (b ! p) + 1))"
  by auto
termination by (relation "measure (\<lambda>(b, p, len, _). Suc len - p)") (auto simp: chk_pkt_len_def)

declare name_loop.simps [simp del]

definition get_name_len :: "u8 list \<Rightarrow> nat \<Rightarrow> nat \<Rightarrow> nat" where
  "get_name_len b p len = name_loop b p len 0"

section \<open>Parsing\<close>

text \<open>The answers of a packet whose first answer is a CNAME: \<open>True\<close> for an error, and the least time to live. The time is
  cut to 16 bits.\<close>

fun cname_loop :: "nat \<Rightarrow> u8 list \<Rightarrow> nat \<Rightarrow> nat \<Rightarrow> nat \<Rightarrow> int \<Rightarrow> bool \<times> int" where
  "cname_loop 0 b p plen len ttl = (False, ttl)"
| "cname_loop (Suc n) b p plen len ttl =
     (if b ! p AND 0xc0 \<noteq> 0xc0 then (False, ttl)
      else let type = read_16 b (p + 2); dclass = read_16 b (p + 4)
           in if dclass \<noteq> 1 then (False, ttl)
              else let t = uint (ucast (read_32 b (p + 6)) :: u16); ttl = (if t < ttl then t else ttl); plen = plen + 10; p = p + 10
                   in if plen > len then (True, ttl)
                      else if type = 1
                      then if read_16 b p \<noteq> 4 then (True, ttl)
                           else if plen + 6 > len then (True, ttl) else cname_loop n b (p + 6) (plen + 6) len ttl
                      else if type = 28
                      then if read_16 b p \<noteq> 16 then (True, ttl)
                           else if plen + 18 > len then (True, ttl) else cname_loop n b (p + 18) (plen + 18) len ttl
                      else if type = 5
                      then let l = unat (read_16 b p)
                           in if plen + 2 + l > len then (True, ttl) else cname_loop n b (p + 2 + l) (plen + 2 + l) len ttl
                      else cname_loop n b p plen len ttl)"

definition parse_cnames :: "u8 list \<Rightarrow> nat \<Rightarrow> nat \<Rightarrow> int \<Rightarrow> bool \<times> int" where
  "parse_cnames b len acount ttl =
     (if len \<le> 12 then (True, ttl)
      else let p = 12 + get_name_len b 12 len + 4
           in if p > len then (True, DNS_MAX_TTL) else cname_loop acount b p p len DNS_MAX_TTL)"

text \<open>The first answer, at position \<open>p\<close>.\<close>

definition verify_answer :: "u8 list \<Rightarrow> nat \<Rightarrow> nat \<Rightarrow> DnsInfo \<Rightarrow> bool \<times> DnsInfo" where
  "verify_answer b p len k =
     (if \<not> (b ! p = 0xc0 \<and> b ! (p + 1) = 0x0c) then (chk_pkt_len p len, k)
      else let k = k\<lparr>dns_type := read_16 b (p + 2), dns_class := read_16 b (p + 4)\<rparr>
           in if dns_class k \<noteq> 1 then (chk_pkt_len (p + 6) len, k)
              else if dns_type k = 5
              then (case parse_cnames b len (unat (read_16 b 6)) (dns_ttl k) of
                      (bad, t) \<Rightarrow> (bad \<or> chk_pkt_len (p + 6) len, k\<lparr>dns_ttl := t\<rparr>))
              else if dns_type k = 1
              then let k = k\<lparr>dns_ttl := sint (read_32 b (p + 6))\<rparr>
                   in if read_16 b (p + 10) \<noteq> 4 then (chk_pkt_len (p + 12) len, k)
                      else (chk_pkt_len (p + 16) len, k\<lparr>dns_address := read_32 b (p + 12)\<rparr>)
              else if dns_type k = 28
              then let k = k\<lparr>dns_ttl := sint (read_32 b (p + 6))\<rparr>
                   in if read_16 b (p + 10) \<noteq> 16 then (chk_pkt_len (p + 12) len, k)
                      else (chk_pkt_len (p + 28) len, k\<lparr>dns_address_v6 := take 16 (drop (p + 12) b)\<rparr>)
              else (chk_pkt_len (p + 6) len, k))"

text \<open>\<open>True\<close> for a bad packet. The type of the query is stored in 8 bits.\<close>

definition dnspkt_verify :: "u8 list \<Rightarrow> nat \<Rightarrow> DnsInfo \<Rightarrow> bool \<times> DnsInfo" where
  "dnspkt_verify b len junk =
     (let k = junk\<lparr>dns_len := len, dns_error_code := 0, dns_pkt_type := 0, dns_query_name := [], dns_type := 0, dns_class := 0,
                   dns_ttl := 0, dns_address := 0\<rparr>
      in if len < 12 then (True, k)
         else let fl = read_16 b 2;
                  k = k\<lparr>dns_pkt_type := if fl AND 0x8000 \<noteq> 0 then 1 else 0, dns_error_code := ucast (fl AND 0x000f), dns_flags := fl\<rparr>
              in if read_16 b 4 \<noteq> 1 then (chk_pkt_len 12 len, k)
                 else let n = get_name_len b 12 len
                      in if n = 0 then (chk_pkt_len 12 len, k)
                         else let k = k\<lparr>dns_query_name := take (n - 1) (drop 12 b), dns_query_type := ucast (read_16 b (12 + n))\<rparr>;
                                  p = 12 + n + 4
                              in if read_16 b 6 = 0 then (chk_pkt_len p len, k) else verify_answer b p len k)"

end
