(* ===== verification/Dns_Proxy.thy ===== *)
theory Dns_Proxy
  imports Dns_Pkt
begin

text \<open>
  The DNS proxy: its cache (\<^verbatim>\<open>dns/exec/dns_cache.c\<close>), the requests that wait for an answer of a server (\<^verbatim>\<open>dns_rq.c\<close>), the
  handlers of queries and responses (\<^verbatim>\<open>dns_client.c\<close>, \<^verbatim>\<open>dns_server.c\<close>, \<^verbatim>\<open>dns_rx.c\<close>), its commands (\<^verbatim>\<open>callbacks.c\<close>) and the timer of
  its main loop. A chain of the cache is a list of entries. The list of inactive requests, whose contents are never read,
  is the number of its elements. Packets that are sent and counters are appended to a list of outputs.
\<close>

section \<open>The cache\<close>

type_synonym dns_cache = "nat \<Rightarrow> DnsCache list"

definition HMASK :: u32 where [simp]: "HMASK = 0x3ff"

text \<open>The bytes of the string are signed.\<close>

definition dns_hash :: "u8 list \<Rightarrow> nat" where
  "dns_hash str = unat (foldl (\<lambda>h c. (push_bit 5 h + h) XOR scast c) 5381 str AND HMASK)"

definition cache_match :: "u8 list \<Rightarrow> u8 \<Rightarrow> DnsCache \<Rightarrow> bool" where
  "cache_match name ty dc \<longleftrightarrow> dc_type dc = ty \<and> name = dc_name dc"

definition cache_find :: "u8 list \<Rightarrow> u8 \<Rightarrow> dns_cache \<Rightarrow> DnsCache option" where
  "cache_find name ty c = find (cache_match name ty) (c (dns_hash name))"

definition cache_add :: "DnsCache \<Rightarrow> dns_cache \<Rightarrow> dns_cache" where
  "cache_add dc c = (let h = dns_hash (dc_name dc) in c(h := dc # c h))"

text \<open>One second: static entries without the mark and entries whose time is over are removed from the chain.\<close>

definition cache_age :: "DnsCache \<Rightarrow> DnsCache option" where
  "cache_age dc =
     (if dc_static dc then if \<not> dc_marker dc then None else Some dc
      else let t = dc_ttl dc - 1 in if t \<le> 0 then None else Some (dc\<lparr>dc_ttl := t\<rparr>))"

definition cache_timer :: "dns_cache \<Rightarrow> dns_cache" where
  "cache_timer c = (\<lambda>h. List.map_filter cache_age (c h))"

definition cache_clear :: "dns_cache \<Rightarrow> dns_cache" where
  "cache_clear c = (\<lambda>_. [])"

text \<open>A name in packet format: every label behind its length.\<close>

fun enc_labels :: "u8 list \<Rightarrow> u8 list \<Rightarrow> u8 list" where
  "enc_labels cur [] = word_of_nat (length cur) # cur"
| "enc_labels cur (c # cs) =
     (if c \<noteq> 46 then enc_labels (cur @ [c]) cs else word_of_nat (length cur) # cur @ enc_labels [] cs)"

definition static_name :: "u8 list \<Rightarrow> u8 list" where
  "static_name name = cstr (enc_labels [] name)"

text \<open>The entry that is made static keeps its pointer to a CNAME packet, which is freed.\<close>

definition make_static :: "u32 \<Rightarrow> DnsCache \<Rightarrow> DnsCache" where
  "make_static ip dc = dc\<lparr>dc_flags := DNS_STATIC_FLAGS, dc_ttl := DNS_STATIC_TTL, dc_ip := ip, dc_static := True, dc_marker := True, dc_type := 1\<rparr>"

definition new_entry :: "u8 list \<Rightarrow> DnsCache" where
  "new_entry name = \<lparr>dc_ttl = 0, dc_ip = 0, dc_flags = 0, dc_static = False, dc_marker = False, dc_type = 0, dc_ipv6 = replicate 16 0,
     dc_cname = None, dc_name = name\<rparr>"

definition cache_add_static :: "bool \<Rightarrow> u8 list \<Rightarrow> u32 \<Rightarrow> dns_cache \<Rightarrow> dns_cache" where
  "cache_add_static malloc name ip c =
     (if name = [] then c
      else let rn = static_name name; h = dns_hash rn
           in case find_pos (cache_match rn 1) (c h) of
                Some i \<Rightarrow> c(h := upd_pos i (make_static ip) (c h))
              | None \<Rightarrow> if malloc then cache_add (make_static ip (new_entry rn)) c else c)"

record RcpIpHost =
  ih_valid :: bool
  ih_name :: "u8 list"
  ih_ip :: u32

definition clear_markers :: "dns_cache \<Rightarrow> dns_cache" where
  "clear_markers c = (\<lambda>h. map (\<lambda>dc. dc\<lparr>dc_marker := False\<rparr>) (c h))"

definition cache_update_static :: "bool \<Rightarrow> RcpIpHost list \<Rightarrow> dns_cache \<Rightarrow> dns_cache" where
  "cache_update_static malloc hosts c =
     fold (\<lambda>h c. cache_add_static malloc (ih_name h) (ih_ip h) c) (filter ih_valid hosts) (clear_markers c)"

section \<open>Requests\<close>

record DnsReq =
  rq_ttl :: int
  query_type :: u16
  client_port :: u16
  client_ip :: u32
  client_tid :: u16
  new_tid :: u16
  server_ip :: u32
  rq_socket :: nat
  rq_port :: u16
  query_name :: "u8 list"

definition DNS_MAX_REQ :: nat where [simp]: "DNS_MAX_REQ = 512"
definition MAX_REQ_TTL :: int where [simp]: "MAX_REQ_TTL = 10"

datatype dns_stat =
    Queries | Answers | CachedAnswers | RR u16 | ErrRateLimit | ErrDnsRx | ErrDnsTx | ErrMalformed | ErrUnknown | ErrNoServer | ErrRqTimeout

datatype dns_out =
    SCount dns_stat
  | SClear
  | SUpdateDns
  | SToClient u32 u16 "u8 list"
  | SToServer u32 nat "u8 list"

text \<open>What the system calls return: random numbers for transaction ids and ports, the socket of a request (0 if it cannot be opened), and
  whether packets are sent and memory is available.\<close>

record dns_env =
  de_random :: "nat \<Rightarrow> u16"
  de_port :: u16
  de_socket :: nat
  de_send :: bool
  de_malloc :: bool
  de_malloc_pkt :: bool

record dns_proc =
  dns_cache_ht :: dns_cache
  rq_active :: "DnsReq list"
  rq_inactive :: nat
  last_server :: nat
  rate_limit :: u16
  client_sock :: nat
  name_server1 :: u32
  name_server2 :: u32
  domain_name :: "u8 list"
  dns_server_on :: bool
  dns_rate_limit :: u16
  ip_host :: "RcpIpHost list"
  force_restart :: bool
  dns_trace :: "dns_out list"

definition dns_emit :: "dns_out list \<Rightarrow> dns_proc \<Rightarrow> dns_proc" where
  "dns_emit xs s = s\<lparr>dns_trace := dns_trace s @ xs\<rparr>"

definition rq_find :: "u16 \<Rightarrow> DnsReq list \<Rightarrow> nat option" where
  "rq_find tid rqs = find_pos (\<lambda>r. new_tid r = tid) rqs"

definition rq_add :: "dns_env \<Rightarrow> DnsReq \<Rightarrow> dns_proc \<Rightarrow> dns_proc" where
  "rq_add env r s =
     s\<lparr>rq_active := r\<lparr>rq_ttl := MAX_REQ_TTL, rq_port := (de_port env AND 0x7fff) + 10000, rq_socket := de_socket env\<rparr> # rq_active s\<rparr>"

text \<open>Removing a request from the active list and putting it into the inactive list.\<close>

definition rq_release :: "nat \<Rightarrow> dns_proc \<Rightarrow> dns_proc" where
  "rq_release i s = s\<lparr>rq_active := take i (rq_active s) @ drop (Suc i) (rq_active s), rq_inactive := Suc (rq_inactive s)\<rparr>"

definition rq_clear_all :: "dns_proc \<Rightarrow> dns_proc" where
  "rq_clear_all s = s\<lparr>rq_active := [], rq_inactive := rq_inactive s + length (rq_active s)\<rparr>"

definition rq_sock :: "nat \<Rightarrow> DnsReq list \<Rightarrow> bool" where
  "rq_sock sock rqs = list_ex (\<lambda>r. rq_socket r = sock) rqs"

definition rq_timer :: "dns_proc \<Rightarrow> dns_proc" where
  "rq_timer s =
     (let rqs = map (\<lambda>r. r\<lparr>rq_ttl := rq_ttl r - 1\<rparr>) (rq_active s); live = filter (\<lambda>r. \<not> rq_ttl r \<le> 0) rqs; n = length rqs - length live
      in dns_emit (replicate n (SCount ErrRqTimeout)) (s\<lparr>rq_active := live, rq_inactive := rq_inactive s + n\<rparr>))"

section \<open>Queries of clients\<close>

partial_function (option) get_new_tid :: "(nat \<Rightarrow> u16) \<Rightarrow> DnsReq list \<Rightarrow> nat \<Rightarrow> u16 option" where
  "get_new_tid rnd rqs n = (if rq_find (rnd n) rqs \<noteq> None then get_new_tid rnd rqs (n + 1) else Some (rnd n))"

definition is_unqualified :: "u8 list \<Rightarrow> u8 list option" where
  "is_unqualified name =
     (case dnspkt_get_real_name name of
        None \<Rightarrow> None
      | Some rn \<Rightarrow> if 46 \<in> set rn then None else Some rn)"

text \<open>The name that is looked up in the cache.\<close>

definition lookup_name :: "u8 list \<Rightarrow> u8 list \<Rightarrow> u8 list" where
  "lookup_name domain name =
     (case is_unqualified name of
        Some rn \<Rightarrow> if length rn + length domain > CLI_MAX_DOMAIN then cstr name else rn @ domain
      | None \<Rightarrow> cstr name)"

definition pick_server :: "dns_proc \<Rightarrow> u32 \<times> dns_proc" where
  "pick_server s =
     (if last_server s = 1
      then if name_server2 s \<noteq> 0 then (name_server2 s, s\<lparr>last_server := 2\<rparr>) else (name_server1 s, s)
      else if last_server s = 2
      then if name_server1 s \<noteq> 0 then (name_server1 s, s\<lparr>last_server := 1\<rparr>) else (name_server2 s, s)
      else (0, s))"

definition cached_type :: "u8 \<Rightarrow> bool" where
  "cached_type ty \<longleftrightarrow> ty = 1 \<or> ty = 28 \<or> ty = 5"

definition send_cached :: "dns_env \<Rightarrow> u32 \<Rightarrow> u16 \<Rightarrow> DnsCache \<Rightarrow> u16 \<Rightarrow> dns_proc \<Rightarrow> dns_proc" where
  "send_cached env ip port dc tid s =
     (case dnspkt_build dc tid of
        (out, len) \<Rightarrow>
          if len \<le> 12 then dns_emit [SCount ErrDnsTx] s
          else if \<not> de_send env then dns_emit [SCount ErrDnsTx] s
          else dns_emit [SToClient ip port (take len out), SCount Answers, SCount CachedAnswers] s)"

text \<open>A query that is not in the cache; \<open>None\<close> if no free transaction id is found.\<close>

definition forward_query :: "dns_env \<Rightarrow> u32 \<Rightarrow> u16 \<Rightarrow> u8 list \<Rightarrow> DnsInfo \<Rightarrow> u32 \<Rightarrow> dns_proc \<Rightarrow> dns_proc option" where
  "forward_query env ip port b k srv s =
     (let s = (if dns_rate_limit s \<noteq> 0 then s\<lparr>rate_limit := rate_limit s + 1\<rparr> else s)
      in if dns_rate_limit s \<noteq> 0 \<and> rate_limit s > dns_rate_limit s then Some (dns_emit [SCount ErrRateLimit] s)
         else (case get_new_tid (de_random env) (rq_active s) 0 of
                 None \<Rightarrow> None
               | Some tid \<Rightarrow>
                   if rq_inactive s = 0 then Some s
                   else (case dnspkt_get_real_name (dns_query_name k) of
                           None \<Rightarrow> None
                         | Some rn \<Rightarrow>
                             let r = \<lparr>rq_ttl = 0, query_type = ucast (dns_query_type k), client_port = port, client_ip = ip,
                                      client_tid = read_16 b 0, new_tid = tid, server_ip = srv, rq_socket = 0, rq_port = 0,
                                      query_name = take CLI_MAX_DOMAIN rn\<rparr>;
                                 s = rq_add env r (s\<lparr>rq_inactive := rq_inactive s - 1\<rparr>)
                             in Some (dns_emit [if de_send env then SToServer srv (de_socket env) (take (dns_len k) (set_tid tid b)) else SCount ErrDnsTx] s))))"

definition process_client :: "dns_env \<Rightarrow> u32 \<Rightarrow> u16 \<Rightarrow> u8 list \<Rightarrow> DnsInfo \<Rightarrow> dns_proc \<Rightarrow> dns_proc option" where
  "process_client env ip port b k s =
     (case pick_server (dns_emit [SCount Queries] s) of
        (srv, s) \<Rightarrow>
          if srv = 0 then Some (dns_emit [SCount ErrNoServer] s)
          else (case (if cached_type (dns_query_type k)
                      then cache_find (lookup_name (domain_name s) (dns_query_name k)) (dns_query_type k) (dns_cache_ht s) else None) of
                  Some dc \<Rightarrow> Some (send_cached env ip port dc (read_16 b 0) s)
                | None \<Rightarrow> forward_query env ip port b k srv s))"

section \<open>Responses of servers\<close>

text \<open>The entry for a response; the packet is stored with the transaction id of the client in it.\<close>

definition cache_entry :: "dns_env \<Rightarrow> u8 list \<Rightarrow> int \<Rightarrow> DnsInfo \<Rightarrow> DnsCache option" where
  "cache_entry env b ttl k =
     (if \<not> de_malloc env then None
      else let dc = (new_entry (cstr (dns_query_name k)))\<lparr>dc_flags := dns_flags k, dc_ttl := word_of_int ttl, dc_type := dns_query_type k\<rparr>
           in if dns_type k = 1 then Some (dc\<lparr>dc_ip := dns_address k\<rparr>)
              else if dns_type k = 28 then Some (dc\<lparr>dc_ipv6 := dns_address_v6 k\<rparr>)
              else if de_malloc_pkt env then Some (dc\<lparr>dc_cname := Some (b, dns_len k)\<rparr>)
              else None)"

definition store_response :: "dns_env \<Rightarrow> u8 list \<Rightarrow> DnsInfo \<Rightarrow> dns_proc \<Rightarrow> dns_proc" where
  "store_response env b k s =
     (if dns_error_code k \<noteq> 0 then s
      else if dns_ttl k < DNS_MIN_TTL then s
      else let ttl = (if dns_ttl k > DNS_MAX_TTL then DNS_MAX_TTL else dns_ttl k)
           in if dns_type k \<noteq> 1 \<and> dns_type k \<noteq> 28 \<and> dns_type k \<noteq> 5 then s
              else if cache_find (cstr (dns_query_name k)) (dns_query_type k) (dns_cache_ht s) \<noteq> None then s
              else (case cache_entry env b ttl k of None \<Rightarrow> s | Some dc \<Rightarrow> s\<lparr>dns_cache_ht := cache_add dc (dns_cache_ht s)\<rparr>))"

text \<open>A request that the response answers: the same transaction, server, type and name.\<close>

definition answers_request :: "u32 \<Rightarrow> u8 list \<Rightarrow> DnsInfo \<Rightarrow> DnsReq \<Rightarrow> bool" where
  "answers_request ip b k r \<longleftrightarrow>
     new_tid r = read_16 b 0 \<and> ip = server_ip r \<and> query_type r = ucast (dns_query_type k) \<and> dnspkt_get_real_name (dns_query_name k) = Some (query_name r)"

definition process_server :: "dns_env \<Rightarrow> u32 \<Rightarrow> u8 list \<Rightarrow> DnsInfo \<Rightarrow> dns_proc \<Rightarrow> dns_proc" where
  "process_server env ip b k s =
     (case rq_find (read_16 b 0) (rq_active s) of
        None \<Rightarrow> dns_emit [SCount ErrUnknown] s
      | Some i \<Rightarrow>
          let r = rq_active s ! i
          in if \<not> answers_request ip b k r then dns_emit [SCount ErrUnknown] s
             else let b = set_tid (client_tid r) b
                  in if \<not> de_send env then dns_emit [SCount ErrDnsTx] s
                     else store_response env b k
                            (rq_release i (dns_emit [SToClient (client_ip r) (client_port r) (take (dns_len k) b), SCount Answers] s)))"

section \<open>Reception and the timer\<close>

text \<open>The parser counts the type of the first answer once it has seen the class of it.\<close>

definition rr_stats :: "DnsInfo \<Rightarrow> dns_out list" where
  "rr_stats k = (if dns_class k = 1 \<and> dns_type k \<in> {1, 5, 28, 12, 15} then [SCount (RR (dns_type k))] else [])"

definition rx_packet :: "dns_env \<Rightarrow> nat \<Rightarrow> u32 \<Rightarrow> u16 \<Rightarrow> u8 list \<Rightarrow> nat \<Rightarrow> DnsInfo \<Rightarrow> dns_proc \<Rightarrow> dns_proc option" where
  "rx_packet env sock src port b len junk s =
     (case dnspkt_verify b len junk of
        (bad, k) \<Rightarrow>
          let s = dns_emit (rr_stats k) s
          in if bad then Some (dns_emit [SCount ErrMalformed] s)
             else if (name_server1 s \<noteq> 0 \<and> name_server1 s = src) \<or> (name_server2 s \<noteq> 0 \<and> name_server2 s = src)
             then if \<not> rq_sock sock (rq_active s) then Some (dns_emit [SCount ErrUnknown] s)
                  else Some (process_server env src b k s)
             else if sock \<noteq> client_sock s then Some (dns_emit [SCount ErrUnknown] s)
             else process_client env src port b k s)"

definition dns_tick :: "dns_proc \<Rightarrow> dns_proc" where
  "dns_tick s = (rq_timer (s\<lparr>dns_cache_ht := cache_timer (dns_cache_ht s)\<rparr>))\<lparr>rate_limit := 0\<rparr>"

section \<open>Commands\<close>

text \<open>The rate limit is the number that \<open>sscanf\<close> has read.\<close>

definition cliIpDnsServer :: "bool \<Rightarrow> u16 option \<Rightarrow> dns_proc \<Rightarrow> dns_proc" where
  "cliIpDnsServer no rl s =
     (let s = (if no then s\<lparr>dns_server_on := False, dns_rate_limit := 0\<rparr>
               else s\<lparr>dns_server_on := True, dns_rate_limit := (case rl of None \<Rightarrow> dns_rate_limit s | Some n \<Rightarrow> n)\<rparr>)
      in dns_emit [SUpdateDns]
           (if client_sock s = 0 \<and> rq_active s = [] \<and> dns_server_on s then s\<lparr>force_restart := True\<rparr>
            else if client_sock s \<noteq> 0 \<and> rq_active s \<noteq> [] \<and> \<not> dns_server_on s then rq_clear_all (s\<lparr>client_sock := 0\<rparr>)
            else s))"

definition cliClearIpHost :: "bool \<Rightarrow> dns_proc \<Rightarrow> dns_proc" where
  "cliClearIpHost malloc s = s\<lparr>dns_cache_ht := cache_update_static malloc (ip_host s) (cache_clear (dns_cache_ht s))\<rparr>"

definition cliClearIpDnsStats :: "dns_proc \<Rightarrow> dns_proc" where
  "cliClearIpDnsStats s = dns_emit [SClear] s"

text \<open>The message about changed hosts.\<close>

definition dns_update :: "bool \<Rightarrow> RcpIpHost list \<Rightarrow> dns_proc \<Rightarrow> dns_proc" where
  "dns_update malloc hosts s = s\<lparr>ip_host := hosts, dns_cache_ht := cache_update_static malloc hosts (dns_cache_ht s)\<rparr>"

datatype dns_event =
    NPacket dns_env nat u32 u16 "u8 list" nat DnsInfo
  | NTick
  | NUpdate bool "RcpIpHost list"
  | NServer bool "u16 option"
  | NClearHost bool
  | NClearStats
  | NRxError

fun dns_step :: "dns_event \<Rightarrow> dns_proc \<Rightarrow> dns_proc option" where
  "dns_step (NPacket env sock src port b len junk) s = rx_packet env sock src port b len junk s"
| "dns_step NTick s = Some (dns_tick s)"
| "dns_step (NUpdate malloc hosts) s = Some (dns_update malloc hosts s)"
| "dns_step (NServer no rl) s = Some (cliIpDnsServer no rl s)"
| "dns_step (NClearHost malloc) s = Some (cliClearIpHost malloc s)"
| "dns_step NClearStats s = Some (cliClearIpDnsStats s)"
| "dns_step NRxError s = Some (dns_emit [SCount ErrDnsRx] s)"

end
