(* ===== verification/Dns_Inv.thy ===== *)
theory Dns_Inv
  imports Dns_Proxy
begin

text \<open>
  Invariants of the DNS proxy: the chains of the cache, the two lists of requests, and names that the parser
  has accepted.
\<close>

section \<open>Accepted names\<close>

lemma name_loop_real:
  assumes "name_loop b p len rv = n" "n \<noteq> 0" "p \<le> len" "len < length b" "tot \<le> rv"
  shows "rv < n \<and> n \<le> 63 \<and> p + (n - rv) \<le> Suc len \<and> b ! (p + (n - rv) - 1) = 0 \<and> (\<exists>ls. real_labels tot (take (n - 1 - rv) (drop p b)) = Some ls)"
  using assms
proof (induction b p len rv arbitrary: tot rule: name_loop.induct)
  case (1 b p len rv)
  note eq = name_loop.simps [of b p len rv]
  show ?case
  proof (cases "b ! p = 0")
    case True
    then have "n = rv + 1" "rv + 1 \<le> 63" using "1.prems"(1,2) eq by (auto split: if_splits)
    then show ?thesis using True "1.prems"(3,4) by auto
  next
    case False
    let ?l = "unat (b ! p)"
    have c: "b ! p AND 0xc0 = 0" "p + ?l + 1 \<le> len" "name_loop b (p + ?l + 1) len (rv + ?l + 1) = n"
      using False "1.prems"(1,2) eq by (auto simp: chk_pkt_len_def split: if_splits)
    have l: "?l \<noteq> 0" using False by (simp add: unat_eq_zero)
    have "rv + ?l + 1 < n \<and> n \<le> 63 \<and> p + ?l + 1 + (n - (rv + ?l + 1)) \<le> Suc len \<and> b ! (p + ?l + 1 + (n - (rv + ?l + 1)) - 1) = 0 \<and>
        (\<exists>ls. real_labels (tot + ?l) (take (n - 1 - (rv + ?l + 1)) (drop (p + ?l + 1) b)) = Some ls)"
      by (rule "1.IH") (use False c "1.prems" in \<open>auto simp: chk_pkt_len_def\<close>)
    then obtain ls where ih: "rv + ?l + 1 < n" "n \<le> 63" "p + ?l + 1 + (n - (rv + ?l + 1)) \<le> Suc len" "b ! (p + ?l + 1 + (n - (rv + ?l + 1)) - 1) = 0"
      "real_labels (tot + ?l) (take (n - 1 - (rv + ?l + 1)) (drop (p + ?l + 1) b)) = Some ls" by blast
    have d: "drop p b = b ! p # drop (Suc p) b" using "1.prems"(3,4) by (intro Cons_nth_drop_Suc [symmetric]) simp
    have "n - 1 - rv = Suc (n - 2 - rv)" using ih(1) by simp
    then have "take (n - 1 - rv) (drop p b) = b ! p # take (n - 2 - rv) (drop (Suc p) b)" unfolding d by (simp only: take_Suc_Cons)
    moreover have "drop ?l (take (n - 2 - rv) (drop (Suc p) b)) = take (n - 1 - (rv + ?l + 1)) (drop (p + ?l + 1) b)"
      using ih(1) by (simp add: drop_take add_ac)
    moreover have "tot + ?l < 63" using ih(1,2) "1.prems"(5) by linarith
    ultimately have "\<exists>ls. real_labels tot (take (n - 1 - rv) (drop p b)) = Some ls" using ih(5) False by simp
    moreover have "p + ?l + 1 + (n - (rv + ?l + 1)) = p + (n - rv)" using ih(1) by simp
    ultimately show ?thesis using ih by simp
  qed
qed

lemma verified_name:
  assumes "dnspkt_verify b len junk = (False, k)" "len < length b"
  shows "\<exists>rn. dnspkt_get_real_name (dns_query_name k) = Some rn"
proof -
  have name: "dns_query_name k' = dns_query_name k0" if "verify_answer b p len k0 = (r, k')" for p k0 r k'
    using that by (auto simp: verify_answer_def Let_def split: prod.splits if_splits)
  have "12 \<le> len" using assms(1) by (auto simp: dnspkt_verify_def Let_def split: if_splits)
  then have "\<exists>ls. real_labels 0 (take (get_name_len b 12 len - 1) (drop 12 b)) = Some ls" if "get_name_len b 12 len \<noteq> 0"
    using name_loop_real [of b 12 len 0 "get_name_len b 12 len" 0] that assms(2) by (simp add: get_name_len_def)
  moreover have "dns_query_name k = [] \<or> (dns_query_name k = take (get_name_len b 12 len - 1) (drop 12 b) \<and> get_name_len b 12 len \<noteq> 0)"
    using assms(1) by (auto simp: dnspkt_verify_def Let_def split: if_splits dest!: name)
  ultimately show ?thesis by (auto simp: dnspkt_get_real_name_def)
qed

section \<open>The cache\<close>

definition cache_key :: "DnsCache \<Rightarrow> u8 list \<times> u8" where
  "cache_key dc = (dc_name dc, dc_type dc)"

definition entry_ok :: "DnsCache \<Rightarrow> bool" where
  "entry_ok dc \<longleftrightarrow> (if dc_static dc then dc_ttl dc = DNS_STATIC_TTL \<and> dc_type dc = 1 else 0 < dc_ttl dc \<and> dc_ttl dc \<le> 900)"

definition cache_ok :: "dns_cache \<Rightarrow> bool" where
  "cache_ok c \<longleftrightarrow> (\<forall>h. distinct (map cache_key (c h)) \<and> (\<forall>dc \<in> set (c h). dns_hash (dc_name dc) = h \<and> entry_ok dc))"

definition cached :: "DnsCache \<Rightarrow> dns_cache \<Rightarrow> bool" where
  "cached dc c \<longleftrightarrow> dc \<in> set (c (dns_hash (dc_name dc)))"

lemma cache_match_key: "cache_match name ty dc \<longleftrightarrow> cache_key dc = (name, ty)"
  by (auto simp: cache_match_def cache_key_def)

lemma cache_find_iff:
  assumes "cache_ok c"
  shows "cache_find name ty c = Some dc \<longleftrightarrow> cached dc c \<and> dc_name dc = name \<and> dc_type dc = ty"
proof -
  have d: "distinct (map cache_key (c (dns_hash name)))" using assms by (simp add: cache_ok_def)
  have "find (\<lambda>dc. cache_key dc = k) xs = Some dc \<longleftrightarrow> dc \<in> set xs \<and> cache_key dc = k" if "distinct (map cache_key xs)" for xs k
    using that by (induction xs) (auto simp: image_iff)
  from this [OF d, of "(name, ty)"] show ?thesis
    by (auto simp: cache_find_def cached_def cache_match_key [abs_def] cache_key_def)
qed

lemma cache_find_None: "cache_ok c \<Longrightarrow> cache_find name ty c = None \<longleftrightarrow> (\<forall>dc. cached dc c \<longrightarrow> \<not> (dc_name dc = name \<and> dc_type dc = ty))"
  using cache_find_iff [of c name ty] by (cases "cache_find name ty c") auto

lemma cache_add_ok:
  assumes "cache_ok c" "entry_ok dc" "cache_find (dc_name dc) (dc_type dc) c = None"
  shows "cache_ok (cache_add dc c)" "cached x (cache_add dc c) \<longleftrightarrow> x = dc \<or> cached x c"
proof -
  have "cache_key dc \<notin> cache_key ` set (c (dns_hash (dc_name dc)))"
    using assms(3) by (auto simp: cache_find_def find_None_iff cache_match_key cache_key_def)
  then show "cache_ok (cache_add dc c)" using assms(1,2) by (auto simp: cache_ok_def cache_add_def Let_def)
  show "cached x (cache_add dc c) \<longleftrightarrow> x = dc \<or> cached x c" by (auto simp: cached_def cache_add_def Let_def)
qed

lemma cache_age_key: "cache_age dc = Some dc' \<Longrightarrow> cache_key dc' = cache_key dc"
  by (auto simp: cache_age_def cache_key_def Let_def split: if_splits)

lemma cache_age_ok:
  assumes "cache_age dc = Some dc'" "entry_ok dc"
  shows "entry_ok dc'"
proof (cases "dc_static dc")
  case False
  then have t: "dc' = dc\<lparr>dc_ttl := dc_ttl dc - 1\<rparr>" "dc_ttl dc - 1 \<noteq> 0" "0 < dc_ttl dc" "dc_ttl dc \<le> 900"
    using assms by (auto simp: cache_age_def entry_ok_def Let_def split: if_splits)
  have "unat (dc_ttl dc - 1) = unat (dc_ttl dc) - 1" using t(3) by (simp add: unat_minus_one word_neq_0_conv)
  then have "dc_ttl dc - 1 \<le> 900" using t(4) by (simp add: word_le_nat_alt)
  moreover have "0 < dc_ttl dc - 1" using t(2) by (metis word_gt_0)
  ultimately show ?thesis using t(1) False by (simp add: entry_ok_def)
qed (use assms in \<open>auto simp: cache_age_def split: if_splits\<close>)

lemma map_filter_keys:
  assumes "\<And>x y. f x = Some y \<Longrightarrow> g y = g x" "distinct (map g xs)"
  shows "distinct (map g (List.map_filter f xs))" "g ` set (List.map_filter f xs) \<subseteq> g ` set xs"
  using assms(2) by (induction xs) (auto simp: List.map_filter_simps assms(1) split: option.splits)

lemma set_map_filter: "set (List.map_filter f xs) = {y. \<exists>x \<in> set xs. f x = Some y}"
  by (induction xs) (auto simp: List.map_filter_simps split: option.splits)

lemma cache_timer_ok:
  assumes "cache_ok c"
  shows "cache_ok (cache_timer c)" "cached y (cache_timer c) \<longleftrightarrow> (\<exists>x. cached x c \<and> cache_age x = Some y)"
proof -
  have "dc_name y = dc_name x \<and> dc_type y = dc_type x" if "cache_age x = Some y" for x y using cache_age_key [OF that] by (simp add: cache_key_def)
  then show "cached y (cache_timer c) \<longleftrightarrow> (\<exists>x. cached x c \<and> cache_age x = Some y)"
    using assms by (auto simp: cached_def cache_timer_def set_map_filter)
  show "cache_ok (cache_timer c)"
    unfolding cache_ok_def cache_timer_def
    using assms map_filter_keys(1) [of cache_age cache_key, OF cache_age_key] cache_age_ok cache_age_key
    by (fastforce simp: cache_ok_def set_map_filter cache_key_def)
qed

section \<open>Static entries\<close>

lemma upd_pos_distinct_key:
  assumes "distinct (map g xs)" "\<And>x. i < length xs \<Longrightarrow> g (f (xs ! i)) = g (xs ! i)"
  shows "map g (upd_pos i f xs) = map g xs"
  using assms by (intro nth_equalityI) (auto simp: nth_upd_pos)

lemma make_static_ok [simp]: "entry_ok (make_static ip dc)" "dc_name (make_static ip dc) = dc_name dc" "dc_type (make_static ip dc) = 1"
  "dc_static (make_static ip dc)" "dc_marker (make_static ip dc)" "dc_ip (make_static ip dc) = ip"
  by (simp_all add: make_static_def entry_ok_def)

lemma cache_add_static_ok:
  assumes "cache_ok c"
  shows "cache_ok (cache_add_static malloc name ip c)"
proof -
  let ?rn = "static_name name" and ?h = "dns_hash (static_name name)"
  show ?thesis
  proof (cases "find_pos (cache_match ?rn 1) (c ?h)")
    case None
    then have "cache_find ?rn 1 c = None" by (auto simp: cache_find_def find_None_iff find_pos_None)
    then have "cache_ok (cache_add (make_static ip (new_entry ?rn)) c)"
      using cache_add_ok(1) [OF assms, of "make_static ip (new_entry ?rn)"] by (simp add: new_entry_def)
    then show ?thesis using assms None by (simp add: cache_add_static_def Let_def)
  next
    case (Some i)
    let ?xs = "upd_pos i (make_static ip) (c ?h)"
    have i: "i < length (c ?h)" "cache_key (c ?h ! i) = (?rn, 1)" using find_pos_Some [OF Some] by (simp_all add: cache_match_key)
    have "map cache_key ?xs = map cache_key (c ?h)"
      using assms i by (intro upd_pos_distinct_key) (auto simp: cache_ok_def cache_key_def)
    moreover have "\<forall>dc \<in> set ?xs. dns_hash (dc_name dc) = ?h \<and> entry_ok dc"
    proof
      fix dc assume "dc \<in> set ?xs"
      then have "dc \<in> set (c ?h) \<or> dc = make_static ip (c ?h ! i)"
        using i(1) by (auto simp: upd_pos_def dest: set_update_subset_insert [THEN subsetD])
      moreover have "c ?h ! i \<in> set (c ?h)" using i(1) by simp
      ultimately show "dns_hash (dc_name dc) = ?h \<and> entry_ok dc" using assms unfolding cache_ok_def by auto
    qed
    ultimately show ?thesis using assms Some by (simp add: cache_add_static_def Let_def cache_ok_def)
  qed
qed

lemma unmark [simp]: "cache_key (dc\<lparr>dc_marker := m\<rparr>) = cache_key dc" "entry_ok (dc\<lparr>dc_marker := m\<rparr>) = entry_ok dc"
  by (simp_all add: cache_key_def entry_ok_def)

lemma clear_markers_ok: "cache_ok c \<Longrightarrow> cache_ok (clear_markers c)"
  by (auto simp: cache_ok_def clear_markers_def o_def)

lemma cache_update_static_ok: "cache_ok c \<Longrightarrow> cache_ok (cache_update_static malloc hosts c)"
proof -
  have "cache_ok c \<Longrightarrow> cache_ok (fold (\<lambda>h c. cache_add_static malloc (ih_name h) (ih_ip h) c) hs c)" for hs :: "RcpIpHost list" and c
    by (induction hs arbitrary: c) (auto intro: cache_add_static_ok)
  then show "cache_ok c \<Longrightarrow> ?thesis" by (simp add: cache_update_static_def clear_markers_ok)
qed

lemma cache_clear_ok: "cache_ok (cache_clear c)"
  by (simp add: cache_ok_def cache_clear_def)

end
