(* ===== verification/Dns_Props.thy ===== *)
theory Dns_Props
  imports Dns_Inv
begin

text \<open>
  The DNS proxy as a whole: the invariant of the process, what an answer of a server has to match, answers out of the cache,
  their life time, and the static hosts.
\<close>

section \<open>Transaction ids\<close>

lemma get_new_tid_free: "get_new_tid rnd rqs n = Some t \<Longrightarrow> rq_find t rqs = None"
  by (rule get_new_tid.raw_induct [where P = "\<lambda>rnd rqs n t. rq_find t rqs = None", rotated]) (auto split: if_splits)

lemma get_new_tid_returns: "rq_find (rnd (n + d)) rqs = None \<Longrightarrow> \<exists>t. get_new_tid rnd rqs n = Some t"
proof (induction d arbitrary: n)
  case (Suc d)
  then show ?case by (subst get_new_tid.simps) (use Suc.IH [of "n + 1"] Suc.prems in auto)
qed (subst get_new_tid.simps, simp)

text \<open>The random numbers take more values than there are requests.\<close>

definition random_ok :: "dns_env \<Rightarrow> bool" where
  "random_ok env \<longleftrightarrow> DNS_MAX_REQ < card (range (de_random env))"

lemma new_tid_exists:
  assumes "random_ok env" "length rqs \<le> DNS_MAX_REQ"
  shows "\<exists>t. get_new_tid (de_random env) rqs 0 = Some t"
proof -
  have "card (new_tid ` set rqs) \<le> DNS_MAX_REQ" using assms(2) card_image_le [of "set rqs" new_tid] card_length [of rqs] by simp
  then have "\<not> range (de_random env) \<subseteq> new_tid ` set rqs" using assms(1) card_mono [of "new_tid ` set rqs" "range (de_random env)"] by (auto simp: random_ok_def)
  then obtain n where "de_random env n \<notin> new_tid ` set rqs" by blast
  then have "rq_find (de_random env (0 + n)) rqs = None" by (force simp: rq_find_def find_pos_None)
  then show ?thesis by (rule get_new_tid_returns)
qed

section \<open>The invariant\<close>

definition dns_ok :: "dns_proc \<Rightarrow> bool" where
  "dns_ok s \<longleftrightarrow> cache_ok (dns_cache_ht s) \<and> length (rq_active s) + rq_inactive s = DNS_MAX_REQ \<and> distinct (map new_tid (rq_active s)) \<and>
     list_all (\<lambda>r. 0 < rq_ttl r \<and> rq_ttl r \<le> MAX_REQ_TTL) (rq_active s)"

lemma dns_emit_sel [simp]: "dns_cache_ht (dns_emit xs s) = dns_cache_ht s" "rq_active (dns_emit xs s) = rq_active s" "rq_inactive (dns_emit xs s) = rq_inactive s"
  "name_server1 (dns_emit xs s) = name_server1 s" "name_server2 (dns_emit xs s) = name_server2 s" "client_sock (dns_emit xs s) = client_sock s"
  "domain_name (dns_emit xs s) = domain_name s" "dns_trace (dns_emit xs s) = dns_trace s @ xs" "last_server (dns_emit xs s) = last_server s"
  "dns_rate_limit (dns_emit xs s) = dns_rate_limit s" "rate_limit (dns_emit xs s) = rate_limit s"
  by (simp_all add: dns_emit_def)

lemma dns_ok_fields [simp]: "dns_ok (dns_emit xs s) = dns_ok s" "dns_ok (s\<lparr>last_server := n\<rparr>) = dns_ok s" "dns_ok (s\<lparr>rate_limit := r\<rparr>) = dns_ok s"
  "dns_ok (s\<lparr>client_sock := k\<rparr>) = dns_ok s" "dns_ok (s\<lparr>force_restart := f\<rparr>) = dns_ok s" "dns_ok (s\<lparr>dns_server_on := d, dns_rate_limit := r\<rparr>) = dns_ok s"
  "dns_ok (s\<lparr>dns_server_on := d\<rparr>) = dns_ok s" "dns_ok (s\<lparr>dns_rate_limit := r\<rparr>) = dns_ok s" "dns_ok (s\<lparr>ip_host := hs\<rparr>) = dns_ok s"
  by (simp_all add: dns_ok_def)

lemma dns_ok_cache: "dns_ok s \<Longrightarrow> cache_ok c \<Longrightarrow> dns_ok (s\<lparr>dns_cache_ht := c\<rparr>)"
  by (simp add: dns_ok_def)

lemma pick_server_sel:
  assumes "pick_server s = (srv, s')"
  shows "dns_ok s' = dns_ok s" "dns_cache_ht s' = dns_cache_ht s" "rq_active s' = rq_active s" "dns_trace s' = dns_trace s" "domain_name s' = domain_name s"
  using assms by (auto simp: pick_server_def split: if_splits)

lemma rq_timer_ok: "dns_ok s \<Longrightarrow> dns_ok (rq_timer s)"
proof -
  assume ok: "dns_ok s"
  let ?rqs = "map (\<lambda>r. r\<lparr>rq_ttl := rq_ttl r - 1\<rparr>) (rq_active s)"
  define live where "live = filter (\<lambda>r. \<not> rq_ttl r \<le> 0) ?rqs"
  have "distinct (map new_tid ?rqs)" using ok by (simp add: dns_ok_def o_def)
  then have "distinct (map new_tid live)" unfolding live_def by (rule distinct_map_filter)
  moreover have "length live \<le> length (rq_active s)" using length_filter_le [of _ ?rqs] by (simp add: live_def)
  moreover have "list_all (\<lambda>r. 0 < rq_ttl r \<and> rq_ttl r \<le> MAX_REQ_TTL) live" using ok by (auto simp: live_def dns_ok_def list_all_iff)
  moreover have "\<exists>xs. rq_timer s = dns_emit xs (s\<lparr>rq_active := live, rq_inactive := rq_inactive s + (length (rq_active s) - length live)\<rparr>)"
    by (auto simp: rq_timer_def Let_def live_def)
  ultimately show ?thesis using ok by (auto simp: dns_ok_def)
qed

lemma rq_release_ok:
  assumes "dns_ok s" "i < length (rq_active s)"
  shows "dns_ok (rq_release i s)"
proof -
  let ?xs = "rq_active s"
  have "distinct (map new_tid (take i ?xs @ drop (Suc i) ?xs))"
    using assms distinct_take [of "map new_tid ?xs" i] distinct_drop [of "map new_tid ?xs" "Suc i"]
      set_take_disj_set_drop_if_distinct [of "map new_tid ?xs" i "Suc i"]
    by (simp add: dns_ok_def take_map drop_map)
  then show ?thesis using assms by (auto simp: rq_release_def dns_ok_def list_all_iff dest: in_set_takeD in_set_dropD)
qed

lemma store_response_ok:
  assumes "dns_ok s"
  shows "dns_ok (store_response env b k s)"
proof (cases "store_response env b k s = s")
  case False
  let ?ttl = "if dns_ttl k > DNS_MAX_TTL then DNS_MAX_TTL else dns_ttl k"
  obtain dc where dc: "store_response env b k s = s\<lparr>dns_cache_ht := cache_add dc (dns_cache_ht s)\<rparr>" "cache_entry env b ?ttl k = Some dc"
    "DNS_MIN_TTL \<le> dns_ttl k" "cache_find (cstr (dns_query_name k)) (dns_query_type k) (dns_cache_ht s) = None"
    using False by (auto simp: store_response_def Let_def split: if_splits option.splits)
  have f: "dc_name dc = cstr (dns_query_name k)" "dc_type dc = dns_query_type k" "\<not> dc_static dc" "dc_ttl dc = word_of_int ?ttl"
    using dc(2) by (auto simp: cache_entry_def new_entry_def Let_def split: if_splits)
  have t: "10 \<le> ?ttl" "?ttl \<le> 900" using dc(3) by auto
  then have "uint (word_of_int ?ttl :: u32) = ?ttl" by (simp add: uint_word_of_int take_bit_int_eq_self)
  then have "0 < dc_ttl dc" "dc_ttl dc \<le> 900" unfolding f(4) using t by (simp_all add: word_less_def word_le_def)
  then have "cache_ok (cache_add dc (dns_cache_ht s))"
    using cache_add_ok(1) [of "dns_cache_ht s" dc] assms dc(4) f by (simp add: entry_ok_def dns_ok_def)
  then show ?thesis using assms dc(1) by (simp add: dns_ok_cache)
qed (use assms in simp)

lemma process_server_ok: "dns_ok s \<Longrightarrow> dns_ok (process_server env ip b k s)"
  by (auto simp: process_server_def Let_def rq_find_def split: option.split intro!: store_response_ok rq_release_ok)

lemma forward_query_ok:
  assumes "dns_ok s" "random_ok env" "dnspkt_get_real_name (dns_query_name k) = Some rn"
  shows "\<exists>s'. forward_query env ip port b k srv s = Some s' \<and> dns_ok s'"
proof -
  let ?s = "if dns_rate_limit s \<noteq> 0 then s\<lparr>rate_limit := rate_limit s + 1\<rparr> else s"
  have s: "dns_ok ?s" "rq_active ?s = rq_active s" "rq_inactive ?s = rq_inactive s" using assms(1) by simp_all
  obtain t where t: "get_new_tid (de_random env) (rq_active s) 0 = Some t"
    using new_tid_exists [OF assms(2), of "rq_active s"] assms(1) by (auto simp: dns_ok_def)
  have "t \<notin> new_tid ` set (rq_active s)" using get_new_tid_free [OF t] by (auto simp: rq_find_def find_pos_None)
  then have "dns_ok (rq_add env r (?s\<lparr>rq_inactive := rq_inactive ?s - 1\<rparr>))" if "new_tid r = t" "rq_inactive s \<noteq> 0" for r
    using s(1) that by (auto simp: dns_ok_def rq_add_def)
  then show ?thesis using assms(1,3) t s unfolding forward_query_def Let_def by auto
qed

lemma process_client_ok:
  assumes "dns_ok s" "random_ok env" "dnspkt_get_real_name (dns_query_name k) = Some rn"
  shows "\<exists>s'. process_client env ip port b k s = Some s' \<and> dns_ok s'"
proof (cases "pick_server (dns_emit [SCount Queries] s)")
  case (Pair srv s1)
  have "dns_ok s1" using pick_server_sel(1) [OF Pair] assms(1) by simp
  then show ?thesis using Pair forward_query_ok [OF _ assms(2,3)]
    by (auto simp: process_client_def send_cached_def split: option.split prod.split)
qed

text \<open>Packets that fit into the 1500 bytes of the buffer with at least one byte behind the data, and random numbers.\<close>

fun dns_event_ok :: "dns_event \<Rightarrow> bool" where
  "dns_event_ok (NPacket env sock src port b len junk) = (len \<le> 1500 \<and> len < length b \<and> random_ok env)"
| "dns_event_ok _ = True"

lemma dns_step_ok:
  assumes "dns_ok s" "dns_event_ok e"
  shows "\<exists>s'. dns_step e s = Some s' \<and> dns_ok s'"
proof (cases e)
  case (NPacket env sock src port b len junk)
  obtain bad k where k: "dnspkt_verify b len junk = (bad, k)" by fastforce
  have "\<exists>rn. dnspkt_get_real_name (dns_query_name k) = Some rn" if "\<not> bad" using verified_name [of b len junk k] k that assms(2) NPacket by simp
  then show ?thesis using NPacket k assms process_server_ok process_client_ok [of _ env k _ src port b]
    by (cases bad) (auto simp: rx_packet_def Let_def)
next
  case NTick
  have "cache_ok (dns_cache_ht s)" using assms(1) by (simp add: dns_ok_def)
  then have "dns_ok (rq_timer (s\<lparr>dns_cache_ht := cache_timer (dns_cache_ht s)\<rparr>))" using assms(1) cache_timer_ok(1) by (intro rq_timer_ok dns_ok_cache)
  then show ?thesis using NTick by (simp add: dns_tick_def)
next
  case (NUpdate malloc hosts)
  then show ?thesis using assms(1) cache_update_static_ok by (auto simp: dns_update_def dns_ok_def)
next
  case (NServer no rl)
  have "dns_ok (rq_clear_all s)" if "dns_ok s" for s using that by (simp add: rq_clear_all_def dns_ok_def)
  then show ?thesis using NServer assms(1) by (auto simp: cliIpDnsServer_def Let_def)
next
  case (NClearHost malloc)
  then show ?thesis using assms(1) cache_update_static_ok [OF cache_clear_ok] by (simp add: cliClearIpHost_def dns_ok_def)
qed (use assms in \<open>simp_all add: cliClearIpDnsStats_def\<close>)

definition dns_run :: "dns_event list \<Rightarrow> dns_proc \<Rightarrow> dns_proc option" where
  "dns_run es s = fold (\<lambda>e s. Option.bind s (dns_step e)) es (Some s)"

interpretation dns: step_system "\<lambda>e s. Option.bind s (dns_step e)" "\<lambda>s. \<exists>t. s = Some t \<and> dns_ok t" dns_event_ok
  by unfold_locales (use dns_step_ok in auto)


section \<open>Responses\<close>

text \<open>C12: nothing but the answer to an outstanding request changes the cache: if a packet changes it, the packet comes from a configured name server, and a request
  with its transaction id is waiting that was sent to this server for the same name and type. The new entry is the only change, and it is for this name and type.\<close>

theorem dns_cache_only_by_answer:
  assumes ok: "dns_ok s" and rx: "rx_packet env sock src port b len junk s = Some s'" and ch: "dns_cache_ht s' \<noteq> dns_cache_ht s"
  shows "\<exists>k r dc. dnspkt_verify b len junk = (False, k) \<and> src \<in> {name_server1 s, name_server2 s} \<and> r \<in> set (rq_active s) \<and>
    new_tid r = read_16 b 0 \<and> server_ip r = src \<and> query_type r = ucast (dns_query_type k) \<and> dnspkt_get_real_name (dns_query_name k) = Some (query_name r) \<and>
    dc_name dc = cstr (dns_query_name k) \<and> dc_type dc = dns_query_type k \<and> (\<forall>x. cached x (dns_cache_ht s') \<longleftrightarrow> x = dc \<or> cached x (dns_cache_ht s))"
proof -
  obtain bad k where k: "dnspkt_verify b len junk = (bad, k)" by fastforce
  have client: "dns_cache_ht t = dns_cache_ht s" if "process_client env src port b k (dns_emit xs s) = Some t" for t xs
  proof -
    obtain srv s1 where p: "pick_server (dns_emit [SCount Queries] (dns_emit xs s)) = (srv, s1)" by fastforce
    have "dns_cache_ht s1 = dns_cache_ht s" using pick_server_sel(2) [OF p] by simp
    then show ?thesis using that p
      by (auto simp: process_client_def send_cached_def forward_query_def Let_def rq_add_def split: if_splits option.splits prod.splits)
  qed
  have srv: "\<not> bad" "src \<in> {name_server1 s, name_server2 s}" "s' = process_server env src b k (dns_emit (rr_stats k) s)"
    using rx ch k client by (auto simp: rx_packet_def Let_def split: if_splits)
  let ?s = "dns_emit (rr_stats k) s"
  obtain i where i: "rq_find (read_16 b 0) (rq_active s) = Some i" "answers_request src b k (rq_active s ! i)" "de_send env"
    using srv(3) ch by (auto simp: process_server_def Let_def split: option.splits if_splits)
  let ?r = "rq_active s ! i"
  obtain s1 where s1: "s' = store_response env (set_tid (client_tid ?r) b) k s1" "dns_cache_ht s1 = dns_cache_ht s"
    using srv(3) i by (auto simp: process_server_def Let_def rq_release_def)
  then obtain dc ttl where dc: "dns_cache_ht s' = cache_add dc (dns_cache_ht s)" "cache_entry env (set_tid (client_tid ?r) b) ttl k = Some dc"
    using ch by (auto simp: store_response_def Let_def split: if_splits option.splits)
  have f: "dc_name dc = cstr (dns_query_name k)" "dc_type dc = dns_query_type k"
    using dc(2) by (auto simp: cache_entry_def new_entry_def Let_def split: if_splits)
  have "cached x (dns_cache_ht s') \<longleftrightarrow> x = dc \<or> cached x (dns_cache_ht s)" for x
    unfolding dc(1) by (auto simp: cached_def cache_add_def Let_def)
  moreover have "?r \<in> set (rq_active s)" using i(1) by (auto simp: rq_find_def)
  ultimately show ?thesis using k srv(1,2) i(2) f by (intro exI [of _ k] exI [of _ ?r] exI [of _ dc]) (auto simp: answers_request_def)
qed

section \<open>Answers out of the cache\<close>

text \<open>Names in packet format, with labels of at most 63 bytes that do not contain 0, of at most 63 bytes in all.\<close>

fun labels_ok :: "u8 list list \<Rightarrow> bool" where
  "labels_ok ls \<longleftrightarrow> list_all (\<lambda>l. l \<noteq> [] \<and> length l < 64 \<and> 0 \<notin> set l) ls \<and> length (concat (map (\<lambda>l. 0 # l) ls)) < 63"

definition wire_name :: "u8 list list \<Rightarrow> u8 list" where
  "wire_name ls = concat (map (\<lambda>l. word_of_nat (length l) # l) ls)"

lemma small_label: "length l < 64 \<Longrightarrow> l \<noteq> [] \<Longrightarrow>
  (word_of_nat (length l) :: u8) \<noteq> 0 \<and> (word_of_nat (length l) :: u8) AND 0xc0 = 0 \<and> unat (word_of_nat (length l) :: u8) = length l"
proof -
  assume l: "length l < 64" "l \<noteq> []"
  then have u: "unat (word_of_nat (length l) :: u8) = length l" by (simp add: unat_of_nat)
  have "(w :: u8) AND 0xc0 = 0" if "unat w < 64" for w
  proof (rule bit_word_eqI)
    fix n assume "n < LENGTH(8)"
    have "unat w < 2 ^ 6" using that by simp
    then have "w = take_bit 6 w" by (metis take_bit_nat_eq_self unsigned_take_bit_eq unsigned_word_eqI)
    then have "bit w n \<Longrightarrow> n < 6" by (metis bit_take_bit_iff)
    moreover have "bit (0xc0 :: u8) n \<Longrightarrow> 6 \<le> n"
    proof (rule ccontr)
      assume b: "bit (0xc0 :: u8) n" "\<not> 6 \<le> n"
      then have "n \<in> {0, 1, 2, 3, 4, 5}" by auto
      then show False using b(1) by (auto simp: bit_numeral_rec)
    qed
    ultimately show "bit (w AND 0xc0) n = bit (0 :: u8) n" by (auto simp: bit_and_iff)
  qed
  then show ?thesis using u l by (metis unat_0 length_0_conv)
qed

lemma wire_name_simps [simp]: "wire_name [] = []" "wire_name (l # ls) = word_of_nat (length l) # l @ wire_name ls"
  by (simp_all add: wire_name_def)

lemma length_wire_name: "length (wire_name ls) = length (concat (map (\<lambda>l. 0 # l) ls))"
  by (induction ls) simp_all

lemma name_loop_wire:
  assumes "list_all (\<lambda>l. l \<noteq> [] \<and> length l < 64) ls" "b = pre @ wire_name ls @ 0 # rest" "rv + length (wire_name ls) < 63" "length pre + length (wire_name ls) \<le> len"
  shows "name_loop b (length pre) len rv = rv + length (wire_name ls) + 1"
  using assms
proof (induction ls arbitrary: pre rv)
  case Nil
  then show ?case by (subst name_loop.simps) (simp add: nth_append)
next
  case (Cons l ls)
  let ?c = "word_of_nat (length l) :: u8"
  have l: "?c \<noteq> 0" "?c AND 0xc0 = 0" "unat ?c = length l" using small_label [of l] Cons.prems(1) by simp_all
  have at: "b ! length pre = ?c" using Cons.prems(2) by (simp add: nth_append)
  have "name_loop b (length pre) len rv = name_loop b (length pre + length l + 1) len (rv + length l + 1)"
    using l at Cons.prems(4) by (subst name_loop.simps) (simp add: chk_pkt_len_def)
  also have "length pre + length l + 1 = length (pre @ ?c # l)" by simp
  also have "name_loop b (length (pre @ ?c # l)) len (rv + length l + 1) = rv + length l + 1 + length (wire_name ls) + 1"
    by (rule Cons.IH) (use Cons.prems in simp_all)
  finally show ?case by simp
qed

lemma real_labels_wire:
  assumes "list_all (\<lambda>l. l \<noteq> [] \<and> length l < 64) ls" "tot + length (concat ls) < 63"
  shows "real_labels tot (wire_name ls) = Some (concat (map (\<lambda>l. l @ [46]) ls))"
  using assms
proof (induction ls arbitrary: tot)
  case (Cons l ls)
  have "(word_of_nat (length l) :: u8) \<noteq> 0" "unat (word_of_nat (length l) :: u8) = length l" using small_label [of l] Cons.prems(1) by simp_all
  then show ?case using Cons.IH [of "tot + length l"] Cons.prems by simp
qed simp

lemma labels_okD:
  assumes "labels_ok ls"
  shows "list_all (\<lambda>l. l \<noteq> [] \<and> length l < 64) ls" "length (wire_name ls) < 63" "length (concat ls) < 63" "0 \<notin> set (wire_name ls)" "0 \<notin> set (concat ls)"
proof -
  have "length (concat ls) \<le> length (wire_name ls)" by (induction ls) simp_all
  then show "length (wire_name ls) < 63" "length (concat ls) < 63" using assms by (simp_all add: length_wire_name)
  have "0 \<notin> set (wire_name ls)" if "list_all (\<lambda>l. l \<noteq> [] \<and> length l < 64 \<and> 0 \<notin> set l) ls" for ls
    using that
  proof (induction ls)
    case (Cons l ls)
    then show ?case using small_label [of l] by auto
  qed simp
  then show "0 \<notin> set (wire_name ls)" "0 \<notin> set (concat ls)" "list_all (\<lambda>l. l \<noteq> [] \<and> length l < 64) ls"
    using assms by (auto simp: list_all_iff)
qed

lemma cstr_id: "0 \<notin> set b \<Longrightarrow> cstr b = b"
  by (auto simp: cstr_def takeWhile_eq_all_conv)

text \<open>Names of more than one label are looked up as they are.\<close>

lemma lookup_qualified:
  assumes "labels_ok (l1 # l2 # ls)"
  shows "lookup_name domain (wire_name (l1 # l2 # ls)) = wire_name (l1 # l2 # ls)"
proof -
  let ?ls = "l1 # l2 # ls"
  note ok = labels_okD [OF assms]
  let ?n = "concat (map (\<lambda>l. l @ [46]) ?ls)"
  have r: "dnspkt_get_real_name (wire_name ?ls) = Some (cstr (butlast ?n))"
    using real_labels_wire [OF ok(1), of 0] ok(3) by (simp add: dnspkt_get_real_name_def)
  have "0 \<notin> set ?n" using ok(5) by auto
  then have "cstr (butlast ?n) = butlast ?n" by (intro cstr_id) (auto dest: in_set_butlastD)
  moreover have "46 \<in> set (butlast ?n)" by (simp add: butlast_append)
  ultimately have "is_unqualified (wire_name ?ls) = None" using r by (simp add: is_unqualified_def)
  then show ?thesis using cstr_id [OF ok(4)] by (simp add: lookup_name_def)
qed

text \<open>What is read at the place where it was written.\<close>

lemma read_16_put: "p = length pre \<Longrightarrow> read_16 (pre @ put16 w @ post) p = w"
  using be16_put16 [of w] by (simp add: read_16_def put16_def nth_append)

lemma read_32_put: "p = length pre \<Longrightarrow> read_32 (pre @ put32 w @ post) p = w"
  using be32_put32 [of w] by (simp add: read_32_def put32_def nth_append)

lemma pointer_bytes: "put16 0xc00c = [0xc0, 0x0c]"
  by (simp add: put16_def byte_of_def)

text \<open>What a receiver with this parser finds in an answer that is built from an entry of the cache.\<close>

definition answer_for :: "DnsCache \<Rightarrow> DnsInfo \<Rightarrow> bool" where
  "answer_for dc k \<longleftrightarrow> dns_flags k = dc_flags dc \<and> dns_query_name k = dc_name dc \<and> dns_query_type k = dc_type dc \<and> dns_type k = ucast (dc_type dc) \<and>
     dns_ttl k = sint (dc_ttl dc) \<and> (if dc_type dc = 1 then dns_address k = dc_ip dc else dns_address_v6 k = dc_ipv6 dc)"

lemma verify_build:
  assumes ls: "labels_ok ls" "dc_name dc = wire_name ls" and ty: "dc_type dc = 1 \<or> dc_type dc = 28" and dc: "dc_cname dc = None" "length (dc_ipv6 dc) = 16"
    and b: "b = fst (dnspkt_build dc tid) @ rest" and len: "len = snd (dnspkt_build dc tid)"
  shows "read_16 b 0 = tid" "len = length (fst (dnspkt_build dc tid))" "\<exists>k. dnspkt_verify b len junk = (False, k) \<and> answer_for dc k"
proof -
  let ?n = "wire_name ls" and ?t = "ucast (dc_type dc) :: u16"
  let ?data = "if dc_type dc = 1 then put16 4 @ put32 (dc_ip dc) else put16 16 @ dc_ipv6 dc"
  define H where "H = put16 tid @ put16 (dc_flags dc) @ put16 1 @ put16 1 @ put16 0 @ put16 0"
  define Q where "Q = H @ ?n @ [0] @ put16 ?t @ put16 1"
  have H: "length H = 12" "length Q = 17 + length ?n" by (simp_all add: H_def Q_def)
  have bt: "b = Q @ put16 0xc00c @ put16 ?t @ put16 1 @ put32 (dc_ttl dc) @ ?data @ rest"
    using dc(1) ty ls(2) by (auto simp: b dnspkt_build_def Let_def H_def Q_def)
  have l: "len = 17 + length ?n + (if dc_type dc = 1 then 16 else 28)" using ty dc(1) ls(2) by (auto simp: len dnspkt_build_def Let_def)
  then show "len = length (fst (dnspkt_build dc tid))" using ty dc ls(2) by (auto simp: dnspkt_build_def Let_def)
  note ok = labels_okD [OF ls(1)]
  have name: "get_name_len b 12 len = length ?n + 1"
    using name_loop_wire [OF ok(1), of b H _ 0 len] H ok(2) l by (simp add: get_name_len_def bt Q_def)
  have r16: "read_16 b p = w" if "b = pre @ put16 w @ post" "p = length pre" for pre w post p using that read_16_put by blast
  have r32: "read_32 b p = w" if "b = pre @ put32 w @ post" "p = length pre" for pre w post p using that read_32_put by blast
  show "read_16 b 0 = tid" by (rule r16 [of "[]"]) (auto simp: bt Q_def H_def)
  have flags: "read_16 b 2 = dc_flags dc" by (rule r16 [of "put16 tid"]) (auto simp: bt Q_def H_def)
  have qd: "read_16 b 4 = 1" by (rule r16 [of "put16 tid @ put16 (dc_flags dc)"]) (auto simp: bt Q_def H_def)
  have an: "read_16 b 6 = 1" by (rule r16 [of "put16 tid @ put16 (dc_flags dc) @ put16 1"]) (auto simp: bt Q_def H_def)
  have qt: "read_16 b (13 + length ?n) = ?t" by (rule r16 [of "H @ ?n @ [0]"]) (auto simp: bt Q_def H)
  have ptr: "b ! (17 + length ?n) = 0xc0" "b ! (18 + length ?n) = 0x0c" using H(2) by (simp_all add: bt pointer_bytes nth_append)
  have at: "read_16 b (19 + length ?n) = ?t" by (rule r16 [of "Q @ put16 0xc00c"]) (auto simp: bt H)
  have cl: "read_16 b (21 + length ?n) = 1" by (rule r16 [of "Q @ put16 0xc00c @ put16 ?t"]) (auto simp: bt H)
  let ?A = "Q @ put16 0xc00c @ put16 ?t @ put16 1"
  have tt: "read_32 b (23 + length ?n) = dc_ttl dc" by (rule r32 [of ?A]) (auto simp: bt H)
  have dl: "read_16 b (27 + length ?n) = (if dc_type dc = 1 then 4 else 16)"
    by (rule r16 [of "?A @ put32 (dc_ttl dc)" _ "(if dc_type dc = 1 then put32 (dc_ip dc) else dc_ipv6 dc) @ rest"]) (auto simp: bt H)
  have a4: "dc_type dc = 1 \<Longrightarrow> read_32 b (29 + length ?n) = dc_ip dc" by (rule r32 [of "?A @ put32 (dc_ttl dc) @ put16 4"]) (auto simp: bt H)
  have a6: "dc_type dc \<noteq> 1 \<Longrightarrow> take 16 (drop (29 + length ?n) b) = dc_ipv6 dc" using dc(2) by (simp add: bt H)
  have nm: "take (length ?n) (drop 12 b) = ?n" by (simp add: bt Q_def H)
  have "\<exists>k. verify_answer b (17 + length ?n) len k0 = (False, k) \<and> answer_for dc k"
    if "dns_flags k0 = dc_flags dc" "dns_query_name k0 = ?n" "dns_query_type k0 = dc_type dc" for k0
    using that ty ptr at cl tt dl a4 a6 l ls(2) by (auto simp: verify_answer_def Let_def chk_pkt_len_def answer_for_def)
  moreover have "\<exists>k0. dnspkt_verify b len junk = verify_answer b (17 + length ?n) len k0 \<and>
      dns_flags k0 = dc_flags dc \<and> dns_query_name k0 = ?n \<and> dns_query_type k0 = dc_type dc"
  proof -
    have "\<not> len < 12" "ucast ?t = dc_type dc" using l ty by auto
    then show ?thesis using flags qd an qt name nm
      by (simp add: dnspkt_verify_def Let_def) (intro conjI impI; rule exI, rule conjI, rule refl, simp)
  qed
  ultimately show "\<exists>k. dnspkt_verify b len junk = (False, k) \<and> answer_for dc k" by metis
qed


end
