(* ===== verification/Dns_Life.thy ===== *)
theory Dns_Life
  imports Dns_Props
begin

text \<open>
  Entries of the cache of the DNS proxy over time: answers that are relayed and stored, the life time of an entry and the
  static hosts, and what the proxy does not get right.
\<close>

section \<open>Relayed answers\<close>

lemma rq_find_distinct:
  assumes "distinct (map new_tid rqs)" "r \<in> set rqs"
  shows "\<exists>i. rq_find (new_tid r) rqs = Some i \<and> rqs ! i = r \<and> set (take i rqs @ drop (Suc i) rqs) = set rqs - {r}"
proof -
  obtain i where i: "rq_find (new_tid r) rqs = Some i" using assms(2) by (cases "rq_find (new_tid r) rqs") (auto simp: rq_find_def find_pos_None)
  then have l: "i < length rqs" "new_tid (rqs ! i) = new_tid r" by (auto simp: rq_find_def)
  then have r: "rqs ! i = r" using assms by (auto simp: distinct_map inj_on_def)
  have d: "distinct (take i rqs @ rqs ! i # drop (Suc i) rqs)" using assms(1) l(1) by (simp add: distinct_map id_take_nth_drop [symmetric])
  have "set rqs = set (take i rqs @ rqs ! i # drop (Suc i) rqs)" using id_take_nth_drop [OF l(1)] by simp
  then have "set (take i rqs @ drop (Suc i) rqs) = set rqs - {r}" using d r by auto
  then show ?thesis using i r by blast
qed

text \<open>C14: the response of a name server to a request that waits for it is sent to the client that asked, with the client's transaction id, and the request is
  over. If it is a positive answer of type A that may live at least 10 seconds and the cache has no entry for it, the cache then holds its address,
  for the time of the answer but at most 900 seconds.\<close>

theorem dns_answer_relayed:
  assumes ok: "dns_ok s" and v: "dnspkt_verify b len junk = (False, k)" and src: "src \<noteq> 0" "src \<in> {name_server1 s, name_server2 s}"
    and r: "r \<in> set (rq_active s)" "answers_request src b k r" and sock: "rq_sock sock (rq_active s)" and env: "de_send env" "de_malloc env"
  shows "\<exists>s'. rx_packet env sock src port b len junk s = Some s' \<and>
    dns_trace s' = dns_trace s @ rr_stats k @ [SToClient (client_ip r) (client_port r) (take (dns_len k) (set_tid (client_tid r) b)), SCount Answers] \<and>
    set (rq_active s') = set (rq_active s) - {r} \<and> rq_inactive s' = Suc (rq_inactive s) \<and>
    (dns_error_code k = 0 \<longrightarrow> 10 \<le> dns_ttl k \<longrightarrow> dns_type k = 1 \<longrightarrow> cache_find (cstr (dns_query_name k)) (dns_query_type k) (dns_cache_ht s) = None \<longrightarrow>
       (\<exists>dc. cache_find (cstr (dns_query_name k)) (dns_query_type k) (dns_cache_ht s') = Some dc \<and> dc_ip dc = dns_address k \<and>
          dc_ttl dc = word_of_int (min 900 (dns_ttl k)) \<and> dc_cname dc = None \<and> \<not> dc_static dc))"
proof -
  let ?s = "dns_emit (rr_stats k) s" and ?b = "set_tid (client_tid r) b"
  obtain i where i: "rq_find (new_tid r) (rq_active s) = Some i" "rq_active s ! i = r" "set (take i (rq_active s) @ drop (Suc i) (rq_active s)) = set (rq_active s) - {r}"
    using rq_find_distinct [OF _ r(1)] ok by (auto simp: dns_ok_def)
  have tid: "new_tid r = read_16 b 0" using r(2) by (simp add: answers_request_def)
  let ?t = "rq_release i (dns_emit [SToClient (client_ip r) (client_port r) (take (dns_len k) ?b), SCount Answers] ?s)"
  have "process_server env src b k ?s = store_response env ?b k ?t"
    using i tid r(2) env by (simp add: process_server_def Let_def)
  then have rx: "rx_packet env sock src port b len junk s = Some (store_response env ?b k ?t)" using v src sock by (auto simp: rx_packet_def Let_def)
  have keep: "dns_trace (store_response env c k t) = dns_trace t" "rq_active (store_response env c k t) = rq_active t" "rq_inactive (store_response env c k t) = rq_inactive t" for c t
    by (auto simp: store_response_def Let_def split: option.splits)
  have "\<exists>dc. cache_find (cstr (dns_query_name k)) (dns_query_type k) (dns_cache_ht (store_response env ?b k ?t)) = Some dc \<and> dc_ip dc = dns_address k \<and>
      dc_ttl dc = word_of_int (min 900 (dns_ttl k)) \<and> dc_cname dc = None \<and> \<not> dc_static dc"
    if "dns_error_code k = 0" "10 \<le> dns_ttl k" "dns_type k = 1" "cache_find (cstr (dns_query_name k)) (dns_query_type k) (dns_cache_ht s) = None"
    using that env by (auto simp: store_response_def rq_release_def Let_def cache_entry_def new_entry_def cache_find_def cache_add_def cache_match_def min_def)
  then show ?thesis using rx keep i(3) by (simp add: rq_release_def)
qed

section \<open>The life time of an entry\<close>

lemma tick_run: "dns_run (replicate n NTick) s = Some ((dns_tick ^^ n) s)"
proof (induction n arbitrary: s)
  case (Suc n)
  then show ?case by (simp add: dns_run_def funpow_swap1)
qed (simp add: dns_run_def)

lemma tick_cache [simp]: "dns_cache_ht (dns_tick s) = cache_timer (dns_cache_ht s)"
  by (simp add: dns_tick_def rq_timer_def Let_def)

lemma ticks_cache: "dns_cache_ht ((dns_tick ^^ n) s) = (cache_timer ^^ n) (dns_cache_ht s)"
  by (induction n) simp_all

lemma timers_ok: "cache_ok c \<Longrightarrow> cache_ok ((cache_timer ^^ n) c)"
  by (induction n) (simp_all add: cache_timer_ok(1))

lemma cached_key_eq: "cache_ok c \<Longrightarrow> cached x c \<Longrightarrow> cached y c \<Longrightarrow> dc_name x = dc_name y \<Longrightarrow> dc_type x = dc_type y \<Longrightarrow> x = y"
  using cache_find_iff [of c "dc_name x" "dc_type x"] by (metis option.inject)

lemma cache_ages:
  assumes "cache_ok c" "cached dc c" "\<not> dc_static dc"
  shows "cached y ((cache_timer ^^ n) c) \<and> dc_name y = dc_name dc \<and> dc_type y = dc_type dc \<longleftrightarrow> n < unat (dc_ttl dc) \<and> y = dc\<lparr>dc_ttl := dc_ttl dc - word_of_nat n\<rparr>"
proof (induction n arbitrary: y)
  case 0
  have "0 < dc_ttl dc" using assms by (auto simp: cache_ok_def cached_def entry_ok_def)
  then show ?case using assms cached_key_eq by (auto simp: unat_gt_0)
next
  case (Suc n)
  let ?t = "dc_ttl dc - word_of_nat n" and ?c = "(cache_timer ^^ n) c"
  have step: "cached y ((cache_timer ^^ Suc n) c) \<longleftrightarrow> (\<exists>x. cached x ?c \<and> cache_age x = Some y)"
    using cache_timer_ok(2) [OF timers_ok [OF assms(1)]] by simp
  have age: "cache_age (dc\<lparr>dc_ttl := ?t\<rparr>) = (if Suc n < unat (dc_ttl dc) then Some (dc\<lparr>dc_ttl := ?t - 1\<rparr>) else None)" if "n < unat (dc_ttl dc)"
  proof -
    have "unat (word_of_nat n :: u32) = n" using that unsigned_less [where 'a = nat, of "dc_ttl dc"] by (simp add: unat_of_nat)
    then have "unat ?t = unat (dc_ttl dc) - n" using that by (simp add: unat_sub word_le_nat_alt)
    moreover have "?t - 1 = 0 \<longleftrightarrow> unat ?t = 1" by (metis eq_iff_diff_eq_0 unat_1 word_unat_eq_iff)
    ultimately have "?t - 1 = 0 \<longleftrightarrow> \<not> Suc n < unat (dc_ttl dc)" using that by linarith
    then show ?thesis using assms(3) by (simp add: cache_age_def Let_def)
  qed
  have key: "cache_age x = Some y \<Longrightarrow> dc_name x = dc_name y \<and> dc_type x = dc_type y" for x using cache_age_key [of x y] by (simp add: cache_key_def)
  have "(cached y ((cache_timer ^^ Suc n) c) \<and> dc_name y = dc_name dc \<and> dc_type y = dc_type dc) \<longleftrightarrow>
      (\<exists>x. (cached x ?c \<and> dc_name x = dc_name dc \<and> dc_type x = dc_type dc) \<and> cache_age x = Some y)" using step key by metis
  also have "\<dots> \<longleftrightarrow> n < unat (dc_ttl dc) \<and> cache_age (dc\<lparr>dc_ttl := ?t\<rparr>) = Some y" unfolding Suc.IH by auto
  also have "\<dots> \<longleftrightarrow> Suc n < unat (dc_ttl dc) \<and> y = dc\<lparr>dc_ttl := ?t - 1\<rparr>" using age by (auto split: if_splits)
  finally show ?case by (simp add: algebra_simps)
qed

text \<open>C16: an entry that is not static stays in the cache for exactly as many seconds as its time to live says, counting down, and answers queries until then; after
  that many ticks of the timer, and not earlier, the lookup no longer finds it.\<close>

theorem dns_entry_expires:
  assumes "dns_ok s" "cached dc (dns_cache_ht s)" "\<not> dc_static dc"
  shows "\<exists>s'. dns_run (replicate n NTick) s = Some s' \<and>
    cache_find (dc_name dc) (dc_type dc) (dns_cache_ht s') = (if n < unat (dc_ttl dc) then Some (dc\<lparr>dc_ttl := dc_ttl dc - word_of_nat n\<rparr>) else None)"
proof -
  let ?c = "dns_cache_ht s"
  have c: "cache_ok ?c" using assms(1) by (simp add: dns_ok_def)
  have "cache_find (dc_name dc) (dc_type dc) ((cache_timer ^^ n) ?c) = Some y \<longleftrightarrow> n < unat (dc_ttl dc) \<and> y = dc\<lparr>dc_ttl := dc_ttl dc - word_of_nat n\<rparr>" for y
    using cache_find_iff [OF timers_ok [OF c]] cache_ages [OF c assms(2,3)] by simp
  then have "cache_find (dc_name dc) (dc_type dc) ((cache_timer ^^ n) ?c) = (if n < unat (dc_ttl dc) then Some (dc\<lparr>dc_ttl := dc_ttl dc - word_of_nat n\<rparr>) else None)"
    by (cases "cache_find (dc_name dc) (dc_type dc) ((cache_timer ^^ n) ?c)") auto
  then show ?thesis by (simp add: tick_run ticks_cache)
qed

section \<open>Static hosts\<close>

definition marked :: "dns_cache \<Rightarrow> (u8 list \<times> u32) set" where
  "marked c = {(dc_name dc, dc_ip dc) | dc. cached dc c \<and> dc_marker dc}"

definition marks_static :: "dns_cache \<Rightarrow> bool" where
  "marks_static c \<longleftrightarrow> (\<forall>dc. cached dc c \<longrightarrow> dc_marker dc \<longrightarrow> dc_static dc)"

lemma set_update_key:
  assumes "distinct (map g xs)" "i < length xs"
  shows "set (xs[i := v]) = insert v {x \<in> set xs. g x \<noteq> g (xs ! i)}"
proof -
  have "distinct xs" "inj_on g (set xs)" using assms(1) by (simp_all add: distinct_map)
  moreover have "x = xs ! i \<longleftrightarrow> g x = g (xs ! i)" if "x \<in> set xs" for x using inj_onD [OF \<open>inj_on g (set xs)\<close>] that assms(2) by auto
  ultimately show ?thesis using set_update_distinct [of xs i v] assms(2) by auto
qed

lemma cached_add_static:
  assumes "cache_ok c" "name \<noteq> []"
  shows "\<exists>y. dc_name y = static_name name \<and>
    (\<forall>x. cached x (cache_add_static True name ip c) \<longleftrightarrow> x = make_static ip y \<or> (cached x c \<and> \<not> (dc_name x = static_name name \<and> dc_type x = 1)))"
proof -
  let ?rn = "static_name name" and ?h = "dns_hash (static_name name)"
  show ?thesis
  proof (cases "find_pos (cache_match ?rn 1) (c ?h)")
    case None
    then have n: "cache_find ?rn 1 c = None" by (auto simp: cache_find_def find_None_iff find_pos_None)
    then have "cached x (cache_add_static True name ip c) \<longleftrightarrow> x = make_static ip (new_entry ?rn) \<or> cached x c" for x
      using cache_add_ok(2) [OF assms(1), of "make_static ip (new_entry ?rn)"] None assms(2) by (simp add: cache_add_static_def Let_def new_entry_def)
    then show ?thesis using n cache_find_None [OF assms(1), of ?rn 1] by (intro exI [of _ "new_entry ?rn"]) (auto simp: new_entry_def)
  next
    case (Some i)
    let ?y = "c ?h ! i"
    have i: "i < length (c ?h)" "dc_name ?y = ?rn" "dc_type ?y = 1" using find_pos_Some [OF Some] by (simp_all add: cache_match_def)
    have d: "distinct (map cache_key (c ?h))" using assms(1) by (simp add: cache_ok_def)
    have y: "dc \<in> set (upd_pos i f (c ?h)) \<longleftrightarrow> dc = f ?y \<or> (dc \<in> set (c ?h) \<and> cache_key dc \<noteq> cache_key ?y)" for dc f
      using set_update_key [OF d i(1)] i(1) by (simp add: upd_pos_def)
    have "cached x (cache_add_static True name ip c) \<longleftrightarrow> x = make_static ip ?y \<or> (cached x c \<and> \<not> (dc_name x = ?rn \<and> dc_type x = 1))" for x
    proof (cases "dns_hash (dc_name x) = ?h")
      case True
      then show ?thesis using Some assms(2) y i(2,3) by (simp add: cache_add_static_def cached_def Let_def cache_key_def)
    next
      case False
      then have "dc_name x \<noteq> ?rn" by auto
      then show ?thesis using False Some assms(2) i(2) by (auto simp: cache_add_static_def cached_def Let_def)
    qed
    then show ?thesis using i(2) by blast
  qed
qed

lemma marked_add_static:
  assumes "cache_ok c" "name \<noteq> []" "marks_static c"
  shows "marked (cache_add_static True name ip c) = insert (static_name name, ip) {p \<in> marked c. fst p \<noteq> static_name name}"
    "marks_static (cache_add_static True name ip c)"
proof -
  obtain y where y: "dc_name y = static_name name"
    "\<And>x. cached x (cache_add_static True name ip c) \<longleftrightarrow> x = make_static ip y \<or> (cached x c \<and> \<not> (dc_name x = static_name name \<and> dc_type x = 1))"
    using cached_add_static [OF assms(1,2)] by blast
  have t: "cached x c \<Longrightarrow> dc_marker x \<Longrightarrow> dc_type x = 1" for x using assms(1,3) unfolding marks_static_def cache_ok_def cached_def entry_ok_def by metis
  show "marks_static (cache_add_static True name ip c)" using assms(3) y by (auto simp: marks_static_def)
  show "marked (cache_add_static True name ip c) = insert (static_name name, ip) {p \<in> marked c. fst p \<noteq> static_name name}"
    using y(1) t unfolding marked_def y(2) by (auto intro: exI [of _ "make_static ip y"])
qed

lemma marked_hosts:
  assumes "cache_ok c" "marks_static c" "list_all (\<lambda>h. ih_name h \<noteq> []) hs" "distinct (map (\<lambda>h. static_name (ih_name h)) hs)"
    "fst ` marked c \<inter> (\<lambda>h. static_name (ih_name h)) ` set hs = {}"
  shows "marked (fold (\<lambda>h c. cache_add_static True (ih_name h) (ih_ip h) c) hs c) = marked c \<union> {(static_name (ih_name h), ih_ip h) | h. h \<in> set hs} \<and>
    marks_static (fold (\<lambda>h c. cache_add_static True (ih_name h) (ih_ip h) c) hs c)"
  using assms
proof (induction hs arbitrary: c)
  case (Cons h hs)
  let ?c = "cache_add_static True (ih_name h) (ih_ip h) c"
  have "ih_name h \<noteq> []" using Cons.prems(3) by simp
  note add = marked_add_static [OF Cons.prems(1) this Cons.prems(2), of "ih_ip h"]
  have m: "marked ?c = insert (static_name (ih_name h), ih_ip h) (marked c)" 
  proof -
    have "static_name (ih_name h) \<notin> fst ` marked c" using Cons.prems(5) by auto
    then have "{p \<in> marked c. fst p \<noteq> static_name (ih_name h)} = marked c" by force
    then show ?thesis using add(1) by simp
  qed
  have dis: "fst ` marked ?c \<inter> (\<lambda>h. static_name (ih_name h)) ` set hs = {}" using Cons.prems(4,5) unfolding m by auto
  have "marked (fold (\<lambda>h c. cache_add_static True (ih_name h) (ih_ip h) c) hs ?c) = marked ?c \<union> {(static_name (ih_name h), ih_ip h) | h. h \<in> set hs} \<and>
      marks_static (fold (\<lambda>h c. cache_add_static True (ih_name h) (ih_ip h) c) hs ?c)"
    by (rule Cons.IH [OF cache_add_static_ok [OF Cons.prems(1)] add(2) _ _ dis]) (use Cons.prems(3,4) in auto)
  then show ?case unfolding m by auto
qed auto

lemma update_marked:
  assumes "cache_ok c" "list_all (\<lambda>h. ih_name h \<noteq> []) (filter ih_valid hosts)" "distinct (map (\<lambda>h. static_name (ih_name h)) (filter ih_valid hosts))"
  shows "marked (cache_update_static True hosts c) = {(static_name (ih_name h), ih_ip h) | h. h \<in> set hosts \<and> ih_valid h}" "marks_static (cache_update_static True hosts c)"
proof -
  have "\<not> dc_marker dc" if "cached dc (clear_markers c)" for dc using that by (auto simp: cached_def clear_markers_def)
  then have m: "marked (clear_markers c) = {}" "marks_static (clear_markers c)" by (auto simp: marked_def marks_static_def)
  show "marked (cache_update_static True hosts c) = {(static_name (ih_name h), ih_ip h) | h. h \<in> set hosts \<and> ih_valid h}" "marks_static (cache_update_static True hosts c)"
    using marked_hosts [OF clear_markers_ok [OF assms(1)] m(2) assms(2,3)] m(1) by (auto simp: cache_update_static_def)
qed


section \<open>Names of hosts\<close>

definition host_name :: "u8 list list \<Rightarrow> u8 list" where
  "host_name ls = butlast (concat (map (\<lambda>l. l @ [46]) ls))"

lemma enc_labels_label: "46 \<notin> set l \<Longrightarrow> enc_labels cur (l @ 46 # rest) = word_of_nat (length cur + length l) # cur @ l @ enc_labels [] rest"
  by (induction l arbitrary: cur) auto

lemma enc_labels_last: "46 \<notin> set l \<Longrightarrow> enc_labels cur l = word_of_nat (length cur + length l) # cur @ l"
  by (induction l arbitrary: cur) auto

lemma host_name_Cons: "host_name [l] = l" "ls \<noteq> [] \<Longrightarrow> host_name (l # ls) = l @ 46 # host_name ls"
  by (cases ls; simp add: host_name_def butlast_append)+

lemma enc_labels_host: "ls \<noteq> [] \<Longrightarrow> list_all (\<lambda>l. 46 \<notin> set l) ls \<Longrightarrow> enc_labels [] (host_name ls) = wire_name ls"
proof (induction ls)
  case (Cons l ls)
  then show ?case by (cases "ls = []") (simp_all add: host_name_Cons enc_labels_label enc_labels_last)
qed simp

text \<open>The name of a host is stored as the labels of the name in the format of packets, the name under which a query for it looks, and is translated back to the
  name that was configured.\<close>

theorem dns_name_roundtrip:
  assumes "labels_ok ls" "ls \<noteq> []" "list_all (\<lambda>l. 46 \<notin> set l) ls"
  shows "static_name (host_name ls) = wire_name ls \<and> dnspkt_get_real_name (static_name (host_name ls)) = Some (host_name ls)"
proof -
  note ok = labels_okD [OF assms(1)]
  have s: "static_name (host_name ls) = wire_name ls" using enc_labels_host [OF assms(2,3)] cstr_id [OF ok(4)] by (simp add: static_name_def)
  have "0 \<notin> set (host_name ls)" using ok(5) by (auto simp: host_name_def split: if_splits dest!: in_set_butlastD)
  then have "dnspkt_get_real_name (wire_name ls) = Some (host_name ls)"
    using real_labels_wire [OF ok(1), of 0] ok(3) cstr_id by (simp add: dnspkt_get_real_name_def host_name_def)
  then show ?thesis using s by simp
qed

end
