(* ===== verification/Dns_Demo.thy ===== *)
theory Dns_Demo
  imports Dns_Life
begin

text \<open>
  What the DNS proxy does not get right, and examples: a host \<open>a.b\<close> that a client asks for, the answer of the server, and the
  second answer out of the cache.
\<close>

section \<open>Queries\<close>

definition query_packet :: "u16 \<Rightarrow> u16 \<Rightarrow> u8 list list \<Rightarrow> u16 \<Rightarrow> u8 list" where
  "query_packet tid fl ls t = put16 tid @ put16 fl @ put16 1 @ put16 0 @ put16 0 @ put16 0 @ wire_name ls @ [0] @ put16 t @ put16 1"

lemma verify_query:
  assumes ls: "labels_ok ls" and b: "b = query_packet tid fl ls t @ rest" and len: "len = length (query_packet tid fl ls t)"
  shows "read_16 b 0 = tid" "\<exists>k. dnspkt_verify b len junk = (False, k) \<and> dns_query_name k = wire_name ls \<and> dns_query_type k = ucast t \<and> rr_stats k = [] \<and> dns_len k = len"
proof -
  let ?n = "wire_name ls"
  define H where "H = put16 tid @ put16 fl @ put16 1 @ put16 0 @ put16 0 @ put16 0"
  have H: "length H = 12" by (simp add: H_def)
  have bt: "b = H @ ?n @ [0] @ put16 t @ put16 1 @ rest" by (simp add: b query_packet_def H_def)
  have l: "len = 17 + length ?n" by (simp add: len query_packet_def)
  note ok = labels_okD [OF ls]
  have name: "get_name_len b 12 len = length ?n + 1"
    using name_loop_wire [OF ok(1), of b H _ 0 len] H ok(2) l by (simp add: get_name_len_def bt)
  have r16: "read_16 b p = w" if "b = pre @ put16 w @ post" "p = length pre" for pre w post p using that read_16_put by blast
  show "read_16 b 0 = tid" by (rule r16 [of "[]"]) (auto simp: bt H_def)
  have qd: "read_16 b 4 = 1" by (rule r16 [of "put16 tid @ put16 fl"]) (auto simp: bt H_def)
  have an: "read_16 b 6 = 0" by (rule r16 [of "put16 tid @ put16 fl @ put16 1"]) (auto simp: bt H_def)
  have qt: "read_16 b (13 + length ?n) = t" by (rule r16 [of "H @ ?n @ [0]"]) (auto simp: bt H)
  have nm: "take (length ?n) (drop 12 b) = ?n" by (simp add: bt H)
  show "\<exists>k. dnspkt_verify b len junk = (False, k) \<and> dns_query_name k = ?n \<and> dns_query_type k = ucast t \<and> rr_stats k = [] \<and> dns_len k = len"
  proof -
    have "\<not> len < 12" using l by simp
    then show ?thesis using qd an qt name nm l by (simp add: dnspkt_verify_def Let_def chk_pkt_len_def rr_stats_def)
  qed
qed

text \<open>A query for a CAA record (type 257) is taken for a query for an address: the type of the query is cut to 8 bits.\<close>

theorem caa_query_parsed_as_a:
  assumes "labels_ok ls"
  shows "\<exists>k. dnspkt_verify (query_packet tid fl ls 257) (length (query_packet tid fl ls 257)) junk = (False, k) \<and> dns_query_name k = wire_name ls \<and> dns_query_type k = 1"
  using verify_query(2) [OF assms, of "query_packet tid fl ls 257" tid fl 257 "[]" _ junk] by auto

text \<open>A query for a name without a dot is looked up as text with the domain behind it. No name in packet format is such a text, so the name is never found
  in the cache, not even if it is a static host.\<close>

theorem unqualified_never_cached:
  assumes "labels_ok [l]" "46 \<notin> set l" "64 \<le> hd l" "length l + length domain \<le> 63" "labels_ok ls" "ls \<noteq> []"
  shows "lookup_name domain (wire_name [l]) \<noteq> wire_name ls"
proof -
  note ok = labels_okD [OF assms(1)]
  have "l \<noteq> []" using assms(1) by simp
  have "dnspkt_get_real_name (wire_name [l]) = Some l"
    using real_labels_wire [OF ok(1), of 0] ok(3,5) cstr_id [of l] by (simp add: dnspkt_get_real_name_def)
  then have look: "lookup_name domain (wire_name [l]) = l @ domain" using assms(2,4) by (simp add: lookup_name_def is_unqualified_def)
  obtain m ms where ls: "ls = m # ms" using assms(6) by (cases ls) auto
  have "unat (word_of_nat (length m) :: u8) < 64" using small_label [of m] assms(5) unfolding ls by auto
  moreover have "64 \<le> unat (hd l)" using assms(3) by (simp add: word_le_nat_alt)
  ultimately have "hd (l @ domain) \<noteq> hd (wire_name ls)" using \<open>l \<noteq> []\<close> unfolding ls by auto
  then show ?thesis unfolding look by auto
qed

text \<open>The name of a host of 63 characters, which the configuration can hold, needs 65 bytes in packet format; the buffer has 64.\<close>

lemma enc_labels_length: "length (enc_labels cur name) = length cur + length name + 1"
  by (induction cur name rule: enc_labels.induct) auto

theorem static_name_overflow:
  assumes "length name = CLI_MAX_DOMAIN"
  shows "length (enc_labels [] name @ [0]) = CLI_MAX_DOMAIN + 2"
  using assms by (simp add: enc_labels_length)

text \<open>An entry with the packet of a CNAME that is made static goes on answering with this packet, which has been freed, and not with the address of the host.\<close>

theorem static_host_shadowed:
  assumes "dc_cname dc = Some p"
  shows "dnspkt_build (make_static ip dc) tid = dnspkt_build dc tid"
  using assms by (simp add: make_static_def dnspkt_build_def)

text \<open>Switching the server off while no request is waiting does not close the socket on which queries arrive: the proxy goes on answering.\<close>

theorem server_off_keeps_serving:
  assumes "rq_active s = []"
  shows "client_sock (cliIpDnsServer True rl s) = client_sock s \<and> \<not> dns_server_on (cliIpDnsServer True rl s)"
  using assms by (simp add: cliIpDnsServer_def dns_emit_def Let_def)

section \<open>Examples\<close>

definition dns_junk :: DnsInfo where
  "dns_junk = \<lparr>dns_len = 0, dns_pkt_type = 0, dns_error_code = 0, dns_flags = 0, dns_query_name = [], dns_query_type = 0, dns_type = 0, dns_class = 0, dns_ttl = 0,
     dns_address = 0, dns_address_v6 = replicate 16 0\<rparr>"

definition host_ab :: "u8 list list" where "host_ab = [[97], [98]]"

text \<open>An answer of type A whose address has 5 bytes, and an answer with a CNAME that may live 65536 seconds.\<close>

definition odd_answer :: "u8 list" where
  "odd_answer = put16 7 @ put16 0x8180 @ put16 1 @ put16 1 @ put16 0 @ put16 0 @ wire_name host_ab @ [0] @ put16 1 @ put16 1 @
     put16 0xc00c @ put16 1 @ put16 1 @ put32 60 @ put16 5 @ [10, 0, 0, 1, 1]"

definition long_cname :: "u8 list" where
  "long_cname = put16 7 @ put16 0x8180 @ put16 1 @ put16 1 @ put16 0 @ put16 0 @ wire_name host_ab @ [0] @ put16 1 @ put16 1 @
     put16 0xc00c @ put16 5 @ put16 1 @ put32 65536 @ put16 3 @ [1, 99, 0]"

lemma byte_lists:
  "odd_answer = [0, 7, 0x81, 0x80, 0, 1, 0, 1, 0, 0, 0, 0, 1, 97, 1, 98, 0, 0, 1, 0, 1, 0xc0, 0x0c, 0, 1, 0, 1, 0, 0, 0, 60, 0, 5, 10, 0, 0, 1, 1]"
  "long_cname = [0, 7, 0x81, 0x80, 0, 1, 0, 1, 0, 0, 0, 0, 1, 97, 1, 98, 0, 0, 1, 0, 1, 0xc0, 0x0c, 0, 5, 0, 1, 0, 1, 0, 0, 0, 3, 1, 99, 0]"
  by (simp_all add: odd_answer_def long_cname_def put16_def put32_def byte_of_def host_ab_def)

lemmas dns_packet_defs = dnspkt_verify_def verify_answer_def parse_cnames_def Let_def read_16_def read_32_def be16_def be32_def get_name_len_def name_loop.simps chk_pkt_len_def

theorem bad_answer_accepted: "dnspkt_verify odd_answer (length odd_answer) dns_junk =
    (False, dns_junk\<lparr>dns_len := 38, dns_pkt_type := 1, dns_flags := 0x8180, dns_query_name := [1, 97, 1, 98], dns_query_type := 1, dns_type := 1, dns_class := 1, dns_ttl := 60\<rparr>)"
  by (simp add: dns_packet_defs byte_lists dns_junk_def)

theorem cname_ttl_truncated: "dnspkt_verify long_cname (length long_cname) dns_junk =
    (False, dns_junk\<lparr>dns_len := 36, dns_pkt_type := 1, dns_flags := 0x8180, dns_query_name := [1, 97, 1, 98], dns_query_type := 1, dns_type := 5, dns_class := 1, dns_ttl := 0\<rparr>)"
  by (simp add: dns_packet_defs byte_lists dns_junk_def)

text \<open>The proxy with one server, the answer of this server for the host, and the request that waits for it.\<close>

definition dns_demo :: dns_proc where
  "dns_demo = \<lparr>dns_cache_ht = (\<lambda>_. []), rq_active = [], rq_inactive = 512, last_server = 1, rate_limit = 0, client_sock = 3, name_server1 = 1, name_server2 = 0,
     domain_name = [], dns_server_on = True, dns_rate_limit = 0, ip_host = [], force_restart = False, dns_trace = []\<rparr>"

definition dns_demo_env :: dns_env where
  "dns_demo_env = \<lparr>de_random = word_of_nat, de_port = 5, de_socket = 4, de_send = True, de_malloc = True, de_malloc_pkt = True\<rparr>"

definition ab_entry :: DnsCache where
  "ab_entry = (new_entry (wire_name host_ab))\<lparr>dc_ttl := 60, dc_flags := 0x8180, dc_type := 1, dc_ip := 10\<rparr>"

definition ab_request :: DnsReq where
  "ab_request = \<lparr>rq_ttl = 10, query_type = 1, client_port = 1000, client_ip = 5, client_tid = 7, new_tid = 9, server_ip = 1, rq_socket = 4, rq_port = 10005,
     query_name = [97, 46, 98]\<rparr>"

definition dns_demo_cached :: dns_proc where
  "dns_demo_cached = dns_demo\<lparr>dns_cache_ht := cache_add ab_entry (\<lambda>_. [])\<rparr>"

definition dns_demo_waiting :: dns_proc where
  "dns_demo_waiting = dns_demo\<lparr>rq_active := [ab_request], rq_inactive := 511\<rparr>"

definition ab_info :: DnsInfo where
  "ab_info = dns_junk\<lparr>dns_len := 37, dns_pkt_type := 1, dns_flags := 0x8180, dns_query_name := [1, 97, 1, 98], dns_query_type := 1, dns_type := 1, dns_class := 1,
     dns_ttl := 60, dns_address := 10\<rparr>"

definition ab_answer :: "u8 list" where
  "ab_answer = [0, 9, 0x81, 0x80, 0, 1, 0, 1, 0, 0, 0, 0, 1, 97, 1, 98, 0, 0, 1, 0, 1, 0xc0, 0x0c, 0, 1, 0, 1, 0, 0, 0, 60, 0, 4, 0, 0, 0, 10, 0]"

lemma host_ab_ok: "labels_ok host_ab" "wire_name host_ab = [1, 97, 1, 98]" "host_name host_ab = [97, 46, 98]"
  by (simp_all add: host_ab_def host_name_def)

lemma demo_oks: "dns_ok dns_demo" "dns_ok dns_demo_cached" "dns_ok dns_demo_waiting" "cached ab_entry (dns_cache_ht dns_demo_cached)" "random_ok dns_demo_env"
proof -
  show ok: "dns_ok dns_demo" "dns_ok dns_demo_waiting" by (simp_all add: dns_demo_def dns_demo_waiting_def ab_request_def dns_ok_def cache_ok_def)
  have "cache_ok (\<lambda>_. [])" by (simp add: cache_ok_def)
  moreover have "entry_ok ab_entry" by (simp add: entry_ok_def ab_entry_def new_entry_def)
  ultimately have "cache_ok (cache_add ab_entry (\<lambda>_. []))" by (intro cache_add_ok(1)) (simp_all add: cache_find_def)
  then show "dns_ok dns_demo_cached" by (simp add: dns_ok_def dns_demo_cached_def dns_demo_def)
  show "cached ab_entry (dns_cache_ht dns_demo_cached)" by (simp add: cached_def dns_demo_cached_def cache_add_def Let_def)
  have "range (word_of_nat :: nat \<Rightarrow> u16) = UNIV" by (metis surj_def word_nat_cases)
  then show "random_ok dns_demo_env" by (simp add: random_ok_def dns_demo_env_def card_word)
qed

lemma ab_answer_parsed: "dnspkt_verify ab_answer 37 dns_junk = (False, ab_info)"
  by (simp add: dns_packet_defs ab_answer_def ab_info_def dns_junk_def)

lemma ab_answers: "answers_request 1 ab_answer ab_info ab_request"
  by (simp add: answers_request_def ab_answer_def ab_info_def ab_request_def dns_junk_def dns_packet_defs dnspkt_get_real_name_def cstr_def)

section \<open>Witnesses\<close>


theorem dns_answer_relayed_witness:
  "\<exists>s' dc. rx_packet dns_demo_env 4 1 53 ab_answer 37 dns_junk dns_demo_waiting = Some s' \<and> rq_active s' = [] \<and>
    SToClient 5 1000 (take 37 (set_tid 7 ab_answer)) \<in> set (dns_trace s') \<and> cache_find [1, 97, 1, 98] 1 (dns_cache_ht s') = Some dc \<and> dc_ip dc = 10"
proof -
  have r: "ab_request \<in> set (rq_active dns_demo_waiting)" "rq_sock 4 (rq_active dns_demo_waiting)" by (simp_all add: dns_demo_waiting_def ab_request_def rq_sock_def)
  have s: "(1 :: u32) \<noteq> 0" "1 \<in> {name_server1 dns_demo_waiting, name_server2 dns_demo_waiting}" by (simp_all add: dns_demo_waiting_def dns_demo_def)
  have e: "de_send dns_demo_env" "de_malloc dns_demo_env" by (simp_all add: dns_demo_env_def)
  have f: "cache_find [1, 97, 1, 98] 1 (dns_cache_ht dns_demo_waiting) = None" by (simp add: cache_find_def dns_demo_waiting_def dns_demo_def)
  have k: "dns_error_code ab_info = 0" "10 \<le> dns_ttl ab_info" "dns_type ab_info = 1" "cstr (dns_query_name ab_info) = [1, 97, 1, 98]" "dns_query_type ab_info = 1"
    "dns_address ab_info = 10" "dns_len ab_info = 37" by (simp_all add: ab_info_def dns_junk_def cstr_def)
  have a: "client_ip ab_request = 5" "client_port ab_request = 1000" "client_tid ab_request = 7" "set (rq_active dns_demo_waiting) - {ab_request} = {}"
    by (simp_all add: ab_request_def dns_demo_waiting_def)
  show ?thesis using dns_answer_relayed [OF demo_oks(3) ab_answer_parsed s r(1) ab_answers r(2) e, of 53] k f a by auto
qed

lemma ab_rx: "\<exists>s'. rx_packet dns_demo_env 4 1 53 ab_answer 37 dns_junk dns_demo_waiting = Some s' \<and> dns_cache_ht s' \<noteq> dns_cache_ht dns_demo_waiting"
proof -
  have "dns_cache_ht (store_response dns_demo_env b ab_info t) \<noteq> dns_cache_ht t" if "dns_cache_ht t = (\<lambda>_. [])" for b t
    using that by (auto simp: store_response_def ab_info_def dns_junk_def cstr_def cache_find_def cache_entry_def dns_demo_env_def Let_def cache_add_def fun_eq_iff)
  moreover have "rq_find (read_16 ab_answer 0) (rq_active dns_demo_waiting) = Some 0" "rq_active dns_demo_waiting ! 0 = ab_request"
    by (simp_all add: rq_find_def dns_demo_waiting_def ab_request_def ab_answer_def read_16_def be16_def)
  ultimately show ?thesis using ab_answer_parsed ab_answers
    by (simp add: rx_packet_def Let_def process_server_def) (simp add: dns_demo_waiting_def dns_demo_def rq_release_def rq_sock_def ab_request_def dns_demo_env_def dns_emit_def)
qed

theorem dns_cache_only_by_answer_witness:
  "\<exists>s' k r. rx_packet dns_demo_env 4 1 53 ab_answer 37 dns_junk dns_demo_waiting = Some s' \<and> dnspkt_verify ab_answer 37 dns_junk = (False, k) \<and>
    r \<in> set (rq_active dns_demo_waiting) \<and> new_tid r = read_16 ab_answer 0 \<and> server_ip r = 1"
  using ab_rx dns_cache_only_by_answer [OF demo_oks(3), of dns_demo_env 4 1 53 ab_answer 37 dns_junk] by metis


theorem dns_entry_expires_witness:
  "\<exists>s'. dns_run (replicate 60 NTick) dns_demo_cached = Some s' \<and> cache_find [1, 97, 1, 98] 1 (dns_cache_ht s') = None"
proof -
  have "\<not> dc_static ab_entry" "dc_ttl ab_entry = 60" "dc_name ab_entry = [1, 97, 1, 98]" "dc_type ab_entry = 1" by (simp_all add: ab_entry_def new_entry_def host_ab_ok(2))
  then show ?thesis using dns_entry_expires [OF demo_oks(2,4), of 60] by simp
qed


theorem dns_name_roundtrip_witness: "static_name [97, 46, 98] = [1, 97, 1, 98] \<and> dnspkt_get_real_name [1, 97, 1, 98] = Some [97, 46, 98]"
proof -
  have "host_ab \<noteq> []" "list_all (\<lambda>l. 46 \<notin> set l) host_ab" by (simp_all add: host_ab_def)
  then show ?thesis using dns_name_roundtrip [OF host_ab_ok(1)] unfolding host_ab_ok(2,3) by metis
qed

end
