(* ===== verification/Spec2Isabelle.thy ===== *)
theory Spec2Isabelle
  imports Rip_Props Rip_ProcProps Crypt Ospf_Checksum Ospf_Spf Ospf_RouteProps Ospf_ConfigProps Ospf_DdProps Smem Cli_TreeProps Dhcp_OptProps Dns_Demo
begin

text \<open>
  A verification development for the RCP100 router (\<^verbatim>\<open>src/src\<close>), a set of cooperating processes that
  share a memory segment with the configuration and exchange messages through a multiplexer: the
  command line (\<^verbatim>\<open>cli\<close>), the routing protocols (\<^verbatim>\<open>rip\<close>, \<^verbatim>\<open>ospf\<close>), DHCP, DNS, access lists, monitoring, the
  web interface, and the library \<^verbatim>\<open>librcp\<close> linked into all of them. The development covers the two routing
  protocols, the DHCP server and relay, the DNS proxy, the tree of commands, and the parts of the library they rest on.

  \<^bold>\<open>Library.\<close> \<open>Prelude\<close>: machine integers, byte order, walks over linked lists (\<open>find_pos\<close>), and the
  locale \<open>step_system\<close> for invariants over sequences of events. \<open>Ip_Util\<close>: \<^verbatim>\<open>include/librcp_ip.h\<close>,
  \<^verbatim>\<open>include/librcp_route.h\<close> and the interface lookups of \<^verbatim>\<open>librcp/interface.c\<close>; printing and parsing are
  inverse to each other, and two functions do less than they promise. \<open>Md5\<close>: \<^verbatim>\<open>librcp/md5.c\<close>; feeding a
  message in pieces gives the RFC 1321 digest, which is defined independently. \<open>Crypt\<close>:
  \<^verbatim>\<open>librcp/crypt.c\<close>; a stored hash accepts its password. \<open>Smem\<close>: \<^verbatim>\<open>librcp/smem.c\<close>, the allocator of the shared
  memory with the countdown it writes into the cell of every chunk; the locale \<open>block_store\<close> is the contract of an
  allocator (blocks in use do not overlap), which holds for requests of up to 4080 bytes and not for 4096. \<open>Cli_Special\<close>, \<open>Cli_Tree\<close>: \<^verbatim>\<open>librcp/parser_special.c\<close>, \<^verbatim>\<open>parser_add.c\<close> and \<^verbatim>\<open>parser_find.c\<close>,
  the tree of commands and the checks of its special tokens. \<open>Cli_SpecialProps\<close>, \<open>Cli_TreeProps\<close>: the tree is a map from commands to modes, what is added is found
  again, abbreviations are resolved if they are unique, and words that reach the shell are clean.

  \<^bold>\<open>RIP.\<close> \<open>Rip_Db\<close>: \<^verbatim>\<open>rip/exec/rip_db.c\<close>, the hash table of routes with its timers, the programming of
  the kernel and the redistribution to OSPF, as a state record with an output trace. \<open>Rip_Inv\<close> proves
  the database invariant for every operation, \<open>Rip_Sync\<close> that the kernel table (the replayed trace)
  refines the database, \<open>Rip_Life\<close> and \<open>Rip_Props\<close> the life of a route, additions, split horizon and
  the response loop. \<open>Rip_Tx\<close>, \<open>Rip_Rx\<close>: \<^verbatim>\<open>rip_tx.c\<close>, \<^verbatim>\<open>rip_rx.c\<close>, packets as byte lists with MD5
  authentication; what is sent is received unchanged, unauthenticated packets have no effect.
  \<open>Rip_Proc\<close>, \<open>Rip_ProcInv\<close>, \<open>Rip_ProcProps\<close>: interfaces, commands and the main loop
  (\<^verbatim>\<open>rip_interface.c\<close>, \<^verbatim>\<open>callbacks.c\<close>, \<^verbatim>\<open>restart.c\<close>, \<^verbatim>\<open>main.c\<close>) as a step function over inputs, with the
  invariant of the whole process for every behaviour of its environment.

  \<^bold>\<open>OSPF database and routes.\<close> \<open>Ospf_Checksum\<close>: \<^verbatim>\<open>ospf/exec/checksum.c\<close>, one interface (locale \<open>checksum_code\<close>) for the
  packet and the LSA checksum. \<open>Ospf_Area\<close>: \<^verbatim>\<open>area.c\<close>, areas with networks and neighbours.
  \<open>Ospf_Lsdb\<close>: \<^verbatim>\<open>lsa_list.c\<close> and the database part of \<^verbatim>\<open>lsa.c\<close>, LSAs in an address store with lists and
  hash chains over it; lookups are exact in every reachable database. \<open>Ospf_Spf\<close>: \<^verbatim>\<open>lsa_pqueue.c\<close> and
  the Dijkstra part of \<^verbatim>\<open>spf.c\<close>; the queue implements the locale \<open>min_queue\<close>, the costs are shortest
  distances and the recorded parents lie on shortest paths. \<open>Ospf_Route\<close>, \<open>Ospf_RouteInv\<close>,
  \<open>Ospf_RouteProps\<close>: \<^verbatim>\<open>route.c\<close> and \<^verbatim>\<open>route_update.c\<close>, the Patricia tree of routes, its invariant, lookups,
  and three defects.

  \<^bold>\<open>OSPF adjacencies and configuration.\<close> \<open>Ospf_Types\<close>: the state of the process, with the areas, the configuration in the
  shared memory and a trace of what it asks other parts to do. \<open>Ospf_Nfsm\<close>: \<^verbatim>\<open>neighbor_fsm.c\<close> and \<^verbatim>\<open>lsa_header_list.c\<close>;
  \<open>Ospf_Adj\<close>: the election of \<^verbatim>\<open>drbdr.c\<close>, the states of a network (\<^verbatim>\<open>network_fsm.c\<close>) and the description packets of
  \<^verbatim>\<open>dbdesc.c\<close>; \<open>Ospf_Hello\<close>: \<^verbatim>\<open>hello.c\<close> and the timers. \<open>Ospf_AdjInv\<close> and \<open>Ospf_AdjSys\<close> prove that every event keeps the
  invariant of adjacencies, \<open>Ospf_Election\<close> that the election is that of RFC 2328, \<open>Ospf_DdProps\<close> that the exchange of
  descriptions is complete. \<open>Ospf_Config\<close>: \<^verbatim>\<open>shm.c\<close>, \<^verbatim>\<open>callbacks.c\<close>, \<^verbatim>\<open>interface.c\<close>, \<^verbatim>\<open>cleanup.c\<close> and \<^verbatim>\<open>restart.c\<close>;
  \<open>Ospf_ConfigInv\<close>, \<open>Ospf_ConfigSys\<close> and \<open>Ospf_ConfigProps\<close>: the configuration and the running areas agree after any sequence of packets,
  timeouts, commands and interface changes.

  \<^bold>\<open>DHCP.\<close> \<open>Dhcp_Lease\<close>: \<^verbatim>\<open>dhcp/exec/lease.c\<close>, the lease database with its three hash tables and its file; \<open>Dhcp_Server\<close>: \<^verbatim>\<open>dhcp_rx_server.c\<close>
  and the ping queue of \<^verbatim>\<open>icmp.c\<close>; \<open>Dhcp_Relay\<close>: \<^verbatim>\<open>dhcp_rx.c\<close> and \<^verbatim>\<open>dhcp_tx.c\<close>; \<open>Dhcp_Config\<close>: the commands and the step function of
  the process. \<open>Dhcp_LeaseInv\<close> and \<open>Dhcp_Sys\<close>: no address is leased twice after any sequence of events, leases expire, and the
  file is read back. \<open>Dhcp_Props\<close>: what is offered and acknowledged. \<open>Dhcp_OptProps\<close>: options and the relay.

  \<^bold>\<open>DNS.\<close> \<open>Dns_Pkt\<close>: \<^verbatim>\<open>dns/exec/dns_pkt.c\<close>, parsing and building packets; \<open>Dns_Proxy\<close>: the cache, the request queue, the handlers of
  queries and responses, the commands and the step function. \<open>Dns_Inv\<close> and \<open>Dns_Props\<close>: the invariant of the process, only
  matching answers change the cache, and cached answers parse back to the entry. \<open>Dns_Life\<close>: relayed answers, expiry, and the static hosts;
  \<open>Dns_Demo\<close>: what the proxy does not get right, and examples.

  \<^bold>\<open>Interfaces.\<close> \<open>step_system\<close> is interpreted for the RIP database and process, the OSPF process and its routing table, the DHCP
  process and the DNS proxy; \<open>checksum_code\<close> for both checksums; \<open>min_queue\<close> for the queue of \<^verbatim>\<open>lsa_pqueue.c\<close>; \<open>route_programmer\<close> and
  \<open>rip_closed\<close> for the operations of the RIP database; \<open>block_store\<close> for the allocator.

  \<^bold>\<open>Conventions.\<close> C structs are records, enumerations are datatypes or constants of the width of the
  field, \<open>uint32_t\<close> and the like are words. Pointers into linked lists are positions, pointers to LSAs
  are addresses of a store, pointers into the Patricia tree are paths. System calls, the clock and
  random numbers are fields of an environment record that the theorems quantify over. A failed
  \<open>ASSERT\<close> prints and continues; where it matters the model records it in the trace.

  \<^bold>\<open>Loops.\<close> Nearly all loops are total functions: structural recursion over the chain or the packet, or a
  termination proof (the carry folding of the checksum, the garbage collection of a RIP chain, the
  Dijkstra loop, whose measure counts LSAs not yet visited, the search for free chunks, the walk over DHCP options, the labels
  of a DNS name). Counters are the bounds the
  source itself has (31 bits in \<open>split_loop\<close>, four routes in \<open>clear_loop\<close>) or the number of elements of the list that the
  loop empties (\<open>kill_loop\<close>, \<open>neighbor_loop\<close>, \<open>clear_networks\<close>), which is enough as every round removes or passes one. Two loops may run forever and are partial: the search
  for a free address (\<open>scan_free\<close>), which returns unless the range reaches the last address, and the search for a free transaction id
  (\<open>get_new_tid\<close>), which returns if the random numbers take more than 512 values.

  \<^bold>\<open>Not modelled.\<close> Of OSPF: headers, authentication and sockets, link state updates, acknowledgements and requests on the
  receiving side, flooding, the origination and ageing of LSAs, next hops and the translation of the shortest path tree into routes. Of DHCP and DNS: sockets and raw packets,
  the start and restart of the process. Of the library: the output modifiers, help and error texts of the command tree, process control, the multiplexer and logging, which consist mostly of
  system calls. The other processes (command line, access lists, web interface, monitoring, services) mostly call system programs or print, and are not
  modelled, nor are the vendored programs under \<^verbatim>\<open>system\<close>. Commands that only show or debug, and logging calls, have no effect on the modelled
  state and are left out.
\<close>

end
